(* ===== verification/Prelude.thy ===== *)
theory Prelude
  imports Main "HOL-Library.Word"
begin

text \<open>
  Shared vocabulary of the development: the fixed-width integers of the C++ sources, the
  result type in which every crash, hang and undefined behaviour of the sources is a value,
  byte-buffer slices and overwrites, and the little-endian 16-bit encoding that the packet
  header relies on. The collections \<open>res_simps\<close>, \<open>buffer_simps\<close> and \<open>inv_defs\<close> gather
  the facts the component theories pass to the simplifier.
\<close>

named_theorems res_simps \<open>evaluation of results\<close>
named_theorems buffer_simps \<open>slices and overwrites of byte buffers\<close>
named_theorems inv_defs \<open>definitions of the component invariants\<close>

section \<open>Machine types\<close>

type_synonym byte = "8 word"
type_synonym u16 = "16 word"
type_synonym u32 = "32 word"
type_synonym u64 = "64 word"
type_synonym wchar = "16 word"
type_synonym utf8 = "byte list"
type_synonym wstr = "wchar list"

definition INT32_MAX :: int where
  "INT32_MAX = 2147483647"

definition INT32_MIN :: int where
  "INT32_MIN = - 2147483648"

definition fits_int32 :: "int \<Rightarrow> bool" where
  "fits_int32 x \<longleftrightarrow> INT32_MIN \<le> x \<and> x \<le> INT32_MAX"

section \<open>Results: crashes, hangs and undefined behaviour as values\<close>

text \<open>
  \<open>CrashAssert\<close> is the deliberate null write of the macros \<open>CRASH\<close> and \<open>ASSERT_CRASH\<close>,
  \<open>NullDeref\<close> a use of a null pointer the code does not test, \<open>BadCall\<close> the call of an empty
  \<open>std::function\<close>, \<open>OutOfBounds\<close> an access outside an array, \<open>Overlap\<close> a \<open>memcpy\<close> between
  overlapping regions, \<open>NoReturn\<close> a non-void function that runs off its end, and \<open>Hang\<close> a loop
  that never exits.
\<close>

datatype fault = CrashAssert | NullDeref | BadCall | OutOfBounds | Overlap | NoReturn | Hang

type_synonym 'a res = "fault + 'a"

definition bindR :: "'a res \<Rightarrow> ('a \<Rightarrow> 'b res) \<Rightarrow> 'b res" where
  "bindR m f = (case m of Inl e \<Rightarrow> Inl e | Inr x \<Rightarrow> f x)"

definition CRASH :: "'a res" where
  "CRASH = Inl CrashAssert"

definition ASSERT_CRASH :: "bool \<Rightarrow> 'a res \<Rightarrow> 'a res" where
  "ASSERT_CRASH e k = (if \<not> e then CRASH else k)"

lemma bindR_simps [simp, res_simps]:
  "bindR (Inl e) f = Inl e"
  "bindR (Inr x) f = f x"
  by (simp_all add: bindR_def)

lemma bindR_assoc: "bindR (bindR m f) g = bindR m (\<lambda>x. bindR (f x) g)"
  by (cases m) simp_all

lemma bindR_Inr_iff: "bindR m f = Inr y \<longleftrightarrow> (\<exists>x. m = Inr x \<and> f x = Inr y)"
  by (cases m) auto

lemma bindR_InrE [elim]:
  assumes "bindR m f = Inr y"
  obtains x where "m = Inr x" "f x = Inr y"
  using assms by (auto simp: bindR_Inr_iff)

lemma bindR_cong [fundef_cong]:
  "m = m' \<Longrightarrow> (\<And>x. m' = Inr x \<Longrightarrow> f x = f' x) \<Longrightarrow> bindR m f = bindR m' f'"
  by (cases m') auto

lemma ASSERT_CRASH_simps [simp, res_simps]:
  "ASSERT_CRASH True k = k"
  "ASSERT_CRASH False k = Inl CrashAssert"
  by (simp_all add: ASSERT_CRASH_def CRASH_def)

lemma ASSERT_CRASH_Inr_iff: "ASSERT_CRASH e k = Inr y \<longleftrightarrow> e \<and> k = Inr y"
  by (cases e) simp_all

section \<open>Lists with unique keys\<close>

lemma filter_unique:
  assumes "distinct (map f xs)" "x \<in> set xs"
  shows "filter (\<lambda>y. f y = f x) xs = [x]"
  using assms
proof (induction xs)
  case (Cons y xs)
  then show ?case by (cases "y = x") (auto simp: filter_empty_conv rev_image_eqI)
qed simp

section \<open>Byte buffers\<close>

definition bslice :: "nat \<Rightarrow> nat \<Rightarrow> 'a list \<Rightarrow> 'a list" where
  "bslice i n xs = take n (drop i xs)"

definition overwrite :: "nat \<Rightarrow> 'a list \<Rightarrow> 'a list \<Rightarrow> 'a list" where
  "overwrite i ys xs = take i xs @ ys @ drop (i + length ys) xs"

lemma length_bslice [simp, buffer_simps]: "length (bslice i n xs) = min n (length xs - i)"
  by (simp add: bslice_def)

lemma length_overwrite [simp, buffer_simps]:
  "i + length ys \<le> length xs \<Longrightarrow> length (overwrite i ys xs) = length xs"
  by (simp add: overwrite_def)

lemma bslice_zero [simp, buffer_simps]: "bslice i 0 xs = []"
  by (simp add: bslice_def)

lemma bslice_overwrite_same [buffer_simps]:
  "i + length ys \<le> length xs \<Longrightarrow> n = length ys \<Longrightarrow> bslice i n (overwrite i ys xs) = ys"
  by (simp add: bslice_def overwrite_def)

lemma bslice_overwrite_below [buffer_simps]:
  "i + length ys \<le> length xs \<Longrightarrow> j + n \<le> i \<Longrightarrow> bslice j n (overwrite i ys xs) = bslice j n xs"
  by (simp add: bslice_def overwrite_def drop_take min_absorb2)

lemma bslice_overwrite_above [buffer_simps]:
  assumes "i + length ys \<le> length xs" "i + length ys \<le> j"
  shows "bslice j n (overwrite i ys xs) = bslice j n xs"
proof -
  have "drop (i + length ys + (j - (i + length ys))) xs = drop j xs"
    using assms by simp
  then show ?thesis
    using assms by (simp add: bslice_def overwrite_def add.commute)
qed

lemma bslice_append:
  "bslice i m xs @ bslice (i + m) n xs = bslice i (m + n) xs"
  by (simp add: bslice_def take_add add.commute)

lemma drop_bslice: "k \<le> n \<Longrightarrow> drop k (bslice i n xs) = bslice (i + k) (n - k) xs"
  by (simp add: bslice_def drop_take add.commute)

section \<open>Little-endian 16-bit fields\<close>

definition le16 :: "u16 \<Rightarrow> byte list" where
  "le16 w = [ucast w, ucast (drop_bit 8 w)]"

definition rd16 :: "byte \<Rightarrow> byte \<Rightarrow> u16" where
  "rd16 lo hi = of_nat (unat lo + 256 * unat hi)"

lemma length_le16 [simp]: "length (le16 w) = 2"
  by (simp add: le16_def)

lemma unat_lo: "unat (ucast (w :: u16) :: byte) = unat w mod 256"
  by (simp add: unsigned_ucast_eq take_bit_eq_mod)

lemma unat_hi: "unat (ucast (drop_bit 8 (w :: u16)) :: byte) = unat w div 256"
proof -
  have "unat w < 2 ^ 16" using unsigned_less [of w, where ?'a = nat] by simp
  then have "unat w div 256 < 256" by simp
  then show ?thesis
    by (simp add: unsigned_ucast_eq take_bit_eq_mod unat_drop_bit_eq drop_bit_eq_div unat_div)
qed

lemma rd16_le16: "rd16 (le16 w ! 0) (le16 w ! 1) = w"
proof -
  have "unat w mod 256 + 256 * (unat w div 256) = unat w" by simp
  then have "word_of_nat (unat w mod 256 + 256 * (unat w div 256)) = w"
    by (simp only: of_nat_unat ucast_id)
  then show ?thesis
    by (simp only: rd16_def le16_def unat_lo [of w] unat_hi nth_Cons_0 nth_Cons_Suc One_nat_def)
qed

end
