(* ===== verification/RWLock.thy ===== *)
theory RWLock
  imports Prelude
begin

text \<open>
  The recursive reader-writer spin lock (\<open>ServerCore/Lock.h\<close>, \<open>ServerCore/Lock.cpp\<close>), in the release
  build. Every atomic access is one step; a thread's program counter says which access of which
  method it makes next. The guards \<open>ReadLockGuard\<close> and \<open>WriteLockGuard\<close> a thread has constructed form
  a stack, since C++ destroys them in reverse order.

  The theory shows that the lock excludes: while a thread holds a write guard, no other thread
  holds any guard; and that none of the \<open>CRASH\<close> branches of the unlock methods can be reached.
\<close>

section \<open>State and methods\<close>

text \<open>
  The states of \<open>ELockState\<close>: -1 while a writer holds the lock, 0 when it is free, otherwise the
  number of read guards. The owner is -1 when there is none.
\<close>

definition WRITE_STATE :: int where
  "WRITE_STATE = -1"

definition NOTTING_STATE :: int where
  "NOTTING_STATE = 0"

record rwlock =
  lk_writerPending :: u16
  lk_writeRecursion :: u16
  lk_lockState :: int
  lk_ownerThreadId :: int

definition Lock_new :: rwlock where
  "Lock_new = \<lparr>lk_writerPending = 0, lk_writeRecursion = 0, lk_lockState = NOTTING_STATE,
     lk_ownerThreadId = -1\<rparr>"

datatype lock_pc =
    Out
  | WL_Owner | WL_Recurse | WL_Pend | WL_Cas | WL_SetOwner | WL_SetRecursion | WL_Unpend
  | WU_Owner | WU_Sub | WU_ClearOwner | WU_Release
  | RL_Owner | RL_Pending | RL_Load | RL_Cas int
  | RU_Owner | RU_Sub
  | Returned
  | Crashed

text \<open>The next access of each method, with the new program counter. Spinning is staying at the counter.\<close>

fun WriteLock :: "nat \<Rightarrow> lock_pc \<Rightarrow> rwlock \<Rightarrow> lock_pc \<times> rwlock" where
  "WriteLock t WL_Owner lk = (if lk_ownerThreadId lk = int t then WL_Recurse else WL_Pend, lk)"
| "WriteLock t WL_Recurse lk = (Returned, lk\<lparr>lk_writeRecursion := lk_writeRecursion lk + 1\<rparr>)"
| "WriteLock t WL_Pend lk = (WL_Cas, lk\<lparr>lk_writerPending := lk_writerPending lk + 1\<rparr>)"
| "WriteLock t WL_Cas lk =
     (if lk_lockState lk = NOTTING_STATE then (WL_SetOwner, lk\<lparr>lk_lockState := WRITE_STATE\<rparr>)
      else (WL_Cas, lk))"
| "WriteLock t WL_SetOwner lk = (WL_SetRecursion, lk\<lparr>lk_ownerThreadId := int t\<rparr>)"
| "WriteLock t WL_SetRecursion lk = (WL_Unpend, lk\<lparr>lk_writeRecursion := 1\<rparr>)"
| "WriteLock t WL_Unpend lk = (Returned, lk\<lparr>lk_writerPending := lk_writerPending lk - 1\<rparr>)"
| "WriteLock t pc lk = (pc, lk)"

fun WriteUnLock :: "nat \<Rightarrow> lock_pc \<Rightarrow> rwlock \<Rightarrow> lock_pc \<times> rwlock" where
  "WriteUnLock t WU_Owner lk = (if lk_ownerThreadId lk \<noteq> int t then Crashed else WU_Sub, lk)"
| "WriteUnLock t WU_Sub lk =
     (let prev = lk_writeRecursion lk in
      (if prev = 0 then Crashed else if prev = 1 then WU_ClearOwner else Returned,
       lk\<lparr>lk_writeRecursion := prev - 1\<rparr>))"
| "WriteUnLock t WU_ClearOwner lk = (WU_Release, lk\<lparr>lk_ownerThreadId := -1\<rparr>)"
| "WriteUnLock t WU_Release lk = (Returned, lk\<lparr>lk_lockState := NOTTING_STATE\<rparr>)"
| "WriteUnLock t pc lk = (pc, lk)"

fun ReadLock :: "nat \<Rightarrow> lock_pc \<Rightarrow> rwlock \<Rightarrow> lock_pc \<times> rwlock" where
  "ReadLock t RL_Owner lk = (if lk_ownerThreadId lk = int t then Returned else RL_Pending, lk)"
| "ReadLock t RL_Pending lk = (if lk_writerPending lk > 0 then RL_Pending else RL_Load, lk)"
| "ReadLock t RL_Load lk =
     (if lk_lockState lk = WRITE_STATE then RL_Pending else RL_Cas (lk_lockState lk), lk)"
| "ReadLock t (RL_Cas expected) lk =
     (if lk_lockState lk = expected then (Returned, lk\<lparr>lk_lockState := expected + 1\<rparr>)
      else (RL_Pending, lk))"
| "ReadLock t pc lk = (pc, lk)"

fun ReadUnLock :: "nat \<Rightarrow> lock_pc \<Rightarrow> rwlock \<Rightarrow> lock_pc \<times> rwlock" where
  "ReadUnLock t RU_Owner lk = (if lk_ownerThreadId lk \<noteq> int t then RU_Sub else Returned, lk)"
| "ReadUnLock t RU_Sub lk =
     (if lk_lockState lk \<le> 0 then Crashed else Returned, lk\<lparr>lk_lockState := lk_lockState lk - 1\<rparr>)"
| "ReadUnLock t pc lk = (pc, lk)"

datatype lock_method = MWriteLock | MWriteUnLock | MReadLock | MReadUnLock

fun method_of :: "lock_pc \<Rightarrow> lock_method option" where
  "method_of Out = None"
| "method_of Returned = None"
| "method_of Crashed = None"
| "method_of (RL_Cas _) = Some MReadLock"
| "method_of pc =
     Some (if pc \<in> {RL_Owner, RL_Pending, RL_Load} then MReadLock
           else if pc \<in> {RU_Owner, RU_Sub} then MReadUnLock
           else if pc \<in> {WU_Owner, WU_Sub, WU_ClearOwner, WU_Release} then MWriteUnLock
           else MWriteLock)"

fun lock_access :: "lock_method \<Rightarrow> nat \<Rightarrow> lock_pc \<Rightarrow> rwlock \<Rightarrow> lock_pc \<times> rwlock" where
  "lock_access MWriteLock = WriteLock"
| "lock_access MWriteUnLock = WriteUnLock"
| "lock_access MReadLock = ReadLock"
| "lock_access MReadUnLock = ReadUnLock"

section \<open>Threads and guards\<close>

datatype guard = WriteGuard | ReadGuard

text \<open>What the return of a method does to the stack of guards: construction pushes, destruction pops.\<close>

fun returned_stack :: "lock_method \<Rightarrow> guard list \<Rightarrow> guard list" where
  "returned_stack MWriteLock gs = WriteGuard # gs"
| "returned_stack MReadLock gs = ReadGuard # gs"
| "returned_stack MWriteUnLock gs = tl gs"
| "returned_stack MReadUnLock gs = tl gs"

fun unlock_pc :: "guard \<Rightarrow> lock_pc" where
  "unlock_pc WriteGuard = WU_Owner"
| "unlock_pc ReadGuard = RU_Owner"

record lock_sys =
  ls_lock :: rwlock
  ls_pc :: "nat \<Rightarrow> lock_pc"
  ls_guards :: "nat \<Rightarrow> guard list"

definition lock_init :: lock_sys where
  "lock_init = \<lparr>ls_lock = Lock_new, ls_pc = (\<lambda>_. Out), ls_guards = (\<lambda>_. [])\<rparr>"

text \<open>
  The threads are the elements of \<open>T\<close>. A thread that is outside the methods may construct a guard or
  destroy its innermost one; the nesting of guards is bounded by the call stack, here by 65535.
\<close>

inductive lock_step :: "nat set \<Rightarrow> lock_sys \<Rightarrow> lock_sys \<Rightarrow> bool" for T where
  write_guard: "\<lbrakk>t \<in> T; ls_pc y t = Out; length (ls_guards y t) < 65535\<rbrakk> \<Longrightarrow>
    lock_step T y (y\<lparr>ls_pc := (ls_pc y)(t := WL_Owner)\<rparr>)"
| read_guard: "\<lbrakk>t \<in> T; ls_pc y t = Out; length (ls_guards y t) < 65535\<rbrakk> \<Longrightarrow>
    lock_step T y (y\<lparr>ls_pc := (ls_pc y)(t := RL_Owner)\<rparr>)"
| destroy: "\<lbrakk>t \<in> T; ls_pc y t = Out; ls_guards y t = g # gs\<rbrakk> \<Longrightarrow>
    lock_step T y (y\<lparr>ls_pc := (ls_pc y)(t := unlock_pc g)\<rparr>)"
| run: "\<lbrakk>t \<in> T; method_of (ls_pc y t) = Some m; lock_access m t (ls_pc y t) (ls_lock y) = (pc', lk');
     pc' \<noteq> Returned\<rbrakk> \<Longrightarrow>
    lock_step T y (y\<lparr>ls_lock := lk', ls_pc := (ls_pc y)(t := pc')\<rparr>)"
| return: "\<lbrakk>t \<in> T; method_of (ls_pc y t) = Some m;
     lock_access m t (ls_pc y t) (ls_lock y) = (Returned, lk')\<rbrakk> \<Longrightarrow>
    lock_step T y (y\<lparr>ls_lock := lk', ls_pc := (ls_pc y)(t := Out),
      ls_guards := (ls_guards y)(t := returned_stack m (ls_guards y t))\<rparr>)"

section \<open>The invariant\<close>

text \<open>A thread that does not hold the lock for writing: it holds read guards only.\<close>

fun reader_pc :: "lock_pc \<Rightarrow> guard list \<Rightarrow> bool" where
  "reader_pc (RL_Cas e) gs \<longleftrightarrow> 0 \<le> e"
| "reader_pc pc gs \<longleftrightarrow> pc \<in> {Out, WL_Owner, WL_Pend, WL_Cas, RL_Owner, RL_Pending, RL_Load} \<or>
     pc \<in> {RU_Owner, RU_Sub} \<and> gs \<noteq> []"

definition reader_ok :: "lock_pc \<Rightarrow> guard list \<Rightarrow> bool" where
  "reader_ok pc gs \<longleftrightarrow> reader_pc pc gs \<and> set gs \<subseteq> {ReadGuard}"

text \<open>The thread that holds it for writing: the outermost guard is a write guard.\<close>

definition writer_stack :: "guard list \<Rightarrow> bool" where
  "writer_stack gs \<longleftrightarrow> gs \<noteq> [] \<and> last gs = WriteGuard \<and> length gs \<le> 65535"

definition write_depth :: "guard list \<Rightarrow> nat" where
  "write_depth gs = count_list gs WriteGuard"

fun writer_pc :: "nat \<Rightarrow> lock_pc \<Rightarrow> guard list \<Rightarrow> rwlock \<Rightarrow> bool" where
  "writer_pc t WL_SetOwner gs lk \<longleftrightarrow> gs = [] \<and> lk_ownerThreadId lk = -1"
| "writer_pc t WL_SetRecursion gs lk \<longleftrightarrow> gs = [] \<and> lk_ownerThreadId lk = int t"
| "writer_pc t WL_Unpend gs lk \<longleftrightarrow> gs = [] \<and> lk_ownerThreadId lk = int t \<and> lk_writeRecursion lk = 1"
| "writer_pc t WU_ClearOwner gs lk \<longleftrightarrow> gs = [WriteGuard] \<and> lk_ownerThreadId lk = int t"
| "writer_pc t WU_Release gs lk \<longleftrightarrow> gs = [WriteGuard] \<and> lk_ownerThreadId lk = -1"
| "writer_pc t pc gs lk \<longleftrightarrow>
     writer_stack gs \<and> lk_ownerThreadId lk = int t \<and> unat (lk_writeRecursion lk) = write_depth gs \<and>
     (pc = Out \<or>
      pc \<in> {WL_Owner, WL_Recurse, RL_Owner} \<and> length gs < 65535 \<or>
      pc \<in> {WU_Owner, WU_Sub} \<and> hd gs = WriteGuard \<or>
      pc = RU_Owner \<and> hd gs = ReadGuard)"

text \<open>\<open>lock_phase (Some w)\<close>: thread \<open>w\<close> holds the lock for writing; \<open>lock_phase None\<close>: nobody does.\<close>

fun lock_phase :: "nat set \<Rightarrow> nat option \<Rightarrow> lock_sys \<Rightarrow> bool" where
  "lock_phase T None y \<longleftrightarrow>
     lk_ownerThreadId (ls_lock y) = -1 \<and>
     (\<forall>t \<in> T. reader_ok (ls_pc y t) (ls_guards y t)) \<and>
     lk_lockState (ls_lock y) = (\<Sum>t\<in>T. int (length (ls_guards y t)))"
| "lock_phase T (Some w) y \<longleftrightarrow>
     w \<in> T \<and> lk_lockState (ls_lock y) = -1 \<and> writer_pc w (ls_pc y w) (ls_guards y w) (ls_lock y) \<and>
     (\<forall>t \<in> T - {w}. reader_ok (ls_pc y t) [] \<and> ls_guards y t = [])"

definition lock_inv :: "nat set \<Rightarrow> lock_sys \<Rightarrow> bool" where
  [inv_defs]: "lock_inv T y \<longleftrightarrow> (\<exists>w. lock_phase T w y)"

lemma lock_inv_init: "lock_inv T lock_init"
  unfolding lock_inv_def
  by (rule exI [of _ None]) (simp add: lock_init_def Lock_new_def NOTTING_STATE_def reader_ok_def)

lemma sum_guards_upd:
  assumes "finite T" "t \<in> T"
  shows "(\<Sum>u\<in>T. int (length ((g(t := gs)) u))) = (\<Sum>u\<in>T. int (length (g u))) - int (length (g t)) + int (length gs)"
proof -
  have "(\<Sum>u\<in>T - {t}. int (length ((g(t := gs)) u))) = (\<Sum>u\<in>T - {t}. int (length (g u)))"
    by (rule sum.cong) simp_all
  then show ?thesis
    using sum.remove [OF assms, of "\<lambda>u. int (length ((g(t := gs)) u))"]
      sum.remove [OF assms, of "\<lambda>u. int (length (g u))"] by simp
qed

lemma sum_guards_le:
  assumes "finite T" "t \<in> T"
  shows "int (length (g t :: guard list)) \<le> (\<Sum>u\<in>T. int (length (g u)))"
  using assms by (intro member_le_sum) simp_all

text \<open>An access by a thread that is not the writer, whoever else holds the lock.\<close>

lemma reader_access:
  assumes "reader_ok pc gs" "lk_ownerThreadId lk \<noteq> int t" "method_of pc = Some m"
    and "lock_access m t pc lk = (pc', lk')" and "0 \<le> lk_lockState lk \<or> lk_lockState lk = -1"
    and "gs \<noteq> [] \<Longrightarrow> 0 < lk_lockState lk"
  shows "lk_ownerThreadId lk' = lk_ownerThreadId lk \<and> lk_writeRecursion lk' = lk_writeRecursion lk \<and>
    (pc' \<noteq> Returned \<and> reader_ok pc' gs \<and> lk_lockState lk' = lk_lockState lk \<or>
     pc' = Returned \<and> m = MReadLock \<and> 0 \<le> lk_lockState lk \<and> lk_lockState lk' = lk_lockState lk + 1 \<or>
     pc' = Returned \<and> m = MReadUnLock \<and> gs \<noteq> [] \<and> lk_lockState lk' = lk_lockState lk - 1 \<or>
     pc' = WL_SetOwner \<and> lk_lockState lk = 0 \<and> gs = [] \<and> lk_lockState lk' = -1)"
  using assms
  by (cases pc)
    (auto simp: reader_ok_def WRITE_STATE_def NOTTING_STATE_def split: if_splits)

text \<open>An access by the writer.\<close>

lemma write_depth_bound: "write_depth gs \<le> length gs"
  by (simp add: write_depth_def count_le_length)

lemma write_depth_simps [simp]:
  "write_depth (WriteGuard # gs) = Suc (write_depth gs)" "write_depth (ReadGuard # gs) = write_depth gs"
  "write_depth [] = 0"
  by (simp_all add: write_depth_def)

lemma writer_stack_depth: "writer_stack gs \<Longrightarrow> 0 < write_depth gs"
  unfolding writer_stack_def write_depth_def by (metis count_list_0_iff gr0I last_in_set)

lemma writer_stack_push: "writer_stack gs \<Longrightarrow> length gs < 65535 \<Longrightarrow> writer_stack (g # gs)"
  by (simp add: writer_stack_def)

lemma writer_stack_pop:
  assumes "writer_stack gs" "hd gs = WriteGuard \<longrightarrow> write_depth gs \<noteq> 1"
  shows "writer_stack (tl gs)" "write_depth (tl gs) = (if hd gs = WriteGuard then write_depth gs - 1 else write_depth gs)"
proof -
  obtain g gs' where gs: "gs = g # gs'" using assms(1) by (cases gs) (auto simp: writer_stack_def)
  then show "write_depth (tl gs) = (if hd gs = WriteGuard then write_depth gs - 1 else write_depth gs)"
    by (cases g) simp_all
  have "gs' \<noteq> []" using assms unfolding gs by (auto simp: writer_stack_def)
  then show "writer_stack (tl gs)" using assms(1) unfolding gs by (simp add: writer_stack_def)
qed

lemma writer_stack_single:
  assumes "writer_stack gs" "hd gs = WriteGuard" "write_depth gs = 1"
  shows "gs = [WriteGuard]"
  using assms writer_stack_depth [of "tl gs"]
  by (cases gs) (auto simp: writer_stack_def split: if_splits)

lemma unat_recursion_inc: "unat (w :: u16) < 65535 \<Longrightarrow> unat (w + 1) = unat w + 1"
  by (simp add: unat_plus_if')

lemma unat_recursion_dec: "w \<noteq> 0 \<Longrightarrow> unat ((w :: u16) - 1) = unat w - 1"
  using unat_minus_one by blast

lemma writer_enters:
  assumes "writer_pc t WL_Recurse gs lk"
  shows "writer_pc t Out (WriteGuard # gs) (lk\<lparr>lk_writeRecursion := lk_writeRecursion lk + 1\<rparr>)"
proof -
  have "unat (lk_writeRecursion lk) < 65535"
    using assms write_depth_bound [of gs] by simp
  then show ?thesis
    using assms unat_recursion_inc [of "lk_writeRecursion lk"] by (simp add: writer_stack_push)
qed

lemma writer_leaves:
  assumes "writer_pc t WU_Sub gs lk"
  shows "lk_writeRecursion lk \<noteq> 0"
    "lk_writeRecursion lk = 1 \<Longrightarrow> gs = [WriteGuard]"
    "lk_writeRecursion lk \<noteq> 1 \<Longrightarrow>
       writer_pc t Out (tl gs) (lk\<lparr>lk_writeRecursion := lk_writeRecursion lk - 1\<rparr>)"
proof -
  have w: "writer_stack gs" "unat (lk_writeRecursion lk) = write_depth gs" "hd gs = WriteGuard"
    "lk_ownerThreadId lk = int t"
    using assms by simp_all
  show nz: "lk_writeRecursion lk \<noteq> 0"
    using writer_stack_depth [OF w(1)] w(2) by auto
  show "gs = [WriteGuard]" if "lk_writeRecursion lk = 1"
    using that w by (intro writer_stack_single) simp_all
  show "writer_pc t Out (tl gs) (lk\<lparr>lk_writeRecursion := lk_writeRecursion lk - 1\<rparr>)"
    if "lk_writeRecursion lk \<noteq> 1"
  proof -
    have "write_depth gs \<noteq> 1"
      using that w(2) by (metis unat_1 word_unat_eq_iff)
    then show ?thesis
      using w writer_stack_pop [OF w(1)] unat_recursion_dec [OF nz] by simp
  qed
qed

lemma writer_access:
  assumes "writer_pc t pc gs lk" "method_of pc = Some m" "lock_access m t pc lk = (pc', lk')"
  shows "pc' \<noteq> Returned \<and> writer_pc t pc' gs lk' \<and> lk_lockState lk' = lk_lockState lk \<or>
    pc' = Returned \<and> writer_pc t Out (returned_stack m gs) lk' \<and> lk_lockState lk' = lk_lockState lk \<or>
    pc' = Returned \<and> returned_stack m gs = [] \<and> lk_ownerThreadId lk' = -1 \<and> lk_lockState lk' = 0"
proof (cases pc)
  case WL_Recurse
  then show ?thesis using assms writer_enters [of t gs lk] by auto
next
  case WU_Sub
  then show ?thesis using assms writer_leaves [of t gs lk] by (auto simp: Let_def split: if_splits)
next
  case RU_Owner
  then show ?thesis
    using assms writer_stack_pop [of gs] by auto
next
  case RL_Owner
  then show ?thesis
    using assms by (auto simp: writer_stack_push)
next
  case WL_Unpend
  then show ?thesis
    using assms by (auto simp: writer_stack_def)
qed (use assms in \<open>auto simp: NOTTING_STATE_def\<close>)

lemma writer_pc_start:
  assumes "writer_pc t Out gs lk"
  shows "length gs < 65535 \<Longrightarrow> writer_pc t WL_Owner gs lk" "length gs < 65535 \<Longrightarrow> writer_pc t RL_Owner gs lk"
    "gs = g # gs' \<Longrightarrow> writer_pc t (unlock_pc g) gs lk"
  using assms by (cases g; simp)+

lemma reader_ok_start:
  assumes "reader_ok Out gs"
  shows "reader_ok WL_Owner gs" "reader_ok RL_Owner gs" "gs = g # gs' \<Longrightarrow> reader_ok (unlock_pc g) gs"
  using assms by (cases g; simp add: reader_ok_def)+

text \<open>Starting a method changes the program counter only.\<close>

lemma lock_phase_start:
  assumes "lock_phase T w y" "t \<in> T"
    and "\<And>gs lk. writer_pc t (ls_pc y t) gs lk \<Longrightarrow> gs = ls_guards y t \<Longrightarrow> writer_pc t pc' gs lk"
    and "reader_ok (ls_pc y t) (ls_guards y t) \<Longrightarrow> reader_ok pc' (ls_guards y t)"
  shows "lock_phase T w (y\<lparr>ls_pc := (ls_pc y)(t := pc')\<rparr>)"
  using assms by (cases w) auto

lemma writer_owner: "writer_pc u pc gs lk \<Longrightarrow> lk_ownerThreadId lk = -1 \<or> lk_ownerThreadId lk = int u"
  by (cases pc) auto

lemma writer_pc_cong:
  assumes "writer_pc u pc gs lk" "lk_ownerThreadId lk' = lk_ownerThreadId lk"
    "lk_writeRecursion lk' = lk_writeRecursion lk"
  shows "writer_pc u pc gs lk'"
  using assms by (cases pc) simp_all

text \<open>The two outcomes of an access as one state change.\<close>

definition lock_after :: "nat \<Rightarrow> lock_method \<Rightarrow> lock_pc \<Rightarrow> rwlock \<Rightarrow> lock_sys \<Rightarrow> lock_sys" where
  "lock_after t m pc' lk' y =
     (if pc' = Returned
      then y\<lparr>ls_lock := lk', ls_pc := (ls_pc y)(t := Out),
             ls_guards := (ls_guards y)(t := returned_stack m (ls_guards y t))\<rparr>
      else y\<lparr>ls_lock := lk', ls_pc := (ls_pc y)(t := pc')\<rparr>)"

lemma lock_after_writer:
  assumes "lock_phase T (Some t) y" "finite T" "method_of (ls_pc y t) = Some m"
    and acc: "lock_access m t (ls_pc y t) (ls_lock y) = (pc', lk')"
  shows "\<exists>w. lock_phase T w (lock_after t m pc' lk' y)"
proof -
  from writer_access [OF _ assms(3) acc, of "ls_guards y t"] assms(1)
  consider "pc' \<noteq> Returned" "writer_pc t pc' (ls_guards y t) lk'" "lk_lockState lk' = -1"
    | "pc' = Returned" "writer_pc t Out (returned_stack m (ls_guards y t)) lk'" "lk_lockState lk' = -1"
    | "pc' = Returned" "returned_stack m (ls_guards y t) = []" "lk_ownerThreadId lk' = -1" "lk_lockState lk' = 0"
    by auto
  then show ?thesis
  proof cases
    case 1
    then show ?thesis using assms(1) by (intro exI [of _ "Some t"]) (simp add: lock_after_def)
  next
    case 2
    then show ?thesis using assms(1) by (intro exI [of _ "Some t"]) (simp add: lock_after_def)
  next
    case 3
    have "(\<Sum>u\<in>T. int (length (((ls_guards y)(t := [])) u))) = 0"
      using assms(1) by (intro sum.neutral) auto
    then show ?thesis
      using 3 assms(1) by (intro exI [of _ None]) (auto simp: lock_after_def reader_ok_def)
  qed
qed

lemma lock_after_other:
  assumes "lock_phase T (Some w) y" "t \<in> T" "t \<noteq> w" "method_of (ls_pc y t) = Some m"
    and acc: "lock_access m t (ls_pc y t) (ls_lock y) = (pc', lk')"
  shows "lock_phase T (Some w) (lock_after t m pc' lk' y)"
proof -
  have t: "reader_ok (ls_pc y t) []" "ls_guards y t = []" and st: "lk_lockState (ls_lock y) = -1"
    and w: "writer_pc w (ls_pc y w) (ls_guards y w) (ls_lock y)"
    using assms(1-3) by auto
  have "lk_ownerThreadId (ls_lock y) \<noteq> int t"
    using writer_owner [OF w] assms(3) by auto
  from reader_access [OF t(1) this assms(4) acc] st
  have "lk_ownerThreadId lk' = lk_ownerThreadId (ls_lock y)" "lk_writeRecursion lk' = lk_writeRecursion (ls_lock y)"
    "pc' \<noteq> Returned" "reader_ok pc' []" "lk_lockState lk' = -1"
    by auto
  then show ?thesis
    using assms(1,3) t writer_pc_cong [OF w] by (simp add: lock_after_def)
qed

lemma lock_after_free:
  assumes "lock_phase T None y" "finite T" "t \<in> T" "method_of (ls_pc y t) = Some m"
    and acc: "lock_access m t (ls_pc y t) (ls_lock y) = (pc', lk')"
  shows "\<exists>w. lock_phase T w (lock_after t m pc' lk' y)"
proof -
  let ?gs = "ls_guards y t" and ?sum = "\<Sum>u\<in>T. int (length (ls_guards y u))"
  have t: "reader_ok (ls_pc y t) ?gs" and own: "lk_ownerThreadId (ls_lock y) = -1"
    and st: "lk_lockState (ls_lock y) = ?sum"
    using assms(1,3) by auto
  have ge: "0 \<le> ?sum" by (intro sum_nonneg) simp
  have pos: "0 < ?sum" if "?gs \<noteq> []"
  proof -
    have "0 < int (length ?gs)" using that by simp
    then show ?thesis using sum_guards_le [OF assms(2,3), of "ls_guards y"] by linarith
  qed
  have "lk_ownerThreadId (ls_lock y) \<noteq> int t" using own by simp
  from reader_access [OF t this assms(4) acc] st ge pos own
  consider (stay) "lk_ownerThreadId lk' = -1" "pc' \<noteq> Returned" "reader_ok pc' ?gs" "lk_lockState lk' = ?sum"
    | (lock) "lk_ownerThreadId lk' = -1" "pc' = Returned" "m = MReadLock" "lk_lockState lk' = ?sum + 1"
    | (unlock) "lk_ownerThreadId lk' = -1" "pc' = Returned" "m = MReadUnLock" "?gs \<noteq> []" "lk_lockState lk' = ?sum - 1"
    | (excl) "lk_ownerThreadId lk' = -1" "pc' = WL_SetOwner" "?sum = 0" "?gs = []" "lk_lockState lk' = -1"
    by auto
  then show ?thesis
  proof cases
    case stay
    then show ?thesis using assms(1) by (intro exI [of _ None]) (simp add: lock_after_def)
  next
    case lock
    have "reader_ok Out (ReadGuard # ?gs)" using t by (simp add: reader_ok_def)
    moreover have "(\<Sum>u\<in>T. int (length (((ls_guards y)(t := ReadGuard # ?gs)) u))) = ?sum + 1"
      using sum_guards_upd [OF assms(2,3), of "ls_guards y" "ReadGuard # ?gs"] by simp
    ultimately show ?thesis
      using lock assms(1) by (intro exI [of _ None]) (simp add: lock_after_def)
  next
    case unlock
    have "reader_ok Out (tl ?gs)" using t by (cases ?gs) (simp_all add: reader_ok_def)
    moreover have "(\<Sum>u\<in>T. int (length (((ls_guards y)(t := tl ?gs)) u))) = ?sum - 1"
      using sum_guards_upd [OF assms(2,3), of "ls_guards y" "tl ?gs"] unlock(4) by (cases ?gs) simp_all
    ultimately show ?thesis
      using unlock assms(1) by (intro exI [of _ None]) (simp add: lock_after_def)
  next
    case excl
    have "ls_guards y u = []" if "u \<in> T" for u
      using sum_guards_le [OF assms(2) that, of "ls_guards y"] excl(3) by simp
    then show ?thesis
      using excl assms(1,3) by (intro exI [of _ "Some t"]) (auto simp: lock_after_def)
  qed
qed

lemma lock_inv_access:
  assumes "lock_inv T y" "finite T" "t \<in> T" "method_of (ls_pc y t) = Some m"
    and "lock_access m t (ls_pc y t) (ls_lock y) = (pc', lk')"
  shows "lock_inv T (lock_after t m pc' lk' y)"
proof -
  obtain w where w: "lock_phase T w y" using assms(1) by (auto simp only: lock_inv_def)
  consider "w = None" | "w = Some t" | u where "w = Some u" "t \<noteq> u" by (cases w) auto
  then show ?thesis
  proof cases
    case 1
    then show ?thesis using lock_after_free [OF _ assms(2-5)] w by (simp only: lock_inv_def)
  next
    case 2
    then show ?thesis using lock_after_writer [OF _ assms(2,4,5)] w by (simp only: lock_inv_def)
  next
    case 3
    then have "lock_phase T (Some u) (lock_after t m pc' lk' y)"
      using lock_after_other [OF _ assms(3) _ assms(4,5)] w by (simp only:)
    then show ?thesis unfolding lock_inv_def by (rule exI)
  qed
qed

lemma lock_inv_start:
  assumes "lock_inv T y" "t \<in> T"
    and "\<And>gs lk. writer_pc t (ls_pc y t) gs lk \<Longrightarrow> gs = ls_guards y t \<Longrightarrow> writer_pc t pc' gs lk"
    and "reader_ok (ls_pc y t) (ls_guards y t) \<Longrightarrow> reader_ok pc' (ls_guards y t)"
  shows "lock_inv T (y\<lparr>ls_pc := (ls_pc y)(t := pc')\<rparr>)"
proof -
  obtain w where w: "lock_phase T w y" using assms(1) by (auto simp only: lock_inv_def)
  then show ?thesis
    unfolding lock_inv_def using lock_phase_start [OF w assms(2-4)] by blast
qed

lemma lock_inv_step:
  assumes "lock_step T y y'" "lock_inv T y" "finite T"
  shows "lock_inv T y'"
  using assms(1)
proof (cases rule: lock_step.cases)
  case (write_guard t)
  then show ?thesis
    using lock_inv_start [OF assms(2) write_guard(2), of WL_Owner] writer_pc_start(1) reader_ok_start(1)
    by simp
next
  case (read_guard t)
  then show ?thesis
    using lock_inv_start [OF assms(2) read_guard(2), of RL_Owner] writer_pc_start(2) reader_ok_start(2)
    by simp
next
  case (destroy t g gs)
  then show ?thesis
    using lock_inv_start [OF assms(2) destroy(2), of "unlock_pc g"] writer_pc_start(3) reader_ok_start(3)
    by simp
next
  case (run t m pc' lk')
  then show ?thesis
    using lock_inv_access [OF assms(2,3) run(2,3,4)] by (simp add: lock_after_def)
next
  case (return t m lk')
  then show ?thesis
    using lock_inv_access [OF assms(2,3) return(2,3,4)] by (simp add: lock_after_def)
qed

lemma lock_inv_reachable:
  assumes "(lock_step T)\<^sup>*\<^sup>* lock_init y" "finite T"
  shows "lock_inv T y"
  using assms(1)
  by (induction rule: rtranclp_induct) (auto intro: lock_inv_init lock_inv_step assms(2))

section \<open>Properties\<close>

text \<open>C10: Under any interleaving of the atomic accesses of finitely many threads, a thread that holds a
  write guard excludes every other thread from holding any guard; without a writer the lock state
  is the number of read guards held; and no thread reaches a \<open>CRASH\<close> of the lock.\<close>

theorem lock_excludes:
  assumes "(lock_step T)\<^sup>*\<^sup>* lock_init y" "finite T" "t \<in> T"
  shows "ls_pc y t \<noteq> Crashed \<and>
    (WriteGuard \<in> set (ls_guards y t) \<longrightarrow>
       lk_lockState (ls_lock y) = WRITE_STATE \<and> (\<forall>u \<in> T - {t}. ls_guards y u = [])) \<and>
    (0 \<le> lk_lockState (ls_lock y) \<longrightarrow>
       lk_lockState (ls_lock y) = (\<Sum>u\<in>T. int (length (ls_guards y u))))"
proof -
  obtain w where w: "lock_phase T w y"
    using lock_inv_reachable [OF assms(1,2)] by (auto simp only: lock_inv_def)
  show ?thesis
  proof (cases w)
    case None
    then have "reader_ok (ls_pc y t) (ls_guards y t)" using w assms(3) by simp
    then show ?thesis using w None by (auto simp: reader_ok_def)
  next
    case (Some u)
    show ?thesis
    proof (cases "u = t")
      case True
      then have "ls_pc y t \<noteq> Crashed" using w Some by auto
      then show ?thesis using w Some True by (simp add: WRITE_STATE_def)
    next
      case False
      then have "reader_ok (ls_pc y t) []" "ls_guards y t = []" using w Some assms(3) by auto
      then show ?thesis using w Some by (auto simp: reader_ok_def)
    qed
  qed
qed

text \<open>A schedule as a function: each element names the thread and what it does.\<close>

datatype lock_act = ActWrite nat | ActRead nat | ActDestroy nat | ActRun nat

fun lock_do :: "lock_act \<Rightarrow> lock_sys \<Rightarrow> lock_sys" where
  "lock_do (ActWrite t) y =
     (if ls_pc y t = Out \<and> length (ls_guards y t) < 65535 then y\<lparr>ls_pc := (ls_pc y)(t := WL_Owner)\<rparr> else y)"
| "lock_do (ActRead t) y =
     (if ls_pc y t = Out \<and> length (ls_guards y t) < 65535 then y\<lparr>ls_pc := (ls_pc y)(t := RL_Owner)\<rparr> else y)"
| "lock_do (ActDestroy t) y =
     (case ls_guards y t of [] \<Rightarrow> y
      | g # gs \<Rightarrow> if ls_pc y t = Out then y\<lparr>ls_pc := (ls_pc y)(t := unlock_pc g)\<rparr> else y)"
| "lock_do (ActRun t) y =
     (case method_of (ls_pc y t) of None \<Rightarrow> y
      | Some m \<Rightarrow> (case lock_access m t (ls_pc y t) (ls_lock y) of (pc', lk') \<Rightarrow> lock_after t m pc' lk' y))"

fun act_thread :: "lock_act \<Rightarrow> nat" where
  "act_thread (ActWrite t) = t" | "act_thread (ActRead t) = t"
| "act_thread (ActDestroy t) = t" | "act_thread (ActRun t) = t"

lemma lock_do_step:
  assumes "act_thread a \<in> T"
  shows "(lock_step T)\<^sup>*\<^sup>* y (lock_do a y)"
proof (cases a)
  case (ActWrite t)
  then show ?thesis using assms lock_step.write_guard [of t T y] by (auto intro: r_into_rtranclp)
next
  case (ActRead t)
  then show ?thesis using assms lock_step.read_guard [of t T y] by (auto intro: r_into_rtranclp)
next
  case (ActDestroy t)
  then show ?thesis
    using assms lock_step.destroy [of t T y] by (auto split: list.split intro: r_into_rtranclp)
next
  case (ActRun t)
  show ?thesis
  proof (cases "method_of (ls_pc y t)")
    case (Some m)
    obtain pc' lk' where acc: "lock_access m t (ls_pc y t) (ls_lock y) = (pc', lk')" by fastforce
    have "lock_step T y (lock_after t m pc' lk' y)"
      using lock_step.run [of t T y m pc' lk'] lock_step.return [of t T y m lk'] acc Some assms ActRun
      by (auto simp: lock_after_def)
    then show ?thesis using ActRun Some acc by (auto intro: r_into_rtranclp)
  qed (simp add: ActRun)
qed

lemma lock_do_reachable:
  "\<forall>a \<in> set as. act_thread a \<in> T \<Longrightarrow> (lock_step T)\<^sup>*\<^sup>* y (fold lock_do as y)"
proof (induction as arbitrary: y)
  case (Cons a as)
  then have "(lock_step T)\<^sup>*\<^sup>* y (lock_do a y)" "(lock_step T)\<^sup>*\<^sup>* (lock_do a y) (fold lock_do as (lock_do a y))"
    using lock_do_step by auto
  then show ?case by simp
qed simp

text \<open>Thread 1 takes the lock for writing and reads inside; thread 2 is turned away.\<close>

definition lock_demo :: "lock_act list" where
  "lock_demo = [ActWrite 1, ActRun 1, ActRun 1, ActRun 1, ActRead 2, ActRun 2, ActRun 1, ActRun 1,
     ActRun 1, ActRead 1, ActRun 1, ActRun 2, ActRun 2]"

theorem lock_excludes_witness:
  "ls_guards (fold lock_do lock_demo lock_init) 1 = [ReadGuard, WriteGuard] \<and>
   ls_pc (fold lock_do lock_demo lock_init) 2 = RL_Pending \<and>
   ls_guards (fold lock_do lock_demo lock_init) 2 = []"
proof -
  let ?y = "fold lock_do lock_demo lock_init"
  have y: "ls_guards ?y 1 = [ReadGuard, WriteGuard]" "ls_pc ?y 2 = RL_Pending"
    by (simp_all add: lock_demo_def lock_init_def Lock_new_def lock_after_def WRITE_STATE_def NOTTING_STATE_def)
  have "(lock_step {1, 2})\<^sup>*\<^sup>* lock_init ?y"
    by (rule lock_do_reachable) (simp add: lock_demo_def)
  from lock_excludes [OF this, of 1] show ?thesis using y by simp
qed

end
