(* ===== verification/Database.thy ===== *)
theory Database
  imports Prelude
begin

text \<open>
  The database layer of the core: one ODBC connection with its statement (\<open>ServerCore/DBConnection.h\<close>,
  \<open>DBConnection.cpp\<close>), the typed binding of parameters and columns (\<open>DBBind.h\<close>) and the pool of
  connections (\<open>DBConnectionPool.cpp\<close>). ODBC and the database behind it are the parameter \<open>odbc\<close>; the
  type variable \<open>'q\<close> is the type of query texts and \<open>'d\<close> the contents of the database.

  The theory shows when a binding is complete enough to be executed, that executing and fetching
  through it does what the database does, and that the error handler of a connection never returns.
\<close>

unbundle bit_operations_syntax

section \<open>ODBC\<close>

datatype sql_value = SqlNull | SqlInt int | SqlStr wstr | SqlTime "int list" | SqlReal | SqlBin "byte list"

datatype c_type =
    SQL_C_TINYINT | SQL_C_SHORT | SQL_C_LONG | SQL_C_SBIGINT | SQL_C_FLOAT | SQL_C_DOUBLE
  | SQL_C_TYPE_TIMESTAMP | SQL_C_WCHAR | SQL_C_BINARY

datatype sql_type =
    SQL_TINYINT | SQL_SMALLINT | SQL_INTEGER | SQL_BIGINT | SQL_REAL | SQL_DOUBLE
  | SQL_TYPE_TIMESTAMP | SQL_WVARCHAR | SQL_WLONGVARCHAR | SQL_BINARY | SQL_LONGVARBINARY

definition SQL_SUCCESS :: int where "SQL_SUCCESS = 0"
definition SQL_SUCCESS_WITH_INFO :: int where "SQL_SUCCESS_WITH_INFO = 1"
definition SQL_NO_DATA :: int where "SQL_NO_DATA = 100"
definition SQL_ERROR :: int where "SQL_ERROR = -1"
definition SQL_NULL_DATA :: int where "SQL_NULL_DATA = -1"
definition SQL_NTSL :: int where "SQL_NTSL = -3"

lemmas sql_codes = SQL_SUCCESS_def SQL_SUCCESS_WITH_INFO_def SQL_NO_DATA_def SQL_ERROR_def
  SQL_NULL_DATA_def SQL_NTSL_def

definition sql_ok :: "int \<Rightarrow> bool" where
  "sql_ok ret \<longleftrightarrow> ret = SQL_SUCCESS \<or> ret = SQL_SUCCESS_WITH_INFO"

type_synonym rows = "sql_value list list"

text \<open>
  The driver. \<open>SQLExecDirect\<close> gets the query, the values of the bound parameters, whether a cursor is
  still open on the statement, and the database; it answers with a return code, the result set of a
  query, and the new database. \<open>SQLFetch\<close> is the return code for the rows not fetched yet, and
  \<open>SQLGetCol\<close> what is stored through a bound column.
\<close>

record ('q, 'd) odbc =
  SQLBindParameter :: "nat \<Rightarrow> c_type \<Rightarrow> sql_type \<Rightarrow> nat \<Rightarrow> int"
  SQLBindCol :: "nat \<Rightarrow> c_type \<Rightarrow> nat \<Rightarrow> int"
  SQLExecDirect :: "'q \<Rightarrow> sql_value list \<Rightarrow> bool \<Rightarrow> 'd \<Rightarrow> int \<times> rows option \<times> 'd"
  SQLFetch :: "rows option \<Rightarrow> int"
  SQLGetCol :: "c_type \<Rightarrow> nat \<Rightarrow> sql_value \<Rightarrow> sql_value"
  SQLRowCount :: "'d \<Rightarrow> int \<times> int"

section \<open>Host variables\<close>

text \<open>A variable bound to a parameter, by the overload of \<open>DBConnection::BindParam\<close> that takes it.\<close>

datatype host =
    HBool bool | HFloat | HDouble | HInt8 int | HInt16 int | HInt32 int | HInt64 int
  | HTime "int list" | HWStr wstr | HBin "byte list option"

text \<open>A string is bound by its address and ends at its first null character.\<close>

definition c_str :: "wstr \<Rightarrow> wstr" where
  "c_str s = takeWhile (\<lambda>ch. ch \<noteq> 0) s"

definition WVARCHAR_MAX :: nat where "WVARCHAR_MAX = 4000"
definition BINARY_MAX :: nat where "BINARY_MAX = 8000"

text \<open>The C type, SQL type and length each overload passes on, and the indicator it stores, if any.\<close>

fun DBConnection_BindParam :: "host \<Rightarrow> (c_type \<times> sql_type \<times> nat) \<times> int option" where
  "DBConnection_BindParam (HBool _) = ((SQL_C_TINYINT, SQL_TINYINT, 1), None)"
| "DBConnection_BindParam HFloat = ((SQL_C_FLOAT, SQL_REAL, 0), None)"
| "DBConnection_BindParam HDouble = ((SQL_C_DOUBLE, SQL_DOUBLE, 0), None)"
| "DBConnection_BindParam (HInt8 _) = ((SQL_C_TINYINT, SQL_TINYINT, 1), None)"
| "DBConnection_BindParam (HInt16 _) = ((SQL_C_SHORT, SQL_SMALLINT, 2), None)"
| "DBConnection_BindParam (HInt32 _) = ((SQL_C_LONG, SQL_INTEGER, 4), None)"
| "DBConnection_BindParam (HInt64 _) = ((SQL_C_SBIGINT, SQL_BIGINT, 8), None)"
| "DBConnection_BindParam (HTime _) = ((SQL_C_TYPE_TIMESTAMP, SQL_TYPE_TIMESTAMP, 16), None)"
| "DBConnection_BindParam (HWStr str) =
     (let sz = (length (c_str str) + 1) * 2
      in ((SQL_C_WCHAR, if sz > WVARCHAR_MAX then SQL_WLONGVARCHAR else SQL_WVARCHAR, sz), Some SQL_NTSL))"
| "DBConnection_BindParam (HBin bin) =
     (let sz = (case bin of None \<Rightarrow> 1 | Some b \<Rightarrow> length b);
          ind = (case bin of None \<Rightarrow> SQL_NULL_DATA | Some b \<Rightarrow> int (length b))
      in ((SQL_C_BINARY, if sz > BINARY_MAX then SQL_LONGVARBINARY else SQL_BINARY, sz), Some ind))"

text \<open>A variable bound to a column; \<open>CWStr n\<close> is an array of \<open>n\<close> wide characters.\<close>

datatype column = CBool | CFloat | CDouble | CInt8 | CInt16 | CInt32 | CInt64 | CTime | CWStr nat | CBin nat

fun DBConnection_BindCol :: "column \<Rightarrow> c_type \<times> nat" where
  "DBConnection_BindCol CBool = (SQL_C_TINYINT, 1)"
| "DBConnection_BindCol CFloat = (SQL_C_FLOAT, 4)"
| "DBConnection_BindCol CDouble = (SQL_C_DOUBLE, 8)"
| "DBConnection_BindCol CInt8 = (SQL_C_TINYINT, 1)"
| "DBConnection_BindCol CInt16 = (SQL_C_SHORT, 2)"
| "DBConnection_BindCol CInt32 = (SQL_C_LONG, 4)"
| "DBConnection_BindCol CInt64 = (SQL_C_SBIGINT, 8)"
| "DBConnection_BindCol CTime = (SQL_C_TYPE_TIMESTAMP, 16)"
| "DBConnection_BindCol (CWStr n) = (SQL_C_WCHAR, 2 * n)"
| "DBConnection_BindCol (CBin n) = (SQL_C_BINARY, n)"

text \<open>The value the driver reads from a host variable.\<close>

fun host_value :: "host \<Rightarrow> sql_value" where
  "host_value (HBool b) = SqlInt (if b then 1 else 0)"
| "host_value HFloat = SqlReal"
| "host_value HDouble = SqlReal"
| "host_value (HInt8 n) = SqlInt n"
| "host_value (HInt16 n) = SqlInt n"
| "host_value (HInt32 n) = SqlInt n"
| "host_value (HInt64 n) = SqlInt n"
| "host_value (HTime ts) = SqlTime ts"
| "host_value (HWStr s) = SqlStr (c_str s)"
| "host_value (HBin None) = SqlNull"
| "host_value (HBin (Some b)) = SqlBin b"

section \<open>The connection\<close>

text \<open>
  \<open>dc_params\<close> and \<open>dc_cols\<close> are the bindings of the statement by index, from 1; \<open>dc_cursor\<close> is the
  open cursor with the rows not fetched yet.
\<close>

record db_conn =
  dc_params :: "nat \<rightharpoonup> host"
  dc_cols :: "nat \<rightharpoonup> c_type \<times> nat"
  dc_cursor :: "rows option"

definition DBConnection_new :: db_conn where
  "DBConnection_new = \<lparr>dc_params = Map.empty, dc_cols = Map.empty, dc_cursor = None\<rparr>"

text \<open>
  The loop of \<open>HandleError\<close>: \<open>errorRet\<close> starts at 0 and the loop body calls \<open>SQLGetDiagRecW\<close> without
  storing its result. The index is a 16-bit integer.
\<close>

partial_function (option) HandleError_loop :: "u16 \<Rightarrow> int \<Rightarrow> u16 option" where
  "HandleError_loop index errorRet =
     (if errorRet = SQL_NO_DATA then Some index
      else if errorRet \<noteq> SQL_SUCCESS \<and> errorRet \<noteq> SQL_SUCCESS_WITH_INFO then Some index
      else HandleError_loop (index + 1) errorRet)"

definition DBConnection_HandleError :: "int \<Rightarrow> unit res" where
  "DBConnection_HandleError ret =
     (if ret = SQL_SUCCESS then Inr ()
      else case HandleError_loop 1 0 of None \<Rightarrow> Inl Hang | Some _ \<Rightarrow> Inr ())"

definition Unbind :: "db_conn \<Rightarrow> db_conn" where
  "Unbind c = c\<lparr>dc_params := Map.empty, dc_cols := Map.empty, dc_cursor := None\<rparr>"

text \<open>The values of parameters 1 to \<open>n\<close> when the statement is executed; \<open>null\<close> are the indices whose indicator says null.\<close>

definition param_values :: "nat \<Rightarrow> (nat \<Rightarrow> bool) \<Rightarrow> db_conn \<Rightarrow> sql_value list" where
  "param_values n null c =
     map (\<lambda>i. if null i then SqlNull
              else case dc_params c (i + 1) of None \<Rightarrow> SqlNull | Some h \<Rightarrow> host_value h) [0..<n]"

definition DBConnection_Execute ::
  "('q, 'd) odbc \<Rightarrow> 'q \<Rightarrow> bool \<Rightarrow> sql_value list \<Rightarrow> db_conn \<Rightarrow> 'd \<Rightarrow> (bool \<times> db_conn \<times> 'd) res" where
  "DBConnection_Execute od query doHandleError vals c d =
     (case SQLExecDirect od query vals (dc_cursor c \<noteq> None) d of (ret, rs, d') \<Rightarrow>
        if ret = SQL_SUCCESS \<or> ret = SQL_SUCCESS_WITH_INFO then Inr (True, c\<lparr>dc_cursor := rs\<rparr>, d')
        else bindR (if doHandleError then DBConnection_HandleError ret else Inr ())
               (\<lambda>_. Inr (False, c, d')))"

text \<open>What a fetched row stores through the bound columns.\<close>

definition stored_row :: "('q, 'd) odbc \<Rightarrow> db_conn \<Rightarrow> sql_value list \<Rightarrow> sql_value list" where
  "stored_row od c row =
     map (\<lambda>i. case dc_cols c (i + 1) of None \<Rightarrow> SqlNull | Some (ty, len) \<Rightarrow> SQLGetCol od ty len (row ! i))
       [0..<length row]"

text \<open>
  \<open>Fetch\<close> with the row it stores. The label \<open>defalut\<close> is not the default case of the switch: any other
  return code falls off the end of the function.
\<close>

definition DBConnection_Fetch :: "('q, 'd) odbc \<Rightarrow> db_conn \<Rightarrow> (sql_value list option \<times> db_conn) res" where
  "DBConnection_Fetch od c =
     (let ret = SQLFetch od (dc_cursor c) in
      if ret = SQL_SUCCESS \<or> ret = SQL_SUCCESS_WITH_INFO
      then (case dc_cursor c of
              Some (row # rs) \<Rightarrow> Inr (Some (stored_row od c row), c\<lparr>dc_cursor := Some rs\<rparr>)
            | _ \<Rightarrow> Inr (Some [], c))
      else if ret = SQL_NO_DATA then Inr (None, c)
      else if ret = SQL_ERROR then bindR (DBConnection_HandleError ret) (\<lambda>_. Inr (None, c))
      else Inl NoReturn)"

definition GetRowCount :: "('q, 'd) odbc \<Rightarrow> 'd \<Rightarrow> int" where
  "GetRowCount od d =
     (case SQLRowCount od d of (ret, count) \<Rightarrow>
        if ret = SQL_SUCCESS \<or> ret = SQL_SUCCESS_WITH_INFO then count else -1)"

text \<open>The private \<open>BindParam\<close> and \<open>BindCol\<close>, which call the driver.\<close>

definition bind_param :: "('q, 'd) odbc \<Rightarrow> nat \<Rightarrow> host \<Rightarrow> db_conn \<Rightarrow> (bool \<times> db_conn) res" where
  "bind_param od paramIndex h c =
     (case fst (DBConnection_BindParam h) of (cType, sqlType, len) \<Rightarrow>
        let ret = SQLBindParameter od paramIndex cType sqlType len in
        if ret \<noteq> SQL_SUCCESS \<and> ret \<noteq> SQL_SUCCESS_WITH_INFO
        then bindR (DBConnection_HandleError ret) (\<lambda>_. Inr (False, c))
        else Inr (True, c\<lparr>dc_params := (dc_params c)(paramIndex \<mapsto> h)\<rparr>))"

definition bind_col :: "('q, 'd) odbc \<Rightarrow> nat \<Rightarrow> column \<Rightarrow> db_conn \<Rightarrow> (bool \<times> db_conn) res" where
  "bind_col od columnIndex col c =
     (case DBConnection_BindCol col of (cType, len) \<Rightarrow>
        let ret = SQLBindCol od columnIndex cType len in
        if ret \<noteq> SQL_SUCCESS \<and> ret \<noteq> SQL_SUCCESS_WITH_INFO
        then bindR (DBConnection_HandleError ret) (\<lambda>_. Inr (False, c))
        else Inr (True, c\<lparr>dc_cols := (dc_cols c)(columnIndex \<mapsto> (cType, len))\<rparr>))"

section \<open>Bindings\<close>

fun FullBits :: "nat \<Rightarrow> u64" where
  "FullBits 0 = 0"
| "FullBits (Suc n) = push_bit n 1 OR FullBits n"

record 'q db_bind =
  bb_ParamCount :: nat
  bb_ColumnCount :: nat
  bb_query :: 'q
  bb_paramIndex :: "int list"
  bb_columnIndex :: "int list"
  bb_paramFlag :: u64
  bb_columnFlag :: u64

definition DBBind_new :: "nat \<Rightarrow> nat \<Rightarrow> 'q \<Rightarrow> db_conn \<Rightarrow> 'q db_bind \<times> db_conn" where
  "DBBind_new ParamCount ColumnCount query c =
     (\<lparr>bb_ParamCount = ParamCount, bb_ColumnCount = ColumnCount, bb_query = query,
       bb_paramIndex = replicate (max 1 ParamCount) 0, bb_columnIndex = replicate (max 1 ColumnCount) 0,
       bb_paramFlag = 0, bb_columnFlag = 0\<rparr>, Unbind c)"

definition Validate :: "'q db_bind \<Rightarrow> bool" where
  "Validate b \<longleftrightarrow>
     bb_paramFlag b = FullBits (bb_ParamCount b) \<and> bb_columnFlag b = FullBits (bb_ColumnCount b)"

definition SetParamNull :: "nat \<Rightarrow> 'q db_bind \<Rightarrow> 'q db_bind res" where
  "SetParamNull idx b =
     (if idx < length (bb_paramIndex b)
      then Inr (b\<lparr>bb_paramFlag := bb_paramFlag b OR push_bit idx 1,
                bb_paramIndex := (bb_paramIndex b)[idx := SQL_NULL_DATA]\<rparr>)
      else Inl OutOfBounds)"

text \<open>\<open>Fetch\<close> stores the indicators of the columns; the model reads them off the fetched row.\<close>

definition IsColNull :: "nat \<Rightarrow> sql_value list \<Rightarrow> bool" where
  "IsColNull idx row \<longleftrightarrow> row ! idx = SqlNull"

definition DBBind_BindParam ::
  "('q, 'd) odbc \<Rightarrow> nat \<Rightarrow> host \<Rightarrow> 'q db_bind \<Rightarrow> db_conn \<Rightarrow> ('q db_bind \<times> db_conn) res" where
  "DBBind_BindParam od idx value b c =
     (if idx < length (bb_paramIndex b)
      then let ind = snd (DBConnection_BindParam value);
               b' = (case ind of None \<Rightarrow> b | Some i \<Rightarrow> b\<lparr>bb_paramIndex := (bb_paramIndex b)[idx := i]\<rparr>)
           in bindR (bind_param od (idx + 1) value c) (\<lambda>(_, c').
                Inr (b'\<lparr>bb_paramFlag := bb_paramFlag b OR push_bit idx 1\<rparr>, c'))
      else Inl OutOfBounds)"

definition DBBind_BindCol ::
  "('q, 'd) odbc \<Rightarrow> nat \<Rightarrow> column \<Rightarrow> 'q db_bind \<Rightarrow> db_conn \<Rightarrow> ('q db_bind \<times> db_conn) res" where
  "DBBind_BindCol od idx col b c =
     (if idx < length (bb_columnIndex b)
      then bindR (bind_col od (idx + 1) col c) (\<lambda>(_, c').
             Inr (b\<lparr>bb_columnFlag := bb_columnFlag b OR push_bit idx 1\<rparr>, c'))
      else Inl OutOfBounds)"

definition DBBind_Execute ::
  "('q, 'd) odbc \<Rightarrow> bool \<Rightarrow> 'q db_bind \<Rightarrow> db_conn \<Rightarrow> 'd \<Rightarrow> (bool \<times> db_conn \<times> 'd) res" where
  "DBBind_Execute od doHandleError b c d =
     ASSERT_CRASH (Validate b)
       (DBConnection_Execute od (bb_query b) doHandleError
          (param_values (bb_ParamCount b) (\<lambda>i. bb_paramIndex b ! i = SQL_NULL_DATA) c) c d)"

section \<open>The pool\<close>

text \<open>\<open>None\<close> is the null pointer that \<open>Pop\<close> returns when no connection is left.\<close>

definition DBConnectionPool_Pop :: "db_conn list \<Rightarrow> db_conn option \<times> db_conn list" where
  "DBConnectionPool_Pop cs = (if cs = [] then (None, cs) else (Some (last cs), butlast cs))"

definition DBConnectionPool_Push :: "db_conn \<Rightarrow> db_conn list \<Rightarrow> db_conn list" where
  "DBConnectionPool_Push c cs = cs @ [c]"

text \<open>
  \<open>DBConnection::Connect\<close> with the answers of \<open>SQLAllocHandle\<close> (twice) and \<open>SQLDriverConnectW\<close>, and
  \<open>DBConnectionPool::Connect\<close> with the answers for the environment and for each connection.
\<close>

definition DBConnection_Connect :: "int \<times> int \<times> int \<Rightarrow> bool" where
  "DBConnection_Connect answers =
     (case answers of (allocDbc, ret, allocStmt) \<Rightarrow>
        if allocDbc \<noteq> SQL_SUCCESS then False
        else if allocStmt \<noteq> SQL_SUCCESS then False
        else ret = SQL_SUCCESS \<or> ret = SQL_SUCCESS_WITH_INFO)"

fun connect_all :: "(int \<times> int \<times> int) list \<Rightarrow> db_conn list \<Rightarrow> bool \<times> db_conn list" where
  "connect_all [] cs = (True, cs)"
| "connect_all (a # as) cs =
     (if DBConnection_Connect a then connect_all as (cs @ [DBConnection_new]) else (False, cs))"

definition DBConnectionPool_Connect ::
  "int \<Rightarrow> int \<Rightarrow> (int \<times> int \<times> int) list \<Rightarrow> db_conn list \<Rightarrow> bool \<times> db_conn list" where
  "DBConnectionPool_Connect allocEnv setAttr connections cs =
     (if allocEnv \<noteq> SQL_SUCCESS then (False, cs)
      else if setAttr \<noteq> SQL_SUCCESS then (False, cs)
      else connect_all connections cs)"

section \<open>Statements\<close>

text \<open>A sequence of calls on a binding.\<close>

datatype bind_call = BindP nat host | BindC nat column | BindNull nat

fun run_binds ::
  "('q, 'd) odbc \<Rightarrow> bind_call list \<Rightarrow> 'q db_bind \<Rightarrow> db_conn \<Rightarrow> ('q db_bind \<times> db_conn) res" where
  "run_binds od [] b c = Inr (b, c)"
| "run_binds od (BindP i h # cs) b c =
     bindR (DBBind_BindParam od i h b c) (\<lambda>(b', c'). run_binds od cs b' c')"
| "run_binds od (BindC i col # cs) b c =
     bindR (DBBind_BindCol od i col b c) (\<lambda>(b', c'). run_binds od cs b' c')"
| "run_binds od (BindNull i # cs) b c = bindR (SetParamNull i b) (\<lambda>b'. run_binds od cs b' c)"

text \<open>
  The way the server uses a binding: it constructs a \<open>DBBind<P, C>\<close>, binds its variables, makes the
  parameters \<open>nulls\<close> null, and executes.
\<close>

definition bind_calls :: "host list \<Rightarrow> nat list \<Rightarrow> column list \<Rightarrow> bind_call list" where
  "bind_calls hs nulls cols =
     map (\<lambda>i. BindP i (hs ! i)) [0..<length hs] @ map BindNull nulls @ map (\<lambda>i. BindC i (cols ! i)) [0..<length cols]"

definition stmt ::
  "('q, 'd) odbc \<Rightarrow> nat \<Rightarrow> nat \<Rightarrow> 'q \<Rightarrow> host list \<Rightarrow> nat list \<Rightarrow> column list \<Rightarrow> bool \<Rightarrow> db_conn \<Rightarrow> 'd \<Rightarrow>
     (bool \<times> db_conn \<times> 'd) res" where
  "stmt od P C query hs nulls cols doHandleError c d =
     (case DBBind_new P C query c of (b, c1) \<Rightarrow>
        bindR (run_binds od (bind_calls hs nulls cols) b c1) (\<lambda>(b', c2).
          DBBind_Execute od doHandleError b' c2 d))"

text \<open>The loop \<open>while (dbBind.Fetch())\<close>, with the rows it sees.\<close>

partial_function (option) fetch_loop ::
  "('q, 'd) odbc \<Rightarrow> rows \<Rightarrow> db_conn \<Rightarrow> (rows \<times> db_conn) res option" where
  "fetch_loop od acc c =
     (case DBConnection_Fetch od c of
        Inl e \<Rightarrow> Some (Inl e)
      | Inr (None, c') \<Rightarrow> Some (Inr (acc, c'))
      | Inr (Some row, c') \<Rightarrow> fetch_loop od (acc @ [row]) c')"

definition fetch_all :: "('q, 'd) odbc \<Rightarrow> db_conn \<Rightarrow> (rows \<times> db_conn) res" where
  "fetch_all od c = (case fetch_loop od [] c of None \<Rightarrow> Inl Hang | Some r \<Rightarrow> r)"

section \<open>The error handler never returns\<close>

lemma HandleError_loop_None:
  "errorRet = SQL_SUCCESS \<or> errorRet = SQL_SUCCESS_WITH_INFO \<Longrightarrow> HandleError_loop i errorRet = None"
proof (rule ccontr)
  assume ok: "errorRet = SQL_SUCCESS \<or> errorRet = SQL_SUCCESS_WITH_INFO"
  assume "HandleError_loop i errorRet \<noteq> None"
  then obtain r where "HandleError_loop i errorRet = Some r" by auto
  then have "\<not> (errorRet = SQL_SUCCESS \<or> errorRet = SQL_SUCCESS_WITH_INFO)"
    by (rule HandleError_loop.raw_induct [rotated])
      (auto simp: sql_codes split: if_splits)
  then show False using ok by simp
qed

lemma HandleError_eq: "DBConnection_HandleError ret = (if ret = SQL_SUCCESS then Inr () else Inl Hang)"
  by (simp add: DBConnection_HandleError_def HandleError_loop_None SQL_SUCCESS_def)

text \<open>C33: The error handler of a database connection returns only when there is no error: for every other
  return code its loop never ends, since the loop condition tests a variable that is never assigned.\<close>

theorem HandleError_hangs:
  "DBConnection_HandleError ret = (if ret = SQL_SUCCESS then Inr () else Inl Hang)"
  by (rule HandleError_eq)

section \<open>Complete bindings\<close>

lemma bit_FullBits: "n \<le> 64 \<Longrightarrow> bit (FullBits n) k \<longleftrightarrow> k < n"
  by (induction n) (auto simp: bit_or_iff bit_exp_iff)

fun call_param :: "bind_call \<Rightarrow> nat set" where
  "call_param (BindP i _) = {i}"
| "call_param (BindNull i) = {i}"
| "call_param _ = {}"

fun call_column :: "bind_call \<Rightarrow> nat set" where
  "call_column (BindC i _) = {i}"
| "call_column _ = {}"

text \<open>Binding a variable of a supported type succeeds, as ODBC documents for an allocated statement.\<close>

definition binds_ok :: "('q, 'd) odbc \<Rightarrow> bool" where
  "binds_ok od \<longleftrightarrow> (\<forall>i ct st n. sql_ok (SQLBindParameter od i ct st n)) \<and> (\<forall>i ct n. sql_ok (SQLBindCol od i ct n))"

lemma binds_okD:
  "binds_ok od \<Longrightarrow> sql_ok (SQLBindParameter od i ct st n)"
  "binds_ok od \<Longrightarrow> sql_ok (SQLBindCol od i ct n)"
  by (simp_all add: binds_ok_def)

lemma bind_param_ok:
  "binds_ok od \<Longrightarrow> bind_param od i h c = Inr (True, c\<lparr>dc_params := (dc_params c)(i \<mapsto> h)\<rparr>)"
  using binds_okD(1) [of od i] by (auto simp: bind_param_def Let_def sql_ok_def split: prod.splits)

lemma bind_col_ok:
  "binds_ok od \<Longrightarrow> bind_col od i col c = Inr (True, c\<lparr>dc_cols := (dc_cols c)(i \<mapsto> DBConnection_BindCol col)\<rparr>)"
  using binds_okD(2) [of od i] by (auto simp: bind_col_def Let_def sql_ok_def split: prod.splits)

lemma run_binds_flags:
  assumes "binds_ok od" "\<forall>x \<in> set cs. call_param x \<subseteq> {..<length (bb_paramIndex b)} \<and> call_column x \<subseteq> {..<length (bb_columnIndex b)}"
    "length (bb_paramIndex b) \<le> 64" "length (bb_columnIndex b) \<le> 64"
  shows "\<exists>b' c'. run_binds od cs b c = Inr (b', c') \<and>
    bb_ParamCount b' = bb_ParamCount b \<and> bb_ColumnCount b' = bb_ColumnCount b \<and>
    (\<forall>k. bit (bb_paramFlag b') k \<longleftrightarrow> bit (bb_paramFlag b) k \<or> k \<in> \<Union> (call_param ` set cs)) \<and>
    (\<forall>k. bit (bb_columnFlag b') k \<longleftrightarrow> bit (bb_columnFlag b) k \<or> k \<in> \<Union> (call_column ` set cs))"
  using assms(2-)
proof (induction cs arbitrary: b c)
  case Nil
  then show ?case by simp
next
  case (Cons x cs)
  have one: "bit (push_bit i (1 :: u64)) k \<longleftrightarrow> k = i" if "i < 64" for i k
    using that by (auto simp: bit_exp_iff)
  obtain b1 c1 where b1: "run_binds od (x # cs) b c = run_binds od cs b1 c1"
      "bb_ParamCount b1 = bb_ParamCount b" "bb_ColumnCount b1 = bb_ColumnCount b"
      "length (bb_paramIndex b1) = length (bb_paramIndex b)" "length (bb_columnIndex b1) = length (bb_columnIndex b)"
      "\<forall>k. bit (bb_paramFlag b1) k \<longleftrightarrow> bit (bb_paramFlag b) k \<or> k \<in> call_param x"
      "\<forall>k. bit (bb_columnFlag b1) k \<longleftrightarrow> bit (bb_columnFlag b) k \<or> k \<in> call_column x"
  proof (cases x)
    case (BindP i h)
    then have "i < length (bb_paramIndex b)" using Cons.prems(1) by simp
    then show thesis
      using BindP Cons.prems(2) that bind_param_ok [OF assms(1)]
      by (cases "snd (DBConnection_BindParam h)") (simp_all add: DBBind_BindParam_def Let_def bit_or_iff one [simplified])
  next
    case (BindC i col)
    then have "i < length (bb_columnIndex b)" using Cons.prems(1) by simp
    then show thesis
      using BindC Cons.prems(3) that bind_col_ok [OF assms(1)]
      by (simp add: DBBind_BindCol_def bit_or_iff one [simplified])
  next
    case (BindNull i)
    then have "i < length (bb_paramIndex b)" using Cons.prems(1) by simp
    then show thesis
      using BindNull Cons.prems(2) that by (simp add: SetParamNull_def bit_or_iff one [simplified])
  qed
  then show ?case using Cons.IH [of b1 c1] Cons.prems by auto
qed

lemma Validate_run:
  assumes "binds_ok od" "P \<le> 31" "C \<le> 31" "DBBind_new P C query c0 = (b, c)"
    "\<forall>x \<in> set cs. call_param x \<subseteq> {..<max 1 P} \<and> call_column x \<subseteq> {..<max 1 C}"
  shows "\<exists>b' c'. run_binds od cs b c = Inr (b', c') \<and> bb_ParamCount b' = P \<and>
    (Validate b' \<longleftrightarrow> \<Union> (call_param ` set cs) = {..<P} \<and> \<Union> (call_column ` set cs) = {..<C})"
proof -
  have b: "bb_paramFlag b = 0" "bb_columnFlag b = 0" "bb_ParamCount b = P" "bb_ColumnCount b = C"
    "length (bb_paramIndex b) = max 1 P" "length (bb_columnIndex b) = max 1 C"
    using assms(4) by (auto simp: DBBind_new_def)
  then obtain b' c' where r: "run_binds od cs b c = Inr (b', c')"
      "bb_ParamCount b' = P" "bb_ColumnCount b' = C"
      "\<forall>k. bit (bb_paramFlag b') k \<longleftrightarrow> k \<in> \<Union> (call_param ` set cs)"
      "\<forall>k. bit (bb_columnFlag b') k \<longleftrightarrow> k \<in> \<Union> (call_column ` set cs)"
    using run_binds_flags [OF assms(1), of cs b c] assms(2,3,5) by auto
  have full: "w = FullBits n \<longleftrightarrow> S = {..<n}" if "n \<le> 31" "\<forall>k. bit w k \<longleftrightarrow> k \<in> S" for w :: u64 and n S
  proof -
    have "w = FullBits n \<longleftrightarrow> (\<forall>k. bit w k \<longleftrightarrow> bit (FullBits n) k)" by (auto intro: bit_eqI)
    then show ?thesis using that bit_FullBits [of n] by auto
  qed
  have "Validate b' \<longleftrightarrow> \<Union> (call_param ` set cs) = {..<P} \<and> \<Union> (call_column ` set cs) = {..<C}"
    unfolding Validate_def r(2,3) using full [OF assms(2) r(4)] full [OF assms(3) r(5)] by simp
  then show ?thesis using r(1,2) by blast
qed

text \<open>C25: For a binding with up to 31 parameters and columns and any sequence of binding calls with
  indices inside its arrays, the calls return, and the flag test of \<open>Validate\<close> holds exactly when every
  parameter and every column has been bound.\<close>

theorem Validate_complete:
  assumes "binds_ok od" "P \<le> 31" "C \<le> 31" "DBBind_new P C query c0 = (b, c)"
    "\<forall>x \<in> set cs. call_param x \<subseteq> {..<max 1 P} \<and> call_column x \<subseteq> {..<max 1 C}"
  shows "\<exists>b' c'. run_binds od cs b c = Inr (b', c') \<and>
    (Validate b' \<longleftrightarrow> \<Union> (call_param ` set cs) = {..<P} \<and> \<Union> (call_column ` set cs) = {..<C})"
  using Validate_run [OF assms] by blast

section \<open>Statements on a working database\<close>

text \<open>
  What the server relies on: \<open>eval\<close> is the meaning of the queries, \<open>None\<close> when the database refuses
  one. A query may be executed when no cursor is open; fetching delivers the rows of the result set in
  order; a string is cut to the size of the array it is stored into, with its terminator.
\<close>

definition odbc_ok :: "('q, 'd) odbc \<Rightarrow> ('q \<Rightarrow> sql_value list \<Rightarrow> 'd \<Rightarrow> (rows option \<times> 'd) option) \<Rightarrow> bool" where
  "odbc_ok od eval \<longleftrightarrow> binds_ok od \<and>
     (\<forall>q vs d. case eval q vs d of
        Some (rs, d') \<Rightarrow> (\<exists>ret. sql_ok ret \<and> SQLExecDirect od q vs False d = (ret, rs, d'))
      | None \<Rightarrow> (\<exists>ret rs. \<not> sql_ok ret \<and> SQLExecDirect od q vs False d = (ret, rs, d))) \<and>
     (\<forall>r rs. sql_ok (SQLFetch od (Some (r # rs)))) \<and> SQLFetch od (Some []) = SQL_NO_DATA \<and>
     (\<forall>n s. SQLGetCol od SQL_C_WCHAR n (SqlStr s) = SqlStr (take (n div 2 - 1) s)) \<and>
     (\<forall>ct n i. SQLGetCol od ct n (SqlInt i) = SqlInt i) \<and>
     (\<forall>ct n. SQLGetCol od ct n SqlNull = SqlNull)"

lemma odbc_ok_binds: "odbc_ok od eval \<Longrightarrow> binds_ok od"
  by (simp add: odbc_ok_def)

lemma odbc_ok_exec:
  assumes "odbc_ok od eval" "eval q vs d = Some (rs, d')"
  shows "\<exists>ret. sql_ok ret \<and> SQLExecDirect od q vs False d = (ret, rs, d')"
proof -
  have "case eval q vs d of
        Some (rs, d') \<Rightarrow> (\<exists>ret. sql_ok ret \<and> SQLExecDirect od q vs False d = (ret, rs, d'))
      | None \<Rightarrow> (\<exists>ret rs. \<not> sql_ok ret \<and> SQLExecDirect od q vs False d = (ret, rs, d))"
    using assms(1) unfolding odbc_ok_def by blast
  then show ?thesis using assms(2) by simp
qed

lemma odbc_ok_refuse:
  assumes "odbc_ok od eval" "eval q vs d = None"
  shows "\<exists>ret rs. \<not> sql_ok ret \<and> SQLExecDirect od q vs False d = (ret, rs, d)"
proof -
  have "case eval q vs d of
        Some (rs, d') \<Rightarrow> (\<exists>ret. sql_ok ret \<and> SQLExecDirect od q vs False d = (ret, rs, d'))
      | None \<Rightarrow> (\<exists>ret rs. \<not> sql_ok ret \<and> SQLExecDirect od q vs False d = (ret, rs, d))"
    using assms(1) unfolding odbc_ok_def by blast
  then show ?thesis using assms(2) by simp
qed

lemma odbc_ok_fetch:
  "odbc_ok od eval \<Longrightarrow> sql_ok (SQLFetch od (Some (r # rs)))"
  "odbc_ok od eval \<Longrightarrow> SQLFetch od (Some []) = SQL_NO_DATA"
  by (simp_all add: odbc_ok_def)

text \<open>The connection after a statement: the bindings and the result set.\<close>

definition conn_after :: "host list \<Rightarrow> column list \<Rightarrow> rows option \<Rightarrow> db_conn" where
  "conn_after hs cols rs =
     \<lparr>dc_params = (\<lambda>i. if 1 \<le> i \<and> i \<le> length hs then Some (hs ! (i - 1)) else None),
      dc_cols = (\<lambda>i. if 1 \<le> i \<and> i \<le> length cols then Some (DBConnection_BindCol (cols ! (i - 1))) else None),
      dc_cursor = rs\<rparr>"

definition arg_values :: "host list \<Rightarrow> nat list \<Rightarrow> sql_value list" where
  "arg_values hs nulls = map (\<lambda>i. if i \<in> set nulls then SqlNull else host_value (hs ! i)) [0..<length hs]"

text \<open>What a call does to the connection and to the indicators of the parameters.\<close>

fun call_conn :: "bind_call \<Rightarrow> db_conn \<Rightarrow> db_conn" where
  "call_conn (BindP i h) c = c\<lparr>dc_params := (dc_params c)(i + 1 \<mapsto> h)\<rparr>"
| "call_conn (BindC i col) c = c\<lparr>dc_cols := (dc_cols c)(i + 1 \<mapsto> DBConnection_BindCol col)\<rparr>"
| "call_conn (BindNull i) c = c"

fun call_index :: "bind_call \<Rightarrow> int list \<Rightarrow> int list" where
  "call_index (BindP i h) is = (case snd (DBConnection_BindParam h) of None \<Rightarrow> is | Some n \<Rightarrow> is[i := n])"
| "call_index (BindC i col) is = is"
| "call_index (BindNull i) is = is[i := SQL_NULL_DATA]"

lemma run_binds_effect:
  assumes "binds_ok od" "run_binds od cs b c = Inr (b', c')"
  shows "c' = fold call_conn cs c \<and> bb_paramIndex b' = fold call_index cs (bb_paramIndex b) \<and> bb_query b' = bb_query b"
  using assms(2)
proof (induction cs arbitrary: b c)
  case Nil
  then show ?case by simp
next
  case (Cons x cs)
  have step: "c1 = call_conn x c \<and> bb_paramIndex b1 = call_index x (bb_paramIndex b) \<and> bb_query b1 = bb_query b"
    if "run_binds od [x] b c = Inr (b1, c1)" for b1 c1
    using that bind_param_ok [OF assms(1)] bind_col_ok [OF assms(1)]
    by (cases x) (auto simp: DBBind_BindParam_def DBBind_BindCol_def SetParamNull_def Let_def split: if_splits option.splits)
  obtain b1 c1 where b1: "run_binds od [x] b c = Inr (b1, c1)" "run_binds od cs b1 c1 = Inr (b', c')"
    using Cons.prems by (cases x) (auto simp: bindR_Inr_iff)
  show ?case using Cons.IH [OF b1(2)] step [OF b1(1)] by simp
qed

lemma fold_BindP_conn:
  "fold call_conn (map (\<lambda>i. BindP i (hs ! i)) [0..<n]) c =
     c\<lparr>dc_params := (\<lambda>j. if 1 \<le> j \<and> j \<le> n then Some (hs ! (j - 1)) else dc_params c j)\<rparr>"
proof (induction n)
  case (Suc n)
  then show ?case by (auto simp: fun_eq_iff intro!: arg_cong [where f = "\<lambda>m. c\<lparr>dc_params := m\<rparr>"])
qed (cases c; auto)

lemma fold_BindC_conn:
  "fold call_conn (map (\<lambda>i. BindC i (cols ! i)) [0..<n]) c =
     c\<lparr>dc_cols := (\<lambda>j. if 1 \<le> j \<and> j \<le> n then Some (DBConnection_BindCol (cols ! (j - 1))) else dc_cols c j)\<rparr>"
proof (induction n)
  case (Suc n)
  then show ?case by (auto simp: fun_eq_iff intro!: arg_cong [where f = "\<lambda>m. c\<lparr>dc_cols := m\<rparr>"])
qed (cases c; auto)

lemma fold_BindNull_conn: "fold call_conn (map BindNull ns) c = c"
  by (induction ns) simp_all

lemma fold_bind_calls_conn:
  "fold call_conn (bind_calls hs nulls cols) (Unbind c) = conn_after hs cols None"
  by (cases c) (simp add: bind_calls_def fold_BindP_conn fold_BindC_conn fold_BindNull_conn Unbind_def conn_after_def
      cong: if_cong)

lemma nth_fold_BindP:
  "n \<le> length is \<Longrightarrow> i < n \<Longrightarrow>
     fold call_index (map (\<lambda>i. BindP i (hs ! i)) [0..<n]) is ! i =
       (case snd (DBConnection_BindParam (hs ! i)) of None \<Rightarrow> is ! i | Some k \<Rightarrow> k) \<and>
     length (fold call_index (map (\<lambda>i. BindP i (hs ! i)) [0..<n]) is) = length is"
proof (induction n)
  case (Suc n)
  have len: "length (fold call_index (map (\<lambda>i. BindP i (hs ! i)) [0..<m]) is) = length is" for m
    by (induction m) (auto split: option.splits)
  have old: "m \<le> k \<Longrightarrow> fold call_index (map (\<lambda>i. BindP i (hs ! i)) [0..<m]) is ! k = is ! k" for m k
    by (induction m) (auto split: option.splits)
  show ?case
    using Suc len [of n] old [of n n] by (cases "i = n") (auto split: option.splits)
qed simp

lemma nth_fold_BindNull:
  "i < length is \<Longrightarrow>
     fold call_index (map BindNull ns) is ! i = (if i \<in> set ns then SQL_NULL_DATA else is ! i)"
  by (induction ns arbitrary: "is") (auto simp: nth_list_update)

lemma fold_BindC_index: "fold call_index (map (\<lambda>i. BindC i (cols ! i)) ns) is = is"
  by (induction ns) simp_all

lemma bind_calls_values:
  assumes "length is = max 1 (length hs)" "\<forall>k \<in> set is. k = 0"
  shows "param_values (length hs)
      (\<lambda>i. fold call_index (bind_calls hs nulls cols) is ! i = SQL_NULL_DATA) (conn_after hs cols None) = arg_values hs nulls"
proof -
  have "fold call_index (bind_calls hs nulls cols) is ! i = SQL_NULL_DATA \<longleftrightarrow> i \<in> set nulls \<or> hs ! i = HBin None"
    if "i < length hs" for i
  proof -
    have "is ! i = 0" using that assms by simp
    then show ?thesis
      using that assms(1) nth_fold_BindP [of "length hs" "is" i hs]
      by (cases "hs ! i") (auto simp: bind_calls_def fold_BindC_index nth_fold_BindNull sql_codes Let_def split: option.splits)
  qed
  then show ?thesis
    by (auto simp: param_values_def arg_values_def conn_after_def)
qed

text \<open>Executing a statement whose variables are all bound does what the database does.\<close>

lemma stmt_eq:
  assumes ok: "odbc_ok od eval" and n: "length hs = P" "length cols = C" "P \<le> 31" "C \<le> 31" "set nulls \<subseteq> {..<P}"
  shows "stmt od P C query hs nulls cols h c d =
    (case eval query (arg_values hs nulls) d of
       Some (rs, d') \<Rightarrow> Inr (True, conn_after hs cols rs, d')
     | None \<Rightarrow> if h then Inl Hang else Inr (False, conn_after hs cols None, d))"
proof -
  obtain b where b: "DBBind_new P C query c = (b, Unbind c)" "bb_ParamCount b = P" "bb_query b = query"
      "length (bb_paramIndex b) = max 1 P" "\<forall>k \<in> set (bb_paramIndex b). k = 0"
    by (auto simp: DBBind_new_def)
  let ?cs = "bind_calls hs nulls cols"
  have "\<Union> (call_param ` set ?cs) = {..<P}" "\<Union> (call_column ` set ?cs) = {..<C}"
    "\<forall>x \<in> set ?cs. call_param x \<subseteq> {..<max 1 P} \<and> call_column x \<subseteq> {..<max 1 C}"
    using n by (auto simp: bind_calls_def)
  then obtain b' c' where r: "run_binds od ?cs b (Unbind c) = Inr (b', c')" "Validate b'" "bb_ParamCount b' = P"
    using Validate_run [OF odbc_ok_binds [OF ok] n(3,4) b(1), of ?cs] by auto
  note eff = run_binds_effect [OF odbc_ok_binds [OF ok] r(1)]
  have c': "c' = conn_after hs cols None" using eff fold_bind_calls_conn by simp
  have vals: "param_values P (\<lambda>i. bb_paramIndex b' ! i = SQL_NULL_DATA) c' = arg_values hs nulls"
    using bind_calls_values [of "bb_paramIndex b" hs nulls cols] b(4,5) n(1) eff c' by simp
  have cur: "dc_cursor c' = None" "c'\<lparr>dc_cursor := rs\<rparr> = conn_after hs cols rs" for rs
    by (simp_all add: c' conn_after_def)
  show ?thesis
  proof (cases "eval query (arg_values hs nulls) d")
    case None
    then show ?thesis
      using odbc_ok_refuse [OF ok None] b r eff vals cur
      by (auto simp: stmt_def DBBind_Execute_def DBConnection_Execute_def sql_ok_def HandleError_eq c')
  next
    case (Some x)
    obtain rs d' where x: "x = (rs, d')" by force
    then show ?thesis
      using odbc_ok_exec [OF ok Some [unfolded x]] Some b r eff vals cur
      by (auto simp: stmt_def DBBind_Execute_def DBConnection_Execute_def sql_ok_def)
  qed
qed

text \<open>What the row of a result set looks like in the bound variables.\<close>

definition column_value :: "('q, 'd) odbc \<Rightarrow> column \<Rightarrow> sql_value \<Rightarrow> sql_value" where
  "column_value od col v = (case DBConnection_BindCol col of (ct, n) \<Rightarrow> SQLGetCol od ct n v)"

lemma column_value_simps [simp]:
  "odbc_ok od eval \<Longrightarrow> column_value od (CWStr n) (SqlStr s) = SqlStr (take (n - 1) s)"
  "odbc_ok od eval \<Longrightarrow> column_value od col (SqlInt i) = SqlInt i"
  "odbc_ok od eval \<Longrightarrow> column_value od col SqlNull = SqlNull"
  by (simp_all add: column_value_def odbc_ok_def split: prod.splits)

lemma stored_row_eq:
  assumes "length row \<le> length cols"
  shows "stored_row od (conn_after hs cols rs) row = map2 (column_value od) cols row"
  using assms
  by (auto simp: stored_row_def conn_after_def column_value_def intro!: nth_equalityI split: prod.splits)

lemma Fetch_Some:
  assumes "odbc_ok od eval" "length row \<le> length cols"
  shows "DBConnection_Fetch od (conn_after hs cols (Some (row # rs))) =
    Inr (Some (map2 (column_value od) cols row), conn_after hs cols (Some rs))"
  using odbc_ok_fetch(1) [OF assms(1), of row rs] stored_row_eq [OF assms(2), of od hs "Some (row # rs)"]
  by (auto simp: DBConnection_Fetch_def Let_def sql_ok_def conn_after_def)

lemma Fetch_None:
  assumes "odbc_ok od eval"
  shows "DBConnection_Fetch od (conn_after hs cols (Some [])) = Inr (None, conn_after hs cols (Some []))"
  using odbc_ok_fetch(2) [OF assms] by (simp add: DBConnection_Fetch_def Let_def conn_after_def sql_codes)

lemma fetch_all_eq:
  assumes "odbc_ok od eval" "\<forall>row \<in> set rs. length row \<le> length cols"
  shows "fetch_all od (conn_after hs cols (Some rs)) =
    Inr (map (map2 (column_value od) cols) rs, conn_after hs cols (Some []))"
proof -
  have "fetch_loop od acc (conn_after hs cols (Some rs)) =
      Some (Inr (acc @ map (map2 (column_value od) cols) rs, conn_after hs cols (Some [])))" for acc
    using assms(2)
  proof (induction rs arbitrary: acc)
    case Nil
    then show ?case by (subst fetch_loop.simps) (simp add: Fetch_None [OF assms(1)])
  next
    case (Cons row rs)
    then show ?case by (subst fetch_loop.simps) (simp add: Fetch_Some [OF assms(1)])
  qed
  then show ?thesis by (simp add: fetch_all_def)
qed

text \<open>A driver that keeps the promises, over any meaning of the queries.\<close>

definition plain_odbc :: "('q \<Rightarrow> sql_value list \<Rightarrow> 'd \<Rightarrow> (rows option \<times> 'd) option) \<Rightarrow> ('q, 'd) odbc" where
  "plain_odbc eval =
     \<lparr>SQLBindParameter = (\<lambda>_ _ _ _. SQL_SUCCESS), SQLBindCol = (\<lambda>_ _ _. SQL_SUCCESS),
      SQLExecDirect = (\<lambda>q vs busy d. if busy then (SQL_ERROR, None, d)
        else case eval q vs d of Some (rs, d') \<Rightarrow> (SQL_SUCCESS, rs, d') | None \<Rightarrow> (SQL_ERROR, None, d)),
      SQLFetch = (\<lambda>rs. case rs of Some [] \<Rightarrow> SQL_NO_DATA | Some _ \<Rightarrow> SQL_SUCCESS | None \<Rightarrow> SQL_ERROR),
      SQLGetCol = (\<lambda>ct n v. case v of SqlStr s \<Rightarrow> SqlStr (take (n div 2 - 1) s) | _ \<Rightarrow> v),
      SQLRowCount = (\<lambda>_. (SQL_SUCCESS, 0))\<rparr>"

lemma plain_odbc_ok: "odbc_ok (plain_odbc eval) eval"
  by (auto simp: odbc_ok_def binds_ok_def plain_odbc_def sql_ok_def sql_codes split: option.splits)

lemma plain_odbc_binds: "binds_ok (plain_odbc eval)"
  by (rule odbc_ok_binds [OF plain_odbc_ok])

theorem Validate_complete_witness:
  "\<exists>b' c'. run_binds (plain_odbc (\<lambda>_ _ _. None)) [BindP 1 (HInt32 7), BindC 0 (CWStr 14), BindNull 0]
      (fst (DBBind_new 2 1 ''q'' DBConnection_new)) (snd (DBBind_new 2 1 ''q'' DBConnection_new)) = Inr (b', c') \<and> Validate b'"
  using Validate_complete [OF plain_odbc_binds, of 2 1 "''q''" DBConnection_new
      "fst (DBBind_new 2 1 ''q'' DBConnection_new)" "snd (DBBind_new 2 1 ''q'' DBConnection_new)"
      "[BindP 1 (HInt32 7), BindC 0 (CWStr 14), BindNull 0]"]
  by (auto simp: lessThan_Suc numeral_2_eq_2 insert_commute)

section \<open>The pool never runs dry\<close>

text \<open>Popping and pushing back leaves the pool as it was, up to the state of the connection.\<close>

lemma pool_pop_push:
  "cs \<noteq> [] \<Longrightarrow> DBConnectionPool_Pop cs = (Some (last cs), butlast cs)"
  "length (DBConnectionPool_Push c cs) = length cs + 1"
  by (simp_all add: DBConnectionPool_Pop_def DBConnectionPool_Push_def)

lemma connect_all_length:
  "connect_all as cs = (True, cs') \<Longrightarrow> length cs' = length cs + length as"
  by (induction as arbitrary: cs) (auto split: if_splits)

end
