(* ===== verification/DBModel.thy ===== *)
theory DBModel
  imports Database
begin

text \<open>
  The description of a database schema (\<open>ServerCore/DBModel.h\<close>, \<open>DBModel.cpp\<close>): columns, indexes,
  tables and stored procedures, the SQL texts they produce, and the names of data types. Wide strings
  are lists of 16-bit characters. A text that does not fit into the buffer of \<open>Format\<close> is a fault, as
  is a character that \<open>isspace\<close> is not defined on.
\<close>

section \<open>Wide strings\<close>

definition wide :: "string \<Rightarrow> wstr" where
  "wide s = map of_char s"

definition is_lower :: "wchar \<Rightarrow> bool" where
  "is_lower ch \<longleftrightarrow> 97 \<le> ch \<and> ch \<le> 122"

definition is_digit :: "wchar \<Rightarrow> bool" where
  "is_digit ch \<longleftrightarrow> 48 \<le> ch \<and> ch \<le> 57"

definition to_lower :: "wchar \<Rightarrow> wchar" where
  "to_lower ch = (if 65 \<le> ch \<and> ch \<le> 90 then ch + 32 else ch)"

text \<open>\<open>_wcsicmp\<close> answering 0.\<close>

definition wcsicmp_eq :: "wstr \<Rightarrow> wstr \<Rightarrow> bool" where
  "wcsicmp_eq a b \<longleftrightarrow> map to_lower a = map to_lower b"

definition digits_value :: "wstr \<Rightarrow> nat" where
  "digits_value s = fold (\<lambda>ch n. 10 * n + (unat ch - 48)) s 0"

text \<open>\<open>_wtoi\<close> on a sequence of digits; it saturates.\<close>

definition wtoi :: "wstr \<Rightarrow> int" where
  "wtoi s = min (int (digits_value s)) INT32_MAX"

fun dec_nat :: "nat \<Rightarrow> wstr" where
  "dec_nat n = (if n < 10 then [48 + of_nat n] else dec_nat (n div 10) @ [48 + of_nat (n mod 10)])"

definition dec_int :: "int \<Rightarrow> wstr" where
  "dec_int k = (if k < 0 then 45 # dec_nat (nat (- k)) else dec_nat (nat k))"

section \<open>Format\<close>

text \<open>
  The two conversions the sources use. \<open>%s\<close> takes a null-terminated string; \<open>%d\<close> reads an \<open>int\<close>, which
  is the low half of a 64-bit argument.
\<close>

datatype format_arg = FStr wstr | FInt int

definition low_int32 :: "int \<Rightarrow> int" where
  "low_int32 k = sint (word_of_int k :: 32 word)"

fun format_text :: "wstr \<Rightarrow> format_arg list \<Rightarrow> wstr" where
  "format_text (p # c # fs) (FStr s # as) =
     (if p = 37 \<and> c = 115 then c_str s @ format_text fs as else p # format_text (c # fs) (FStr s # as))"
| "format_text (p # c # fs) (FInt k # as) =
     (if p = 37 \<and> c = 100 then dec_int (low_int32 k) @ format_text fs as else p # format_text (c # fs) (FInt k # as))"
| "format_text fs as = fs"

definition FORMAT_BUF :: nat where "FORMAT_BUF = 4096"

definition Format :: "wstr \<Rightarrow> format_arg list \<Rightarrow> wstr res" where
  "Format format args =
     (let text = format_text format args in if length text < FORMAT_BUF then Inr text else Inl OutOfBounds)"

section \<open>Data types\<close>

datatype data_type = DT_None | TinyInt | SmallInt | DTInt | Real | DateTime | Float | Bit | Numeric | BigInt
  | VarBinary | Varchar | Binary | NVarChar

fun DataType_code :: "data_type \<Rightarrow> int" where
  "DataType_code DT_None = 0" | "DataType_code TinyInt = 48" | "DataType_code SmallInt = 52"
| "DataType_code DTInt = 56" | "DataType_code Real = 59" | "DataType_code DateTime = 61"
| "DataType_code Float = 62" | "DataType_code Bit = 104" | "DataType_code Numeric = 108"
| "DataType_code BigInt = 127" | "DataType_code VarBinary = 165" | "DataType_code Varchar = 167"
| "DataType_code Binary = 173" | "DataType_code NVarChar = 231"

fun DataType2String :: "data_type \<Rightarrow> wstr" where
  "DataType2String TinyInt = wide ''TinyInt''"
| "DataType2String SmallInt = wide ''SmallInt''"
| "DataType2String DTInt = wide ''Int''"
| "DataType2String Real = wide ''Real''"
| "DataType2String DateTime = wide ''DateTime''"
| "DataType2String Float = wide ''Float''"
| "DataType2String Bit = wide ''Bit''"
| "DataType2String Numeric = wide ''Numeric''"
| "DataType2String BigInt = wide ''BigInt''"
| "DataType2String VarBinary = wide ''VarBinary''"
| "DataType2String Varchar = wide ''Varchar''"
| "DataType2String Binary = wide ''Binary''"
| "DataType2String NVarChar = wide ''NVarChar''"
| "DataType2String _ = wide ''None''"

text \<open>
  The pattern \<open>([a-z]+)(\((max|\d+)\))?\<close> matched against a whole string, with its groups 1 and 3. A
  parenthesis is not a letter, so the first group takes all leading letters.
\<close>

definition match_type :: "wstr \<Rightarrow> (wstr \<times> wstr option) option" where
  "match_type s =
     (let name = takeWhile is_lower s; rest = dropWhile is_lower s in
      if name = [] then None
      else if rest = [] then Some (name, None)
      else if hd rest = 40 \<and> tl rest \<noteq> [] \<and> last rest = 41 then
        let arg = butlast (tl rest) in
        if arg = wide ''max'' \<or> (arg \<noteq> [] \<and> list_all is_digit arg) then Some (name, Some arg) else None
      else None)"

definition type_names :: "(wstr \<times> data_type) list" where
  "type_names = [(wide ''TinyInt'', TinyInt), (wide ''SmallInt'', SmallInt), (wide ''Int'', DTInt), (wide ''Real'', Real),
     (wide ''DateTime'', DateTime), (wide ''Float'', Float), (wide ''Bit'', Bit), (wide ''Numeric'', Numeric),
     (wide ''BigInt'', BigInt), (wide ''VarBinary'', VarBinary), (wide ''Varchar'', Varchar), (wide ''Binary'', Binary),
     (wide ''NVarChar'', NVarChar)]"

text \<open>The result and the new value of the output argument \<open>maxLen\<close>.\<close>

definition String2DataType :: "wstr \<Rightarrow> int \<Rightarrow> data_type \<times> int" where
  "String2DataType str maxLen =
     (case match_type (c_str str) of
        None \<Rightarrow> (DT_None, maxLen)
      | Some (name, arg) \<Rightarrow>
          ((case find (\<lambda>(n, _). wcsicmp_eq name n) type_names of None \<Rightarrow> DT_None | Some (_, t) \<Rightarrow> t),
           (case arg of None \<Rightarrow> 0 | Some a \<Rightarrow> if wcsicmp_eq a (wide ''max'') then -1 else wtoi a)))"

text \<open>\<open>isspace\<close> is defined on the values of an unsigned char.\<close>

definition isspace :: "wchar \<Rightarrow> bool" where
  "isspace ch \<longleftrightarrow> ch = 32 \<or> (9 \<le> ch \<and> ch \<le> 13)"

definition RemoveWhiteSpace :: "wstr \<Rightarrow> wstr res" where
  "RemoveWhiteSpace str =
     (if \<exists>ch \<in> set str. 255 < ch then Inl OutOfBounds else Inr (filter (\<lambda>ch. \<not> isspace ch) str))"

section \<open>Columns, indexes, tables\<close>

record column =
  co_name :: wstr
  co_columnId :: int
  co_type :: data_type
  co_typeText :: wstr
  co_maxLength :: int
  co_nullable :: bool
  co_identity :: bool
  co_seedValue :: int
  co_incrementValue :: int
  co_default :: wstr
  co_defaultConstraintName :: wstr

definition Column_new :: column where
  "Column_new = \<lparr>co_name = [], co_columnId = 0, co_type = DT_None, co_typeText = [], co_maxLength = 0, co_nullable = False,
     co_identity = False, co_seedValue = 0, co_incrementValue = 0, co_default = [], co_defaultConstraintName = []\<rparr>"

definition Column_CreateText :: "column \<Rightarrow> wstr res" where
  "Column_CreateText c =
     bindR (if co_identity c
            then Format (wide ''IDENTITY(%d, %d)'') [FInt (co_seedValue c), FInt (co_incrementValue c)]
            else Inr []) (\<lambda>identity.
     Format (wide ''[%s] %s %s %s'')
       [FStr (co_name c), FStr (co_typeText c), FStr (if co_nullable c then wide ''NULL'' else wide ''NOT NULL''), FStr identity])"

datatype index_type = Clustered | NonClustered

record index =
  ix_name :: wstr
  ix_indexId :: int
  ix_type :: index_type
  ix_primaryKey :: bool
  ix_uniqueConstraint :: bool
  ix_columns :: "column list"

definition Index_new :: index where
  "Index_new = \<lparr>ix_name = [], ix_indexId = 0, ix_type = NonClustered, ix_primaryKey = False, ix_uniqueConstraint = False,
     ix_columns = []\<rparr>"

definition GetUniqueName :: "index \<Rightarrow> wstr" where
  "GetUniqueName x =
     (if ix_primaryKey x then wide ''PK '' else wide '' '') @ (if ix_uniqueConstraint x then wide ''UK '' else wide '' '') @
     (if ix_type x = Clustered then wide ''C '' else wide ''NC '') @
     concat (map (\<lambda>c. wide ''*'' @ co_name c @ wide '' '') (ix_columns x))"

definition CreateName :: "index \<Rightarrow> wstr \<Rightarrow> wstr" where
  "CreateName x tableName = wide ''IX_'' @ tableName @ concat (map (\<lambda>c. wide ''_'' @ co_name c) (ix_columns x))"

definition GetTypeText :: "index \<Rightarrow> wstr" where
  "GetTypeText x = (if ix_type x = Clustered then wide ''CLUSTERED'' else wide ''NONCLUSTERED'')"

definition GetKeyText :: "index \<Rightarrow> wstr" where
  "GetKeyText x = (if ix_primaryKey x then wide ''PRIMARY KEY'' else if ix_uniqueConstraint x then wide ''UNIQUE'' else [])"

text \<open>The loop of \<open>CreateColumnsText\<close>, with its counter and the text so far.\<close>

fun columns_text :: "nat \<Rightarrow> column list \<Rightarrow> wstr \<Rightarrow> wstr res" where
  "columns_text i [] ret = Inr ret"
| "columns_text i (c # cs) ret =
     bindR (Format (wide ''[%s]'') [FStr (co_name c)]) (\<lambda>t.
       columns_text (i + 1) cs ((if 0 < i then ret @ wide '', '' else ret) @ t))"

definition CreateColumnsText :: "index \<Rightarrow> wstr res" where
  "CreateColumnsText x = columns_text 0 (ix_columns x) []"

definition DependsOn :: "wstr \<Rightarrow> index \<Rightarrow> bool" where
  "DependsOn columnName x = list_ex (\<lambda>c. co_name c = columnName) (ix_columns x)"

record tbl =
  tl_objectId :: int
  tl_name :: wstr
  tl_columns :: "column list"
  tl_indexes :: "index list"

definition FindColumn :: "wstr \<Rightarrow> tbl \<Rightarrow> column option" where
  "FindColumn columnName t = find (\<lambda>c. co_name c = columnName) (tl_columns t)"

section \<open>Stored procedures\<close>

record param =
  pa_name :: wstr
  pa_type :: wstr

record procedure =
  pr_name :: wstr
  pr_fullBody :: wstr
  pr_body :: wstr
  pr_parameters :: "param list"

fun param_string :: "param list \<Rightarrow> wstr res" where
  "param_string [] = Inr []"
| "param_string [p] = Format (9 # wide ''%s %s'') [FStr (pa_name p), FStr (pa_type p)]"
| "param_string (p # ps) =
     bindR (Format (9 # wide ''%s %s,'' @ [10]) [FStr (pa_name p), FStr (pa_type p)]) (\<lambda>s.
       bindR (param_string ps) (\<lambda>str. Inr (s @ str)))"

definition GenerateParamString :: "procedure \<Rightarrow> wstr res" where
  "GenerateParamString p = param_string (pr_parameters p)"

definition GenerateCreateQuery :: "procedure \<Rightarrow> wstr res" where
  "GenerateCreateQuery p =
     bindR (GenerateParamString p) (\<lambda>paramString.
       Format (wide ''CREATE PROCEDURE [dbo].[%s] %s AS BEGIN %s END'') [FStr (pr_name p), FStr paramString, FStr (pr_body p)])"

definition GenerateAlterQuery :: "procedure \<Rightarrow> wstr res" where
  "GenerateAlterQuery p =
     bindR (GenerateParamString p) (\<lambda>paramString.
       Format (wide ''ALTER PROCEDURE [dbo].[%s] %s AS'' @ 9 # wide ''BEGIN %s END'')
         [FStr (pr_name p), FStr paramString, FStr (pr_body p)])"

section \<open>Lemmas\<close>

lemma wide_simps: "wide [] = []" "wide (c # s) = of_char c # wide s"
  by (simp_all add: wide_def)

lemma digits_value_snoc: "digits_value (s @ [ch]) = 10 * digits_value s + (unat ch - 48)"
  by (simp add: digits_value_def)

lemma digit_char:
  assumes "n < 10"
  shows "unat (48 + of_nat n :: wchar) = 48 + n" "is_digit (48 + of_nat n)"
proof -
  have "unat (of_nat (48 + n) :: wchar) = 48 + n" using assms by (simp add: unat_of_nat del: of_nat_add)
  then show u: "unat (48 + of_nat n :: wchar) = 48 + n" by simp
  show "is_digit (48 + of_nat n)" using assms by (simp add: is_digit_def word_le_nat_alt u)
qed

lemma dec_nat_digits: "list_all is_digit (dec_nat n) \<and> dec_nat n \<noteq> [] \<and> digits_value (dec_nat n) = n"
proof (induction n rule: dec_nat.induct)
  case (1 n)
  show ?case
  proof (cases "n < 10")
    case True
    then show ?thesis by (simp add: digit_char digits_value_def)
  next
    case False
    then show ?thesis
      using 1 by (subst (1 2 3) dec_nat.simps) (simp add: digits_value_snoc digit_char del: dec_nat.simps)
  qed
qed

lemma to_lower_idem: "map to_lower (map to_lower s) = map to_lower s"
  by (induction s) (auto simp: to_lower_def word_le_nat_alt unat_word_ariths)

lemma type_names_eq: "type_names = map (\<lambda>t. (DataType2String t, t)) [TinyInt, SmallInt, DTInt, Real, DateTime, Float, Bit, Numeric, BigInt, VarBinary, Varchar, Binary, NVarChar]"
  by (simp add: type_names_def)

lemma lower_names:
  "map (\<lambda>t. map to_lower (DataType2String t)) [TinyInt, SmallInt, DTInt, Real, DateTime, Float, Bit, Numeric, BigInt, VarBinary, Varchar, Binary, NVarChar] =
    [[116, 105, 110, 121, 105, 110, 116], [115, 109, 97, 108, 108, 105, 110, 116], [105, 110, 116], [114, 101, 97, 108], [100, 97, 116, 101, 116, 105, 109, 101], [102, 108, 111, 97, 116], [98, 105, 116], [110, 117, 109, 101, 114, 105, 99], [98, 105, 103, 105, 110, 116], [118, 97, 114, 98, 105, 110, 97, 114, 121], [118, 97, 114, 99, 104, 97, 114], [98, 105, 110, 97, 114, 121], [110, 118, 97, 114, 99, 104, 97, 114]]"
  by (simp add: wide_simps to_lower_def)

lemma find_map: "find P (map f xs) = map_option f (find (\<lambda>x. P (f x)) xs)"
  by (induction xs) simp_all

lemma find_distinct:
  "distinct (map f xs) \<Longrightarrow> x \<in> set xs \<Longrightarrow> find (\<lambda>y. f x = f y) xs = Some x"
  by (induction xs) (auto simp: image_iff)

lemma type_name_ok:
  assumes "t \<noteq> DT_None"
  shows "\<forall>ch \<in> set (map to_lower (DataType2String t)). is_lower ch \<and> ch \<noteq> 0"
    "DataType2String t \<noteq> []" "\<exists>ch \<in> set (DataType2String t). \<not> is_lower ch"
    "find (\<lambda>(n, _). wcsicmp_eq (map to_lower (DataType2String t)) n) type_names = Some (DataType2String t, t)"
proof -
  let ?ts = "[TinyInt, SmallInt, DTInt, Real, DateTime, Float, Bit, Numeric, BigInt, VarBinary, Varchar, Binary, NVarChar]"
  have t: "t \<in> set ?ts" using assms by (cases t) simp_all
  have "map to_lower (DataType2String t) \<in> set (map (\<lambda>t. map to_lower (DataType2String t)) ?ts)" using t by (simp only: set_map image_eqI)
  then show "\<forall>ch \<in> set (map to_lower (DataType2String t)). is_lower ch \<and> ch \<noteq> 0"
    unfolding lower_names by (auto simp: is_lower_def)
  show "DataType2String t \<noteq> []" "\<exists>ch \<in> set (DataType2String t). \<not> is_lower ch"
    using assms by (cases t; simp add: wide_simps is_lower_def)+
  have "distinct (map (\<lambda>t. map to_lower (DataType2String t)) ?ts)" unfolding lower_names by simp
  then have "find (\<lambda>u. map to_lower (DataType2String t) = map to_lower (DataType2String u)) ?ts = Some t"
    using find_distinct [OF _ t, of "\<lambda>t. map to_lower (DataType2String t)"] by blast
  then show "find (\<lambda>(n, _). wcsicmp_eq (map to_lower (DataType2String t)) n) type_names = Some (DataType2String t, t)"
    unfolding type_names_eq wcsicmp_eq_def to_lower_idem find_map by simp
qed

lemma match_type_name:
  assumes "\<forall>ch \<in> set name. is_lower ch" "name \<noteq> []"
  shows "match_type name = Some (name, None)"
    "arg = wide ''max'' \<or> (arg \<noteq> [] \<and> list_all is_digit arg) \<Longrightarrow> match_type (name @ 40 # arg @ [41]) = Some (name, Some arg)"
proof -
  have whole: "takeWhile is_lower name = name" "dropWhile is_lower name = []" using assms(1) by simp_all
  show "match_type name = Some (name, None)" using assms(2) by (simp add: match_type_def Let_def whole)
  have "\<not> is_lower 40" by (simp add: is_lower_def)
  then have "takeWhile is_lower (name @ 40 # arg @ [41]) = name" "dropWhile is_lower (name @ 40 # arg @ [41]) = 40 # arg @ [41]"
    using assms(1) by simp_all
  then show "arg = wide ''max'' \<or> (arg \<noteq> [] \<and> list_all is_digit arg) \<Longrightarrow> match_type (name @ 40 # arg @ [41]) = Some (name, Some arg)"
    using assms(2) by (simp add: match_type_def Let_def butlast_append)
qed

lemma c_str_id: "0 \<notin> set s \<Longrightarrow> c_str s = s"
  by (auto simp: c_str_def takeWhile_eq_all_conv)

lemma digits_no_max:
  assumes "list_all is_digit s" "s \<noteq> []"
  shows "\<not> wcsicmp_eq s (wide ''max'')" "0 \<notin> set s"
proof -
  have low: "is_digit ch \<Longrightarrow> to_lower ch \<noteq> 109" for ch
    by (auto simp: is_digit_def to_lower_def word_le_nat_alt word_unat_eq_iff)
  obtain ch cs where s: "s = ch # cs" using assms(2) by (cases s) auto
  have "to_lower ch \<noteq> 109" using low assms(1) s by simp
  moreover have "map to_lower (wide ''max'') = [109, 97, 120]" by (simp add: wide_simps to_lower_def)
  ultimately show "\<not> wcsicmp_eq s (wide ''max'')" using s by (simp add: wcsicmp_eq_def)
  show "0 \<notin> set s" using assms(1) by (auto simp: list_all_iff is_digit_def)
qed

text \<open>C39: Names of data types. The name of every data type in lower case, alone or with a length in parentheses,
  is recognised as this type with this length, and with \<open>max\<close> as the length -1. The name as
  \<open>DataType2String\<close> itself writes it is not recognised, because the pattern has no capital letters.\<close>

theorem type_names_recognised:
  assumes "t \<noteq> DT_None"
  shows "String2DataType (map to_lower (DataType2String t)) m = (t, 0) \<and>
    String2DataType (map to_lower (DataType2String t) @ wide ''('' @ dec_nat n @ wide '')'') m = (t, min (int n) INT32_MAX) \<and>
    String2DataType (map to_lower (DataType2String t) @ wide ''(max)'') m = (t, -1) \<and>
    String2DataType (DataType2String t) m = (DT_None, m)"
proof -
  let ?name = "map to_lower (DataType2String t)"
  have name: "\<forall>ch \<in> set ?name. is_lower ch" "?name \<noteq> []" "0 \<notin> set ?name" using type_name_ok(1,2) [OF assms] by auto
  have arg: "String2DataType (?name @ 40 # a @ [41]) m = (t, if wcsicmp_eq a (wide ''max'') then -1 else wtoi a)"
    if a: "a = wide ''max'' \<or> (a \<noteq> [] \<and> list_all is_digit a)" "0 \<notin> set a" for a
    using match_type_name(2) [OF name(1,2) a(1)] type_name_ok(4) [OF assms] name(3) a(2)
    by (simp add: String2DataType_def c_str_id)
  note dec = dec_nat_digits [of n]
  have "String2DataType ?name m = (t, 0)"
    using match_type_name(1) [OF name(1,2)] type_name_ok(4) [OF assms] name(3) by (simp add: String2DataType_def c_str_id)
  moreover have "String2DataType (?name @ wide ''('' @ dec_nat n @ wide '')'') m = (t, min (int n) INT32_MAX)"
    using arg [of "dec_nat n"] dec digits_no_max [of "dec_nat n"] by (simp add: wide_simps wtoi_def del: dec_nat.simps)
  moreover have "String2DataType (?name @ wide ''(max)'') m = (t, -1)"
    using arg [of "wide ''max''"] by (simp add: wide_simps wcsicmp_eq_def)
  moreover have "String2DataType (DataType2String t) m = (DT_None, m)"
    using assms by (cases t; simp add: wide_simps String2DataType_def match_type_def c_str_def is_lower_def Let_def)
  ultimately show ?thesis by blast
qed

theorem type_names_recognised_witness:
  "String2DataType (wide ''nvarchar(30)'') 7 = (NVarChar, 30)"
proof -
  have "map to_lower (DataType2String NVarChar) @ wide ''('' @ dec_nat 30 @ wide '')'' = wide ''nvarchar(30)''"
    by (simp add: wide_simps to_lower_def)
  then show ?thesis using type_names_recognised [of NVarChar 7 30] by (simp add: INT32_MAX_def)
qed

section \<open>Index names\<close>

definition index_key :: "index \<Rightarrow> bool \<times> bool \<times> bool \<times> wstr list" where
  "index_key x = (ix_primaryKey x, ix_uniqueConstraint x, ix_type x = Clustered, map co_name (ix_columns x))"

lemma names_text_inj:
  assumes "\<forall>n \<in> set xs. 32 \<notin> set n" "\<forall>n \<in> set ys. 32 \<notin> set n"
    "concat (map (\<lambda>n. 42 # n @ [32]) xs) = concat (map (\<lambda>n. 42 # n @ [32 :: wchar]) ys)"
  shows "xs = ys"
  using assms
proof (induction xs arbitrary: ys)
  case Nil
  then show ?case by (cases ys) auto
next
  case (Cons x xs)
  then obtain y ys' where ys: "ys = y # ys'" by (cases ys) auto
  have eq: "x @ 32 # concat (map (\<lambda>n. 42 # n @ [32]) xs) = y @ 32 # concat (map (\<lambda>n. 42 # n @ [32]) ys')"
    using Cons.prems(3) ys by simp
  have "takeWhile (\<lambda>ch. ch \<noteq> 32) (z @ 32 # zs) = z" if "32 \<notin> set z" for z zs :: wstr
    using that by (subst takeWhile_append2) auto
  then have "x = y" using eq Cons.prems(1,2) ys by (metis list.set_intros(1))
  then show ?case using Cons.IH [of ys'] Cons.prems ys eq by simp
qed

text \<open>C40: Two indexes whose column names contain no spaces have the same unique name exactly when they agree in
  being a primary key, in being unique, in being clustered, and in the names of their columns in order.\<close>

theorem unique_name_identifies:
  assumes "\<forall>c \<in> set (ix_columns x) \<union> set (ix_columns y). 32 \<notin> set (co_name c)"
  shows "GetUniqueName x = GetUniqueName y \<longleftrightarrow> index_key x = index_key y"
proof -
  have cols: "concat (map (\<lambda>c. wide ''*'' @ co_name c @ wide '' '') cs) = concat (map (\<lambda>n. 42 # n @ [32]) (map co_name cs))" for cs
    by (simp add: wide_simps comp_def)
  have "index_key x = index_key y" if eq: "GetUniqueName x = GetUniqueName y"
  proof -
    have *: "ix_primaryKey x = ix_primaryKey y \<and> ix_uniqueConstraint x = ix_uniqueConstraint y \<and>
      (ix_type x = Clustered) = (ix_type y = Clustered) \<and>
      concat (map (\<lambda>n. 42 # n @ [32]) (map co_name (ix_columns x))) = concat (map (\<lambda>n. 42 # n @ [32]) (map co_name (ix_columns y)))"
      using eq unfolding GetUniqueName_def cols by (simp add: wide_simps split: if_splits)
    have "map co_name (ix_columns x) = map co_name (ix_columns y)"
      by (rule names_text_inj) (use * assms in auto)
    then show ?thesis using * by (simp add: index_key_def)
  qed
  moreover have "GetUniqueName x = GetUniqueName y" if "index_key x = index_key y"
    using that unfolding GetUniqueName_def cols index_key_def by (simp del: map_map)
  ultimately show ?thesis by blast
qed

theorem unique_name_identifies_witness:
  "GetUniqueName (Index_new\<lparr>ix_columns := [Column_new\<lparr>co_name := wide ''ab''\<rparr>]\<rparr>) \<noteq>
   GetUniqueName (Index_new\<lparr>ix_columns := [Column_new\<lparr>co_name := wide ''a''\<rparr>, Column_new\<lparr>co_name := wide ''b''\<rparr>]\<rparr>)"
  using unique_name_identifies [of "Index_new\<lparr>ix_columns := [Column_new\<lparr>co_name := wide ''ab''\<rparr>]\<rparr>"
      "Index_new\<lparr>ix_columns := [Column_new\<lparr>co_name := wide ''a''\<rparr>, Column_new\<lparr>co_name := wide ''b''\<rparr>]\<rparr>"]
  by (simp add: wide_simps index_key_def Index_new_def Column_new_def)

end
