(* ===== verification/Interfaces.thy ===== *)
theory Interfaces
  imports Prelude
begin

text \<open>
  The contracts between components, as locales. Each one fixes the operations a client calls
  and assumes the laws the provider promises; the providers interpret them on their own
  definitions, and the clients prove their lemmas inside them.
\<close>

section \<open>A receive buffer, seen by the session\<close>

text \<open>
  \<open>pending b\<close> is the data received and not yet consumed, \<open>room b\<close> the number of bytes the next
  receive may deliver. Delivering appends, consuming drops a prefix, and tidying keeps the
  data and makes room for a full quantum again, as long as not more than \<open>slack\<close> bytes are
  pending.
\<close>

locale byte_stream =
  fixes inv :: "'b \<Rightarrow> bool"
    and pending :: "'b \<Rightarrow> byte list"
    and room :: "'b \<Rightarrow> int"
    and deliver :: "byte list \<Rightarrow> 'b \<Rightarrow> bool \<times> 'b"
    and consume :: "int \<Rightarrow> 'b \<Rightarrow> bool \<times> 'b"
    and tidy :: "'b \<Rightarrow> 'b res"
    and quantum :: int
    and slack :: int
  assumes deliver_law: "inv b \<Longrightarrow> int (length bs) \<le> room b \<Longrightarrow>
      \<exists>b'. deliver bs b = (True, b') \<and> inv b' \<and> pending b' = pending b @ bs"
    and consume_law: "inv b \<Longrightarrow> 0 \<le> n \<Longrightarrow> n \<le> int (length (pending b)) \<Longrightarrow>
      \<exists>b'. consume n b = (True, b') \<and> inv b' \<and> pending b' = drop (nat n) (pending b)"
    and tidy_law: "inv b \<Longrightarrow> int (length (pending b)) \<le> slack \<Longrightarrow>
      \<exists>b'. tidy b = Inr b' \<and> inv b' \<and> pending b' = pending b \<and> quantum \<le> room b'"

context byte_stream
begin

text \<open>One round of the session: a receive completes, the content consumes \<open>n\<close> bytes, the buffer is tidied.\<close>

lemma receive_cycle:
  assumes "inv b" "int (length bs) \<le> room b" "0 \<le> n" "n \<le> int (length (pending b @ bs))"
    and "int (length (pending b @ bs)) - n \<le> slack"
  obtains b1 b2 b3 where "deliver bs b = (True, b1)" "inv b1" "pending b1 = pending b @ bs"
    and "consume n b1 = (True, b2)" "tidy b2 = Inr b3" "inv b3"
    and "pending b3 = drop (nat n) (pending b @ bs)" "quantum \<le> room b3"
proof -
  obtain b1 where b1: "deliver bs b = (True, b1)" "inv b1" "pending b1 = pending b @ bs"
    using deliver_law assms by blast
  obtain b2 where b2: "consume n b1 = (True, b2)" "inv b2" "pending b2 = drop (nat n) (pending b @ bs)"
    using consume_law [of b1 n] b1 assms(3,4) by auto
  have "int (length (pending b2)) \<le> slack"
    using b2(3) assms(3-5) by simp
  then obtain b3 where "tidy b2 = Inr b3" "inv b3" "pending b3 = pending b2" "quantum \<le> room b3"
    using tidy_law b2(2) by blast
  then show thesis using that b1 b2 by simp
qed

end

section \<open>A first-in first-out queue, seen by its users\<close>

text \<open>
  \<open>contents q\<close> is what the queue holds, oldest first. Taking answers with the element and a flag that
  says whether the queue was empty.
\<close>

locale fifo =
  fixes contents :: "'q \<Rightarrow> 'a list"
    and put :: "'a \<Rightarrow> 'q \<Rightarrow> 'q"
    and take_first :: "'q \<Rightarrow> ('a \<times> bool) \<times> 'q"
  assumes put_law: "contents (put x q) = contents q @ [x]"
    and take_empty: "contents q = [] \<Longrightarrow> \<exists>x. take_first q = ((x, True), q)"
    and take_first_law: "contents q = x # xs \<Longrightarrow>
      \<exists>q'. take_first q = ((x, False), q') \<and> contents q' = xs"

context fifo
begin

lemma put_all: "contents (fold put xs q) = contents q @ xs"
  by (induction xs arbitrary: q) (simp_all add: put_law)

text \<open>What is put into an empty queue is what is taken out next.\<close>

lemma take_after_puts:
  assumes "contents q = []"
  obtains q' where "take_first (fold put (x # xs) q) = ((x, False), q')" "contents q' = xs"
  using take_first_law [of "fold put (x # xs) q" x xs] put_all [of "x # xs" q] assms by auto

lemma take_not_empty: "take_first q = ((x, False), q') \<Longrightarrow> contents q = x # contents q'"
  using take_empty [of q] take_first_law [of q] by (cases "contents q") force+

end

end
