(* ===== verification/LockQueue.thy ===== *)
theory LockQueue
  imports Interfaces "HOL-Library.Multiset"
begin

text \<open>
  The locked containers of \<open>ServerCore/LockQueue.h\<close>. Every method takes the write lock for its whole
  body, so that each is one atomic operation. The element type of the template is a type variable;
  \<open>dflt\<close> is its value \<open>T()\<close> and \<open>truth\<close> its conversion to \<open>bool\<close>.
\<close>

section \<open>The queue\<close>

record 'a lock_queue =
  lq_items :: "'a list"

definition LockQueue_new :: "'a lock_queue" where
  "LockQueue_new = \<lparr>lq_items = []\<rparr>"

definition LockQueue_Push :: "'a \<Rightarrow> 'a lock_queue \<Rightarrow> 'a lock_queue" where
  "LockQueue_Push item q = q\<lparr>lq_items := lq_items q @ [item]\<rparr>"

definition LockQueue_Front :: "'a \<Rightarrow> 'a lock_queue \<Rightarrow> 'a \<times> bool" where
  "LockQueue_Front dflt q = (case lq_items q of [] \<Rightarrow> (dflt, True) | x # _ \<Rightarrow> (x, False))"

definition LockQueue_Pop :: "'a \<Rightarrow> 'a lock_queue \<Rightarrow> 'a \<times> 'a lock_queue" where
  "LockQueue_Pop dflt q =
     (case lq_items q of [] \<Rightarrow> (dflt, q) | ret # rest \<Rightarrow> (ret, q\<lparr>lq_items := rest\<rparr>))"

text \<open>The overload with the output parameter \<open>isEmpty\<close>.\<close>

definition LockQueue_PopOut :: "'a \<Rightarrow> 'a lock_queue \<Rightarrow> ('a \<times> bool) \<times> 'a lock_queue" where
  "LockQueue_PopOut dflt q =
     (case lq_items q of [] \<Rightarrow> ((dflt, True), q) | ret # rest \<Rightarrow> ((ret, False), q\<lparr>lq_items := rest\<rparr>))"

text \<open>
  The loop of \<open>PopAll\<close> stops at the first element that converts to false, which it has already taken
  out of the queue.
\<close>

function LockQueue_PopAll ::
  "'a \<Rightarrow> ('a \<Rightarrow> bool) \<Rightarrow> 'a list \<Rightarrow> 'a lock_queue \<Rightarrow> 'a list \<times> 'a lock_queue" where
  "LockQueue_PopAll dflt truth items q =
     (case LockQueue_PopOut dflt q of ((item, isEmpty), q') \<Rightarrow>
        if \<not> truth item then (items, q')
        else if isEmpty then (items, q')
        else LockQueue_PopAll dflt truth (items @ [item]) q')"
  by auto
termination
  by (relation "measure (\<lambda>(_, _, _, q). length (lq_items q))")
    (auto simp: LockQueue_PopOut_def split: list.splits)

declare LockQueue_PopAll.simps [simp del]

definition LockQueue_Size :: "'a lock_queue \<Rightarrow> int" where
  "LockQueue_Size q = int (length (lq_items q))"

definition LockQueue_Clear :: "'a lock_queue \<Rightarrow> 'a lock_queue" where
  "LockQueue_Clear q = q\<lparr>lq_items := []\<rparr>"

interpretation lq: fifo lq_items LockQueue_Push "LockQueue_PopOut dflt"
  by unfold_locales (auto simp: LockQueue_Push_def LockQueue_PopOut_def)

lemma LockQueue_items [simp]:
  "lq_items LockQueue_new = []"
  "lq_items (LockQueue_Push x q) = lq_items q @ [x]"
  "lq_items (LockQueue_Clear q) = []"
  by (simp_all add: LockQueue_new_def LockQueue_Push_def LockQueue_Clear_def)

lemma LockQueue_PopAll_eq:
  "LockQueue_PopAll dflt truth acc q =
     (acc @ takeWhile truth (lq_items q), q\<lparr>lq_items := drop 1 (dropWhile truth (lq_items q))\<rparr>)"
proof (induction "lq_items q" arbitrary: acc q)
  case Nil
  then show ?case
    by (subst LockQueue_PopAll.simps) (simp add: LockQueue_PopOut_def)
next
  case (Cons x xs)
  have "LockQueue_PopOut dflt q = ((x, False), q\<lparr>lq_items := xs\<rparr>)"
    using Cons.hyps(2) [symmetric] by (simp add: LockQueue_PopOut_def)
  then show ?case
    using Cons.hyps(1) [of "q\<lparr>lq_items := xs\<rparr>" "acc @ [x]"] Cons.hyps(2) [symmetric]
    by (subst LockQueue_PopAll.simps) simp
qed

text \<open>When every element converts to true, \<open>PopAll\<close> empties the queue and keeps the order.\<close>

lemma LockQueue_PopAll_all:
  "\<forall>x \<in> set (lq_items q). truth x \<Longrightarrow>
     LockQueue_PopAll dflt truth [] q = (lq_items q, q\<lparr>lq_items := []\<rparr>)"
  by (simp add: LockQueue_PopAll_eq dropWhile_eq_Nil_conv [THEN iffD2])

section \<open>The priority queue\<close>

text \<open>\<open>std::priority_queue\<close> with the order of its element type: \<open>top\<close> is a largest element.\<close>

record 'a prio_queue =
  pq_items :: "'a multiset"

definition PriorityLockQueue_new :: "'a prio_queue" where
  "PriorityLockQueue_new = \<lparr>pq_items = {#}\<rparr>"

definition PriorityLockQueue_Push :: "'a \<Rightarrow> 'a prio_queue \<Rightarrow> 'a prio_queue" where
  "PriorityLockQueue_Push item q = q\<lparr>pq_items := add_mset item (pq_items q)\<rparr>"

definition PriorityLockQueue_Top :: "'a \<Rightarrow> 'a :: linorder prio_queue \<Rightarrow> 'a" where
  "PriorityLockQueue_Top dflt q = (if pq_items q = {#} then dflt else Max_mset (pq_items q))"

definition PriorityLockQueue_Pop :: "'a \<Rightarrow> 'a :: linorder prio_queue \<Rightarrow> 'a \<times> 'a prio_queue" where
  "PriorityLockQueue_Pop dflt q =
     (if pq_items q = {#} then (dflt, q)
      else let ret = Max_mset (pq_items q) in (ret, q\<lparr>pq_items := pq_items q - {#ret#}\<rparr>))"

text \<open>\<open>PopAll\<close> runs until \<open>Pop\<close> answers an element that converts to false; \<open>None\<close> when it never does.\<close>

partial_function (option) PriorityLockQueue_PopAll ::
  "'a \<Rightarrow> ('a \<Rightarrow> bool) \<Rightarrow> 'a list \<Rightarrow> 'a :: linorder prio_queue \<Rightarrow> ('a list \<times> 'a prio_queue) option" where
  "PriorityLockQueue_PopAll dflt truth items q =
     (case PriorityLockQueue_Pop dflt q of (item, q') \<Rightarrow>
        if \<not> truth item then Some (items, q')
        else PriorityLockQueue_PopAll dflt truth (items @ [item]) q')"

definition PriorityLockQueue_Clear :: "'a prio_queue \<Rightarrow> 'a prio_queue" where
  "PriorityLockQueue_Clear q = q\<lparr>pq_items := {#}\<rparr>"

lemma PriorityLockQueue_items [simp]:
  "pq_items PriorityLockQueue_new = {#}"
  "pq_items (PriorityLockQueue_Push x q) = add_mset x (pq_items q)"
  "pq_items (PriorityLockQueue_Clear q) = {#}"
  by (simp_all add: PriorityLockQueue_new_def PriorityLockQueue_Push_def PriorityLockQueue_Clear_def)

text \<open>\<open>PopAll\<close> returns, empties the queue and hands out the elements largest first, if \<open>T()\<close> is false.\<close>

lemma PriorityLockQueue_PopAll_returns:
  assumes "\<not> truth dflt" "\<forall>x \<in># pq_items q. truth x"
  shows "\<exists>xs. PriorityLockQueue_PopAll dflt truth acc q = Some (acc @ xs, q\<lparr>pq_items := {#}\<rparr>) \<and>
     mset xs = pq_items q \<and> sorted_wrt (\<ge>) xs"
  using assms(2)
proof (induction "size (pq_items q)" arbitrary: acc q)
  case 0
  then show ?case
    using assms(1) by (subst PriorityLockQueue_PopAll.simps) (simp add: PriorityLockQueue_Pop_def)
next
  case (Suc n)
  let ?m = "Max_mset (pq_items q)" and ?q = "q\<lparr>pq_items := pq_items q - {#Max_mset (pq_items q)#}\<rparr>"
  have ne: "pq_items q \<noteq> {#}" using Suc.hyps(2) by auto
  then have m: "?m \<in># pq_items q" by simp
  have "n = size (pq_items ?q)" using Suc.hyps(2) m by (simp add: size_Diff_singleton)
  moreover have "\<forall>x \<in># pq_items ?q. truth x" using Suc.prems by (auto dest: in_diffD)
  ultimately obtain xs where xs:
    "PriorityLockQueue_PopAll dflt truth (acc @ [?m]) ?q = Some ((acc @ [?m]) @ xs, ?q\<lparr>pq_items := {#}\<rparr>)"
    "mset xs = pq_items ?q" "sorted_wrt (\<ge>) xs"
    using Suc.hyps(1) [of ?q "acc @ [?m]"] by blast
  have "y \<le> ?m" if "y \<in> set xs" for y
  proof -
    have "y \<in># pq_items ?q" using that by (simp flip: xs(2))
    then have "y \<in># pq_items q" by (auto dest: in_diffD)
    then show ?thesis by simp
  qed
  moreover have "PriorityLockQueue_PopAll dflt truth acc q = Some (acc @ ?m # xs, q\<lparr>pq_items := {#}\<rparr>)"
    using ne m Suc.prems xs(1) by (subst PriorityLockQueue_PopAll.simps) (simp add: PriorityLockQueue_Pop_def Let_def)
  ultimately show ?case
    using xs(2,3) m by (intro exI [of _ "?m # xs"]) simp
qed

end
