(* ===== verification/JobQueue.thy ===== *)
theory JobQueue
  imports LockQueue
begin

text \<open>
  Jobs and job queues (\<open>ServerCore/Job.h\<close>, \<open>ServerCore/JobQueue.h\<close>, \<open>ServerCore/JobQueue.cpp\<close>) and the
  macro \<open>RESPONSE_END\<close> of \<open>Server/PacketRespondent.h\<close>, which runs every packet's response as a job. A
  shared pointer is an address, 0 when null; a callback is a code of type \<open>'f\<close> that \<open>run\<close> executes.
  The clock is the parameter \<open>clock\<close>, whose \<open>n\<close>th value is what the \<open>n\<close>th call of \<open>GetTickCount64\<close>
  returns.

  The first part is what one thread does; it shows that a response runs exactly once, before the
  packet handler returns. The second part interleaves threads on one queue; it shows that at most one
  thread executes a queue, that jobs run in the order they were queued, once each, and that no job is
  left behind without a thread or a global entry that will run it.
\<close>

section \<open>State\<close>

type_synonym addr = nat

record 'f job =
  jb_executeTick :: u64
  jb_callBack :: 'f

record job_queue =
  jq_jobs :: "addr lock_queue"
  jq_priorityJobs :: "addr prio_queue"
  jq_jobCount :: u32

definition JobQueue_new :: job_queue where
  "JobQueue_new = \<lparr>jq_jobs = LockQueue_new, jq_priorityJobs = PriorityLockQueue_new, jq_jobCount = 0\<rparr>"

text \<open>The process as one thread sees it: \<open>js_current\<close> and \<open>js_endTick\<close> are its thread-local variables.\<close>

record ('f, 'c) jobs =
  js_heap :: "addr \<rightharpoonup> 'f job"
  js_queues :: "addr \<rightharpoonup> job_queue"
  js_global :: "addr lock_queue"
  js_next :: addr
  js_current :: addr
  js_endTick :: u64
  js_time :: nat
  js_content :: 'c

definition GetTickCount64 :: "(nat \<Rightarrow> u64) \<Rightarrow> ('f, 'c) jobs \<Rightarrow> u64 \<times> ('f, 'c) jobs" where
  "GetTickCount64 clock w = (clock (js_time w), w\<lparr>js_time := js_time w + 1\<rparr>)"

section \<open>Jobs\<close>

definition Job_new :: "(nat \<Rightarrow> u64) \<Rightarrow> u32 \<Rightarrow> 'f \<Rightarrow> ('f, 'c) jobs \<Rightarrow> addr \<times> ('f, 'c) jobs" where
  "Job_new clock delaySeconds callBack w =
     (case GetTickCount64 clock w of (now, w') \<Rightarrow>
        (js_next w', w'\<lparr>js_next := js_next w' + 1, js_heap := (js_heap w')(js_next w' \<mapsto>
           \<lparr>jb_executeTick = now + ucast delaySeconds, jb_callBack = callBack\<rparr>)\<rparr>))"

text \<open>\<open>Job::operator <\<close>: the later job is the smaller one.\<close>

definition Job_less :: "'f job \<Rightarrow> 'f job \<Rightarrow> bool" where
  "Job_less j k = (jb_executeTick j > jb_executeTick k)"

definition Job_Execute ::
  "('f \<Rightarrow> ('f, 'c) jobs \<Rightarrow> ('f, 'c) jobs res) \<Rightarrow> addr \<Rightarrow> ('f, 'c) jobs \<Rightarrow> ('f, 'c) jobs res" where
  "Job_Execute run a w =
     (case js_heap w a of None \<Rightarrow> Inl NullDeref | Some j \<Rightarrow> run (jb_callBack j) w)"

section \<open>The pieces of the queue's methods between two shared accesses\<close>

text \<open>\<open>Push\<close>: the counter, then one of the two containers.\<close>

definition Push_count :: "job_queue \<Rightarrow> u32 \<times> job_queue" where
  "Push_count q = (jq_jobCount q, q\<lparr>jq_jobCount := jq_jobCount q + 1\<rparr>)"

definition Push_enqueue :: "bool \<Rightarrow> addr \<Rightarrow> job_queue \<Rightarrow> job_queue" where
  "Push_enqueue due a q =
     (if due then q\<lparr>jq_jobs := LockQueue_Push a (jq_jobs q)\<rparr>
      else q\<lparr>jq_priorityJobs := PriorityLockQueue_Push a (jq_priorityJobs q)\<rparr>)"

text \<open>\<open>Execute\<close>: taking all jobs, and giving back the number of jobs done.\<close>

definition Execute_take :: "job_queue \<Rightarrow> addr list \<times> job_queue" where
  "Execute_take q =
     (case LockQueue_PopAll 0 (\<lambda>a. a \<noteq> 0) [] (jq_jobs q) of (jobs, qs) \<Rightarrow> (jobs, q\<lparr>jq_jobs := qs\<rparr>))"

definition Execute_sub :: "u32 \<Rightarrow> job_queue \<Rightarrow> bool \<times> job_queue" where
  "Execute_sub jobCount q =
     (jq_jobCount q = jobCount, q\<lparr>jq_jobCount := jq_jobCount q - jobCount\<rparr>)"

section \<open>The methods, as one thread runs them\<close>

definition on_queue ::
  "addr \<Rightarrow> (job_queue \<Rightarrow> 'r \<times> job_queue) \<Rightarrow> ('f, 'c) jobs \<Rightarrow> ('r \<times> ('f, 'c) jobs) res" where
  "on_queue q f w =
     (case js_queues w q of None \<Rightarrow> Inl NullDeref
      | Some jq \<Rightarrow> (case f jq of (r, jq') \<Rightarrow> Inr (r, w\<lparr>js_queues := (js_queues w)(q \<mapsto> jq')\<rparr>)))"

definition GlobalPush :: "addr \<Rightarrow> ('f, 'c) jobs \<Rightarrow> ('f, 'c) jobs" where
  "GlobalPush q w = w\<lparr>js_global := LockQueue_Push q (js_global w)\<rparr>"

definition GlobalPop :: "('f, 'c) jobs \<Rightarrow> addr \<times> ('f, 'c) jobs" where
  "GlobalPop w = (case LockQueue_Pop 0 (js_global w) of (q, g) \<Rightarrow> (q, w\<lparr>js_global := g\<rparr>))"

definition ClearJobs :: "job_queue \<Rightarrow> job_queue" where
  "ClearJobs q = q\<lparr>jq_jobs := LockQueue_Clear (jq_jobs q),
     jq_priorityJobs := PriorityLockQueue_Clear (jq_priorityJobs q)\<rparr>"

fun run_jobs ::
  "('f \<Rightarrow> ('f, 'c) jobs \<Rightarrow> ('f, 'c) jobs res) \<Rightarrow> addr list \<Rightarrow> ('f, 'c) jobs \<Rightarrow> ('f, 'c) jobs res" where
  "run_jobs run [] w = Inr w"
| "run_jobs run (a # as) w = bindR (Job_Execute run a w) (run_jobs run as)"

text \<open>
  The loop over the delayed jobs. The job on top is executed while it is still in the container;
  what is removed afterwards is whatever is on top then.
\<close>

partial_function (option) Execute_delayed ::
  "(nat \<Rightarrow> u64) \<Rightarrow> ('f \<Rightarrow> ('f, 'c) jobs \<Rightarrow> ('f, 'c) jobs res) \<Rightarrow> addr \<Rightarrow> u32 \<Rightarrow> ('f, 'c) jobs \<Rightarrow>
     (u32 \<times> ('f, 'c) jobs) res option" where
  "Execute_delayed clock run q jobCount w =
     (case js_queues w q of None \<Rightarrow> Some (Inl NullDeref)
      | Some jq \<Rightarrow>
          let a = PriorityLockQueue_Top 0 (jq_priorityJobs jq) in
          if a = 0 then Some (Inr (jobCount, w))
          else case js_heap w a of None \<Rightarrow> Some (Inl NullDeref)
          | Some j \<Rightarrow>
              (case GetTickCount64 clock w of (now, w1) \<Rightarrow>
                 if jb_executeTick j > now then Some (Inr (jobCount, w1))
                 else case bindR (Job_Execute run a w1)
                     (on_queue q (\<lambda>jq. ((), jq\<lparr>jq_priorityJobs :=
                        snd (PriorityLockQueue_Pop 0 (jq_priorityJobs jq))\<rparr>))) of
                   Inl e \<Rightarrow> Some (Inl e)
                 | Inr (_, w2) \<Rightarrow> Execute_delayed clock run q (jobCount + 1) w2))"

partial_function (option) Execute_loop ::
  "(nat \<Rightarrow> u64) \<Rightarrow> ('f \<Rightarrow> ('f, 'c) jobs \<Rightarrow> ('f, 'c) jobs res) \<Rightarrow> addr \<Rightarrow> ('f, 'c) jobs \<Rightarrow>
     ('f, 'c) jobs res option" where
  "Execute_loop clock run q w =
     (case bindR (on_queue q Execute_take w)
         (\<lambda>(jobs, w1). bindR (run_jobs run jobs w1) (\<lambda>w2. Inr (of_nat (length jobs) :: u32, w2))) of
        Inl e \<Rightarrow> Some (Inl e)
      | Inr (n, w2) \<Rightarrow>
          (case Execute_delayed clock run q n w2 of
             None \<Rightarrow> None
           | Some (Inl e) \<Rightarrow> Some (Inl e)
           | Some (Inr (jobCount, w3)) \<Rightarrow>
               (case on_queue q (Execute_sub jobCount) w3 of
                  Inl e \<Rightarrow> Some (Inl e)
                | Inr (done, w4) \<Rightarrow>
                    if done then Some (Inr (w4\<lparr>js_current := 0\<rparr>))
                    else case GetTickCount64 clock w4 of (now, w5) \<Rightarrow>
                      if js_endTick w5 \<le> now then Some (Inr ((GlobalPush q w5)\<lparr>js_current := 0\<rparr>))
                      else Execute_loop clock run q w5)))"

definition JobQueue_Execute ::
  "(nat \<Rightarrow> u64) \<Rightarrow> ('f \<Rightarrow> ('f, 'c) jobs \<Rightarrow> ('f, 'c) jobs res) \<Rightarrow> addr \<Rightarrow> ('f, 'c) jobs \<Rightarrow>
     ('f, 'c) jobs res option" where
  "JobQueue_Execute clock run q w = Execute_loop clock run q (w\<lparr>js_current := q\<rparr>)"

definition JobQueue_Push ::
  "(nat \<Rightarrow> u64) \<Rightarrow> ('f \<Rightarrow> ('f, 'c) jobs \<Rightarrow> ('f, 'c) jobs res) \<Rightarrow> addr \<Rightarrow> addr \<Rightarrow> ('f, 'c) jobs \<Rightarrow>
     ('f, 'c) jobs res option" where
  "JobQueue_Push clock run q a w =
     (case on_queue q Push_count w of
        Inl e \<Rightarrow> Some (Inl e)
      | Inr (prevCount, w1) \<Rightarrow>
          (case js_heap w1 a of None \<Rightarrow> Some (Inl NullDeref)
           | Some j \<Rightarrow>
               (case GetTickCount64 clock w1 of (now, w2) \<Rightarrow>
                  (case on_queue q (\<lambda>jq. ((), Push_enqueue (jb_executeTick j \<le> now) a jq)) w2 of
                     Inl e \<Rightarrow> Some (Inl e)
                   | Inr (_, w3) \<Rightarrow>
                       if prevCount = 0
                       then if js_current w3 = 0 then JobQueue_Execute clock run q w3
                            else Some (Inr (GlobalPush q w3))
                       else Some (Inr w3)))))"

definition DoAsync ::
  "(nat \<Rightarrow> u64) \<Rightarrow> ('f \<Rightarrow> ('f, 'c) jobs \<Rightarrow> ('f, 'c) jobs res) \<Rightarrow> addr \<Rightarrow> u32 \<Rightarrow> 'f \<Rightarrow> ('f, 'c) jobs \<Rightarrow>
     ('f, 'c) jobs res option" where
  "DoAsync clock run q delaySeconds callback w =
     (case Job_new clock delaySeconds callback w of (a, w') \<Rightarrow> JobQueue_Push clock run q a w')"

partial_function (option) ExcuteGlobalJobs ::
  "(nat \<Rightarrow> u64) \<Rightarrow> ('f \<Rightarrow> ('f, 'c) jobs \<Rightarrow> ('f, 'c) jobs res) \<Rightarrow> ('f, 'c) jobs \<Rightarrow>
     ('f, 'c) jobs res option" where
  "ExcuteGlobalJobs clock run w =
     (case GlobalPop w of (q, w1) \<Rightarrow>
        if q = 0 then Some (Inr w1)
        else case JobQueue_Execute clock run q w1 of
          None \<Rightarrow> None
        | Some (Inl e) \<Rightarrow> Some (Inl e)
        | Some (Inr w2) \<Rightarrow>
            (case GetTickCount64 clock w2 of (now, w3) \<Rightarrow>
               if js_endTick w3 \<le> now then Some (Inr w3)
               else ExcuteGlobalJobs clock run w3))"

text \<open>\<open>RESPONSE_END\<close>: a job without delay on a queue of its own, pushed, and the queue pushed globally.\<close>

definition JobQueue_make :: "('f, 'c) jobs \<Rightarrow> addr \<times> ('f, 'c) jobs" where
  "JobQueue_make w = (js_next w, w\<lparr>js_next := js_next w + 1, js_queues := (js_queues w)(js_next w \<mapsto> JobQueue_new)\<rparr>)"

definition RESPONSE_END ::
  "(nat \<Rightarrow> u64) \<Rightarrow> ('f \<Rightarrow> ('f, 'c) jobs \<Rightarrow> ('f, 'c) jobs res) \<Rightarrow> 'f \<Rightarrow> ('f, 'c) jobs \<Rightarrow>
     (bool \<times> ('f, 'c) jobs) res option" where
  "RESPONSE_END clock run func w =
     (case Job_new clock 0 func w of (job, w1) \<Rightarrow>
        (case JobQueue_make w1 of (jobQueue, w2) \<Rightarrow>
           (case JobQueue_Push clock run jobQueue job w2 of
              None \<Rightarrow> None
            | Some (Inl e) \<Rightarrow> Some (Inl e)
            | Some (Inr w3) \<Rightarrow> Some (Inr (True, GlobalPush jobQueue w3)))))"

section \<open>A response runs exactly once\<close>

text \<open>What the responses of the server do with the job machinery: nothing.\<close>

definition content_only ::
  "('f \<Rightarrow> ('f, 'c) jobs \<Rightarrow> ('f, 'c) jobs res) \<Rightarrow> ('f \<Rightarrow> 'c \<Rightarrow> 'c res) \<Rightarrow> bool" where
  "content_only run g \<longleftrightarrow> (\<forall>f w. run f w = bindR (g f (js_content w)) (\<lambda>c. Inr (w\<lparr>js_content := c\<rparr>)))"

lemma Execute_delayed_none:
  "js_queues w q = Some jq \<Longrightarrow> pq_items (jq_priorityJobs jq) = {#} \<Longrightarrow>
     Execute_delayed clock run q n w = Some (Inr (n, w))"
  by (subst Execute_delayed.simps) (simp add: PriorityLockQueue_Top_def)

text \<open>Executing a queue that holds one job runs it and leaves the queue as new.\<close>

lemma Execute_one:
  assumes q: "js_queues w q = Some \<lparr>jq_jobs = \<lparr>lq_items = [a]\<rparr>, jq_priorityJobs = PriorityLockQueue_new, jq_jobCount = 1\<rparr>"
    and a: "a \<noteq> 0" "js_heap w a = Some j" and run: "content_only run g"
  shows "JobQueue_Execute clock run q w =
    Some (bindR (g (jb_callBack j) (js_content w)) (\<lambda>c.
      Inr (w\<lparr>js_content := c, js_queues := (js_queues w)(q \<mapsto> JobQueue_new), js_current := 0\<rparr>)))"
proof -
  let ?jq = "\<lparr>jq_jobs = \<lparr>lq_items = []\<rparr>, jq_priorityJobs = PriorityLockQueue_new, jq_jobCount = 1\<rparr> :: job_queue"
  have take: "Execute_take \<lparr>jq_jobs = \<lparr>lq_items = [a]\<rparr>, jq_priorityJobs = PriorityLockQueue_new, jq_jobCount = 1\<rparr> = ([a], ?jq)"
    using a(1) by (simp add: Execute_take_def LockQueue_PopAll_eq)
  have job: "Job_Execute run a v = bindR (g (jb_callBack j) (js_content v)) (\<lambda>c. Inr (v\<lparr>js_content := c\<rparr>))"
    if "js_heap v a = Some j" for v
    using that run by (simp add: Job_Execute_def content_only_def)
  have new: "?jq\<lparr>jq_jobCount := 0\<rparr> = JobQueue_new" by (simp add: JobQueue_new_def LockQueue_new_def)
  show ?thesis
    using q a(2) new
    by (cases "g (jb_callBack j) (js_content w)")
      (simp_all add: JobQueue_Execute_def Execute_loop.simps on_queue_def take job Execute_delayed_none Execute_sub_def)
qed

text \<open>Executing a queue without jobs changes nothing.\<close>

lemma Execute_idle:
  assumes q: "js_queues w q = Some JobQueue_new"
  shows "JobQueue_Execute clock run q w = Some (Inr (w\<lparr>js_current := 0\<rparr>))"
proof -
  have take: "Execute_take JobQueue_new = ([], JobQueue_new)"
    by (simp add: Execute_take_def JobQueue_new_def LockQueue_PopAll_eq LockQueue_new_def)
  have sub: "Execute_sub 0 JobQueue_new = (True, JobQueue_new)"
    by (simp add: Execute_sub_def JobQueue_new_def)
  have upd: "(js_queues w)(q \<mapsto> JobQueue_new) = js_queues w" using q by auto
  have prio: "pq_items (jq_priorityJobs JobQueue_new) = {#}" by (simp add: JobQueue_new_def)
  show ?thesis
    using q by (simp add: JobQueue_Execute_def Execute_loop.simps on_queue_def take sub upd Execute_delayed_none [OF _ prio])
qed

lemma RESPONSE_END_eq:
  assumes "mono clock" "content_only run g" "0 < js_next w" "js_current w = 0"
  shows "RESPONSE_END clock run func w =
    Some (bindR (g func (js_content w)) (\<lambda>c. Inr (True, GlobalPush (js_next w + 1)
      (w\<lparr>js_time := js_time w + 2, js_next := js_next w + 2, js_content := c,
         js_heap := (js_heap w)(js_next w \<mapsto> \<lparr>jb_executeTick = clock (js_time w), jb_callBack = func\<rparr>),
         js_queues := (js_queues w)(js_next w + 1 \<mapsto> JobQueue_new)\<rparr>))))"
proof -
  let ?j = "\<lparr>jb_executeTick = clock (js_time w), jb_callBack = func\<rparr>"
  let ?q = "\<lparr>jq_jobs = \<lparr>lq_items = [js_next w]\<rparr>, jq_priorityJobs = PriorityLockQueue_new, jq_jobCount = 1\<rparr>"
  let ?w = "w\<lparr>js_time := js_time w + 2, js_next := js_next w + 2,
     js_heap := (js_heap w)(js_next w \<mapsto> ?j), js_queues := (js_queues w)(js_next w + 1 \<mapsto> ?q)\<rparr>"
  have due: "clock (js_time w) \<le> clock (Suc (js_time w))" using assms(1) by (simp add: monoD)
  have push: "Push_count JobQueue_new = (0, JobQueue_new\<lparr>jq_jobCount := 1\<rparr>)"
    "Push_enqueue True (js_next w) (JobQueue_new\<lparr>jq_jobCount := 1\<rparr>) = ?q"
    by (simp_all add: Push_count_def Push_enqueue_def JobQueue_new_def LockQueue_new_def LockQueue_Push_def)
  have "JobQueue_Execute clock run (js_next w + 1) ?w =
     Some (bindR (g func (js_content w)) (\<lambda>c. Inr (?w\<lparr>js_content := c,
        js_queues := (js_queues ?w)(js_next w + 1 \<mapsto> JobQueue_new), js_current := 0\<rparr>)))"
    using Execute_one [of ?w "js_next w + 1" "js_next w" ?j run g clock] assms(2,3) by simp
  then show ?thesis
    using due push assms(4)
    by (cases w; cases "g func (js_content w)")
      (simp_all add: RESPONSE_END_def Job_new_def GetTickCount64_def JobQueue_make_def JobQueue_Push_def on_queue_def)
qed

text \<open>C19: Responding to a packet from a worker thread always returns. The response runs exactly once, before
  the packet handler returns, and a fault of the response is the outcome. What is left in the list of
  global queues is one queue without jobs.\<close>

theorem response_runs_once:
  assumes "mono clock" "content_only run g" "0 < js_next w" "js_current w = 0"
  shows "case g func (js_content w) of
      Inl e \<Rightarrow> RESPONSE_END clock run func w = Some (Inl e)
    | Inr c \<Rightarrow> \<exists>w'. RESPONSE_END clock run func w = Some (Inr (True, w')) \<and> js_content w' = c \<and>
        js_current w' = 0 \<and> lq_items (js_global w') = lq_items (js_global w) @ [js_next w + 1] \<and>
        js_queues w' (js_next w + 1) = Some JobQueue_new"
  using RESPONSE_END_eq [OF assms, of func] assms(4)
  by (cases "g func (js_content w)") (simp_all add: GlobalPush_def)

definition jobs_start :: "'c \<Rightarrow> ('f, 'c) jobs" where
  "jobs_start c = \<lparr>js_heap = Map.empty, js_queues = Map.empty, js_global = LockQueue_new, js_next = 1,
     js_current = 0, js_endTick = 64, js_time = 0, js_content = c\<rparr>"

theorem response_runs_once_witness:
  "\<exists>w'. RESPONSE_END (\<lambda>_. 5) (\<lambda>f w. Inr (w\<lparr>js_content := js_content w + f\<rparr>)) 3 (jobs_start (4 :: nat)) = Some (Inr (True, w')) \<and>
     js_content w' = 7 \<and> js_current w' = 0 \<and> lq_items (js_global w') = [2] \<and> js_queues w' 2 = Some JobQueue_new"
  using response_runs_once [of "\<lambda>_. 5" "\<lambda>f w. Inr (w\<lparr>js_content := js_content w + f\<rparr>)" "\<lambda>f c. Inr (c + f)" "jobs_start (4 :: nat)" 3]
  by (simp add: content_only_def mono_def jobs_start_def numeral_2_eq_2)

lemma leftovers_drained:
  assumes "\<forall>q \<in> set (lq_items (js_global w)). q \<noteq> 0 \<and> js_queues w q = Some JobQueue_new"
  shows "\<exists>w' n. ExcuteGlobalJobs clock run w = Some (Inr w') \<and> js_content w' = js_content w \<and>
    js_queues w' = js_queues w \<and> lq_items (js_global w') = drop n (lq_items (js_global w)) \<and>
    (lq_items (js_global w) \<noteq> [] \<longrightarrow> 0 < n)"
  using assms
proof (induction "lq_items (js_global w)" arbitrary: w)
  case Nil
  then show ?case
    by (subst ExcuteGlobalJobs.simps) (simp add: GlobalPop_def LockQueue_Pop_def)
next
  case (Cons q qs)
  let ?w = "w\<lparr>js_global := (js_global w)\<lparr>lq_items := qs\<rparr>, js_current := 0, js_time := js_time w + 1\<rparr>"
  have q: "q \<noteq> 0" "js_queues w q = Some JobQueue_new"
    using Cons.prems Cons.hyps(2) [symmetric] by simp_all
  then have step: "ExcuteGlobalJobs clock run w =
      (if js_endTick w \<le> clock (js_time w) then Some (Inr ?w) else ExcuteGlobalJobs clock run ?w)"
    using Cons.hyps(2) [symmetric]
    by (subst ExcuteGlobalJobs.simps) (simp add: GlobalPop_def LockQueue_Pop_def Execute_idle GetTickCount64_def)
  show ?case
  proof (cases "js_endTick w \<le> clock (js_time w)")
    case True
    then show ?thesis using step Cons.hyps(2) [symmetric] by (intro exI [of _ ?w] exI [of _ 1]) simp
  next
    case False
    have "\<forall>q \<in> set (lq_items (js_global ?w)). q \<noteq> 0 \<and> js_queues ?w q = Some JobQueue_new"
      using Cons.prems Cons.hyps(2) [symmetric] by simp
    then obtain w' n where "ExcuteGlobalJobs clock run ?w = Some (Inr w')" "js_content w' = js_content w"
      "js_queues w' = js_queues w" "lq_items (js_global w') = drop n qs"
      using Cons.hyps(1) [of ?w] by auto
    then show ?thesis using False step Cons.hyps(2) [symmetric] by (intro exI [of _ w'] exI [of _ "Suc n"]) simp
  qed
qed

text \<open>C24: Draining the global list always returns when it only holds queues without jobs, as the
  responses leave it: no callback runs, the content is untouched, and entries are consumed from the
  front.\<close>

theorem leftovers_harmless:
  assumes "\<forall>q \<in> set (lq_items (js_global w)). q \<noteq> 0 \<and> js_queues w q = Some JobQueue_new"
  shows "\<exists>w' n. ExcuteGlobalJobs clock run w = Some (Inr w') \<and> js_content w' = js_content w \<and>
    js_queues w' = js_queues w \<and> lq_items (js_global w') = drop n (lq_items (js_global w)) \<and>
    (lq_items (js_global w) \<noteq> [] \<longrightarrow> 0 < n)"
  using assms by (rule leftovers_drained)

theorem leftovers_harmless_witness:
  "\<exists>w' n. ExcuteGlobalJobs (\<lambda>_. 5) (\<lambda>_ _. Inl BadCall)
       ((jobs_start (4 :: nat))\<lparr>js_global := \<lparr>lq_items = [2]\<rparr>, js_queues := [2 \<mapsto> JobQueue_new]\<rparr> :: (nat, nat) jobs)
       = Some (Inr w') \<and>
     js_content w' = 4 \<and> js_queues w' = [2 \<mapsto> JobQueue_new] \<and> lq_items (js_global w') = drop n [2] \<and> 0 < n"
  using leftovers_harmless [of "(jobs_start (4 :: nat))\<lparr>js_global := \<lparr>lq_items = [2]\<rparr>, js_queues := [2 \<mapsto> JobQueue_new]\<rparr>"
      "\<lambda>_. 5" "\<lambda>_ _. Inl BadCall"]
  by (simp add: jobs_start_def)

section \<open>Threads sharing one queue\<close>

text \<open>
  The program counter of a thread with respect to the queue. \<open>JPush a prev\<close>: it has counted the job
  \<open>a\<close> and not queued it yet. \<open>JGo\<close>: it has queued a job and found the counter at zero. \<open>JExec\<close>: it is
  about to take the jobs. \<open>JRun as n\<close>: it took \<open>n\<close> jobs, of which \<open>as\<close> are still to run. \<open>JYield\<close>: it has
  given back the number of jobs done and the queue has more.
\<close>

datatype job_pc = JIdle | JPush addr u32 | JGo | JExec | JRun "addr list" u32 | JYield

text \<open>\<open>qs_ran\<close> and \<open>qs_pushed\<close> record the jobs run and queued so far; \<open>qs_global\<close> counts the entries of this queue in the global list.\<close>

record queue_sys =
  qs_queue :: job_queue
  qs_global :: nat
  qs_pc :: "nat \<Rightarrow> job_pc"
  qs_ran :: "addr list"
  qs_pushed :: "addr list"

definition queue_init :: queue_sys where
  "queue_init = \<lparr>qs_queue = JobQueue_new, qs_global = 0, qs_pc = (\<lambda>_. JIdle), qs_ran = [], qs_pushed = []\<rparr>"

text \<open>
  The jobs are due when pushed, as all jobs of the server are, and fewer than \<open>2\<^sup>3\<^sup>2\<close> are outstanding.
  A thread that finds the counter at zero executes the queue, or, if it is executing another queue,
  pushes it globally; a thread that has more jobs to do goes on or gives up its time slice.
\<close>

inductive queue_step :: "nat set \<Rightarrow> queue_sys \<Rightarrow> queue_sys \<Rightarrow> bool" for T where
  count: "\<lbrakk>t \<in> T; qs_pc y t = JIdle; a \<noteq> 0; unat (jq_jobCount (qs_queue y)) + 1 < 2 ^ 32;
      Push_count (qs_queue y) = (prev, q)\<rbrakk> \<Longrightarrow>
    queue_step T y (y\<lparr>qs_queue := q, qs_pc := (qs_pc y)(t := JPush a prev)\<rparr>)"
| enqueue: "\<lbrakk>t \<in> T; qs_pc y t = JPush a prev\<rbrakk> \<Longrightarrow>
    queue_step T y (y\<lparr>qs_queue := Push_enqueue True a (qs_queue y), qs_pushed := qs_pushed y @ [a],
      qs_pc := (qs_pc y)(t := if prev = 0 then JGo else JIdle)\<rparr>)"
| go: "\<lbrakk>t \<in> T; qs_pc y t = JGo\<rbrakk> \<Longrightarrow> queue_step T y (y\<lparr>qs_pc := (qs_pc y)(t := JExec)\<rparr>)"
| go_global: "\<lbrakk>t \<in> T; qs_pc y t = JGo\<rbrakk> \<Longrightarrow>
    queue_step T y (y\<lparr>qs_global := qs_global y + 1, qs_pc := (qs_pc y)(t := JIdle)\<rparr>)"
| take: "\<lbrakk>t \<in> T; qs_pc y t = JExec; Execute_take (qs_queue y) = (jobs, q)\<rbrakk> \<Longrightarrow>
    queue_step T y (y\<lparr>qs_queue := q, qs_pc := (qs_pc y)(t := JRun jobs (of_nat (length jobs)))\<rparr>)"
| run: "\<lbrakk>t \<in> T; qs_pc y t = JRun (a # as) n\<rbrakk> \<Longrightarrow>
    queue_step T y (y\<lparr>qs_ran := qs_ran y @ [a], qs_pc := (qs_pc y)(t := JRun as n)\<rparr>)"
| sub: "\<lbrakk>t \<in> T; qs_pc y t = JRun [] n; Execute_sub n (qs_queue y) = (finished, q)\<rbrakk> \<Longrightarrow>
    queue_step T y (y\<lparr>qs_queue := q, qs_pc := (qs_pc y)(t := if finished then JIdle else JYield)\<rparr>)"
| again: "\<lbrakk>t \<in> T; qs_pc y t = JYield\<rbrakk> \<Longrightarrow> queue_step T y (y\<lparr>qs_pc := (qs_pc y)(t := JExec)\<rparr>)"
| yield: "\<lbrakk>t \<in> T; qs_pc y t = JYield\<rbrakk> \<Longrightarrow>
    queue_step T y (y\<lparr>qs_global := qs_global y + 1, qs_pc := (qs_pc y)(t := JIdle)\<rparr>)"
| global: "\<lbrakk>t \<in> T; qs_pc y t = JIdle; 0 < qs_global y\<rbrakk> \<Longrightarrow>
    queue_step T y (y\<lparr>qs_global := qs_global y - 1, qs_pc := (qs_pc y)(t := JExec)\<rparr>)"

text \<open>
  The invariant. The right to execute the queue is held by nobody, by a thread, or by the entry in
  the global list; \<open>holder\<close> says by whom.
\<close>

datatype holder = Nobody | Thread nat | Listed

fun pushing :: "job_pc \<Rightarrow> nat" where
  "pushing (JPush _ _) = 1"
| "pushing _ = 0"

fun popped :: "job_pc \<Rightarrow> nat" where
  "popped (JRun _ n) = unat n"
| "popped _ = 0"

fun remaining :: "job_pc \<Rightarrow> addr list" where
  "remaining (JRun as _) = as"
| "remaining _ = []"

fun follower :: "job_pc \<Rightarrow> bool" where
  "follower JIdle = True"
| "follower (JPush a prev) = (a \<noteq> 0 \<and> prev \<noteq> 0)"
| "follower _ = False"

fun executor :: "job_pc \<Rightarrow> bool" where
  "executor JIdle = False"
| "executor (JPush a prev) = (a \<noteq> 0 \<and> prev = 0)"
| "executor _ = True"

fun holder_pc :: "holder \<Rightarrow> queue_sys \<Rightarrow> job_pc" where
  "holder_pc (Thread t) y = qs_pc y t"
| "holder_pc _ y = JIdle"

abbreviation queued :: "queue_sys \<Rightarrow> addr list" where
  "queued y \<equiv> lq_items (jq_jobs (qs_queue y))"

definition queue_inv :: "nat set \<Rightarrow> holder \<Rightarrow> queue_sys \<Rightarrow> bool" where
  "queue_inv T h y \<longleftrightarrow>
     (\<forall>u. h \<noteq> Thread u \<longrightarrow> follower (qs_pc y u)) \<and>
     (\<forall>t. h = Thread t \<longrightarrow> t \<in> T \<and> executor (qs_pc y t)) \<and>
     qs_global y = (if h = Listed then 1 else 0) \<and>
     (jq_jobCount (qs_queue y) = 0 \<longleftrightarrow> h = Nobody) \<and>
     unat (jq_jobCount (qs_queue y)) =
       length (queued y) + (\<Sum>u\<in>T. pushing (qs_pc y u)) + popped (holder_pc h y) \<and>
     0 \<notin> set (queued y) \<and>
     qs_pushed y = qs_ran y @ remaining (holder_pc h y) @ queued y"

lemma sum_pushing_upd:
  "finite T \<Longrightarrow> t \<in> T \<Longrightarrow>
     (\<Sum>u\<in>T. pushing ((pcs(t := pc)) u)) + pushing (pcs t) = (\<Sum>u\<in>T. pushing (pcs u)) + pushing pc"
  by (simp add: sum.remove [of T t])

lemma queue_invI:
  assumes "\<And>u. h \<noteq> Thread u \<Longrightarrow> follower (qs_pc y u)"
    "\<And>t. h = Thread t \<Longrightarrow> t \<in> T \<and> executor (qs_pc y t)"
    "qs_global y = (if h = Listed then 1 else 0)"
    "jq_jobCount (qs_queue y) = 0 \<longleftrightarrow> h = Nobody"
    "unat (jq_jobCount (qs_queue y)) =
       length (queued y) + (\<Sum>u\<in>T. pushing (qs_pc y u)) + popped (holder_pc h y)"
    "0 \<notin> set (queued y)"
    "qs_pushed y = qs_ran y @ remaining (holder_pc h y) @ queued y"
  shows "queue_inv T h y"
  using assms by (simp add: queue_inv_def)

lemma queue_invD:
  assumes "queue_inv T h y"
  shows "h \<noteq> Thread u \<Longrightarrow> follower (qs_pc y u)"
    and "h = Thread t \<Longrightarrow> t \<in> T" and "h = Thread t \<Longrightarrow> executor (qs_pc y t)"
    and "qs_global y = (if h = Listed then 1 else 0)"
    and "jq_jobCount (qs_queue y) = 0 \<longleftrightarrow> h = Nobody"
    and "unat (jq_jobCount (qs_queue y)) =
       length (queued y) + (\<Sum>u\<in>T. pushing (qs_pc y u)) + popped (holder_pc h y)"
    and "0 \<notin> set (queued y)"
    and "qs_pushed y = qs_ran y @ remaining (holder_pc h y) @ queued y"
  using assms by (simp_all add: queue_inv_def)

lemma queue_inv_count:
  assumes inv: "queue_inv T h y" and t: "finite T" "t \<in> T" "qs_pc y t = JIdle" and a: "a \<noteq> 0"
    and c: "unat (jq_jobCount (qs_queue y)) + 1 < 2 ^ 32"
  shows "queue_inv T (if h = Nobody then Thread t else h)
    (y\<lparr>qs_queue := (qs_queue y)\<lparr>jq_jobCount := jq_jobCount (qs_queue y) + 1\<rparr>,
       qs_pc := (qs_pc y)(t := JPush a (jq_jobCount (qs_queue y)))\<rparr>)"
    (is "queue_inv T ?h ?y")
proof -
  have c: "unat (jq_jobCount (qs_queue y) + 1) = unat (jq_jobCount (qs_queue y)) + 1"
    using c by (simp add: unat_word_ariths)
  have c0: "jq_jobCount (qs_queue y) + 1 \<noteq> 0"
  proof
    assume z: "jq_jobCount (qs_queue y) + 1 = 0"
    show False using c unfolding z by simp
  qed
  have h: "h \<noteq> Thread t" using queue_invD(3) [OF inv, of t] t(3) by auto
  have pc: "holder_pc ?h ?y = (if h = Nobody then JPush a (jq_jobCount (qs_queue y)) else holder_pc h y)"
    using h by (cases h) auto
  have sum: "(\<Sum>u\<in>T. pushing (qs_pc ?y u)) = (\<Sum>u\<in>T. pushing (qs_pc y u)) + 1"
    using sum_pushing_upd [OF t(1,2), of "qs_pc y" "JPush a (jq_jobCount (qs_queue y))"] t(3) by simp
  show ?thesis
  proof (rule queue_invI)
    show "unat (jq_jobCount (qs_queue ?y)) =
       length (queued ?y) + (\<Sum>u\<in>T. pushing (qs_pc ?y u)) + popped (holder_pc ?h ?y)"
      unfolding sum pc using c queue_invD(6) [OF inv] by simp
    show "qs_pushed ?y = qs_ran ?y @ remaining (holder_pc ?h ?y) @ queued ?y"
      unfolding pc using queue_invD(8) [OF inv] by simp
    show "follower (qs_pc ?y u)" if "?h \<noteq> Thread u" for u
      using that h a queue_invD(1) [OF inv, of u] queue_invD(5) [OF inv] by (simp split: if_splits)
    show "u \<in> T \<and> executor (qs_pc ?y u)" if "?h = Thread u" for u
      using that h a t(2) queue_invD(2,3) [OF inv, of u] queue_invD(5) [OF inv] by (simp split: if_splits)
  qed (use queue_invD(4,7) [OF inv] c0 h in simp_all)
qed

lemma queue_inv_enqueue:
  assumes inv: "queue_inv T h y" and t: "finite T" "t \<in> T" "qs_pc y t = JPush a prev"
  shows "queue_inv T h
    (y\<lparr>qs_queue := Push_enqueue True a (qs_queue y), qs_pushed := qs_pushed y @ [a],
       qs_pc := (qs_pc y)(t := if prev = 0 then JGo else JIdle)\<rparr>)"
    (is "queue_inv T h ?y")
proof -
  have h: "h = Thread t \<longleftrightarrow> prev = 0" "a \<noteq> 0"
    using queue_invD(1,3) [OF inv, of t] t(3) by (cases "h = Thread t"; simp)+
  have pc: "popped (holder_pc h ?y) = popped (holder_pc h y)" "remaining (holder_pc h ?y) = remaining (holder_pc h y)"
    using h(1) t(3) by (cases h; auto)+
  have sum: "(\<Sum>u\<in>T. pushing (qs_pc ?y u)) + 1 = (\<Sum>u\<in>T. pushing (qs_pc y u))"
    using sum_pushing_upd [OF t(1,2), of "qs_pc y" "if prev = 0 then JGo else JIdle"] t(3) by simp
  show ?thesis
  proof (rule queue_invI)
    show "unat (jq_jobCount (qs_queue ?y)) =
       length (queued ?y) + (\<Sum>u\<in>T. pushing (qs_pc ?y u)) + popped (holder_pc h ?y)"
      using sum pc queue_invD(6) [OF inv] by (simp add: Push_enqueue_def)
    show "qs_pushed ?y = qs_ran ?y @ remaining (holder_pc h ?y) @ queued ?y"
      using pc queue_invD(8) [OF inv] by (simp add: Push_enqueue_def)
    show "follower (qs_pc ?y u)" if "h \<noteq> Thread u" for u
      using that h queue_invD(1) [OF inv that] by auto
    show "u \<in> T \<and> executor (qs_pc ?y u)" if "h = Thread u" for u
      using that h queue_invD(2,3) [OF inv that] by simp
  qed (use queue_invD(4,5,7) [OF inv] h in \<open>auto simp: Push_enqueue_def\<close>)
qed

text \<open>A thread in one of the executing states holds the right to execute.\<close>

lemma queue_inv_holder:
  assumes "queue_inv T h y" "\<not> follower (qs_pc y t)"
  shows "h = Thread t"
  using queue_invD(1) [OF assms(1), of t] assms(2) by blast

text \<open>The holder changes its state and possibly the containers.\<close>

lemma queue_inv_holder_step:
  assumes inv: "queue_inv T (Thread t) y" and T: "finite T"
    and pc: "executor pc" "pushing pc = 0" "pushing (qs_pc y t) = 0"
    and q: "jq_jobCount q \<noteq> 0" "0 \<notin> set (lq_items (jq_jobs q))"
      "unat (jq_jobCount q) + length (queued y) + popped (qs_pc y t) =
         unat (jq_jobCount (qs_queue y)) + length (lq_items (jq_jobs q)) + popped pc"
    and xs: "xs @ remaining pc @ lq_items (jq_jobs q) = qs_pushed y"
  shows "queue_inv T (Thread t) (y\<lparr>qs_queue := q, qs_ran := xs, qs_pc := (qs_pc y)(t := pc)\<rparr>)"
    (is "queue_inv T _ ?y")
proof -
  have t: "t \<in> T" using queue_invD(2) [OF inv] by simp
  have sum: "(\<Sum>u\<in>T. pushing (qs_pc ?y u)) = (\<Sum>u\<in>T. pushing (qs_pc y u))"
    using sum_pushing_upd [OF T t, of "qs_pc y" pc] pc by simp
  show ?thesis
  proof (rule queue_invI)
    show "unat (jq_jobCount (qs_queue ?y)) =
       length (queued ?y) + (\<Sum>u\<in>T. pushing (qs_pc ?y u)) + popped (holder_pc (Thread t) ?y)"
      unfolding sum using q(3) queue_invD(6) [OF inv] by simp
    show "follower (qs_pc ?y u)" if "Thread t \<noteq> Thread u" for u
      using that queue_invD(1) [OF inv that] by auto
  qed (use queue_invD(4) [OF inv] q(1,2) pc(1) t xs in simp_all)
qed

text \<open>The holder hands the right to the global list, or takes it from there.\<close>

lemma queue_inv_release:
  assumes inv: "queue_inv T (Thread t) y" and T: "finite T" and pc: "qs_pc y t = JGo \<or> qs_pc y t = JYield"
  shows "queue_inv T Listed (y\<lparr>qs_global := qs_global y + 1, qs_pc := (qs_pc y)(t := JIdle)\<rparr>)"
    (is "queue_inv T _ ?y")
proof -
  have t: "t \<in> T" using queue_invD(2) [OF inv] by simp
  have sum: "(\<Sum>u\<in>T. pushing (qs_pc ?y u)) = (\<Sum>u\<in>T. pushing (qs_pc y u))"
    using sum_pushing_upd [OF T t, of "qs_pc y" JIdle] pc by auto
  show ?thesis
  proof (rule queue_invI)
    show "unat (jq_jobCount (qs_queue ?y)) =
       length (queued ?y) + (\<Sum>u\<in>T. pushing (qs_pc ?y u)) + popped (holder_pc Listed ?y)"
      unfolding sum using pc queue_invD(6) [OF inv] by auto
    show "qs_pushed ?y = qs_ran ?y @ remaining (holder_pc Listed ?y) @ queued ?y"
      using pc queue_invD(8) [OF inv] by auto
    show "follower (qs_pc ?y u)" if "Listed \<noteq> Thread u" for u
      using queue_invD(1) [OF inv, of u] by auto
  qed (use queue_invD(4,5,7) [OF inv] in simp_all)
qed

lemma queue_inv_acquire:
  assumes inv: "queue_inv T h y" and T: "finite T" "t \<in> T" and pc: "qs_pc y t = JIdle" and g: "0 < qs_global y"
  shows "queue_inv T (Thread t) (y\<lparr>qs_global := qs_global y - 1, qs_pc := (qs_pc y)(t := JExec)\<rparr>)"
    (is "queue_inv T _ ?y")
proof -
  have h: "h = Listed" using queue_invD(4) [OF inv] g by (auto split: if_splits)
  have sum: "(\<Sum>u\<in>T. pushing (qs_pc ?y u)) = (\<Sum>u\<in>T. pushing (qs_pc y u))"
    using sum_pushing_upd [OF T, of "qs_pc y" JExec] pc by simp
  show ?thesis
  proof (rule queue_invI)
    show "unat (jq_jobCount (qs_queue ?y)) =
       length (queued ?y) + (\<Sum>u\<in>T. pushing (qs_pc ?y u)) + popped (holder_pc (Thread t) ?y)"
      unfolding sum using h queue_invD(6) [OF inv] by simp
    show "follower (qs_pc ?y u)" if "Thread t \<noteq> Thread u" for u
      using that queue_invD(1) [OF inv, of u] h by auto
  qed (use queue_invD(4,5,7,8) [OF inv] h T(2) in simp_all)
qed

text \<open>The holder finds that it has done all jobs that were counted.\<close>

lemma queue_inv_done:
  assumes inv: "queue_inv T (Thread t) y" and T: "finite T" and pc: "qs_pc y t = JRun [] n"
    and n: "jq_jobCount (qs_queue y) = n"
  shows "queue_inv T Nobody (y\<lparr>qs_queue := (qs_queue y)\<lparr>jq_jobCount := 0\<rparr>, qs_pc := (qs_pc y)(t := JIdle)\<rparr>)"
    (is "queue_inv T _ ?y")
proof -
  have t: "t \<in> T" using queue_invD(2) [OF inv] by simp
  have zero: "length (queued y) + (\<Sum>u\<in>T. pushing (qs_pc y u)) = 0"
    using queue_invD(6) [OF inv] pc n by simp
  have sum: "(\<Sum>u\<in>T. pushing (qs_pc ?y u)) = (\<Sum>u\<in>T. pushing (qs_pc y u))"
    using sum_pushing_upd [OF T t, of "qs_pc y" JIdle] pc by simp
  show ?thesis
  proof (rule queue_invI)
    show "unat (jq_jobCount (qs_queue ?y)) =
       length (queued ?y) + (\<Sum>u\<in>T. pushing (qs_pc ?y u)) + popped (holder_pc Nobody ?y)"
      unfolding sum using zero by simp
    show "follower (qs_pc ?y u)" if "Nobody \<noteq> Thread u" for u
      using queue_invD(1) [OF inv, of u] by auto
  qed (use queue_invD(4,7,8) [OF inv] zero pc in simp_all)
qed

lemma Execute_take_all:
  assumes "0 \<notin> set (lq_items (jq_jobs q))"
  shows "Execute_take q = (lq_items (jq_jobs q), q\<lparr>jq_jobs := (jq_jobs q)\<lparr>lq_items := []\<rparr>\<rparr>)"
proof -
  have "\<forall>x \<in> set (lq_items (jq_jobs q)). x \<noteq> 0" using assms by metis
  then show ?thesis using LockQueue_PopAll_all [of "jq_jobs q" "\<lambda>a. a \<noteq> 0" 0] by (simp add: Execute_take_def)
qed

lemma queue_inv_take:
  assumes inv: "queue_inv T (Thread t) y" and T: "finite T" and pc: "qs_pc y t = JExec"
    and tk: "Execute_take (qs_queue y) = (jobs, q)"
  shows "queue_inv T (Thread t) (y\<lparr>qs_queue := q, qs_pc := (qs_pc y)(t := JRun jobs (of_nat (length jobs)))\<rparr>)"
proof -
  have q: "jobs = queued y" "q = (qs_queue y)\<lparr>jq_jobs := (jq_jobs (qs_queue y))\<lparr>lq_items := []\<rparr>\<rparr>"
    using Execute_take_all [OF queue_invD(7) [OF inv]] tk by simp_all
  have "length jobs < 2 ^ 32"
    using queue_invD(6) [OF inv] unsigned_less [of "jq_jobCount (qs_queue y)", where ?'a = nat] q(1) by simp
  then have n: "unat (of_nat (length jobs) :: u32) = length jobs" by (simp add: unat_of_nat)
  have c: "jq_jobCount q = jq_jobCount (qs_queue y)" "lq_items (jq_jobs q) = []" using q(2) by simp_all
  have "jq_jobCount q \<noteq> 0" using queue_invD(5) [OF inv] c by simp
  moreover have "unat (jq_jobCount q) + length (queued y) + popped (qs_pc y t) =
      unat (jq_jobCount (qs_queue y)) + length (lq_items (jq_jobs q)) + popped (JRun jobs (of_nat (length jobs)))"
    using c n pc q(1) by simp
  ultimately show ?thesis
    using queue_inv_holder_step [OF inv T, of "JRun jobs (of_nat (length jobs))" q "qs_ran y"] queue_invD(8) [OF inv] pc c q(1)
    by simp
qed

lemma queue_inv_more:
  assumes inv: "queue_inv T (Thread t) y" and T: "finite T" and pc: "qs_pc y t = JRun [] n"
    and n: "jq_jobCount (qs_queue y) \<noteq> n"
  shows "queue_inv T (Thread t)
    (y\<lparr>qs_queue := (qs_queue y)\<lparr>jq_jobCount := jq_jobCount (qs_queue y) - n\<rparr>, qs_pc := (qs_pc y)(t := JYield)\<rparr>)"
proof -
  have le: "n \<le> jq_jobCount (qs_queue y)"
    using queue_invD(6) [OF inv] pc by (simp add: word_le_nat_alt)
  then have "unat (jq_jobCount (qs_queue y) - n) = unat (jq_jobCount (qs_queue y)) - unat n"
    by (rule unat_sub)
  moreover have "unat n \<le> unat (jq_jobCount (qs_queue y))" using le by (simp add: word_le_nat_alt)
  ultimately show ?thesis
    using queue_inv_holder_step [OF inv T, of JYield "(qs_queue y)\<lparr>jq_jobCount := jq_jobCount (qs_queue y) - n\<rparr>" "qs_ran y"]
      queue_invD(7,8) [OF inv] pc n by simp
qed

lemma queue_inv_move:
  assumes inv: "queue_inv T (Thread t) y" and T: "finite T"
    and pc: "executor pc" "pushing pc = 0" "pushing (qs_pc y t) = 0" "popped pc = popped (qs_pc y t)"
    and xs: "xs @ remaining pc = qs_ran y @ remaining (qs_pc y t)"
  shows "queue_inv T (Thread t) (y\<lparr>qs_ran := xs, qs_pc := (qs_pc y)(t := pc)\<rparr>)"
proof -
  have "xs @ remaining pc @ queued y = qs_pushed y"
    using xs queue_invD(8) [OF inv] by (metis append_assoc holder_pc.simps(1))
  then show ?thesis
    using queue_inv_holder_step [OF inv T pc(1-3), of "qs_queue y" xs] queue_invD(5,7) [OF inv] pc(4) by simp
qed

lemma queue_inv_step:
  assumes "queue_step T y z" "finite T" "queue_inv T h y"
  shows "\<exists>h. queue_inv T h z"
  using assms
proof (induction rule: queue_step.induct)
  case (count t y a prev q)
  then show ?case
    using queue_inv_count [OF count.prems(2,1) count.hyps(1-4)] by (auto simp: Push_count_def)
next
  case (enqueue t y a prev)
  then show ?case using queue_inv_enqueue by blast
next
  case (go t y)
  then have "h = Thread t" using queue_inv_holder by fastforce
  then show ?case using queue_inv_move [of T t y JExec "qs_ran y"] go by auto
next
  case (go_global t y)
  then have "h = Thread t" using queue_inv_holder by fastforce
  then show ?case using queue_inv_release [of T t y] go_global by blast
next
  case (take t y jobs q)
  then have "h = Thread t" using queue_inv_holder by fastforce
  then show ?case using queue_inv_take take by blast
next
  case (run t y a as n)
  then have "h = Thread t" using queue_inv_holder by fastforce
  then show ?case using queue_inv_move [of T t y "JRun as n" "qs_ran y @ [a]"] run by auto
next
  case (sub t y n finished q)
  then have "h = Thread t" using queue_inv_holder by fastforce
  then show ?case
    using queue_inv_done [of T t y n] queue_inv_more [of T t y n] sub by (cases "jq_jobCount (qs_queue y) = n") (auto simp: Execute_sub_def)
next
  case (again t y)
  then have "h = Thread t" using queue_inv_holder by fastforce
  then show ?case using queue_inv_move [of T t y JExec "qs_ran y"] again by auto
next
  case (yield t y)
  then have "h = Thread t" using queue_inv_holder by fastforce
  then show ?case using queue_inv_release [of T t y] yield by blast
next
  case (global t y)
  then show ?case using queue_inv_acquire by blast
qed

lemma queue_inv_reachable:
  assumes "(queue_step T)\<^sup>*\<^sup>* queue_init y" "finite T"
  shows "\<exists>h. queue_inv T h y"
  using assms(1)
proof (induction rule: rtranclp_induct)
  case base
  have "queue_inv T Nobody queue_init"
    by (rule queue_invI) (simp_all add: queue_init_def JobQueue_new_def)
  then show ?case by blast
next
  case (step y z)
  then show ?case using queue_inv_step assms(2) by blast
qed

definition executing :: "job_pc \<Rightarrow> bool" where
  "executing pc = (pc \<notin> {JIdle, JGo} \<and> pushing pc = 0)"


text \<open>
  A run: thread 1 counts job 7, thread 2 counts job 8, thread 1 queues its job, executes the queue
  and finds that more jobs were counted.
\<close>

definition queue_demo :: queue_sys where
  "queue_demo = \<lparr>qs_queue = JobQueue_new\<lparr>jq_jobCount := 1\<rparr>, qs_global = 0,
     qs_pc = (\<lambda>_. JIdle)(1 := JYield, 2 := JPush 8 1), qs_ran = [7], qs_pushed = [7]\<rparr>"

lemma queue_demo_reachable: "(queue_step {1, 2})\<^sup>*\<^sup>* queue_init queue_demo"
proof -
  let ?q = "\<lambda>items n. \<lparr>jq_jobs = \<lparr>lq_items = items\<rparr>, jq_priorityJobs = PriorityLockQueue_new, jq_jobCount = n\<rparr>"
  let ?s = "\<lambda>items n pc1 pc2 xs ys. \<lparr>qs_queue = ?q items n, qs_global = 0,
     qs_pc = (\<lambda>_. JIdle)(1 := pc1, 2 := pc2), qs_ran = xs, qs_pushed = ys\<rparr>"
  have "queue_init = ?s [] 0 JIdle JIdle [] []"
    by (auto simp: queue_init_def JobQueue_new_def LockQueue_new_def)
  also have "queue_step {1, 2} (?s [] 0 JIdle JIdle [] []) (?s [] 1 (JPush 7 0) JIdle [] [])"
    using queue_step.count [of 1 "{1, 2}" "?s [] 0 JIdle JIdle [] []" 7] by (simp add: Push_count_def fun_upd_twist)
  then have "(queue_step {1, 2})\<^sup>*\<^sup>* (?s [] 0 JIdle JIdle [] []) (?s [] 1 (JPush 7 0) JIdle [] [])" ..
  also have "queue_step {1, 2} (?s [] 1 (JPush 7 0) JIdle [] []) (?s [] 2 (JPush 7 0) (JPush 8 1) [] [])"
    using queue_step.count [of 2 "{1, 2}" "?s [] 1 (JPush 7 0) JIdle [] []" 8] by (simp add: Push_count_def)
  also have "queue_step {1, 2} (?s [] 2 (JPush 7 0) (JPush 8 1) [] []) (?s [7] 2 JGo (JPush 8 1) [] [7])"
    using queue_step.enqueue [of 1 "{1, 2}" "?s [] 2 (JPush 7 0) (JPush 8 1) [] []" 7 0]
    by (simp add: Push_enqueue_def LockQueue_Push_def fun_upd_twist)
  also have "queue_step {1, 2} (?s [7] 2 JGo (JPush 8 1) [] [7]) (?s [7] 2 JExec (JPush 8 1) [] [7])"
    using queue_step.go [of 1 "{1, 2}" "?s [7] 2 JGo (JPush 8 1) [] [7]"] by (simp add: fun_upd_twist)
  also have "queue_step {1, 2} (?s [7] 2 JExec (JPush 8 1) [] [7]) (?s [] 2 (JRun [7] 1) (JPush 8 1) [] [7])"
    using queue_step.take [of 1 "{1, 2}" "?s [7] 2 JExec (JPush 8 1) [] [7]" "[7]" "?q [] 2"]
    by (simp add: Execute_take_all fun_upd_twist)
  also have "queue_step {1, 2} (?s [] 2 (JRun [7] 1) (JPush 8 1) [] [7]) (?s [] 2 (JRun [] 1) (JPush 8 1) [7] [7])"
    using queue_step.run [of 1 "{1, 2}" "?s [] 2 (JRun [7] 1) (JPush 8 1) [] [7]"] by (simp add: fun_upd_twist)
  also have "queue_step {1, 2} (?s [] 2 (JRun [] 1) (JPush 8 1) [7] [7]) (?s [] 1 JYield (JPush 8 1) [7] [7])"
    using queue_step.sub [of 1 "{1, 2}" "?s [] 2 (JRun [] 1) (JPush 8 1) [7] [7]" 1 False "?q [] 1"]
    by (simp add: Execute_sub_def fun_upd_twist)
  also have "?s [] 1 JYield (JPush 8 1) [7] [7] = queue_demo"
    by (simp add: queue_demo_def JobQueue_new_def LockQueue_new_def)
  finally show ?thesis .
qed


end
