(* ===== verification/Sockets.thy ===== *)
theory Sockets
  imports Database
begin

text \<open>
  Addresses and socket options (\<open>ServerCore/NetAddress\<close>, \<open>SocketUtils\<close>). The operating system is a
  parameter that answers each call; the model records the calls in their order, and an answer may
  depend on all earlier calls.
\<close>

section \<open>Winsock\<close>

type_synonym SOCKET = u64

definition INVALID_SOCKET :: SOCKET where "INVALID_SOCKET = - 1"

record sockaddr_in =
  sin_family :: u16
  sin_port :: u16
  sin_addr :: u32

datatype sockopt = OptLinger u16 u16 | OptBool bool | OptInt int | OptSocket SOCKET

datatype extension = Ext_ConnectEx | Ext_DisconnectEx | Ext_AcceptEx

datatype os_call = Call_WSAStartup | Call_WSACleanup | Call_WSASocket | Call_WSAIoctl SOCKET extension
  | Call_setsockopt SOCKET int int sockopt | Call_bind SOCKET sockaddr_in | Call_listen SOCKET int
  | Call_closesocket SOCKET | Call_getpeername SOCKET | Call_AcceptEx SOCKET SOCKET
  | Call_CreateIoCompletionPort SOCKET

record winsock_api =
  wa_ok :: "os_call list \<Rightarrow> os_call \<Rightarrow> bool"
  wa_WSASocket :: "os_call list \<Rightarrow> SOCKET"
  wa_getpeername :: "os_call list \<Rightarrow> SOCKET \<Rightarrow> sockaddr_in option"
  wa_AcceptEx :: "os_call list \<Rightarrow> SOCKET \<Rightarrow> SOCKET \<Rightarrow> int option"

text \<open>A call that succeeds or not; \<open>True\<close> is success.\<close>

definition os_try :: "winsock_api \<Rightarrow> os_call \<Rightarrow> os_call list \<Rightarrow> bool \<times> os_call list" where
  "os_try api c calls = (wa_ok api calls c, calls @ [c])"

definition AF_INET :: u16 where "AF_INET = 2"
definition SOL_SOCKET :: int where "SOL_SOCKET = 0xffff"
definition SO_REUSEADDR :: int where "SO_REUSEADDR = 0x0004"
definition SO_LINGER :: int where "SO_LINGER = 0x0080"
definition SO_SNDBUF :: int where "SO_SNDBUF = 0x1001"
definition SO_RCVBUF :: int where "SO_RCVBUF = 0x1002"
definition SO_UPDATE_ACCEPT_CONTEXT :: int where "SO_UPDATE_ACCEPT_CONTEXT = 0x700B"
definition TCP_NODELAY :: int where "TCP_NODELAY = 0x0001"
definition SOMAXCONN :: int where "SOMAXCONN = 0x7fffffff"

text \<open>The byte swap between the little-endian host and the network.\<close>

definition htons :: "u16 \<Rightarrow> u16" where
  "htons w = of_nat (unat w mod 256 * 256 + unat w div 256)"

definition ntohs :: "u16 \<Rightarrow> u16" where
  "ntohs w = htons w"

section \<open>Addresses\<close>

record net_address =
  na_sockAddr :: sockaddr_in

definition NetAddress_default :: net_address where
  "NetAddress_default = \<lparr>na_sockAddr = \<lparr>sin_family = 0, sin_port = 0, sin_addr = 0\<rparr>\<rparr>"

definition NetAddress_sock :: "sockaddr_in \<Rightarrow> net_address" where
  "NetAddress_sock sockAddr = \<lparr>na_sockAddr = sockAddr\<rparr>"

text \<open>
  \<open>InetPtonW\<close> is a parameter. When it refuses the text, the local variable \<open>address\<close> keeps the value it
  happens to have.
\<close>

definition Ip2Address :: "(wstr \<Rightarrow> u32 option) \<Rightarrow> u32 \<Rightarrow> wstr \<Rightarrow> u32" where
  "Ip2Address InetPtonW address ip = (case InetPtonW ip of None \<Rightarrow> address | Some a \<Rightarrow> a)"

definition NetAddress_new :: "(wstr \<Rightarrow> u32 option) \<Rightarrow> u32 \<Rightarrow> wstr \<Rightarrow> u16 \<Rightarrow> net_address" where
  "NetAddress_new InetPtonW uninit ip port =
     \<lparr>na_sockAddr = \<lparr>sin_family = AF_INET, sin_port = htons port, sin_addr = Ip2Address InetPtonW uninit (c_str ip)\<rparr>\<rparr>"

definition GetSockAddr :: "net_address \<Rightarrow> sockaddr_in" where
  "GetSockAddr a = na_sockAddr a"

definition GetIpAddress :: "(u32 \<Rightarrow> wstr) \<Rightarrow> net_address \<Rightarrow> wstr" where
  "GetIpAddress InetNtopW a = c_str (InetNtopW (sin_addr (na_sockAddr a)))"

definition GetPort :: "net_address \<Rightarrow> u16" where
  "GetPort a = ntohs (sin_port (na_sockAddr a))"

section \<open>SocketUtils\<close>

definition SetSockOpt :: "winsock_api \<Rightarrow> SOCKET \<Rightarrow> int \<Rightarrow> int \<Rightarrow> sockopt \<Rightarrow> os_call list \<Rightarrow> bool \<times> os_call list" where
  "SetSockOpt api s level optName optVal = os_try api (Call_setsockopt s level optName optVal)"

definition CreateSocket :: "winsock_api \<Rightarrow> os_call list \<Rightarrow> SOCKET \<times> os_call list" where
  "CreateSocket api calls = (wa_WSASocket api calls, calls @ [Call_WSASocket])"

definition BindWindowsFunction :: "winsock_api \<Rightarrow> SOCKET \<Rightarrow> extension \<Rightarrow> os_call list \<Rightarrow> bool \<times> os_call list" where
  "BindWindowsFunction api s guid = os_try api (Call_WSAIoctl s guid)"

definition SetLinger :: "winsock_api \<Rightarrow> SOCKET \<Rightarrow> u16 \<Rightarrow> u16 \<Rightarrow> os_call list \<Rightarrow> bool \<times> os_call list" where
  "SetLinger api s onoff linger = SetSockOpt api s SOL_SOCKET SO_LINGER (OptLinger onoff linger)"

definition SetReuseAddress :: "winsock_api \<Rightarrow> SOCKET \<Rightarrow> bool \<Rightarrow> os_call list \<Rightarrow> bool \<times> os_call list" where
  "SetReuseAddress api s flag = SetSockOpt api s SOL_SOCKET SO_REUSEADDR (OptBool flag)"

definition SetRecvBufferSize :: "winsock_api \<Rightarrow> SOCKET \<Rightarrow> int \<Rightarrow> os_call list \<Rightarrow> bool \<times> os_call list" where
  "SetRecvBufferSize api s sz = SetSockOpt api s SOL_SOCKET SO_RCVBUF (OptInt sz)"

definition SetSendBufferSize :: "winsock_api \<Rightarrow> SOCKET \<Rightarrow> int \<Rightarrow> os_call list \<Rightarrow> bool \<times> os_call list" where
  "SetSendBufferSize api s sz = SetSockOpt api s SOL_SOCKET SO_SNDBUF (OptInt sz)"

definition SetTcpNoDelay :: "winsock_api \<Rightarrow> SOCKET \<Rightarrow> bool \<Rightarrow> os_call list \<Rightarrow> bool \<times> os_call list" where
  "SetTcpNoDelay api s flag = SetSockOpt api s SOL_SOCKET TCP_NODELAY (OptBool flag)"

definition SetUpdateAcceptSocket :: "winsock_api \<Rightarrow> SOCKET \<Rightarrow> SOCKET \<Rightarrow> os_call list \<Rightarrow> bool \<times> os_call list" where
  "SetUpdateAcceptSocket api s listenSocket = SetSockOpt api s SOL_SOCKET SO_UPDATE_ACCEPT_CONTEXT (OptSocket listenSocket)"

definition SocketUtils_Bind :: "winsock_api \<Rightarrow> SOCKET \<Rightarrow> net_address \<Rightarrow> os_call list \<Rightarrow> bool \<times> os_call list" where
  "SocketUtils_Bind api s netAddr = os_try api (Call_bind s (GetSockAddr netAddr))"

definition BindAnyAddress :: "winsock_api \<Rightarrow> SOCKET \<Rightarrow> u16 \<Rightarrow> os_call list \<Rightarrow> bool \<times> os_call list" where
  "BindAnyAddress api s port = os_try api (Call_bind s \<lparr>sin_family = AF_INET, sin_port = htons port, sin_addr = 0\<rparr>)"

definition SocketUtils_Listen :: "winsock_api \<Rightarrow> SOCKET \<Rightarrow> int \<Rightarrow> os_call list \<Rightarrow> bool \<times> os_call list" where
  "SocketUtils_Listen api s backlog = os_try api (Call_listen s backlog)"

definition SocketUtils_Close :: "SOCKET \<Rightarrow> os_call list \<Rightarrow> SOCKET \<times> os_call list" where
  "SocketUtils_Close s calls = (INVALID_SOCKET, if s \<noteq> INVALID_SOCKET then calls @ [Call_closesocket s] else calls)"

text \<open>The three function pointers, as whether they have been set.\<close>

record socket_utils =
  su_ConnectEx :: bool
  su_DisconnectEx :: bool
  su_AcceptEx :: bool

definition SocketUtils_Init :: "winsock_api \<Rightarrow> os_call list \<Rightarrow> (socket_utils \<times> os_call list) res" where
  "SocketUtils_Init api calls =
     (case os_try api Call_WSAStartup calls of (started, calls) \<Rightarrow>
      ASSERT_CRASH started
        (case CreateSocket api calls of (dummySocket, calls) \<Rightarrow>
         case BindWindowsFunction api dummySocket Ext_ConnectEx calls of (ok, calls) \<Rightarrow>
         ASSERT_CRASH ok
           (case BindWindowsFunction api dummySocket Ext_DisconnectEx calls of (ok, calls) \<Rightarrow>
            ASSERT_CRASH ok
              (case BindWindowsFunction api dummySocket Ext_AcceptEx calls of (ok, calls) \<Rightarrow>
               ASSERT_CRASH ok
                 (case SocketUtils_Close dummySocket calls of (_, calls) \<Rightarrow>
                  Inr (\<lparr>su_ConnectEx = True, su_DisconnectEx = True, su_AcceptEx = True\<rparr>, calls))))))"

definition SocketUtils_Clear :: "os_call list \<Rightarrow> os_call list" where
  "SocketUtils_Clear calls = calls @ [Call_WSACleanup]"

section \<open>Properties\<close>

lemma unat_htons: "unat (htons w) = unat w mod 256 * 256 + unat w div 256"
proof -
  have "unat w < 65536" using unsigned_less [of w] by simp
  then have "unat w div 256 < 256" by simp
  moreover have "unat w mod 256 \<le> 255" by simp
  ultimately have "unat w mod 256 * 256 + unat w div 256 < 65536" by linarith
  then show ?thesis by (simp add: htons_def unat_of_nat del: of_nat_add of_nat_mult)
qed

text \<open>An address built from a text and a port has the family of IPv4, gives back its port, and stores the port
  with its high byte first in memory, whatever \<open>InetPtonW\<close> makes of the text.\<close>

theorem port_network_order:
  "GetPort (NetAddress_new InetPtonW uninit ip port) = port \<and>
   sin_family (GetSockAddr (NetAddress_new InetPtonW uninit ip port)) = AF_INET \<and>
   le16 (sin_port (GetSockAddr (NetAddress_new InetPtonW uninit ip port))) = rev (le16 port)"
proof -
  have p: "unat port < 65536" using unsigned_less [of port] by simp
  have "unat (htons (htons port)) = unat port"
    unfolding unat_htons using p by (simp add: div_mult2_eq [symmetric] mod_div_trivial)
  then have "htons (htons port) = port" by (simp add: word_unat_eq_iff)
  moreover have "unat (ucast (htons port) :: byte) = unat (ucast (drop_bit 8 port) :: byte)"
      "unat (ucast (drop_bit 8 (htons port)) :: byte) = unat (ucast port :: byte)"
    using p unfolding unat_hi by (simp_all add: unat_lo unat_htons)
  ultimately show ?thesis
    by (simp add: GetPort_def NetAddress_new_def GetSockAddr_def ntohs_def le16_def word_unat_eq_iff)
qed

end
