(* ===== verification/RecvBuffer.thy ===== *)
theory RecvBuffer
  imports Interfaces
begin

text \<open>
  The receive buffer of a session (\<open>ServerCore/RecvBuffer.h\<close>, \<open>ServerCore/RecvBuffer.cpp\<close>): a
  flat array ten times the size of one receive, a read and a write position, and a compaction
  (\<open>Clean\<close>) that copies the unread tail to the front when less than one receive fits behind it.
  The theory shows that the positions stay inside the array and inside \<open>int32_t\<close>, that the
  buffer implements a byte queue, and that the \<open>memcpy\<close> of the compaction never overlaps as
  long as at most four receives' worth of data is unread.
\<close>

section \<open>State and operations\<close>

record recv_buffer =
  rb_capacity :: int
  rb_bufferSize :: int
  rb_readPos :: int
  rb_writePos :: int
  rb_buffer :: "byte list"

definition BUFFER_COUNT :: int where
  "BUFFER_COUNT = 10"

definition RecvBuffer_new :: "int \<Rightarrow> recv_buffer" where
  "RecvBuffer_new bufferSize =
     \<lparr>rb_capacity = bufferSize * BUFFER_COUNT, rb_bufferSize = bufferSize,
      rb_readPos = 0, rb_writePos = 0,
      rb_buffer = replicate (nat (bufferSize * BUFFER_COUNT)) 0\<rparr>"

definition RecvBuffer_DataSize :: "recv_buffer \<Rightarrow> int" where
  "RecvBuffer_DataSize b = rb_writePos b - rb_readPos b"

definition RecvBuffer_FreeSize :: "recv_buffer \<Rightarrow> int" where
  "RecvBuffer_FreeSize b = rb_capacity b - rb_writePos b"

text \<open>A pointer into the array is modelled by the bytes from that position on.\<close>

definition RecvBuffer_ReadPos :: "recv_buffer \<Rightarrow> byte list" where
  "RecvBuffer_ReadPos b = drop (nat (rb_readPos b)) (rb_buffer b)"

text \<open>
  \<open>memcpy\<close> to the front of the array; its behaviour is undefined when source and destination
  overlap, that is when the source starts before \<open>n\<close>.
\<close>

definition memcpy_front :: "nat \<Rightarrow> nat \<Rightarrow> byte list \<Rightarrow> byte list res" where
  "memcpy_front src n xs =
     (if src < n then Inl Overlap else Inr (overwrite 0 (bslice src n xs) xs))"

definition RecvBuffer_Clean :: "recv_buffer \<Rightarrow> recv_buffer res" where
  "RecvBuffer_Clean b =
     (let dataSize = RecvBuffer_DataSize b in
      if dataSize = 0 then Inr (b\<lparr>rb_readPos := 0, rb_writePos := 0\<rparr>)
      else if RecvBuffer_FreeSize b < rb_bufferSize b
        then bindR (memcpy_front (nat (rb_readPos b)) (nat dataSize) (rb_buffer b))
               (\<lambda>buf. Inr (b\<lparr>rb_buffer := buf, rb_readPos := 0, rb_writePos := dataSize\<rparr>))
        else Inr b)"

definition RecvBuffer_OnRead :: "int \<Rightarrow> recv_buffer \<Rightarrow> bool \<times> recv_buffer" where
  "RecvBuffer_OnRead numOfBytes b =
     (if numOfBytes > RecvBuffer_DataSize b then (False, b)
      else (True, b\<lparr>rb_readPos := rb_readPos b + numOfBytes\<rparr>))"

definition RecvBuffer_OnWrite :: "int \<Rightarrow> recv_buffer \<Rightarrow> bool \<times> recv_buffer" where
  "RecvBuffer_OnWrite numOfBytes b =
     (if numOfBytes > RecvBuffer_FreeSize b then (False, b)
      else (True, b\<lparr>rb_writePos := rb_writePos b + numOfBytes\<rparr>))"

text \<open>
  What the operating system does to the array when a receive completes: the received bytes are
  stored from the write position on (the session passed \<open>WritePos()\<close> and \<open>FreeSize()\<close> to
  \<open>WSARecv\<close>). \<open>OnWrite\<close> then accounts for them.
\<close>

definition kernel_fill :: "byte list \<Rightarrow> recv_buffer \<Rightarrow> recv_buffer" where
  "kernel_fill bs b = b\<lparr>rb_buffer := overwrite (nat (rb_writePos b)) bs (rb_buffer b)\<rparr>"

section \<open>Invariant and abstraction\<close>

definition rb_inv :: "int \<Rightarrow> recv_buffer \<Rightarrow> bool" where
  [inv_defs]: "rb_inv B b \<longleftrightarrow>
     0 < B \<and> rb_bufferSize b = B \<and> rb_capacity b = B * BUFFER_COUNT \<and>
     rb_capacity b \<le> INT32_MAX \<and>
     0 \<le> rb_readPos b \<and> rb_readPos b \<le> rb_writePos b \<and> rb_writePos b \<le> rb_capacity b \<and>
     int (length (rb_buffer b)) = rb_capacity b"

definition rb_data :: "recv_buffer \<Rightarrow> byte list" where
  "rb_data b = bslice (nat (rb_readPos b)) (nat (RecvBuffer_DataSize b)) (rb_buffer b)"

definition rb_deliver :: "byte list \<Rightarrow> recv_buffer \<Rightarrow> bool \<times> recv_buffer" where
  "rb_deliver bs b = RecvBuffer_OnWrite (int (length bs)) (kernel_fill bs b)"

lemmas rb_sizes = RecvBuffer_DataSize_def RecvBuffer_FreeSize_def BUFFER_COUNT_def

lemma rb_inv_new:
  assumes "0 < B" "B * BUFFER_COUNT \<le> INT32_MAX"
  shows "rb_inv B (RecvBuffer_new B)" and "rb_data (RecvBuffer_new B) = []"
  using assms
  by (simp_all add: rb_inv_def RecvBuffer_new_def rb_data_def RecvBuffer_DataSize_def BUFFER_COUNT_def)

lemma length_rb_data: "rb_inv B b \<Longrightarrow> int (length (rb_data b)) = RecvBuffer_DataSize b"
  by (auto simp: rb_inv_def rb_data_def rb_sizes)

lemma rb_deliver_ok:
  assumes inv: "rb_inv B b" and fits: "int (length bs) \<le> RecvBuffer_FreeSize b"
  shows "\<exists>b'. rb_deliver bs b = (True, b') \<and> rb_inv B b' \<and> rb_data b' = rb_data b @ bs"
proof -
  let ?r = "nat (rb_readPos b)" and ?w = "nat (rb_writePos b)" and ?xs = "rb_buffer b"
  let ?b' = "b\<lparr>rb_buffer := overwrite ?w bs ?xs, rb_writePos := rb_writePos b + int (length bs)\<rparr>"
  have rw: "?r \<le> ?w" and le: "?w + length bs \<le> length ?xs"
    using inv fits by (auto simp: rb_inv_def rb_sizes)
  have eq: "rb_deliver bs b = (True, ?b')"
    using fits by (simp add: rb_deliver_def RecvBuffer_OnWrite_def kernel_fill_def rb_sizes)
  have inv': "rb_inv B ?b'"
    using inv fits le by (auto simp: rb_inv_def rb_sizes)
  have n: "nat (rb_writePos b + int (length bs) - rb_readPos b) = (?w - ?r) + length bs"
    using inv by (auto simp: rb_inv_def)
  have "bslice ?r ((?w - ?r) + length bs) (overwrite ?w bs ?xs)
      = bslice ?r (?w - ?r) (overwrite ?w bs ?xs) @ bslice ?w (length bs) (overwrite ?w bs ?xs)"
    using rw bslice_append [of ?r "?w - ?r" "overwrite ?w bs ?xs" "length bs"] by simp
  also have "\<dots> = bslice ?r (?w - ?r) ?xs @ bs"
    using rw le by (simp add: bslice_overwrite_below bslice_overwrite_same)
  finally have "rb_data ?b' = rb_data b @ bs"
    using inv n by (simp add: rb_data_def RecvBuffer_DataSize_def nat_diff_distrib rb_inv_def)
  with eq inv' show ?thesis by blast
qed

lemma rb_consume_ok:
  assumes inv: "rb_inv B b" and n: "0 \<le> n" "n \<le> int (length (rb_data b))"
  shows "\<exists>b'. RecvBuffer_OnRead n b = (True, b') \<and> rb_inv B b' \<and> rb_data b' = drop (nat n) (rb_data b)"
proof -
  let ?b' = "b\<lparr>rb_readPos := rb_readPos b + n\<rparr>"
  have le: "n \<le> RecvBuffer_DataSize b"
    using n length_rb_data [OF inv] by simp
  have "rb_inv B ?b'"
    using inv n(1) le by (auto simp: rb_inv_def rb_sizes)
  moreover have "rb_data ?b' = drop (nat n) (rb_data b)"
    using inv n(1) le
    by (auto simp: rb_data_def RecvBuffer_DataSize_def rb_inv_def drop_bslice nat_add_distrib
        nat_diff_distrib intro!: arg_cong [where f = "\<lambda>k. bslice _ k _"])
  ultimately show ?thesis
    using le by (auto simp: RecvBuffer_OnRead_def)
qed

lemma rb_clean_ok:
  assumes inv: "rb_inv B b" and small: "int (length (rb_data b)) \<le> 4 * B"
  shows "\<exists>b'. RecvBuffer_Clean b = Inr b' \<and> rb_inv B b' \<and> rb_data b' = rb_data b
      \<and> B \<le> RecvBuffer_FreeSize b'"
proof -
  have d: "RecvBuffer_DataSize b \<le> 4 * B"
    using small length_rb_data [OF inv] by simp
  consider (empty) "RecvBuffer_DataSize b = 0"
    | (compact) "RecvBuffer_DataSize b \<noteq> 0" "RecvBuffer_FreeSize b < rb_bufferSize b"
    | (keep) "RecvBuffer_DataSize b \<noteq> 0" "\<not> RecvBuffer_FreeSize b < rb_bufferSize b"
    by blast
  then show ?thesis
  proof cases
    case empty
    then show ?thesis
      using inv by (auto simp: RecvBuffer_Clean_def rb_inv_def rb_data_def rb_sizes)
  next
    case keep
    then show ?thesis
      using inv by (auto simp: RecvBuffer_Clean_def Let_def rb_inv_def)
  next
    case compact
    let ?n = "nat (RecvBuffer_DataSize b)" and ?r = "nat (rb_readPos b)"
    have nov: "\<not> ?r < ?n" and fit: "?r + ?n \<le> length (rb_buffer b)"
      using inv compact d by (auto simp: rb_inv_def rb_sizes)
    have len: "length (bslice ?r ?n (rb_buffer b)) = ?n"
      using fit by simp
    have data: "bslice 0 ?n (overwrite 0 (bslice ?r ?n (rb_buffer b)) (rb_buffer b)) = bslice ?r ?n (rb_buffer b)"
      using fit len by (intro bslice_overwrite_same) auto
    have size: "length (overwrite 0 (bslice ?r ?n (rb_buffer b)) (rb_buffer b)) = length (rb_buffer b)"
      using fit len by (intro length_overwrite) auto
    show ?thesis
      using inv compact d nov data size
      by (auto simp: RecvBuffer_Clean_def Let_def memcpy_front_def rb_inv_def rb_data_def rb_sizes)
  qed
qed

interpretation rb: byte_stream "rb_inv B" rb_data RecvBuffer_FreeSize rb_deliver
  RecvBuffer_OnRead RecvBuffer_Clean B "4 * B" for B
  by unfold_locales (use rb_deliver_ok rb_consume_ok rb_clean_ok in blast)+

end
