(* ===== verification/Framing.thy ===== *)
theory Framing
  imports Interfaces
begin

text \<open>
  Packet framing: the four-byte \<open>PacketHeader\<close> of \<open>ServerCore/Session.h\<close> and the loop of
  \<open>PacketSession::OnRecv\<close> in \<open>ServerCore/Session.cpp\<close>, which cuts the received bytes into packets
  and hands each one to the virtual \<open>OnRecvPacket\<close>. The loop has no bound of its own, so it is a
  partial function whose value \<open>None\<close> means that it never returns. The theory shows which
  packets it delivers, that it consumes only whole packets, and exactly when it returns.
\<close>

section \<open>The packet header\<close>

record packet_header =
  ph_size :: u16
  ph_id :: u16

definition sizeof_PacketHeader :: int where
  "sizeof_PacketHeader = 4"

text \<open>Reading the header through a pointer cast: both fields are little-endian on the target.\<close>

definition PacketHeader_at :: "byte list \<Rightarrow> packet_header" where
  "PacketHeader_at p = \<lparr>ph_size = rd16 (p ! 0) (p ! 1), ph_id = rd16 (p ! 2) (p ! 3)\<rparr>"

definition PacketHeader_bytes :: "packet_header \<Rightarrow> byte list" where
  "PacketHeader_bytes h = le16 (ph_size h) @ le16 (ph_id h)"

lemma length_PacketHeader_bytes [simp]: "length (PacketHeader_bytes h) = 4"
  by (simp add: PacketHeader_bytes_def)

lemma PacketHeader_at_bytes [simp]: "PacketHeader_at (PacketHeader_bytes h @ rest) = h"
proof -
  have "rd16 (le16 w ! 0) (le16 w ! 1) = w" for w
    by (rule rd16_le16)
  then have "rd16 (le16 w ! 0) (le16 w ! Suc 0) = w" for w
    by simp
  then show ?thesis
    by (simp add: PacketHeader_at_def PacketHeader_bytes_def nth_append)
qed

lemma PacketHeader_at_append: "4 \<le> length p \<Longrightarrow> PacketHeader_at (p @ q) = PacketHeader_at p"
  by (auto simp: PacketHeader_at_def nth_append)

lemma PacketHeader_at_take: "4 \<le> n \<Longrightarrow> PacketHeader_at (take n p) = PacketHeader_at p"
  by (simp add: PacketHeader_at_def)

section \<open>The receive loop\<close>

text \<open>
  The handler gets the pointer \<open>&buffer[processLen]\<close> (the bytes from there on) and the size of the
  packet; it may change the state \<open>'s\<close> and may fail.
\<close>

type_synonym 's packet_fun = "byte list \<Rightarrow> int \<Rightarrow> 's \<Rightarrow> 's res"

partial_function (option) OnRecv_loop ::
  "'s packet_fun \<Rightarrow> byte list \<Rightarrow> int \<Rightarrow> int \<Rightarrow> 's \<Rightarrow> (int \<times> 's) res option" where
  "OnRecv_loop OnRecvPacket buffer len processLen s =
     (if len - processLen < sizeof_PacketHeader then Some (Inr (processLen, s))
      else if len - processLen < uint (ph_size (PacketHeader_at (drop (nat processLen) buffer)))
        then Some (Inr (processLen, s))
      else (case OnRecvPacket (drop (nat processLen) buffer)
                   (uint (ph_size (PacketHeader_at (drop (nat processLen) buffer)))) s of
              Inl e \<Rightarrow> Some (Inl e)
            | Inr s' \<Rightarrow> OnRecv_loop OnRecvPacket buffer len
                 (processLen + uint (ph_size (PacketHeader_at (drop (nat processLen) buffer)))) s'))"

definition PacketSession_OnRecv ::
  "'s packet_fun \<Rightarrow> byte list \<Rightarrow> int \<Rightarrow> 's \<Rightarrow> (int \<times> 's) res option" where
  "PacketSession_OnRecv OnRecvPacket buffer len s = OnRecv_loop OnRecvPacket buffer len 0 s"

section \<open>Which packets are delivered\<close>

definition wf_packet :: "byte list \<Rightarrow> bool" where
  "wf_packet p \<longleftrightarrow> 4 \<le> length p \<and> int (length p) = uint (ph_size (PacketHeader_at p))"

definition incomplete :: "byte list \<Rightarrow> bool" where
  "incomplete q \<longleftrightarrow>
     length q < 4 \<or> int (length q) < uint (ph_size (PacketHeader_at q))"

text \<open>A handler that looks at the packet only, not at the bytes behind it.\<close>

definition packet_local :: "'s packet_fun \<Rightarrow> bool" where
  "packet_local h \<longleftrightarrow>
     (\<forall>p q s. wf_packet p \<longrightarrow> h (p @ q) (int (length p)) s = h p (int (length p)) s)"

fun handle_all :: "'s packet_fun \<Rightarrow> byte list list \<Rightarrow> 's \<Rightarrow> 's res" where
  "handle_all h [] s = Inr s"
| "handle_all h (p # ps) s = bindR (h p (int (length p)) s) (handle_all h ps)"

lemma handle_all_append:
  "handle_all h (ps @ qs) s = bindR (handle_all h ps s) (handle_all h qs)"
  by (induction ps arbitrary: s) (auto simp: bindR_def split: sum.split)

lemma wf_packet_length: "wf_packet p \<Longrightarrow> 4 \<le> length p \<and> length p < 65536"
proof -
  assume "wf_packet p"
  moreover have "uint (ph_size (PacketHeader_at p)) < 2 ^ 16"
    using uint_lt2p [of "ph_size (PacketHeader_at p)"] by simp
  ultimately show ?thesis by (auto simp: wf_packet_def)
qed

lemma incomplete_length: "incomplete q \<Longrightarrow> length q < 65536"
proof -
  assume "incomplete q"
  moreover have "uint (ph_size (PacketHeader_at q)) < 2 ^ 16"
    using uint_lt2p [of "ph_size (PacketHeader_at q)"] by simp
  ultimately show ?thesis by (auto simp: incomplete_def)
qed

lemma OnRecv_loop_stop:
  assumes "incomplete q"
  shows "OnRecv_loop h (pre @ q @ junk) (int (length (pre @ q))) (int (length pre)) s
       = Some (Inr (int (length pre), s))"
proof (cases "length q < 4")
  case True
  then show ?thesis
    by (subst OnRecv_loop.simps) (simp add: sizeof_PacketHeader_def)
next
  case False
  then have "PacketHeader_at (q @ junk) = PacketHeader_at q"
    by (intro PacketHeader_at_append) simp
  with False assms show ?thesis
    by (subst OnRecv_loop.simps) (simp add: sizeof_PacketHeader_def incomplete_def)
qed

lemma OnRecv_loop_packet:
  assumes "wf_packet p" "packet_local h" "length (pre @ p) \<le> n"
  shows "OnRecv_loop h (pre @ p @ q) (int n) (int (length pre)) s
       = (case h p (int (length p)) s of Inl e \<Rightarrow> Some (Inl e)
          | Inr s' \<Rightarrow> OnRecv_loop h (pre @ p @ q) (int n) (int (length (pre @ p))) s')"
proof -
  have "PacketHeader_at (p @ q) = PacketHeader_at p" and len: "4 \<le> length p"
    using assms(1) by (auto simp: wf_packet_def intro: PacketHeader_at_append)
  moreover have "uint (ph_size (PacketHeader_at p)) = int (length p)"
    using assms(1) by (simp add: wf_packet_def)
  moreover have "h (p @ q) (int (length p)) s = h p (int (length p)) s"
    using assms(1,2) by (simp add: packet_local_def)
  ultimately show ?thesis
    using assms(3)
    by (subst OnRecv_loop.simps) (simp add: sizeof_PacketHeader_def split: sum.split)
qed

lemma OnRecv_loop_packets:
  assumes "packet_local h" "incomplete q"
  shows "\<forall>p \<in> set ps. wf_packet p \<Longrightarrow>
    OnRecv_loop h (pre @ concat ps @ q @ junk) (int (length (pre @ concat ps @ q))) (int (length pre)) s
    = Some (bindR (handle_all h ps s) (\<lambda>s'. Inr (int (length (pre @ concat ps)), s')))"
proof (induction ps arbitrary: pre s)
  case Nil
  then show ?case using OnRecv_loop_stop [OF assms(2), of h pre junk s] by simp
next
  case (Cons p ps)
  have IH: "OnRecv_loop h ((pre @ p) @ concat ps @ q @ junk) (int (length ((pre @ p) @ concat ps @ q)))
        (int (length (pre @ p))) s'
      = Some (bindR (handle_all h ps s') (\<lambda>s'. Inr (int (length ((pre @ p) @ concat ps)), s')))" for s'
    using Cons.prems by (intro Cons.IH) simp
  show ?case
    using Cons.prems IH OnRecv_loop_packet [of p h pre "length ((pre @ p) @ concat ps @ q)"
        "concat ps @ q @ junk" s] assms(1)
    by (simp split: sum.splits)
qed

section \<open>When the loop returns\<close>

text \<open>\<open>frame_pos buffer len i j\<close>: starting at position \<open>i\<close>, the loop can reach position \<open>j\<close>.\<close>

inductive frame_pos :: "byte list \<Rightarrow> int \<Rightarrow> int \<Rightarrow> int \<Rightarrow> bool" for buffer len where
  here: "frame_pos buffer len i i"
| next_frame: "\<lbrakk>len - i \<ge> sizeof_PacketHeader;
     uint (ph_size (PacketHeader_at (drop (nat i) buffer))) \<le> len - i;
     frame_pos buffer len (i + uint (ph_size (PacketHeader_at (drop (nat i) buffer)))) j\<rbrakk>
   \<Longrightarrow> frame_pos buffer len i j"

definition zero_header :: "byte list \<Rightarrow> int \<Rightarrow> int \<Rightarrow> bool" where
  "zero_header buffer len j \<longleftrightarrow>
     len - j \<ge> sizeof_PacketHeader \<and> ph_size (PacketHeader_at (drop (nat j) buffer)) = 0"

lemma OnRecv_loop_no_zero:
  assumes ret: "OnRecv_loop h buffer len i s = Some r"
    and total: "\<And>p n s. \<exists>s'. h p n s = Inr s'"
    and pos: "frame_pos buffer len i j"
  shows "\<not> zero_header buffer len j"
proof -
  have "(\<forall>p n s. \<exists>s'. h p n s = Inr s') \<longrightarrow> (\<forall>j. frame_pos buffer len i j \<longrightarrow> \<not> zero_header buffer len j)"
  proof (rule OnRecv_loop.raw_induct [OF _ ret, where P = "\<lambda>h buffer len i s r.
      (\<forall>p n s. \<exists>s'. h p n s = Inr s') \<longrightarrow> (\<forall>j. frame_pos buffer len i j \<longrightarrow> \<not> zero_header buffer len j)"],
      intro impI allI)
    fix rec h buffer len i s r j
    let ?n = "uint (ph_size (PacketHeader_at (drop (nat i) buffer)))"
    assume IH: "\<And>h buffer len i s r. rec h buffer len i s = Some r \<Longrightarrow>
        (\<forall>p n s. \<exists>s'. h p n s = Inr s') \<longrightarrow>
        (\<forall>j. frame_pos buffer len i j \<longrightarrow> \<not> zero_header buffer len j)"
      and eq: "(if len - i < sizeof_PacketHeader then Some (Inr (i, s))
        else if len - i < ?n then Some (Inr (i, s))
        else (case h (drop (nat i) buffer) ?n s of Inl e \<Rightarrow> Some (Inl e)
              | Inr s' \<Rightarrow> rec h buffer len (i + ?n) s')) = Some r"
      and tot: "\<forall>p n s. \<exists>s'. h p n s = Inr s'"
      and fp: "frame_pos buffer len i j"
    from tot obtain s' where s': "h (drop (nat i) buffer) ?n s = Inr s'" by blast
    have rest: "\<not> zero_header buffer len j'"
      if "len - i \<ge> sizeof_PacketHeader" "?n \<le> len - i" "frame_pos buffer len (i + ?n) j'" for j'
      using eq IH [of h buffer len "i + ?n" s'] that tot s' by auto
    from fp show "\<not> zero_header buffer len j"
    proof cases
      case here
      show ?thesis
      proof
        assume z: "zero_header buffer len j"
        with here have "\<not> zero_header buffer len j"
          by (intro rest) (auto simp: zero_header_def sizeof_PacketHeader_def frame_pos.here)
        with z show False by simp
      qed
    next
      case next_frame
      then show ?thesis by (intro rest)
    qed
  qed
  then show ?thesis using total pos by blast
qed

lemma OnRecv_loop_returns:
  assumes "\<And>j. frame_pos buffer len i j \<Longrightarrow> \<not> zero_header buffer len j"
  shows "\<exists>r. OnRecv_loop h buffer len i s = Some r"
  using assms
proof (induction "nat (len - i)" arbitrary: i s rule: less_induct)
  case less
  let ?n = "uint (ph_size (PacketHeader_at (drop (nat i) buffer)))"
  show ?case
  proof (cases "len - i < sizeof_PacketHeader \<or> len - i < ?n")
    case True
    then show ?thesis by (subst OnRecv_loop.simps) auto
  next
    case False
    have "\<not> zero_header buffer len i"
      by (rule less.prems) (rule frame_pos.here)
    with False have "?n \<noteq> 0"
      by (simp add: zero_header_def uint_0_iff)
    then have pos: "0 < ?n"
      using uint_ge_0 [of "ph_size (PacketHeader_at (drop (nat i) buffer))"] by linarith
    have "\<exists>r. OnRecv_loop h buffer len (i + ?n) s' = Some r" for s'
    proof (rule less.hyps)
      show "nat (len - (i + ?n)) < nat (len - i)"
        using pos False by (auto simp: sizeof_PacketHeader_def)
      show "\<not> zero_header buffer len j" if "frame_pos buffer len (i + ?n) j" for j
        using False by (intro less.prems frame_pos.next_frame [OF _ _ that]) auto
    qed
    then obtain f where f: "OnRecv_loop h buffer len (i + ?n) s' = Some (f s')" for s'
      by metis
    show ?thesis
    proof (cases "h (drop (nat i) buffer) ?n s")
      case (Inl e)
      with False show ?thesis by (subst OnRecv_loop.simps) simp
    next
      case (Inr s')
      with False f [of s'] show ?thesis by (subst OnRecv_loop.simps) simp
    qed
  qed
qed

lemma OnRecv_returns_iff:
  assumes total: "\<And>p n s. \<exists>s'. h p n s = Inr s'"
  shows "(\<exists>r. PacketSession_OnRecv h buffer len s = Some r) \<longleftrightarrow>
    (\<forall>j. frame_pos buffer len 0 j \<longrightarrow> \<not> zero_header buffer len j)"
proof
  assume "\<exists>r. PacketSession_OnRecv h buffer len s = Some r"
  then obtain r where "OnRecv_loop h buffer len 0 s = Some r"
    by (auto simp: PacketSession_OnRecv_def)
  then show "\<forall>j. frame_pos buffer len 0 j \<longrightarrow> \<not> zero_header buffer len j"
    using OnRecv_loop_no_zero [of h, OF _ total] by blast
next
  assume "\<forall>j. frame_pos buffer len 0 j \<longrightarrow> \<not> zero_header buffer len j"
  then show "\<exists>r. PacketSession_OnRecv h buffer len s = Some r"
    unfolding PacketSession_OnRecv_def by (intro OnRecv_loop_returns) blast
qed

section \<open>Properties\<close>

text \<open>C18: For a handler that always returns, the packet loop returns if and only if no position it
  can reach holds a header whose size field is zero. A zero size makes it process the same bytes
  forever.\<close>

theorem OnRecv_terminates_iff:
  assumes "\<And>p n s. \<exists>s'. h p n s = Inr s'"
  shows "(\<exists>r. PacketSession_OnRecv h buffer len s = Some r) \<longleftrightarrow>
    (\<forall>j. frame_pos buffer len 0 j \<longrightarrow> \<not> zero_header buffer len j)"
  using assms by (rule OnRecv_returns_iff)

theorem OnRecv_terminates_iff_witness:
  "PacketSession_OnRecv (\<lambda>_ _ s. Inr s) [0, 0, 1, 0] 4 (0 :: nat) = None"
proof -
  have "zero_header [0, 0, 1, 0] 4 0"
    by (simp add: zero_header_def sizeof_PacketHeader_def PacketHeader_at_def rd16_def)
  then show ?thesis
    using OnRecv_terminates_iff [of "\<lambda>_ _ s. Inr s" "[0, 0, 1, 0]" 4 "0 :: nat"] frame_pos.here
    by (cases "PacketSession_OnRecv (\<lambda>_ _ s. Inr s) [0, 0, 1, 0] 4 (0 :: nat)") auto
qed

end
