(* ===== verification/Session.thy ===== *)
theory Session
  imports RecvBuffer Framing
begin

text \<open>
  A network session (\<open>ServerCore/Session.h\<close>, \<open>ServerCore/Session.cpp\<close>), the part that concerns one
  session object: sending, disconnecting and the registration of overlapped operations. The
  receive buffer is private to the object and is kept apart (record \<open>recv_half\<close>), so that a packet
  handler, which runs while the buffer is being read, gets a state that does not contain it.

  The Winsock calls are parameters (record \<open>winsock\<close>): each is a function of the session at the
  time of the call to \<open>None\<close> (the call succeeded) or \<open>Some e\<close> (it failed and \<open>WSAGetLastError\<close>
  returns \<open>e\<close>). The session counts the calls made (\<open>se_calls\<close>, \<open>rh_calls\<close>), so a parameter may
  answer differently every time.

  The type variable \<open>'p\<close> stands for the send buffers: the theory uses nothing of them.
\<close>

section \<open>State\<close>

type_synonym sid = nat

record 'p session =
  se_connected :: bool
  se_sendQueue :: "'p list"
  se_sendRegistered :: bool
  se_sendBuffers :: "'p list"
  se_connectOwner :: bool
  se_disconnectOwner :: bool
  se_sendOwner :: bool
  se_submitted :: "'p list list"
  se_calls :: nat

text \<open>
  \<open>se_sendBuffers\<close> is \<open>_sendEvent.sendBuffers\<close>; the \<open>Owner\<close> fields say whether the \<open>owner\<close> of the
  event is set, that is whether an overlapped operation holds a reference to the session.
  \<open>se_submitted\<close> records the buffers of each \<open>WSASend\<close>; no operation reads it.
\<close>

record recv_half =
  rh_buffer :: recv_buffer
  rh_owner :: bool
  rh_calls :: nat

record 'p winsock =
  WSASend :: "'p session \<Rightarrow> int option"
  WSARecv :: "recv_half \<Rightarrow> 'p session \<Rightarrow> int option"
  ConnectEx :: "'p session \<Rightarrow> int option"
  DisconnectEx :: "'p session \<Rightarrow> int option"

definition WSA_IO_PENDING :: int where
  "WSA_IO_PENDING = 997"

definition WSAECONNABORTED :: int where
  "WSAECONNABORTED = 10053"

definition WSAECONNRESET :: int where
  "WSAECONNRESET = 10054"

definition SESSION_BUFFER_SIZE :: int where
  "SESSION_BUFFER_SIZE = 65536"

definition Session_new :: "'p session" where
  "Session_new = \<lparr>se_connected = False, se_sendQueue = [], se_sendRegistered = False,
     se_sendBuffers = [], se_connectOwner = False, se_disconnectOwner = False,
     se_sendOwner = False, se_submitted = [], se_calls = 0\<rparr>"

definition Session_new_recv :: recv_half where
  "Session_new_recv = \<lparr>rh_buffer = RecvBuffer_new SESSION_BUFFER_SIZE, rh_owner = False, rh_calls = 0\<rparr>"

text \<open>An overlapped call fails for good when its error is not \<open>WSA_IO_PENDING\<close>.\<close>

definition overlapped_error :: "int option \<Rightarrow> int option" where
  "overlapped_error r = (case r of None \<Rightarrow> None | Some e \<Rightarrow> if e = WSA_IO_PENDING then None else Some e)"

definition count_call :: "'p session \<Rightarrow> 'p session" where
  "count_call s = s\<lparr>se_calls := se_calls s + 1\<rparr>"

section \<open>Disconnecting\<close>

definition RegisterDisconnect :: "'p winsock \<Rightarrow> 'p session \<Rightarrow> bool \<times> 'p session" where
  "RegisterDisconnect ws s =
     (let s1 = count_call (s\<lparr>se_disconnectOwner := True\<rparr>) in
      case overlapped_error (DisconnectEx ws s1) of
        None \<Rightarrow> (True, s1)
      | Some e \<Rightarrow> (False, s1\<lparr>se_disconnectOwner := False\<rparr>))"

definition Disconnect :: "'p winsock \<Rightarrow> 'p session \<Rightarrow> 'p session" where
  "Disconnect ws s =
     (if \<not> se_connected s then s
      else snd (RegisterDisconnect ws (s\<lparr>se_connected := False\<rparr>)))"

definition HandleError :: "'p winsock \<Rightarrow> int \<Rightarrow> 'p session \<Rightarrow> 'p session" where
  "HandleError ws errorCode s =
     (if errorCode = WSAECONNRESET \<or> errorCode = WSAECONNABORTED then Disconnect ws s else s)"

section \<open>Connecting\<close>

text \<open>
  \<open>RegisterConnect\<close>; its guards are the type of the service and the outcomes of the two socket
  options (\<open>SetReuseAddress\<close>, \<open>BindAnyAddress\<close>).
\<close>

definition RegisterConnect ::
  "'p winsock \<Rightarrow> bool \<Rightarrow> bool \<Rightarrow> bool \<Rightarrow> 'p session \<Rightarrow> bool \<times> 'p session" where
  "RegisterConnect ws isClient reuseOk bindOk s =
     (if se_connected s then (False, s)
      else if \<not> isClient then (False, s)
      else if \<not> reuseOk then (False, s)
      else if \<not> bindOk then (False, s)
      else let s1 = count_call (s\<lparr>se_connectOwner := True\<rparr>) in
        case overlapped_error (ConnectEx ws s1) of
          None \<Rightarrow> (True, s1)
        | Some e \<Rightarrow> (False, s1\<lparr>se_connectOwner := False\<rparr>))"

section \<open>Receiving\<close>

definition RegisterRecv :: "'p winsock \<Rightarrow> recv_half \<Rightarrow> 'p session \<Rightarrow> recv_half \<times> 'p session" where
  "RegisterRecv ws r s =
     (if \<not> se_connected s then (r, s)
      else let r1 = r\<lparr>rh_owner := True, rh_calls := rh_calls r + 1\<rparr> in
        case overlapped_error (WSARecv ws r1 s) of
          None \<Rightarrow> (r1, s)
        | Some e \<Rightarrow> (r1\<lparr>rh_owner := False\<rparr>, HandleError ws e s))"

section \<open>Sending\<close>

text \<open>
  \<open>RegisterSend\<close> in its two parts: moving the queue into the send event (under the session's
  lock), and handing the buffers of the event to \<open>WSASend\<close> (after the lock is released).
\<close>

definition RegisterSend_collect :: "'p session \<Rightarrow> 'p session" where
  "RegisterSend_collect s =
     s\<lparr>se_sendOwner := True, se_sendBuffers := se_sendBuffers s @ se_sendQueue s, se_sendQueue := []\<rparr>"

definition RegisterSend_submit :: "'p winsock \<Rightarrow> 'p session \<Rightarrow> bool \<times> 'p session" where
  "RegisterSend_submit ws s =
     (let s1 = count_call (s\<lparr>se_submitted := se_submitted s @ [se_sendBuffers s]\<rparr>) in
      case overlapped_error (WSASend ws s1) of
        None \<Rightarrow> (True, s1)
      | Some e \<Rightarrow> (False, (HandleError ws e s1)
          \<lparr>se_sendOwner := False, se_sendBuffers := [], se_sendRegistered := False\<rparr>))"

definition RegisterSend :: "'p winsock \<Rightarrow> 'p session \<Rightarrow> 'p session" where
  "RegisterSend ws s =
     (if \<not> se_connected s then s else snd (RegisterSend_submit ws (RegisterSend_collect s)))"

text \<open>The critical section of \<open>Send\<close>; the flag says that the caller has to register the send.\<close>

definition Send_push :: "'p \<Rightarrow> 'p session \<Rightarrow> bool \<times> 'p session" where
  "Send_push sendBuffer s =
     (\<not> se_sendRegistered s,
      s\<lparr>se_sendQueue := se_sendQueue s @ [sendBuffer], se_sendRegistered := True\<rparr>)"

definition Session_Send :: "'p winsock \<Rightarrow> 'p \<Rightarrow> 'p session \<Rightarrow> 'p session" where
  "Session_Send ws sendBuffer s =
     (if \<not> se_connected s then s
      else case Send_push sendBuffer s of
        (registerSend, s1) \<Rightarrow> if registerSend then RegisterSend ws s1 else s1)"

text \<open>
  \<open>ProcessSend\<close>: the part before the lock (with the result whether it goes on), and the
  critical section up to \<open>WSASend\<close> (with the result whether buffers have been collected).
\<close>

definition ProcessSend_begin :: "'p winsock \<Rightarrow> int \<Rightarrow> 'p session \<Rightarrow> bool \<times> 'p session" where
  "ProcessSend_begin ws numOfBytes s =
     (let s1 = s\<lparr>se_sendOwner := False, se_sendBuffers := []\<rparr> in
      if numOfBytes = 0 then (False, Disconnect ws s1) else (True, s1))"

definition ProcessSend_locked :: "'p session \<Rightarrow> bool \<times> 'p session" where
  "ProcessSend_locked s =
     (if se_sendQueue s = [] then (False, s\<lparr>se_sendRegistered := False\<rparr>)
      else if \<not> se_connected s then (False, s)
      else (True, RegisterSend_collect s))"

definition ProcessSend :: "'p winsock \<Rightarrow> int \<Rightarrow> 'p session \<Rightarrow> 'p session" where
  "ProcessSend ws numOfBytes s =
     (case ProcessSend_begin ws numOfBytes s of
        (False, s1) \<Rightarrow> s1
      | (True, s1) \<Rightarrow>
          if se_sendQueue s1 = [] then s1\<lparr>se_sendRegistered := False\<rparr> else RegisterSend ws s1)"

section \<open>Facts about single operations\<close>

lemma overlapped_error_simps [simp]:
  "overlapped_error None = None"
  "overlapped_error (Some e) = (if e = WSA_IO_PENDING then None else Some e)"
  by (simp_all add: overlapped_error_def)

lemma count_call_simps [simp]:
  "se_connected (count_call s) = se_connected s"
  "se_sendQueue (count_call s) = se_sendQueue s"
  "se_sendRegistered (count_call s) = se_sendRegistered s"
  "se_sendBuffers (count_call s) = se_sendBuffers s"
  "se_sendOwner (count_call s) = se_sendOwner s"
  "se_submitted (count_call s) = se_submitted s"
  by (simp_all add: count_call_def)

lemma Disconnect_simps [simp]:
  "\<not> se_connected (Disconnect ws s)"
  "se_sendQueue (Disconnect ws s) = se_sendQueue s"
  "se_sendRegistered (Disconnect ws s) = se_sendRegistered s"
  "se_sendBuffers (Disconnect ws s) = se_sendBuffers s"
  "se_sendOwner (Disconnect ws s) = se_sendOwner s"
  "se_submitted (Disconnect ws s) = se_submitted s"
  by (simp_all add: Disconnect_def RegisterDisconnect_def Let_def split: option.split)

lemma Disconnect_twice: "Disconnect ws (Disconnect ws s) = Disconnect ws s"
  by (simp add: Disconnect_def [of ws "Disconnect ws s"])

lemma HandleError_simps [simp]:
  "se_sendQueue (HandleError ws e s) = se_sendQueue s"
  "se_sendRegistered (HandleError ws e s) = se_sendRegistered s"
  "se_sendBuffers (HandleError ws e s) = se_sendBuffers s"
  "se_sendOwner (HandleError ws e s) = se_sendOwner s"
  "se_submitted (HandleError ws e s) = se_submitted s"
  by (simp_all add: HandleError_def)

lemma HandleError_connected: "se_connected (HandleError ws e s) \<Longrightarrow> se_connected s"
  by (simp add: HandleError_def split: if_splits)

lemma collect_simps [simp]:
  "se_connected (RegisterSend_collect s) = se_connected s"
  "se_sendQueue (RegisterSend_collect s) = []"
  "se_sendRegistered (RegisterSend_collect s) = se_sendRegistered s"
  "se_sendBuffers (RegisterSend_collect s) = se_sendBuffers s @ se_sendQueue s"
  "se_submitted (RegisterSend_collect s) = se_submitted s"
  by (simp_all add: RegisterSend_collect_def)

lemma ProcessSend_parts:
  "ProcessSend ws n s =
     (case ProcessSend_begin ws n s of
        (False, s1) \<Rightarrow> s1
      | (True, s1) \<Rightarrow> case ProcessSend_locked s1 of
           (False, s2) \<Rightarrow> s2
         | (True, s2) \<Rightarrow> snd (RegisterSend_submit ws s2))"
  by (auto simp: ProcessSend_def ProcessSend_locked_def RegisterSend_def split: prod.split bool.split)

section \<open>Concurrent senders\<close>

text \<open>
  Any number of threads call \<open>Send\<close> while the completions of earlier sends are processed. The
  program counter of a thread says where it is inside \<open>Send\<close>, \<open>RegisterSend\<close> or \<open>ProcessSend\<close>;
  the critical sections of the session's lock are single steps.
\<close>

datatype 'p send_pc =
    Idle
  | MustPush 'p
  | MustRegister
  | Collected
  | Completing

record 'p send_sys =
  ss_session :: "'p session"
  ss_pc :: "nat \<Rightarrow> 'p send_pc"
  ss_inflight :: bool
  ss_pushed :: "'p list"

definition send_init :: "'p session \<Rightarrow> 'p send_sys" where
  "send_init s = \<lparr>ss_session = s, ss_pc = (\<lambda>_. Idle), ss_inflight = False, ss_pushed = []\<rparr>"

inductive send_step :: "'p winsock \<Rightarrow> 'p send_sys \<Rightarrow> 'p send_sys \<Rightarrow> bool" for ws where
  check: "\<lbrakk>ss_pc y t = Idle; se_connected (ss_session y)\<rbrakk>
    \<Longrightarrow> send_step ws y (y\<lparr>ss_pc := (ss_pc y)(t := MustPush p)\<rparr>)"
| push: "\<lbrakk>ss_pc y t = MustPush p; Send_push p (ss_session y) = (won, s')\<rbrakk>
    \<Longrightarrow> send_step ws y (y\<lparr>ss_session := s', ss_pushed := ss_pushed y @ [p],
          ss_pc := (ss_pc y)(t := if won then MustRegister else Idle)\<rparr>)"
| register: "\<lbrakk>ss_pc y t = MustRegister; se_connected (ss_session y)\<rbrakk>
    \<Longrightarrow> send_step ws y (y\<lparr>ss_session := RegisterSend_collect (ss_session y),
          ss_pc := (ss_pc y)(t := Collected)\<rparr>)"
| give_up: "\<lbrakk>ss_pc y t = MustRegister; \<not> se_connected (ss_session y)\<rbrakk>
    \<Longrightarrow> send_step ws y (y\<lparr>ss_pc := (ss_pc y)(t := Idle)\<rparr>)"
| submit: "\<lbrakk>ss_pc y t = Collected; RegisterSend_submit ws (ss_session y) = (ok, s')\<rbrakk>
    \<Longrightarrow> send_step ws y (y\<lparr>ss_session := s', ss_inflight := ok,
          ss_pc := (ss_pc y)(t := Idle)\<rparr>)"
| complete: "\<lbrakk>ss_inflight y; ss_pc y t = Idle; ProcessSend_begin ws n (ss_session y) = (go, s')\<rbrakk>
    \<Longrightarrow> send_step ws y (y\<lparr>ss_session := s', ss_inflight := False,
          ss_pc := (ss_pc y)(t := if go then Completing else Idle)\<rparr>)"
| locked: "\<lbrakk>ss_pc y t = Completing; ProcessSend_locked (ss_session y) = (go, s')\<rbrakk>
    \<Longrightarrow> send_step ws y (y\<lparr>ss_session := s',
          ss_pc := (ss_pc y)(t := if go then Collected else Idle)\<rparr>)"
| disconnect: "send_step ws y (y\<lparr>ss_session := Disconnect ws (ss_session y)\<rparr>)"

definition busy :: "'p send_pc \<Rightarrow> bool" where
  "busy pc \<longleftrightarrow> pc = MustRegister \<or> pc = Collected \<or> pc = Completing"

text \<open>
  At any time at most one thread holds the right to register a send, and it holds it only while
  no send is in flight. \<open>send_phase (Some t)\<close> says that thread \<open>t\<close> holds the right, \<open>send_phase None\<close>
  that no thread does.
\<close>

fun send_phase :: "nat option \<Rightarrow> 'p send_sys \<Rightarrow> bool" where
  "send_phase None y \<longleftrightarrow>
     (\<forall>t. \<not> busy (ss_pc y t)) \<and>
     (if ss_inflight y then se_sendRegistered (ss_session y) else se_sendBuffers (ss_session y) = [])"
| "send_phase (Some t) y \<longleftrightarrow>
     (\<forall>u. busy (ss_pc y u) \<longleftrightarrow> u = t) \<and> \<not> ss_inflight y \<and> se_sendRegistered (ss_session y) \<and>
     (ss_pc y t = MustRegister \<longrightarrow> se_sendQueue (ss_session y) \<noteq> []) \<and>
     (ss_pc y t = Collected \<longleftrightarrow> se_sendBuffers (ss_session y) \<noteq> [])"

definition send_history :: "'p send_sys \<Rightarrow> bool" where
  "send_history y \<longleftrightarrow>
     [] \<notin> set (se_submitted (ss_session y)) \<and>
     ss_pushed y = concat (se_submitted (ss_session y)) @
       (if ss_inflight y then [] else se_sendBuffers (ss_session y)) @ se_sendQueue (ss_session y)"

definition send_inv :: "'p send_sys \<Rightarrow> bool" where
  [inv_defs]: "send_inv y \<longleftrightarrow> (\<exists>w. send_phase w y) \<and> send_history y"

lemma busy_simps [simp]:
  "\<not> busy Idle" "\<not> busy (MustPush p)" "busy MustRegister" "busy Collected" "busy Completing"
  by (simp_all add: busy_def)

lemma submit_cases:
  assumes "RegisterSend_submit ws s = (ok, s')"
  shows "se_sendQueue s' = se_sendQueue s" "se_submitted s' = se_submitted s @ [se_sendBuffers s]"
    "ok \<Longrightarrow> se_sendBuffers s' = se_sendBuffers s \<and> se_sendRegistered s' = se_sendRegistered s \<and>
       se_connected s' = se_connected s"
    "\<not> ok \<Longrightarrow> se_sendBuffers s' = [] \<and> \<not> se_sendRegistered s'"
    "\<forall>x. overlapped_error (WSASend ws x) = None \<Longrightarrow> ok"
  using assms
  by (auto simp: RegisterSend_submit_def Let_def split: option.splits)

lemma begin_cases:
  assumes "ProcessSend_begin ws n s = (go, s')"
  shows "se_sendQueue s' = se_sendQueue s" "se_submitted s' = se_submitted s" "se_sendBuffers s' = []"
    "se_sendRegistered s' = se_sendRegistered s"
    "go \<Longrightarrow> se_connected s' = se_connected s" "\<not> go \<Longrightarrow> \<not> se_connected s'"
  using assms by (auto simp: ProcessSend_begin_def Let_def split: if_splits)

definition connected_session :: "'p session" where
  "connected_session = Session_new\<lparr>se_connected := True\<rparr>"

lemma send_inv_init: "send_inv (send_init connected_session)"
  unfolding send_inv_def
  by (intro conjI exI [of _ None]) (simp_all add: send_init_def connected_session_def Session_new_def send_history_def)

lemma send_phase_busy: "send_phase w y \<Longrightarrow> busy (ss_pc y t) \<Longrightarrow> w = Some t"
  by (cases w) auto

lemma send_phase_owner: "send_phase (Some t) y \<Longrightarrow> busy (ss_pc y t)"
  by simp

lemma send_phase_idle:
  "send_phase w y \<Longrightarrow> \<not> busy (ss_pc y t) \<Longrightarrow> \<not> busy pc \<Longrightarrow>
     send_phase w (y\<lparr>ss_pc := (ss_pc y)(t := pc)\<rparr>)"
  by (cases w) auto

lemma send_invI: "send_phase w y \<Longrightarrow> send_history y \<Longrightarrow> send_inv y"
  unfolding send_inv_def by blast

lemma send_inv_step:
  assumes "send_step ws y y'" "send_inv y"
  shows "send_inv y'"
proof -
  obtain w where w: "send_phase w y" and hist: "send_history y"
    using assms(2) by (auto simp: send_inv_def)
  show ?thesis
    using assms(1)
  proof (cases rule: send_step.cases)
    case (check t p)
    then have "send_phase w y'" using w send_phase_idle [OF w, of t "MustPush p"] by simp
    moreover have "send_history y'" using hist check by (simp add: send_history_def)
    ultimately show ?thesis by (rule send_invI)
  next
    case (push t p won s')
    have "\<exists>w. send_phase w y'"
    proof (cases won)
      case True
      then have "w = None" using w push by (cases w) (auto simp: Send_push_def)
      then show ?thesis using True w push
        by (intro exI [of _ "Some t"]) (auto simp: Send_push_def split: if_splits)
    next
      case False
      have "w \<noteq> Some t" using w push send_phase_owner [of t y] by auto
      then show ?thesis using False w push by (intro exI [of _ w], cases w) (auto simp: Send_push_def)
    qed
    moreover have "send_history y'" using hist push by (auto simp: send_history_def Send_push_def)
    ultimately show ?thesis by (auto simp only: send_inv_def)
  next
    case (register t)
    then have "w = Some t" using send_phase_busy [OF w, of t] by simp
    then have "send_phase (Some t) y'" "send_history y'"
      using w hist register by (auto simp: send_history_def)
    then show ?thesis by (rule send_invI)
  next
    case (give_up t)
    then have "w = Some t" using send_phase_busy [OF w, of t] by simp
    then have "send_phase None y'" "send_history y'"
      using w hist give_up by (auto simp: send_history_def)
    then show ?thesis by (rule send_invI)
  next
    case (submit t ok s')
    then have "w = Some t" using send_phase_busy [OF w, of t] by simp
    then have "send_phase None y'" "send_history y'"
      using w hist submit submit_cases [OF submit(3)] by (auto simp: send_history_def)
    then show ?thesis by (rule send_invI)
  next
    case (complete t n go s')
    then have "w = None" using w by (cases w) auto
    then have "send_phase (if go then Some t else None) y'" "send_history y'"
      using w hist complete begin_cases [OF complete(4)] by (auto simp: send_history_def)
    then show ?thesis by (rule send_invI)
  next
    case (locked t go s')
    then have "w = Some t" using send_phase_busy [OF w, of t] by simp
    then have "send_phase (if go then Some t else None) y'" "send_history y'"
      using w hist locked by (auto simp: send_history_def ProcessSend_locked_def split: if_splits)
    then show ?thesis by (rule send_invI)
  next
    case disconnect
    then have "send_phase w y'" "send_history y'"
      using w hist by (cases w; auto simp: send_history_def)+
    then show ?thesis by (rule send_invI)
  qed
qed

lemma send_inv_reachable: "(send_step ws)\<^sup>*\<^sup>* (send_init connected_session) y \<Longrightarrow> send_inv y"
  by (induction rule: rtranclp_induct) (auto intro: send_inv_init send_inv_step)

text \<open>
  When no \<open>WSASend\<close> fails, data that is queued on a connected session always has somebody
  responsible for it.
\<close>

definition send_attended :: "'p send_sys \<Rightarrow> bool" where
  "send_attended y \<longleftrightarrow> se_connected (ss_session y) \<longrightarrow>
     (if se_sendRegistered (ss_session y) then ss_inflight y \<or> (\<exists>t. busy (ss_pc y t))
      else se_sendQueue (ss_session y) = [])"

lemma send_attended_step:
  assumes "send_step ws y y'" "send_inv y" "send_attended y"
    and ok: "\<forall>x. overlapped_error (WSASend ws x) = None"
  shows "send_attended y'"
proof -
  obtain w where w: "send_phase w y" using assms(2) by (auto simp: send_inv_def)
  have keep: "\<exists>u. u \<noteq> t \<and> busy (ss_pc y u)" if "busy (ss_pc y u)" "\<not> busy (ss_pc y t)" for u t
    using that by auto
  show ?thesis
    using assms(1)
  proof (cases rule: send_step.cases)
    case (check t p)
    then show ?thesis using assms(3) keep [of _ t] by (auto simp: send_attended_def split: if_splits)
  next
    case (push t p won s')
    then show ?thesis
      using assms(3) keep [of _ t] by (auto simp: send_attended_def Send_push_def split: if_splits)
  next
    case (register t)
    then show ?thesis using w send_phase_busy [OF w, of t] by (auto simp: send_attended_def)
  next
    case (give_up t)
    then show ?thesis by (simp add: send_attended_def)
  next
    case (submit t okk s')
    then have "okk" using submit_cases(5) [OF submit(3)] ok by simp
    then show ?thesis
      using submit w send_phase_busy [OF w, of t] submit_cases(3) [OF submit(3)]
      by (auto simp: send_attended_def)
  next
    case (complete t n go s')
    then have "w = None" using w by (cases w) auto
    then show ?thesis using w complete begin_cases [OF complete(4)] by (auto simp: send_attended_def)
  next
    case (locked t go s')
    then have "w = Some t" using send_phase_busy [OF w, of t] by simp
    then show ?thesis
      using w locked by (auto simp: send_attended_def ProcessSend_locked_def split: if_splits)
  next
    case disconnect
    then show ?thesis by (simp add: send_attended_def)
  qed
qed

lemma send_attended_reachable:
  assumes "(send_step ws)\<^sup>*\<^sup>* (send_init connected_session) y"
    and "\<forall>x. overlapped_error (WSASend ws x) = None"
  shows "send_attended y"
  using assms(1)
proof (induction rule: rtranclp_induct)
  case base
  then show ?case by (simp add: send_attended_def send_init_def connected_session_def Session_new_def)
next
  case (step y z)
  then show ?case using send_attended_step send_inv_reachable assms(2) by blast
qed

section \<open>Properties\<close>

text \<open>C3: With any number of threads sending and completing concurrently, the buffers handed to
  \<open>WSASend\<close> are the buffers pushed, each once and in the order in which \<open>Send\<close> queued them; the rest
  is in the send event or the queue. No \<open>WSASend\<close> is issued without buffers, and while one is in
  flight no thread is in the middle of issuing another.\<close>

theorem send_fifo:
  assumes "(send_step ws)\<^sup>*\<^sup>* (send_init connected_session) y"
  shows "ss_pushed y = concat (se_submitted (ss_session y)) @
       (if ss_inflight y then [] else se_sendBuffers (ss_session y)) @ se_sendQueue (ss_session y) \<and>
     [] \<notin> set (se_submitted (ss_session y)) \<and>
     (\<forall>t u. busy (ss_pc y t) \<longrightarrow> busy (ss_pc y u) \<longrightarrow> t = u) \<and>
     (ss_inflight y \<longrightarrow> (\<forall>t. \<not> busy (ss_pc y t)))"
proof -
  obtain w where w: "send_phase w y" and hist: "send_history y"
    using send_inv_reachable [OF assms] by (auto simp: send_inv_def)
  have "\<forall>t u. busy (ss_pc y t) \<longrightarrow> busy (ss_pc y u) \<longrightarrow> t = u" "ss_inflight y \<longrightarrow> (\<forall>t. \<not> busy (ss_pc y t))"
    using w by (cases w; auto)+
  then show ?thesis using hist by (simp add: send_history_def)
qed

definition pending_winsock :: "'p winsock" where
  "pending_winsock = \<lparr>WSASend = (\<lambda>_. Some WSA_IO_PENDING), WSARecv = (\<lambda>_ _. Some WSA_IO_PENDING),
     ConnectEx = (\<lambda>_. Some WSA_IO_PENDING), DisconnectEx = (\<lambda>_. Some WSA_IO_PENDING)\<rparr>"

text \<open>A run: thread 1 and thread 2 both send, thread 1 wins the right to register and collects both buffers.\<close>

definition two_senders :: "nat send_sys" where
  "two_senders = \<lparr>ss_session = RegisterSend_collect (connected_session\<lparr>se_sendQueue := [10, 20], se_sendRegistered := True\<rparr>),
     ss_pc = (\<lambda>_. Idle)(1 := Collected), ss_inflight = False, ss_pushed = [10, 20]\<rparr>"

lemma two_senders_reachable: "(send_step ws)\<^sup>*\<^sup>* (send_init connected_session) two_senders"
proof -
  let ?s0 = "connected_session :: nat session"
  let ?s1 = "?s0\<lparr>se_sendQueue := [10], se_sendRegistered := True\<rparr>"
  let ?s2 = "?s0\<lparr>se_sendQueue := [10, 20], se_sendRegistered := True\<rparr>"
  let ?y = "\<lambda>s pc pushed. \<lparr>ss_session = s, ss_pc = pc, ss_inflight = False, ss_pushed = pushed\<rparr>"
  let ?i = "(\<lambda>_. Idle) :: nat \<Rightarrow> nat send_pc"
  have c: "se_connected ?s0" "se_connected ?s2" "se_sendQueue ?s0 = []" "\<not> se_sendRegistered ?s0"
    by (simp_all add: connected_session_def Session_new_def)
  have 1: "send_step ws (send_init ?s0) (?y ?s0 (?i(1 := MustPush 10)) [])"
    using send_step.check [of "send_init ?s0" 1 ws 10] c by (simp add: send_init_def)
  have 2: "send_step ws (?y ?s0 (?i(1 := MustPush 10)) []) (?y ?s0 (?i(1 := MustPush 10, 2 := MustPush 20)) [])"
    using send_step.check [of "?y ?s0 (?i(1 := MustPush 10)) []" 2 ws 20] c by simp
  have 3: "send_step ws (?y ?s0 (?i(1 := MustPush 10, 2 := MustPush 20)) [])
      (?y ?s1 (?i(1 := MustRegister, 2 := MustPush 20)) [10])"
    using send_step.push [of "?y ?s0 (?i(1 := MustPush 10, 2 := MustPush 20)) []" 1 10 True ?s1 ws] c
    by (simp add: Send_push_def fun_upd_twist)
  have 4: "send_step ws (?y ?s1 (?i(1 := MustRegister, 2 := MustPush 20)) [10])
      (?y ?s2 (?i(1 := MustRegister)) [10, 20])"
  proof -
    have "(?i(1 := MustRegister, 2 := MustPush 20))(2 := Idle) = ?i(1 := MustRegister)"
      by (simp add: fun_eq_iff)
    then show ?thesis
      using send_step.push [of "?y ?s1 (?i(1 := MustRegister, 2 := MustPush 20)) [10]" 2 20 False ?s2 ws]
      by (simp add: Send_push_def)
  qed
  have 5: "send_step ws (?y ?s2 (?i(1 := MustRegister)) [10, 20]) two_senders"
    using send_step.register [of "?y ?s2 (?i(1 := MustRegister)) [10, 20]" 1 ws] c
    by (simp add: two_senders_def)
  show ?thesis
    using 1 2 3 4 5 by (meson converse_rtranclp_into_rtranclp rtranclp.rtrancl_refl)
qed

theorem send_fifo_witness:
  "(send_step pending_winsock)\<^sup>*\<^sup>* (send_init connected_session) two_senders \<and>
   ss_pushed two_senders = se_sendBuffers (ss_session two_senders)"
  using send_fifo [OF two_senders_reachable [of pending_winsock]] two_senders_reachable [of pending_winsock]
  by (simp add: two_senders_def RegisterSend_collect_def connected_session_def Session_new_def)

text \<open>C12: If no \<open>WSASend\<close> fails, nothing queued on a connected session is forgotten: whenever the queue
  is not empty, a send is in flight or a thread is on its way to issue one.\<close>

theorem send_not_stranded:
  assumes "(send_step ws)\<^sup>*\<^sup>* (send_init connected_session) y"
    and "\<forall>x. overlapped_error (WSASend ws x) = None"
    and "se_connected (ss_session y)" "se_sendQueue (ss_session y) \<noteq> []"
  shows "ss_inflight y \<or> (\<exists>t. busy (ss_pc y t))"
  using send_attended_reachable [OF assms(1,2)] assms(3,4) by (auto simp: send_attended_def split: if_splits)

text \<open>A run: thread 3 queues a buffer while the first batch is still being submitted.\<close>

definition late_sender :: "nat send_sys" where
  "late_sender = two_senders\<lparr>
     ss_session := (ss_session two_senders)\<lparr>se_sendQueue := [30], se_sendRegistered := True\<rparr>,
     ss_pushed := [10, 20, 30]\<rparr>"

lemma late_sender_reachable: "(send_step ws)\<^sup>*\<^sup>* (send_init connected_session) late_sender"
proof -
  let ?y = "two_senders\<lparr>ss_pc := (ss_pc two_senders)(3 := MustPush 30)\<rparr>"
  let ?s = "(ss_session two_senders)\<lparr>se_sendQueue := [30], se_sendRegistered := True\<rparr>"
  have "send_step ws two_senders ?y"
    by (rule send_step.check) (simp_all add: two_senders_def connected_session_def)
  moreover have "Send_push 30 (ss_session ?y) = (False, ?s)"
    by (simp add: Send_push_def two_senders_def RegisterSend_collect_def connected_session_def Session_new_def)
  then have "send_step ws ?y late_sender"
    using send_step.push [of ?y 3 30 False ?s ws] by (simp add: late_sender_def two_senders_def fun_upd_idem)
  ultimately show ?thesis
    using two_senders_reachable [of ws] by (meson rtranclp.rtrancl_into_rtrancl)
qed

theorem send_not_stranded_witness:
  "ss_inflight late_sender \<or> (\<exists>t. busy (ss_pc late_sender t))"
  by (rule send_not_stranded [OF late_sender_reachable [of pending_winsock]])
    (simp_all add: late_sender_def two_senders_def pending_winsock_def connected_session_def)

end
