(* ===== verification/Service.thy ===== *)
theory Service
  imports Session
begin

text \<open>
  The service that owns the sessions (\<open>ServerCore/Service.h\<close>, \<open>ServerCore/Service.cpp\<close>), the
  completion handlers of a session that call back into the service and into the content code
  (\<open>Session::Process*\<close>, \<open>Session::Dispatch\<close>) and the completion port (\<open>ServerCore/IocpCore.cpp\<close>).
  The content code is the type variable \<open>'c\<close> and the callbacks \<open>OnConnected\<close>, \<open>OnRecvPacket\<close> and
  \<open>OnDisconnected\<close>; the server and the client instantiate them.

  The theory shows that the packets the content sees do not depend on how the stream was cut
  into receives, and that the accounting of connected sessions is exact and never trips the
  assertion of \<open>ReleaseSession\<close>.
\<close>

section \<open>State\<close>

datatype service_type = ServerType | ClientType

record service =
  sv_type :: service_type
  sv_sessions :: "sid set"
  sv_sessionCount :: int
  sv_maxSessionCount :: int
  sv_sessionFactory :: bool
  sv_isRunning :: bool

record ('p, 'c) world =
  w_service :: service
  w_sessions :: "sid \<rightharpoonup> 'p session"
  w_next :: sid
  w_content :: 'c

definition Service_new :: "service_type \<Rightarrow> bool \<Rightarrow> int \<Rightarrow> service" where
  "Service_new type factory maxSessionCount =
     \<lparr>sv_type = type, sv_sessions = {}, sv_sessionCount = 0, sv_maxSessionCount = maxSessionCount,
      sv_sessionFactory = factory, sv_isRunning = True\<rparr>"

definition world_new :: "service \<Rightarrow> 'c \<Rightarrow> ('p, 'c) world" where
  "world_new sv c = \<lparr>w_service = sv, w_sessions = Map.empty, w_next = 0, w_content = c\<rparr>"

definition CanStart :: "service \<Rightarrow> bool" where
  "CanStart sv = sv_sessionFactory sv"

definition CloseService :: "service \<Rightarrow> service" where
  "CloseService sv = sv\<lparr>sv_isRunning := False\<rparr>"

text \<open>Calling a method of a session: a dangling session pointer is a fault.\<close>

definition on_session ::
  "sid \<Rightarrow> ('p session \<Rightarrow> 'p session) \<Rightarrow> ('p, 'c) world \<Rightarrow> ('p, 'c) world res" where
  "on_session i f w =
     (case w_sessions w i of None \<Rightarrow> Inl NullDeref
      | Some s \<Rightarrow> Inr (w\<lparr>w_sessions := (w_sessions w)(i \<mapsto> f s)\<rparr>))"

section \<open>Operations of the service\<close>

fun send_each :: "'p winsock \<Rightarrow> 'p \<Rightarrow> sid list \<Rightarrow> ('p, 'c) world \<Rightarrow> ('p, 'c) world res" where
  "send_each ws p [] w = Inr w"
| "send_each ws p (i # is) w = bindR (on_session i (Session_Send ws p) w) (send_each ws p is)"

text \<open>The set of sessions is ordered by their addresses; the model orders it by session number.\<close>

definition Service_Broadcast :: "'p winsock \<Rightarrow> 'p \<Rightarrow> ('p, 'c) world \<Rightarrow> ('p, 'c) world res" where
  "Service_Broadcast ws p w = send_each ws p (sorted_list_of_set (sv_sessions (w_service w))) w"

text \<open>\<open>registered\<close> is the answer of the completion port to \<open>IocpCore::Register\<close>.\<close>

definition CreateSession :: "bool \<Rightarrow> ('p, 'c) world \<Rightarrow> sid option \<times> ('p, 'c) world" where
  "CreateSession registered w =
     (let i = w_next w;
          w1 = w\<lparr>w_sessions := (w_sessions w)(i \<mapsto> Session_new), w_next := i + 1\<rparr>
      in if registered then (Some i, w1) else (None, w\<lparr>w_next := i + 1\<rparr>))"

definition AddSession :: "sid \<Rightarrow> ('p, 'c) world \<Rightarrow> ('p, 'c) world" where
  "AddSession i w =
     w\<lparr>w_service := (w_service w)\<lparr>sv_sessionCount := sv_sessionCount (w_service w) + 1,
         sv_sessions := insert i (sv_sessions (w_service w))\<rparr>\<rparr>"

definition ReleaseSession :: "sid \<Rightarrow> ('p, 'c) world \<Rightarrow> ('p, 'c) world res" where
  "ReleaseSession i w =
     ASSERT_CRASH (i \<in> sv_sessions (w_service w))
       (Inr (w\<lparr>w_service := (w_service w)\<lparr>sv_sessionCount := sv_sessionCount (w_service w) - 1,
           sv_sessions := sv_sessions (w_service w) - {i}\<rparr>\<rparr>))"

section \<open>Completion handlers of a session\<close>

type_synonym ('p, 'c) callback = "sid \<Rightarrow> ('p, 'c) world \<Rightarrow> ('p, 'c) world res"

definition RegisterRecv_world ::
  "'p winsock \<Rightarrow> sid \<Rightarrow> recv_half \<Rightarrow> ('p, 'c) world \<Rightarrow> (recv_half \<times> ('p, 'c) world) res" where
  "RegisterRecv_world ws i r w =
     (case w_sessions w i of None \<Rightarrow> Inl NullDeref
      | Some s \<Rightarrow> (case RegisterRecv ws r s of
          (r', s') \<Rightarrow> Inr (r', w\<lparr>w_sessions := (w_sessions w)(i \<mapsto> s')\<rparr>)))"

definition ProcessConnect ::
  "'p winsock \<Rightarrow> ('p, 'c) callback \<Rightarrow> sid \<Rightarrow> recv_half \<Rightarrow> ('p, 'c) world \<Rightarrow>
     (recv_half \<times> ('p, 'c) world) res" where
  "ProcessConnect ws OnConnected i r w =
     bindR (on_session i (\<lambda>s. s\<lparr>se_connectOwner := False, se_connected := True\<rparr>) w) (\<lambda>w1.
     bindR (OnConnected i (AddSession i w1)) (\<lambda>w2.
     RegisterRecv_world ws i r w2))"

definition ProcessDisconnect ::
  "('p, 'c) callback \<Rightarrow> sid \<Rightarrow> ('p, 'c) world \<Rightarrow> ('p, 'c) world res" where
  "ProcessDisconnect OnDisconnected i w =
     bindR (on_session i (\<lambda>s. s\<lparr>se_disconnectOwner := False\<rparr>) w) (\<lambda>w1.
     bindR (OnDisconnected i w1) (\<lambda>w2.
     ReleaseSession i w2))"

text \<open>
  \<open>ProcessRecv\<close> for a receive that completed with the bytes \<open>bytes\<close> (\<open>numOfBytes\<close> is their number).
  \<open>None\<close> means that the packet loop of \<open>OnRecv\<close> does not end.
\<close>

definition recv_disconnect ::
  "'p winsock \<Rightarrow> sid \<Rightarrow> recv_half \<Rightarrow> ('p, 'c) world \<Rightarrow> (recv_half \<times> ('p, 'c) world) res" where
  "recv_disconnect ws i r w = bindR (on_session i (Disconnect ws) w) (\<lambda>w'. Inr (r, w'))"

definition ProcessRecv ::
  "'p winsock \<Rightarrow> (sid \<Rightarrow> ('p, 'c) world packet_fun) \<Rightarrow> sid \<Rightarrow> byte list \<Rightarrow> recv_half \<Rightarrow> ('p, 'c) world \<Rightarrow>
     (recv_half \<times> ('p, 'c) world) res option" where
  "ProcessRecv ws OnRecvPacket i bytes r w =
     (let r0 = r\<lparr>rh_owner := False, rh_buffer := kernel_fill bytes (rh_buffer r)\<rparr>;
          numOfBytes = int (length bytes)
      in if numOfBytes = 0 then Some (recv_disconnect ws i r0 w)
         else case RecvBuffer_OnWrite numOfBytes (rh_buffer r0) of
           (False, b) \<Rightarrow> Some (recv_disconnect ws i (r0\<lparr>rh_buffer := b\<rparr>) w)
         | (True, b) \<Rightarrow>
             let dataSize = RecvBuffer_DataSize b in
             (case PacketSession_OnRecv (OnRecvPacket i) (RecvBuffer_ReadPos b) dataSize w of
                None \<Rightarrow> None
              | Some (Inl e) \<Rightarrow> Some (Inl e)
              | Some (Inr (processLen, w1)) \<Rightarrow>
                  if processLen < 0 \<or> dataSize < processLen
                  then Some (recv_disconnect ws i (r0\<lparr>rh_buffer := b\<rparr>) w1)
                  else (case RecvBuffer_OnRead processLen b of
                    (False, b') \<Rightarrow> Some (recv_disconnect ws i (r0\<lparr>rh_buffer := b'\<rparr>) w1)
                  | (True, b') \<Rightarrow>
                      Some (bindR (RecvBuffer_Clean b') (\<lambda>b''.
                        RegisterRecv_world ws i (r0\<lparr>rh_buffer := b''\<rparr>) w1)))))"

definition ProcessSend_world :: "'p winsock \<Rightarrow> sid \<Rightarrow> int \<Rightarrow> ('p, 'c) world \<Rightarrow> ('p, 'c) world res" where
  "ProcessSend_world ws i numOfBytes w = on_session i (ProcessSend ws numOfBytes) w"

section \<open>Dispatching completions\<close>

datatype event_type = EvConnect | EvDisconnect | EvAccept | EvRecv | EvSend

text \<open>
  \<open>Session::Dispatch\<close>. The bytes of a receive completion are its payload; the other events only
  use the number of bytes. An event of another type is ignored.
\<close>

definition Session_Dispatch ::
  "'p winsock \<Rightarrow> ('p, 'c) callback \<Rightarrow> (sid \<Rightarrow> ('p, 'c) world packet_fun) \<Rightarrow> ('p, 'c) callback \<Rightarrow>
     event_type \<Rightarrow> byte list \<Rightarrow> int \<Rightarrow> sid \<Rightarrow> recv_half \<Rightarrow> ('p, 'c) world \<Rightarrow>
     (recv_half \<times> ('p, 'c) world) res option" where
  "Session_Dispatch ws OnConnected OnRecvPacket OnDisconnected ev bytes numOfBytes i r w =
     (case ev of
        EvConnect \<Rightarrow> Some (ProcessConnect ws OnConnected i r w)
      | EvDisconnect \<Rightarrow> Some (bindR (ProcessDisconnect OnDisconnected i w) (\<lambda>w'. Inr (r, w')))
      | EvRecv \<Rightarrow> ProcessRecv ws OnRecvPacket i bytes r w
      | EvSend \<Rightarrow> Some (bindR (ProcessSend_world ws i numOfBytes w) (\<lambda>w'. Inr (r, w')))
      | EvAccept \<Rightarrow> Some (Inr (r, w)))"

definition WAIT_TIMEOUT :: int where
  "WAIT_TIMEOUT = 258"

text \<open>
  \<open>IocpCore::Dispatch\<close>: \<open>GetQueuedCompletionStatus\<close> answers with a success flag, the error code,
  and the event with its owner, where \<open>None\<close> is a null event and \<open>Some None\<close> an event without
  owner. The dispatch of the owner is the argument \<open>dispatch\<close>.
\<close>

definition IocpCore_Dispatch ::
  "bool \<Rightarrow> int \<Rightarrow> 'o option option \<Rightarrow> ('o \<Rightarrow> 's \<Rightarrow> 's res option) \<Rightarrow> 's \<Rightarrow> (bool \<times> 's) res option" where
  "IocpCore_Dispatch ok err ev dispatch s =
     (let run = (case ev of
          Some (Some owner) \<Rightarrow>
            map_option (\<lambda>r. bindR r (\<lambda>s'. Inr (True, s'))) (dispatch owner s)
        | _ \<Rightarrow> Some (Inl NullDeref))
      in if ok then run
         else if err = WAIT_TIMEOUT then Some (Inr (False, s))
         else run)"

section \<open>Reassembly of packets\<close>

fun receive_all ::
  "'p winsock \<Rightarrow> (sid \<Rightarrow> ('p, 'c) world packet_fun) \<Rightarrow> sid \<Rightarrow> byte list list \<Rightarrow> recv_half \<Rightarrow> ('p, 'c) world \<Rightarrow>
     (recv_half \<times> ('p, 'c) world) res option" where
  "receive_all ws h i [] r w = Some (Inr (r, w))"
| "receive_all ws h i (c # cs) r w =
     (case ProcessRecv ws h i c r w of
        None \<Rightarrow> None
      | Some (Inl e) \<Rightarrow> Some (Inl e)
      | Some (Inr (r', w')) \<Rightarrow> receive_all ws h i cs r' w')"

definition connected :: "sid \<Rightarrow> ('p, 'c) world \<Rightarrow> bool" where
  "connected i w \<longleftrightarrow> (\<exists>s. w_sessions w i = Some s \<and> se_connected s)"

text \<open>What the packet handlers promise: they look at the packet only and never disconnect the session.\<close>

definition handler_ok :: "(sid \<Rightarrow> ('p, 'c) world packet_fun) \<Rightarrow> sid \<Rightarrow> bool" where
  "handler_ok h i \<longleftrightarrow> packet_local (h i) \<and>
     (\<forall>p n w w'. connected i w \<longrightarrow> h i p n w = Inr w' \<longrightarrow> connected i w')"

definition recv_ok :: "'p winsock \<Rightarrow> bool" where
  "recv_ok ws \<longleftrightarrow> (\<forall>r s. overlapped_error (WSARecv ws r s) = None)"

lemma handle_all_connected:
  "handler_ok h i \<Longrightarrow> connected i w \<Longrightarrow> handle_all (h i) ps w = Inr w' \<Longrightarrow> connected i w'"
  by (induction ps arbitrary: w) (simp, fastforce simp: handler_ok_def bindR_Inr_iff)

lemma rb_ReadPos_split:
  "rb_inv B b \<Longrightarrow> \<exists>junk. RecvBuffer_ReadPos b = rb_data b @ junk"
  unfolding RecvBuffer_ReadPos_def rb_data_def bslice_def
  by (metis append_take_drop_id)

lemma RegisterRecv_world_ok:
  assumes "connected i w" "recv_ok ws"
  shows "RegisterRecv_world ws i r w = Inr (r\<lparr>rh_owner := True, rh_calls := rh_calls r + 1\<rparr>, w)"
proof -
  have "overlapped_error (WSARecv ws r' s) = None" for r' s
    using assms(2) by (simp add: recv_ok_def)
  then show ?thesis
    using assms(1)
    by (auto simp: RegisterRecv_world_def RegisterRecv_def connected_def Let_def map_upd_triv)
qed

lemma ProcessRecv_packets:
  assumes inv: "rb_inv 65536 (rh_buffer r)" and len: "bytes \<noteq> []" "int (length bytes) \<le> RecvBuffer_FreeSize (rh_buffer r)"
    and split: "rb_data (rh_buffer r) @ bytes = concat ps @ q" "\<forall>p \<in> set ps. wf_packet p" "incomplete q"
    and h: "handler_ok h i" "recv_ok ws" "connected i w"
  shows "\<exists>r'. rb_inv 65536 (rh_buffer r') \<and> rb_data (rh_buffer r') = q \<and>
     65536 \<le> RecvBuffer_FreeSize (rh_buffer r') \<and>
     ProcessRecv ws h i bytes r w = Some (bindR (handle_all (h i) ps w) (\<lambda>w'. Inr (r', w')))"
proof -
  let ?n = "int (length (concat ps))"
  have q: "length q < 65536" using split(3) by (rule incomplete_length)
  have "0 \<le> ?n" "?n \<le> int (length (rb_data (rh_buffer r) @ bytes))"
    "int (length (rb_data (rh_buffer r) @ bytes)) - ?n \<le> 4 * 65536"
    using q unfolding split(1) by simp_all
  then obtain b1 b2 b3 where b1: "rb_deliver bytes (rh_buffer r) = (True, b1)" "rb_inv 65536 b1"
      "rb_data b1 = concat ps @ q"
    and b2: "RecvBuffer_OnRead ?n b1 = (True, b2)" and b3: "RecvBuffer_Clean b2 = Inr b3" "rb_inv 65536 b3"
      "rb_data b3 = q" "65536 \<le> RecvBuffer_FreeSize b3"
    using rb.receive_cycle [OF inv len(2), of ?n] unfolding split(1) by auto
  obtain junk where junk: "RecvBuffer_ReadPos b1 = concat ps @ q @ junk"
    using rb_ReadPos_split [OF b1(2)] b1(3) by auto
  have size: "RecvBuffer_DataSize b1 = int (length (concat ps @ q))"
    using length_rb_data [OF b1(2)] b1(3) by simp
  have loop: "PacketSession_OnRecv (h i) (RecvBuffer_ReadPos b1) (RecvBuffer_DataSize b1) w
      = Some (bindR (handle_all (h i) ps w) (\<lambda>w'. Inr (?n, w')))"
    unfolding PacketSession_OnRecv_def junk size
    using OnRecv_loop_packets [of "h i" q ps "[]" junk w] h(1) split(2,3) by (simp add: handler_ok_def)
  let ?r' = "r\<lparr>rh_owner := True, rh_buffer := b3, rh_calls := rh_calls r + 1\<rparr>"
  have reg: "RegisterRecv_world ws i (r\<lparr>rh_owner := False, rh_buffer := b3\<rparr>) w' = Inr (?r', w')"
    if "handle_all (h i) ps w = Inr w'" for w'
    using RegisterRecv_world_ok [OF handle_all_connected [OF h(1,3) that] h(2)] by simp
  have "ProcessRecv ws h i bytes r w = Some (bindR (handle_all (h i) ps w) (\<lambda>w'. Inr (?r', w')))"
    using len(1) b1(1) loop b2 b3(1) reg size
    by (cases "handle_all (h i) ps w") (simp_all add: ProcessRecv_def Let_def rb_deliver_def)
  then show ?thesis using b3 by (intro exI [of _ ?r']) simp
qed

text \<open>A prefix of a well-formed stream is itself a sequence of whole packets and an incomplete rest.\<close>

lemma incomplete_prefix:
  assumes "wf_packet p" "p @ rest = x @ y" "length x < length p"
  shows "incomplete x"
proof (cases "length x < 4")
  case False
  have "x = take (length x) p"
    using assms(2,3) by (metis append_eq_conv_conj less_imp_le_nat take_append diff_is_0_eq take_0 append_Nil2)
  then have "PacketHeader_at x = PacketHeader_at p"
    using False PacketHeader_at_take [of "length x" p] by simp
  then show ?thesis using assms by (simp add: incomplete_def wf_packet_def)
qed (simp add: incomplete_def)

lemma incomplete_prefix_rest:
  assumes "incomplete (x @ y)"
  shows "incomplete x"
  using assms PacketHeader_at_append [of x y]
  by (cases "length x < 4") (auto simp: incomplete_def)

lemma stream_split:
  assumes "x @ y = concat ps @ q" "\<forall>p \<in> set ps. wf_packet p" "incomplete q"
  shows "\<exists>ps1 ps2 q1. ps = ps1 @ ps2 \<and> x = concat ps1 @ q1 \<and> incomplete q1 \<and> q1 @ y = concat ps2 @ q"
  using assms(1,2)
proof (induction ps arbitrary: x)
  case Nil
  then show ?case using incomplete_prefix_rest assms(3) by auto
next
  case (Cons p ps)
  show ?case
  proof (cases "length x < length p")
    case True
    then have "incomplete x"
      using Cons.prems incomplete_prefix [of p "concat ps @ q" x y] by simp
    then show ?thesis
      using Cons.prems by (intro exI [of _ "[]"] exI [of _ "p # ps"] exI [of _ x]) simp
  next
    case False
    then obtain x' where x': "x = p @ x'" "x' @ y = concat ps @ q"
      using Cons.prems(1) by (intro that [of "drop (length p) x"]) (auto simp: append_eq_append_conv2)
    then obtain ps1 ps2 q1 where "ps = ps1 @ ps2" "x' = concat ps1 @ q1" "incomplete q1"
      "q1 @ y = concat ps2 @ q"
      using Cons.IH [OF x'(2)] Cons.prems(2) by auto
    then show ?thesis
      using x' by (intro exI [of _ "p # ps1"] exI [of _ ps2] exI [of _ q1]) simp
  qed
qed

text \<open>
  The receives the operating system may complete: each delivers at least one byte and no more than
  the buffer had room for when the receive was posted.
\<close>

fun deliverable ::
  "'p winsock \<Rightarrow> (sid \<Rightarrow> ('p, 'c) world packet_fun) \<Rightarrow> sid \<Rightarrow> byte list list \<Rightarrow> recv_half \<Rightarrow> ('p, 'c) world \<Rightarrow> bool"
  where
  "deliverable ws h i [] r w \<longleftrightarrow> True"
| "deliverable ws h i (c # cs) r w \<longleftrightarrow>
     c \<noteq> [] \<and> int (length c) \<le> RecvBuffer_FreeSize (rh_buffer r) \<and>
     (case ProcessRecv ws h i c r w of
        Some (Inr (r', w')) \<Rightarrow> deliverable ws h i cs r' w'
      | _ \<Rightarrow> True)"

lemma no_packets_in_incomplete:
  assumes "incomplete (concat ps @ q)" "\<forall>p \<in> set ps. wf_packet p"
  shows "ps = []"
proof (cases ps)
  case (Cons p ps')
  then have "wf_packet p" "incomplete (p @ concat ps' @ q)" using assms by simp_all
  then show ?thesis
    using PacketHeader_at_append [of p "concat ps' @ q"] by (auto simp: incomplete_def wf_packet_def)
qed simp

lemma receive_all_packets:
  assumes h: "handler_ok h i" "recv_ok ws" and q: "incomplete q"
  shows "rb_inv 65536 (rh_buffer r) \<Longrightarrow> 65536 \<le> RecvBuffer_FreeSize (rh_buffer r) \<Longrightarrow>
    deliverable ws h i cs r w \<Longrightarrow>
    rb_data (rh_buffer r) @ concat cs = concat ps @ q \<Longrightarrow> \<forall>p \<in> set ps. wf_packet p \<Longrightarrow>
    connected i w \<Longrightarrow> incomplete (rb_data (rh_buffer r)) \<Longrightarrow>
    (case handle_all (h i) ps w of
       Inl e \<Rightarrow> receive_all ws h i cs r w = Some (Inl e)
     | Inr w' \<Rightarrow> \<exists>r'. rb_inv 65536 (rh_buffer r') \<and> rb_data (rh_buffer r') = q \<and>
         65536 \<le> RecvBuffer_FreeSize (rh_buffer r') \<and>
         receive_all ws h i cs r w = Some (Inr (r', w')))"
proof (induction cs arbitrary: r ps w)
  case Nil
  then have "ps = []" using no_packets_in_incomplete [of ps q] by simp
  then show ?case using Nil by simp
next
  case (Cons c cs)
  have "(rb_data (rh_buffer r) @ c) @ concat cs = concat ps @ q" using Cons.prems(4) by simp
  from stream_split [OF this Cons.prems(5) q] obtain ps1 ps2 q1 where
    s: "ps = ps1 @ ps2" "rb_data (rh_buffer r) @ c = concat ps1 @ q1" "incomplete q1"
      "q1 @ concat cs = concat ps2 @ q" by auto
  have "int (length c) \<le> RecvBuffer_FreeSize (rh_buffer r)" "c \<noteq> []"
    using Cons.prems(3) by auto
  then obtain r1 where r1: "rb_inv 65536 (rh_buffer r1)" "rb_data (rh_buffer r1) = q1"
      "65536 \<le> RecvBuffer_FreeSize (rh_buffer r1)"
      "ProcessRecv ws h i c r w = Some (bindR (handle_all (h i) ps1 w) (\<lambda>w'. Inr (r1, w')))"
    using ProcessRecv_packets [OF Cons.prems(1) _ _ s(2) _ s(3) h Cons.prems(6)] Cons.prems(5) s(1)
    by auto
  show ?case
  proof (cases "handle_all (h i) ps1 w")
    case (Inl e)
    then show ?thesis using r1(4) s(1) by (simp add: handle_all_append)
  next
    case (Inr w1)
    have "deliverable ws h i cs r1 w1" using Cons.prems(3) r1(4) Inr by simp
    then have "case handle_all (h i) ps2 w1 of
        Inl e \<Rightarrow> receive_all ws h i cs r1 w1 = Some (Inl e)
      | Inr w' \<Rightarrow> \<exists>r'. rb_inv 65536 (rh_buffer r') \<and> rb_data (rh_buffer r') = q \<and>
          65536 \<le> RecvBuffer_FreeSize (rh_buffer r') \<and>
          receive_all ws h i cs r1 w1 = Some (Inr (r', w'))"
      using Cons.IH [OF r1(1,3), of w1 ps2] handle_all_connected [OF h(1) Cons.prems(6) Inr]
        Cons.prems(5) s r1(2) by simp
    then show ?thesis
      using r1(4) s(1) Inr by (cases "handle_all (h i) ps2 w1") (simp_all add: handle_all_append)
  qed
qed

text \<open>Receives of at most 65536 bytes can always be delivered: there is always room for them.\<close>

lemma deliverable_small:
  assumes h: "handler_ok h i" "recv_ok ws" and q: "incomplete q"
  shows "rb_inv 65536 (rh_buffer r) \<Longrightarrow> 65536 \<le> RecvBuffer_FreeSize (rh_buffer r) \<Longrightarrow>
    \<forall>c \<in> set cs. c \<noteq> [] \<and> length c \<le> 65536 \<Longrightarrow>
    rb_data (rh_buffer r) @ concat cs = concat ps @ q \<Longrightarrow> \<forall>p \<in> set ps. wf_packet p \<Longrightarrow>
    connected i w \<Longrightarrow> deliverable ws h i cs r w"
proof (induction cs arbitrary: r ps w)
  case (Cons c cs)
  have "(rb_data (rh_buffer r) @ c) @ concat cs = concat ps @ q" using Cons.prems(4) by simp
  from stream_split [OF this Cons.prems(5) q] obtain ps1 ps2 q1 where
    s: "ps = ps1 @ ps2" "rb_data (rh_buffer r) @ c = concat ps1 @ q1" "incomplete q1"
      "q1 @ concat cs = concat ps2 @ q" by auto
  have c: "int (length c) \<le> RecvBuffer_FreeSize (rh_buffer r)" "c \<noteq> []"
    using Cons.prems(2,3) by auto
  then obtain r1 where r1: "rb_inv 65536 (rh_buffer r1)" "rb_data (rh_buffer r1) = q1"
      "65536 \<le> RecvBuffer_FreeSize (rh_buffer r1)"
      "ProcessRecv ws h i c r w = Some (bindR (handle_all (h i) ps1 w) (\<lambda>w'. Inr (r1, w')))"
    using ProcessRecv_packets [OF Cons.prems(1) _ _ s(2) _ s(3) h Cons.prems(6)] Cons.prems(5) s(1)
    by auto
  have "deliverable ws h i cs r1 w1" if "handle_all (h i) ps1 w = Inr w1" for w1
    using Cons.IH [OF r1(1,3), of ps2 w1] handle_all_connected [OF h(1) Cons.prems(6) that]
      Cons.prems(3,5) s r1(2) by simp
  then show ?case using c r1(4) by (cases "handle_all (h i) ps1 w") simp_all
qed simp

lemma recv_new:
  "rb_inv 65536 (rh_buffer Session_new_recv)" "rb_data (rh_buffer Session_new_recv) = []"
  "65536 \<le> RecvBuffer_FreeSize (rh_buffer Session_new_recv)"
proof -
  show "rb_inv 65536 (rh_buffer Session_new_recv)" "rb_data (rh_buffer Session_new_recv) = []"
    using rb_inv_new [of 65536]
    by (simp_all add: Session_new_recv_def SESSION_BUFFER_SIZE_def BUFFER_COUNT_def INT32_MAX_def)
  show "65536 \<le> RecvBuffer_FreeSize (rh_buffer Session_new_recv)"
    by (simp add: Session_new_recv_def SESSION_BUFFER_SIZE_def RecvBuffer_new_def
        RecvBuffer_FreeSize_def BUFFER_COUNT_def)
qed

section \<open>Accounting of the connected sessions\<close>

text \<open>
  The life of the sessions: sessions are created, a connection completes, anybody may call
  \<open>Disconnect\<close> or anything that only changes a session without connecting it, and the disconnect
  event, posted by \<open>RegisterDisconnect\<close>, is dispatched. \<open>fresh\<close> are the created sessions whose
  connection has not completed yet.
\<close>

record ('p, 'c) life =
  lf_world :: "('p, 'c) world"
  lf_fresh :: "sid set"

text \<open>
  What every operation other than \<open>ProcessConnect\<close> does to a session: it does not connect it, and
  it makes a disconnect pending only by disconnecting.
\<close>

definition calm :: "'p session \<Rightarrow> 'p session \<Rightarrow> bool" where
  "calm s s' \<longleftrightarrow> (se_connected s' \<longrightarrow> se_connected s) \<and>
     (se_disconnectOwner s' \<longrightarrow> se_disconnectOwner s \<or> se_connected s) \<and>
     (se_connected s' \<and> se_disconnectOwner s' \<longrightarrow> se_connected s \<and> se_disconnectOwner s)"

definition calm_world :: "('p, 'c) world \<Rightarrow> ('p, 'c) world \<Rightarrow> bool" where
  "calm_world w w' \<longleftrightarrow> w_service w' = w_service w \<and> w_next w' = w_next w \<and>
     (\<forall>j. rel_option calm (w_sessions w j) (w_sessions w' j))"

definition calm_callback :: "('p, 'c) callback \<Rightarrow> bool" where
  "calm_callback f \<longleftrightarrow> (\<forall>i w w'. f i w = Inr w' \<longrightarrow> calm_world w w')"

inductive life_step :: "'p winsock \<Rightarrow> ('p, 'c) callback \<Rightarrow> ('p, 'c) callback \<Rightarrow>
    ('p, 'c) life \<Rightarrow> ('p, 'c) life \<Rightarrow> bool" for ws conn disc where
  create: "CreateSession ok (lf_world l) = (Some i, w') \<Longrightarrow>
    life_step ws conn disc l \<lparr>lf_world = w', lf_fresh = insert i (lf_fresh l)\<rparr>"
| create_failed: "CreateSession ok (lf_world l) = (None, w') \<Longrightarrow>
    life_step ws conn disc l (l\<lparr>lf_world := w'\<rparr>)"
| connect: "\<lbrakk>i \<in> lf_fresh l; ProcessConnect ws conn i r (lf_world l) = Inr (r', w')\<rbrakk> \<Longrightarrow>
    life_step ws conn disc l \<lparr>lf_world = w', lf_fresh = lf_fresh l - {i}\<rparr>"
| hang_up: "on_session i (Disconnect ws) (lf_world l) = Inr w' \<Longrightarrow>
    life_step ws conn disc l (l\<lparr>lf_world := w'\<rparr>)"
| send: "on_session i (Session_Send ws p) (lf_world l) = Inr w' \<Longrightarrow>
    life_step ws conn disc l (l\<lparr>lf_world := w'\<rparr>)"
| sent: "ProcessSend_world ws i n (lf_world l) = Inr w' \<Longrightarrow>
    life_step ws conn disc l (l\<lparr>lf_world := w'\<rparr>)"
| released: "\<lbrakk>w_sessions (lf_world l) i = Some s; se_disconnectOwner s;
     ProcessDisconnect disc i (lf_world l) = Inr w'\<rbrakk> \<Longrightarrow>
    life_step ws conn disc l (l\<lparr>lf_world := w'\<rparr>)"

text \<open>
  The invariant: the count is the size of the set; a session that is connected, or whose disconnect
  is pending, is in the set; it is never both; a fresh session is neither.
\<close>

definition session_tracked :: "('p, 'c) life \<Rightarrow> sid \<Rightarrow> 'p session \<Rightarrow> bool" where
  "session_tracked l i s \<longleftrightarrow> i < w_next (lf_world l) \<and>
     (se_connected s \<or> se_disconnectOwner s \<longrightarrow>
        i \<in> sv_sessions (w_service (lf_world l)) \<and> i \<notin> lf_fresh l) \<and>
     \<not> (se_connected s \<and> se_disconnectOwner s)"

definition life_inv :: "('p, 'c) life \<Rightarrow> bool" where
  [inv_defs]: "life_inv l \<longleftrightarrow>
     finite (sv_sessions (w_service (lf_world l))) \<and>
     sv_sessionCount (w_service (lf_world l)) = int (card (sv_sessions (w_service (lf_world l)))) \<and>
     (\<forall>i \<in> lf_fresh l \<union> sv_sessions (w_service (lf_world l)). i < w_next (lf_world l)) \<and>
     lf_fresh l \<inter> sv_sessions (w_service (lf_world l)) = {} \<and>
     (\<forall>i s. w_sessions (lf_world l) i = Some s \<longrightarrow> session_tracked l i s)"

lemma calm_refl [simp, intro]: "calm s s"
  by (simp add: calm_def)

lemma calm_trans: "calm a b \<Longrightarrow> calm b c \<Longrightarrow> calm a c"
  by (auto simp: calm_def)

lemma calm_Disconnect: "calm s (Disconnect ws s)"
  by (auto simp: calm_def Disconnect_def RegisterDisconnect_def Let_def count_call_def split: option.splits)

lemma calm_HandleError: "calm s (HandleError ws e s)"
  by (simp add: HandleError_def calm_Disconnect)

lemma calm_updates [simp]:
  "calm s (s'\<lparr>se_sendOwner := a\<rparr>) = calm s s'" "calm s (s'\<lparr>se_sendBuffers := b\<rparr>) = calm s s'"
  "calm s (s'\<lparr>se_sendRegistered := a\<rparr>) = calm s s'" "calm s (s'\<lparr>se_sendQueue := b\<rparr>) = calm s s'"
  "calm s (s'\<lparr>se_submitted := c\<rparr>) = calm s s'" "calm s (count_call s') = calm s s'"
  by (simp_all add: calm_def count_call_def)

lemma calm_RegisterSend: "calm s (RegisterSend ws s)"
  using calm_HandleError [of "count_call (s\<lparr>se_sendOwner := True, se_sendBuffers := se_sendBuffers s @ se_sendQueue s,
      se_sendQueue := [], se_submitted := se_submitted s @ [se_sendBuffers s @ se_sendQueue s]\<rparr>)" ws]
  by (auto simp: RegisterSend_def RegisterSend_submit_def RegisterSend_collect_def Let_def
      split: option.split) (auto simp: calm_def count_call_def)

lemma calm_Send: "calm s (Session_Send ws p s)"
proof -
  have "calm s (RegisterSend ws (snd (Send_push p s)))"
    by (rule calm_trans [OF _ calm_RegisterSend]) (simp add: Send_push_def)
  then show ?thesis by (auto simp: Session_Send_def Send_push_def)
qed

lemma calm_ProcessSend: "calm s (ProcessSend ws n s)"
proof -
  let ?s1 = "s\<lparr>se_sendOwner := False, se_sendBuffers := []\<rparr>"
  have "calm s (RegisterSend ws ?s1)"
    by (rule calm_trans [OF _ calm_RegisterSend]) simp
  moreover have "calm s (Disconnect ws ?s1)"
    by (rule calm_trans [OF _ calm_Disconnect]) simp
  ultimately show ?thesis
    by (auto simp: ProcessSend_def ProcessSend_begin_def Let_def)
qed

lemma calm_RegisterRecv: "RegisterRecv ws r s = (r', s') \<Longrightarrow> calm s s'"
  by (auto simp: RegisterRecv_def Let_def calm_HandleError split: if_splits option.splits)

lemma calm_world_refl [simp, intro]: "calm_world w w"
  by (simp add: calm_world_def option.rel_refl)

lemma rel_option_calm_trans:
  "rel_option calm x y \<Longrightarrow> rel_option calm y z \<Longrightarrow> rel_option calm x z"
  by (cases x; cases y; cases z) (auto intro: calm_trans)

lemma calm_world_trans: "calm_world a b \<Longrightarrow> calm_world b c \<Longrightarrow> calm_world a c"
  unfolding calm_world_def using rel_option_calm_trans by metis

lemma calm_on_session:
  assumes "on_session i f w = Inr w'" "\<And>s. calm s (f s)"
  shows "calm_world w w'"
  using assms by (auto simp: on_session_def calm_world_def option.rel_refl split: option.splits)

lemma calm_RegisterRecv_world: "RegisterRecv_world ws i r w = Inr (r', w') \<Longrightarrow> calm_world w w'"
  by (auto simp: RegisterRecv_world_def calm_world_def option.rel_refl dest: calm_RegisterRecv
      split: option.splits prod.splits)

lemma calm_send_each: "send_each ws p is w = Inr w' \<Longrightarrow> calm_world w w'"
proof (induction "is" arbitrary: w)
  case (Cons i "is")
  then obtain w1 where "on_session i (Session_Send ws p) w = Inr w1" "send_each ws p is w1 = Inr w'"
    by (auto simp: bindR_Inr_iff)
  then show ?case
    using calm_world_trans [OF calm_on_session [of i "Session_Send ws p" w w1]] calm_Send Cons.IH by metis
qed simp

lemma life_inv_calm:
  assumes "life_inv l" "calm_world (lf_world l) w'"
  shows "life_inv (l\<lparr>lf_world := w'\<rparr>)"
proof -
  have "session_tracked (l\<lparr>lf_world := w'\<rparr>) i s'" if "w_sessions w' i = Some s'" for i s'
  proof -
    have "rel_option calm (w_sessions (lf_world l) i) (Some s')"
      using assms(2) that by (metis calm_world_def)
    then obtain s where "w_sessions (lf_world l) i = Some s" "calm s s'"
      by (auto simp: option_rel_Some2)
    then show ?thesis
      using assms by (auto simp: life_inv_def session_tracked_def calm_world_def calm_def)
  qed
  then show ?thesis
    using assms by (simp add: life_inv_def calm_world_def)
qed

lemma life_inv_connect:
  assumes "life_inv l" "i \<in> lf_fresh l"
    and "on_session i (\<lambda>s. s\<lparr>se_connectOwner := False, se_connected := True\<rparr>) (lf_world l) = Inr w1"
  shows "life_inv \<lparr>lf_world = AddSession i w1, lf_fresh = lf_fresh l - {i}\<rparr>"
proof -
  have "i \<notin> sv_sessions (w_service (lf_world l))"
    using assms(1,2) by (auto simp: life_inv_def)
  then show ?thesis using assms
  by (auto simp: life_inv_def on_session_def AddSession_def session_tracked_def split: option.splits if_splits)
qed

lemma life_inv_create:
  assumes "life_inv l" "CreateSession ok (lf_world l) = (oi, w')"
  shows "life_inv \<lparr>lf_world = w', lf_fresh = lf_fresh l \<union> set_option oi\<rparr>"
proof -
  have less: "j < w_next (lf_world l)" if "j \<in> lf_fresh l \<union> sv_sessions (w_service (lf_world l))" for j
    using assms(1) that by (simp add: life_inv_def)
  have "session_tracked \<lparr>lf_world = w', lf_fresh = lf_fresh l \<union> set_option oi\<rparr> j s"
    if "w_sessions w' j = Some s" for j s
  proof (cases "j = w_next (lf_world l)")
    case True
    with that assms show ?thesis
      by (auto simp: life_inv_def CreateSession_def Let_def session_tracked_def Session_new_def
          split: if_splits)
  next
    case False
    with that assms(2) have "w_sessions (lf_world l) j = Some s"
      by (auto simp: CreateSession_def Let_def split: if_splits)
    then have "session_tracked l j s" using assms(1) by (simp add: life_inv_def)
    then show ?thesis
      using assms(2) False by (auto simp: CreateSession_def Let_def session_tracked_def split: if_splits)
  qed
  moreover have "j < w_next w'" if "j \<in> (lf_fresh l \<union> set_option oi) \<union> sv_sessions (w_service w')" for j
    using less [of j] that assms(2) by (auto simp: CreateSession_def Let_def split: if_splits)
  moreover have "w_next (lf_world l) \<notin> sv_sessions (w_service (lf_world l))"
    using less by blast
  then have "(lf_fresh l \<union> set_option oi) \<inter> sv_sessions (w_service w') = {}"
    using assms by (auto simp: life_inv_def CreateSession_def Let_def split: if_splits)
  moreover have "w_service w' = w_service (lf_world l)"
    using assms(2) by (auto simp: CreateSession_def Let_def split: if_splits)
  ultimately show ?thesis
    using assms(1) by (simp add: life_inv_def)
qed

lemma life_inv_release:
  assumes "life_inv l" "w_sessions (lf_world l) i = Some s" "\<not> se_connected s" "\<not> se_disconnectOwner s"
    and "ReleaseSession i (lf_world l) = Inr w'"
  shows "life_inv (l\<lparr>lf_world := w'\<rparr>)"
proof -
  have i: "i \<in> sv_sessions (w_service (lf_world l))"
    using assms(5) by (simp add: ReleaseSession_def ASSERT_CRASH_Inr_iff)
  have "int (card (sv_sessions (w_service (lf_world l)) - {i})) =
      int (card (sv_sessions (w_service (lf_world l)))) - 1"
    using assms(1) i card_Suc_Diff1 [of "sv_sessions (w_service (lf_world l))" i]
    by (simp add: life_inv_def)
  then show ?thesis
    using assms i
    by (auto simp: life_inv_def ReleaseSession_def ASSERT_CRASH_Inr_iff session_tracked_def)
qed

text \<open>The dispatch of a pending disconnect, up to the release.\<close>

lemma disconnect_prefix:
  assumes inv: "life_inv l" and s: "w_sessions (lf_world l) i = Some s" "se_disconnectOwner s"
    and w1: "on_session i (\<lambda>s. s\<lparr>se_disconnectOwner := False\<rparr>) (lf_world l) = Inr w1"
    and w2: "calm_world w1 w2"
  shows "life_inv (l\<lparr>lf_world := w2\<rparr>)" "i \<in> sv_sessions (w_service w2)"
    "\<exists>s2. w_sessions w2 i = Some s2 \<and> \<not> se_connected s2 \<and> \<not> se_disconnectOwner s2"
proof -
  have calm1: "calm_world (lf_world l) w1"
    using w1 by (rule calm_on_session) (simp add: calm_def)
  show "life_inv (l\<lparr>lf_world := w2\<rparr>)"
    using inv calm_world_trans [OF calm1 w2] by (rule life_inv_calm)
  have tr: "i \<in> sv_sessions (w_service (lf_world l))" "\<not> se_connected s"
    using inv s by (auto simp: life_inv_def session_tracked_def)
  then show "i \<in> sv_sessions (w_service w2)"
    using calm_world_trans [OF calm1 w2] by (simp add: calm_world_def)
  have "w_sessions w1 i = Some (s\<lparr>se_disconnectOwner := False\<rparr>)"
    using w1 s by (auto simp: on_session_def)
  moreover have "rel_option calm (w_sessions w1 i) (w_sessions w2 i)"
    using w2 by (simp add: calm_world_def)
  ultimately obtain s2 where "w_sessions w2 i = Some s2" "calm (s\<lparr>se_disconnectOwner := False\<rparr>) s2"
    by (auto simp: option_rel_Some1)
  then show "\<exists>s2. w_sessions w2 i = Some s2 \<and> \<not> se_connected s2 \<and> \<not> se_disconnectOwner s2"
    using tr by (auto simp: calm_def)
qed

lemma life_inv_step:
  assumes "life_step ws conn disc l l'" "life_inv l" "calm_callback conn" "calm_callback disc"
  shows "life_inv l'"
  using assms(1)
proof (cases rule: life_step.cases)
  case (create ok i w')
  then show ?thesis using life_inv_create [OF assms(2) create(2)] by simp
next
  case (create_failed ok w')
  then show ?thesis using life_inv_create [OF assms(2) create_failed(2)] by (cases l) simp
next
  case (connect i r r' w')
  from connect(3) obtain w1 w2 where
    w: "on_session i (\<lambda>s. s\<lparr>se_connectOwner := False, se_connected := True\<rparr>) (lf_world l) = Inr w1"
      "conn i (AddSession i w1) = Inr w2" "RegisterRecv_world ws i r w2 = Inr (r', w')"
    by (auto simp: ProcessConnect_def bindR_Inr_iff)
  have "calm_world (AddSession i w1) w'"
    using w assms(3) calm_RegisterRecv_world calm_world_trans unfolding calm_callback_def by blast
  then show ?thesis
    using life_inv_calm [OF life_inv_connect [OF assms(2) connect(2) w(1)]] connect(1) by simp
next
  case (hang_up i w')
  then show ?thesis using life_inv_calm [OF assms(2) calm_on_session [OF hang_up(2) calm_Disconnect]] by simp
next
  case (send i p w')
  then show ?thesis using life_inv_calm [OF assms(2) calm_on_session [OF send(2) calm_Send]] by simp
next
  case (sent i n w')
  then show ?thesis
    using life_inv_calm [OF assms(2) calm_on_session [OF sent(2) [unfolded ProcessSend_world_def] calm_ProcessSend]]
    by simp
next
  case (released i s w')
  from released(4) obtain w1 w2 where
    w: "on_session i (\<lambda>s. s\<lparr>se_disconnectOwner := False\<rparr>) (lf_world l) = Inr w1"
      "disc i w1 = Inr w2" "ReleaseSession i w2 = Inr w'"
    by (auto simp: ProcessDisconnect_def bindR_Inr_iff)
  have "calm_world w1 w2" using w(2) assms(4) by (auto simp: calm_callback_def)
  note pre = disconnect_prefix [OF assms(2) released(2,3) w(1) this]
  obtain s2 where "w_sessions w2 i = Some s2" "\<not> se_connected s2" "\<not> se_disconnectOwner s2"
    using pre(3) by auto
  then show ?thesis
    using life_inv_release [OF pre(1), of i s2 w'] w(3) released(1) by simp
qed

definition life_init :: "service_type \<Rightarrow> int \<Rightarrow> 'c \<Rightarrow> ('p, 'c) life" where
  "life_init type n c = \<lparr>lf_world = world_new (Service_new type True n) c, lf_fresh = {}\<rparr>"

lemma life_inv_init: "life_inv (life_init type n c)"
  by (simp add: life_inv_def life_init_def world_new_def Service_new_def)

lemma life_inv_reachable:
  assumes "(life_step ws conn disc)\<^sup>*\<^sup>* (life_init type n c) l" "calm_callback conn" "calm_callback disc"
  shows "life_inv l"
  using assms(1) by (induction rule: rtranclp_induct) (auto intro: life_inv_init life_inv_step assms)

section \<open>Properties\<close>

text \<open>C1: However the operating system cuts the stream of a connection into receives, the content
  sees exactly the packets of the stream, in order, and the bytes behind the last whole packet stay
  in the buffer. No receive is refused, no copy overlaps, the packet loop ends, and there is always
  room for a full receive. A fault of a packet handler is the only fault that can occur.\<close>

theorem reassembly:
  assumes "handler_ok h i" "recv_ok ws" "connected i w"
    and "deliverable ws h i cs Session_new_recv w"
    and "concat cs = concat ps @ q" "\<forall>p \<in> set ps. wf_packet p" "incomplete q"
  shows "case handle_all (h i) ps w of
       Inl e \<Rightarrow> receive_all ws h i cs Session_new_recv w = Some (Inl e)
     | Inr w' \<Rightarrow> \<exists>r'. rb_inv 65536 (rh_buffer r') \<and> rb_data (rh_buffer r') = q \<and>
         65536 \<le> RecvBuffer_FreeSize (rh_buffer r') \<and>
         receive_all ws h i cs Session_new_recv w = Some (Inr (r', w'))"
  using receive_all_packets [OF assms(1,2,7) recv_new(1,3) assms(4)] recv_new(2) assms(3,5,6)
  by (simp add: incomplete_def)

definition quiet_winsock :: "'p winsock" where
  "quiet_winsock = \<lparr>WSASend = (\<lambda>_. None), WSARecv = (\<lambda>_ _. Some WSA_IO_PENDING),
     ConnectEx = (\<lambda>_. Some WSA_IO_PENDING), DisconnectEx = (\<lambda>_. Some WSA_IO_PENDING)\<rparr>"

definition one_session :: "'c \<Rightarrow> ('p, 'c) world" where
  "one_session c = (world_new (Service_new ServerType True 1) c)\<lparr>w_sessions := [0 \<mapsto> connected_session]\<rparr>"

text \<open>A content that collects the packets it gets.\<close>

definition collect_packets :: "sid \<Rightarrow> ('p, byte list list) world packet_fun" where
  "collect_packets i p n w = Inr (w\<lparr>w_content := w_content w @ [take (nat n) p]\<rparr>)"

lemma quiet_winsock_ok: "recv_ok quiet_winsock" "connected 0 (one_session c)"
  by (simp_all add: recv_ok_def quiet_winsock_def connected_def one_session_def connected_session_def)

lemma collect_packets_ok: "handler_ok collect_packets i"
  by (auto simp: handler_ok_def packet_local_def collect_packets_def connected_def)

lemma collect_packets_deliverable:
  assumes "\<forall>c \<in> set cs. c \<noteq> [] \<and> length c \<le> 65536"
    "concat cs = concat ps @ q" "\<forall>p \<in> set ps. wf_packet p" "incomplete q"
  shows "deliverable quiet_winsock collect_packets 0 cs Session_new_recv (one_session c)"
  by (rule deliverable_small [OF collect_packets_ok quiet_winsock_ok(1) assms(4) recv_new(1,3) assms(1)])
    (use assms(2,3) in \<open>simp_all add: recv_new(2) quiet_winsock_ok(2)\<close>)

theorem reassembly_witness:
  "\<exists>r' w'. receive_all quiet_winsock collect_packets 0 [[4], [0, 1, 0, 5, 0], [7, 0, 9, 6]]
      Session_new_recv (one_session [] :: (nat, byte list list) world) = Some (Inr (r', w')) \<and>
    w_content w' = [[4, 0, 1, 0], [5, 0, 7, 0, 9]] \<and> rb_data (rh_buffer r') = [6]"
proof -
  have wf: "wf_packet [4, 0, 1, 0]" "wf_packet [5, 0, 7, 0, 9]" "incomplete [6]"
    by (simp_all add: wf_packet_def incomplete_def PacketHeader_at_def rd16_def)
  have "deliverable quiet_winsock collect_packets 0 [[4], [0, 1, 0, 5, 0], [7, 0, 9, 6]] Session_new_recv
      (one_session [] :: (nat, byte list list) world)"
    by (rule collect_packets_deliverable [of _ "[[4, 0, 1, 0], [5, 0, 7, 0, 9]]" "[6]"]) (simp_all add: wf)
  from reassembly [OF collect_packets_ok quiet_winsock_ok this, of "[[4, 0, 1, 0], [5, 0, 7, 0, 9]]" "[6]"]
  show ?thesis
    by (auto simp: wf collect_packets_def one_session_def world_new_def)
qed

text \<open>C13: In every state the sessions can reach, the count of connected sessions is the number of
  sessions in the service's set, and when the disconnect event of a session is dispatched the
  session is in the set: the assertion of \<open>ReleaseSession\<close> never fires, so the dispatch fails only
  when the content's \<open>OnDisconnected\<close> does.\<close>

theorem release_never_asserts:
  assumes "(life_step ws conn disc)\<^sup>*\<^sup>* (life_init type n c) l" "calm_callback conn" "calm_callback disc"
  shows "sv_sessionCount (w_service (lf_world l)) = int (card (sv_sessions (w_service (lf_world l)))) \<and>
    (\<forall>i s w1 w2. w_sessions (lf_world l) i = Some s \<longrightarrow> se_disconnectOwner s \<longrightarrow>
       on_session i (\<lambda>s. s\<lparr>se_disconnectOwner := False\<rparr>) (lf_world l) = Inr w1 \<longrightarrow> disc i w1 = Inr w2 \<longrightarrow>
       (\<exists>w'. ProcessDisconnect disc i (lf_world l) = Inr w'))"
proof -
  note inv = life_inv_reachable [OF assms]
  have "\<exists>w'. ProcessDisconnect disc i (lf_world l) = Inr w'"
    if "w_sessions (lf_world l) i = Some s" "se_disconnectOwner s"
      "on_session i (\<lambda>s. s\<lparr>se_disconnectOwner := False\<rparr>) (lf_world l) = Inr w1" "disc i w1 = Inr w2" for i s w1 w2
    using disconnect_prefix(2) [OF inv that(1-3), of w2] assms(3) that(3,4)
    by (simp add: ProcessDisconnect_def ReleaseSession_def calm_callback_def)
  then show ?thesis using inv by (auto simp: life_inv_def)
qed

definition no_callback :: "('p, 'c) callback" where
  "no_callback i w = Inr w"

theorem release_never_asserts_witness:
  "\<exists>l w'. (life_step quiet_winsock no_callback no_callback)\<^sup>*\<^sup>* (life_init ServerType 5 ()) l \<and>
     sv_sessionCount (w_service (lf_world (l :: (nat, unit) life))) = 1 \<and>
     ProcessDisconnect no_callback 0 (lf_world l) = Inr w'"
proof -
  let ?step = "life_step quiet_winsock no_callback no_callback :: (nat, unit) life \<Rightarrow> _"
  let ?w0 = "lf_world (life_init ServerType 5 () :: (nat, unit) life)"
  let ?w1 = "?w0\<lparr>w_sessions := [0 \<mapsto> Session_new], w_next := 1\<rparr>"
  let ?w2 = "AddSession 0 (?w1\<lparr>w_sessions := [0 \<mapsto> connected_session]\<rparr>)"
  let ?s3 = "Disconnect quiet_winsock connected_session"
  let ?w3 = "?w2\<lparr>w_sessions := [0 \<mapsto> ?s3]\<rparr>"
  let ?l3 = "\<lparr>lf_world = ?w3, lf_fresh = {}\<rparr>"
  have calm: "calm_callback (no_callback :: (nat, unit) callback)"
    by (simp add: calm_callback_def no_callback_def)
  have 1: "?step (life_init ServerType 5 ()) \<lparr>lf_world = ?w1, lf_fresh = {0}\<rparr>"
    using life_step.create [of True "life_init ServerType 5 () :: (nat, unit) life" 0 ?w1]
    by (simp add: CreateSession_def life_init_def world_new_def Let_def)
  have 2: "?step \<lparr>lf_world = ?w1, lf_fresh = {0}\<rparr> \<lparr>lf_world = ?w2, lf_fresh = {}\<rparr>"
  proof -
    have "ProcessConnect quiet_winsock no_callback 0 r ?w1 = Inr (r\<lparr>rh_owner := True, rh_calls := rh_calls r + 1\<rparr>, ?w2)" for r
      by (simp add: ProcessConnect_def on_session_def AddSession_def no_callback_def RegisterRecv_world_def
          RegisterRecv_def quiet_winsock_def Let_def Session_new_def connected_session_def)
    then show ?thesis
      using life_step.connect [of 0 "\<lparr>lf_world = ?w1, lf_fresh = {0}\<rparr>" quiet_winsock no_callback
          Session_new_recv _ ?w2 no_callback] by simp
  qed
  have 3: "?step \<lparr>lf_world = ?w2, lf_fresh = {}\<rparr> ?l3"
    using life_step.hang_up [of 0 quiet_winsock "\<lparr>lf_world = ?w2, lf_fresh = {}\<rparr>" ?w3 no_callback no_callback]
    by (simp add: on_session_def AddSession_def)
  have reach: "?step\<^sup>*\<^sup>* (life_init ServerType 5 ()) ?l3"
    using 1 2 3 by (meson converse_rtranclp_into_rtranclp rtranclp.rtrancl_refl)
  have "se_disconnectOwner ?s3"
    by (simp add: Disconnect_def RegisterDisconnect_def quiet_winsock_def connected_session_def
        Session_new_def count_call_def Let_def)
  then have "\<exists>w'. ProcessDisconnect no_callback 0 (lf_world ?l3) = Inr w'"
    using release_never_asserts [OF reach calm calm, THEN conjunct2, rule_format, of 0 ?s3]
    by (auto simp add: on_session_def no_callback_def)
  moreover have "sv_sessionCount (w_service (lf_world ?l3)) = 1"
    by (simp add: AddSession_def life_init_def world_new_def Service_new_def)
  ultimately show ?thesis using reach by blast
qed

end
