(* ===== verification/Listener.thy ===== *)
theory Listener
  imports Sockets Service
begin

text \<open>
  Accepting and connecting (\<open>ServerCore/Listener.cpp\<close> and the \<open>Start\<close> operations of
  \<open>ServerCore/Service.cpp\<close>). The listener keeps one accept event per admissible session; each event
  holds the session prepared for the next connection. \<open>RegisterAccept\<close> calls itself when the operating
  system refuses, without a bound, so that it is a partial function.
\<close>

section \<open>State\<close>

record accept_event =
  ae_owner :: bool
  ae_session :: "sid option"

definition AcceptEvent_new :: accept_event where
  "AcceptEvent_new = \<lparr>ae_owner = False, ae_session = None\<rparr>"

record listener =
  li_socket :: SOCKET
  li_acceptEvents :: "accept_event list"
  li_service :: bool

definition Listener_new :: listener where
  "Listener_new = \<lparr>li_socket = INVALID_SOCKET, li_acceptEvents = [], li_service = False\<rparr>"

text \<open>The part of an event the kernel reads and writes, cleared before every use.\<close>

record iocp_event =
  ie_Internal :: u64
  ie_InternalHigh :: u64
  ie_Offset :: u32
  ie_OffsetHigh :: u32
  ie_hEvent :: u64
  ie_eventType :: event_type
  ie_owner :: bool

definition IocpEvent_Init :: "iocp_event \<Rightarrow> iocp_event" where
  "IocpEvent_Init e = e\<lparr>ie_hEvent := 0, ie_Internal := 0, ie_InternalHigh := 0, ie_Offset := 0, ie_OffsetHigh := 0\<rparr>"

text \<open>\<open>raw\<close> is the memory in which the event is constructed.\<close>

definition IocpEvent_new :: "iocp_event \<Rightarrow> event_type \<Rightarrow> iocp_event" where
  "IocpEvent_new raw type = IocpEvent_Init (raw\<lparr>ie_eventType := type, ie_owner := False\<rparr>)"

text \<open>The listener, the sessions with their sockets and peer addresses, and the calls so far.\<close>

record ('p, 'c) net =
  nt_listener :: listener
  nt_calls :: "os_call list"
  nt_world :: "('p, 'c) world"
  nt_sockets :: "sid \<Rightarrow> SOCKET"
  nt_peers :: "sid \<Rightarrow> net_address"

definition net_new :: "('p, 'c) world \<Rightarrow> ('p, 'c) net" where
  "net_new w = \<lparr>nt_listener = Listener_new, nt_calls = [], nt_world = w, nt_sockets = (\<lambda>_. INVALID_SOCKET),
     nt_peers = (\<lambda>_. NetAddress_default)\<rparr>"

definition INVALID_HANDLE_VALUE :: u64 where "INVALID_HANDLE_VALUE = - 1"

text \<open>
  The constructor of \<open>IocpCore\<close> with the handle \<open>CreateIoCompletionPort\<close> answers, which is 0 when it fails.
\<close>

definition IocpCore_new :: "u64 \<Rightarrow> u64 res" where
  "IocpCore_new iocpHandle = ASSERT_CRASH (iocpHandle \<noteq> INVALID_HANDLE_VALUE) (Inr iocpHandle)"

text \<open>\<open>IocpCore::Register\<close> of an object with this handle.\<close>

definition IocpCore_Register :: "winsock_api \<Rightarrow> SOCKET \<Rightarrow> os_call list \<Rightarrow> bool \<times> os_call list" where
  "IocpCore_Register api handle = os_try api (Call_CreateIoCompletionPort handle)"

text \<open>The destructor of a session nobody refers to any more closes its socket.\<close>

definition Session_destroy :: "sid \<Rightarrow> ('p, 'c) net \<Rightarrow> ('p, 'c) net" where
  "Session_destroy i n = n\<lparr>nt_calls := snd (SocketUtils_Close (nt_sockets n i) (nt_calls n))\<rparr>"

text \<open>
  \<open>Service::CreateSession\<close> with the socket the constructor of the session opens. A session that cannot
  be registered is destroyed.
\<close>

definition make_session :: "winsock_api \<Rightarrow> ('p, 'c) net \<Rightarrow> sid option \<times> ('p, 'c) net" where
  "make_session api n =
     (case CreateSocket api (nt_calls n) of (sock, calls) \<Rightarrow>
      case IocpCore_Register api sock calls of (registered, calls) \<Rightarrow>
      let i = w_next (nt_world n);
          n = n\<lparr>nt_calls := calls, nt_sockets := (nt_sockets n)(i := sock)\<rparr>
      in case CreateSession registered (nt_world n) of
           (None, w) \<Rightarrow> (None, Session_destroy i (n\<lparr>nt_world := w\<rparr>))
         | (Some j, w) \<Rightarrow> (Some j, n\<lparr>nt_world := w\<rparr>))"

section \<open>The listener\<close>

definition set_event :: "nat \<Rightarrow> (accept_event \<Rightarrow> accept_event) \<Rightarrow> ('p, 'c) net \<Rightarrow> ('p, 'c) net" where
  "set_event k f n =
     n\<lparr>nt_listener := (nt_listener n)\<lparr>li_acceptEvents :=
        (li_acceptEvents (nt_listener n))[k := f (li_acceptEvents (nt_listener n) ! k)]\<rparr>\<rparr>"

text \<open>One attempt of \<open>RegisterAccept\<close>: the new session, if there is one, and whether \<open>AcceptEx\<close> refused.\<close>

definition accept_attempt :: "winsock_api \<Rightarrow> nat \<Rightarrow> ('p, 'c) net \<Rightarrow> (sid \<times> bool \<times> ('p, 'c) net) option" where
  "accept_attempt api k n =
     (case make_session api n of
        (None, _) \<Rightarrow> None
      | (Some i, n1) \<Rightarrow>
          let n2 = set_event k (\<lambda>e. e\<lparr>ae_session := Some i\<rparr>) n1;
              sock = li_socket (nt_listener n2);
              refused = overlapped_error (wa_AcceptEx api (nt_calls n2) sock (nt_sockets n2 i)) \<noteq> None
          in Some (i, refused, n2\<lparr>nt_calls := nt_calls n2 @ [Call_AcceptEx sock (nt_sockets n2 i)]\<rparr>))"

text \<open>
  A null session is dereferenced. The session of a refused attempt stays alive until the nested call
  returns, and is then destroyed.
\<close>

partial_function (option) RegisterAccept :: "winsock_api \<Rightarrow> nat \<Rightarrow> ('p, 'c) net \<Rightarrow> ('p, 'c) net res option" where
  "RegisterAccept api k n =
     (case accept_attempt api k n of
        None \<Rightarrow> Some (Inl NullDeref)
      | Some (i, refused, n') \<Rightarrow>
          if refused
          then Option.bind (RegisterAccept api k n') (\<lambda>r. Some (bindR r (\<lambda>n''. Inr (Session_destroy i n''))))
          else Some (Inr n'))"

declare RegisterAccept.simps [code]

fun accept_loop :: "winsock_api \<Rightarrow> nat \<Rightarrow> ('p, 'c) net \<Rightarrow> ('p, 'c) net res option" where
  "accept_loop api 0 n = Some (Inr n)"
| "accept_loop api (Suc c) n =
     (let k = length (li_acceptEvents (nt_listener n));
          n1 = n\<lparr>nt_listener := (nt_listener n)\<lparr>li_acceptEvents :=
                 li_acceptEvents (nt_listener n) @ [AcceptEvent_new\<lparr>ae_owner := True\<rparr>]\<rparr>\<rparr>
      in Option.bind (RegisterAccept api k n1) (\<lambda>r.
           case r of Inl f \<Rightarrow> Some (Inl f) | Inr n2 \<Rightarrow> accept_loop api c n2))"

text \<open>A step of \<open>StartAccept\<close> that returns false when its call fails.\<close>

definition guard_call ::
  "(os_call list \<Rightarrow> bool \<times> os_call list) \<Rightarrow> ('p, 'c) net \<Rightarrow> (('p, 'c) net \<Rightarrow> (bool \<times> ('p, 'c) net) res option) \<Rightarrow>
     (bool \<times> ('p, 'c) net) res option" where
  "guard_call f n cont =
     (case f (nt_calls n) of (ok, calls) \<Rightarrow>
        if ok then cont (n\<lparr>nt_calls := calls\<rparr>) else Some (Inr (False, n\<lparr>nt_calls := calls\<rparr>)))"

definition StartAccept ::
  "winsock_api \<Rightarrow> net_address \<Rightarrow> bool \<Rightarrow> ('p, 'c) net \<Rightarrow> (bool \<times> ('p, 'c) net) res option" where
  "StartAccept api address service n =
     (let n = n\<lparr>nt_listener := (nt_listener n)\<lparr>li_service := service\<rparr>\<rparr> in
      if \<not> service then Some (Inr (False, n))
      else case CreateSocket api (nt_calls n) of (sock, calls) \<Rightarrow>
        let n = n\<lparr>nt_listener := (nt_listener n)\<lparr>li_socket := sock\<rparr>, nt_calls := calls\<rparr> in
        if sock = INVALID_SOCKET then Some (Inr (False, n))
        else guard_call (IocpCore_Register api sock) n (\<lambda>n.
             guard_call (SetReuseAddress api sock True) n (\<lambda>n.
             guard_call (SetLinger api sock 0 0) n (\<lambda>n.
             guard_call (SocketUtils_Bind api sock address) n (\<lambda>n.
             guard_call (SocketUtils_Listen api sock SOMAXCONN) n (\<lambda>n.
             Option.bind (accept_loop api (nat (sv_maxSessionCount (w_service (nt_world n)))) n) (\<lambda>r.
               Some (bindR r (\<lambda>n. Inr (True, n))))))))))"

definition Listener_CloseSocket :: "('p, 'c) net \<Rightarrow> ('p, 'c) net" where
  "Listener_CloseSocket n =
     (case SocketUtils_Close (li_socket (nt_listener n)) (nt_calls n) of (sock, calls) \<Rightarrow>
        n\<lparr>nt_listener := (nt_listener n)\<lparr>li_socket := sock\<rparr>, nt_calls := calls\<rparr>)"

definition Listener_destroy :: "('p, 'c) net \<Rightarrow> ('p, 'c) net" where
  "Listener_destroy n =
     (let n = Listener_CloseSocket n in n\<lparr>nt_listener := (nt_listener n)\<lparr>li_acceptEvents := []\<rparr>\<rparr>)"

text \<open>
  \<open>ProcessAccept\<close> for the event with index \<open>k\<close>. The session it accepted is connected, or destroyed at the
  end when its socket could not be set up.
\<close>

definition reject :: "winsock_api \<Rightarrow> nat \<Rightarrow> sid \<Rightarrow> ('p, 'c) net \<Rightarrow> ('p, 'c) net res option" where
  "reject api k i n = Option.bind (RegisterAccept api k n) (\<lambda>r. Some (bindR r (\<lambda>n'. Inr (Session_destroy i n'))))"

definition ProcessAccept ::
  "winsock_api \<Rightarrow> 'p winsock \<Rightarrow> ('p, 'c) callback \<Rightarrow> nat \<Rightarrow> ('p, 'c) net \<Rightarrow> ('p, 'c) net res option" where
  "ProcessAccept api ws OnConnected k n =
     (case ae_session (li_acceptEvents (nt_listener n) ! k) of
        None \<Rightarrow> Some (Inl NullDeref)
      | Some i \<Rightarrow>
          case SetUpdateAcceptSocket api (nt_sockets n i) (li_socket (nt_listener n)) (nt_calls n) of (updated, calls) \<Rightarrow>
          if \<not> updated then reject api k i (n\<lparr>nt_calls := calls\<rparr>)
          else let peer = wa_getpeername api calls (nt_sockets n i);
                   n = n\<lparr>nt_calls := calls @ [Call_getpeername (nt_sockets n i)]\<rparr>
            in case peer of
                 None \<Rightarrow> reject api k i n
               | Some sockAddress \<Rightarrow>
                   (case ProcessConnect ws OnConnected i Session_new_recv (nt_world n) of
                      Inl f \<Rightarrow> Some (Inl f)
                    | Inr (_, w) \<Rightarrow>
                        RegisterAccept api k
                          (n\<lparr>nt_peers := (nt_peers n)(i := NetAddress_sock sockAddress), nt_world := w\<rparr>)))"

definition Listener_Dispatch ::
  "winsock_api \<Rightarrow> 'p winsock \<Rightarrow> ('p, 'c) callback \<Rightarrow> event_type \<Rightarrow> nat \<Rightarrow> ('p, 'c) net \<Rightarrow> ('p, 'c) net res option" where
  "Listener_Dispatch api ws OnConnected eventType k n =
     (if eventType \<noteq> EvAccept then Some (Inl CrashAssert) else ProcessAccept api ws OnConnected k n)"

section \<open>Starting a service\<close>

definition ServerService_new :: "bool \<Rightarrow> int \<Rightarrow> service" where
  "ServerService_new factory maxSessionCount = Service_new ServerType factory maxSessionCount"

definition ClientService_new :: "bool \<Rightarrow> int \<Rightarrow> service" where
  "ClientService_new factory maxSessionCount = Service_new ClientType factory maxSessionCount"

definition ServerService_CloseService :: "service \<Rightarrow> service" where
  "ServerService_CloseService sv = CloseService sv"

definition ServerService_Start ::
  "winsock_api \<Rightarrow> net_address \<Rightarrow> ('p, 'c) net \<Rightarrow> (bool \<times> ('p, 'c) net) res option" where
  "ServerService_Start api address n =
     (if \<not> CanStart (w_service (nt_world n)) then Some (Inr (False, n))
      else StartAccept api address True (n\<lparr>nt_listener := Listener_new\<rparr>))"

text \<open>\<open>Session::Connect\<close> with the calls of \<open>RegisterConnect\<close>.\<close>

definition Session_Connect :: "winsock_api \<Rightarrow> 'p winsock \<Rightarrow> sid \<Rightarrow> ('p, 'c) net \<Rightarrow> (bool \<times> ('p, 'c) net) res" where
  "Session_Connect api ws i n =
     (case w_sessions (nt_world n) i of
        None \<Rightarrow> Inl NullDeref
      | Some s \<Rightarrow>
          let isClient = (sv_type (w_service (nt_world n)) = ClientType);
              sock = nt_sockets n i;
              asks = (\<not> se_connected s \<and> isClient);
              (reuseOk, calls) = (if asks then SetReuseAddress api sock True (nt_calls n) else (False, nt_calls n));
              (bindOk, calls) = (if asks \<and> reuseOk then BindAnyAddress api sock 0 calls else (False, calls));
              (ok, s') = RegisterConnect ws isClient reuseOk bindOk s
          in Inr (ok, n\<lparr>nt_calls := calls, nt_world := (nt_world n)\<lparr>w_sessions := (w_sessions (nt_world n))(i \<mapsto> s')\<rparr>\<rparr>))"

fun connect_loop :: "winsock_api \<Rightarrow> 'p winsock \<Rightarrow> nat \<Rightarrow> ('p, 'c) net \<Rightarrow> (bool \<times> ('p, 'c) net) res" where
  "connect_loop api ws 0 n = Inr (True, n)"
| "connect_loop api ws (Suc c) n =
     (case make_session api n of
        (None, _) \<Rightarrow> Inl NullDeref
      | (Some i, n1) \<Rightarrow>
          bindR (Session_Connect api ws i n1) (\<lambda>(ok, n2).
            if ok then connect_loop api ws c n2 else Inr (False, n2)))"

definition ClientService_Start :: "winsock_api \<Rightarrow> 'p winsock \<Rightarrow> ('p, 'c) net \<Rightarrow> (bool \<times> ('p, 'c) net) res" where
  "ClientService_Start api ws n =
     (if \<not> CanStart (w_service (nt_world n)) then Inr (False, n)
      else connect_loop api ws (nat (sv_maxSessionCount (w_service (nt_world n)))) n)"

section \<open>When accepting returns\<close>

text \<open>The state after a number of refused attempts, if they are all refused.\<close>

fun attempts :: "winsock_api \<Rightarrow> nat \<Rightarrow> nat \<Rightarrow> ('p, 'c) net \<Rightarrow> ('p, 'c) net option" where
  "attempts api k 0 n = Some n"
| "attempts api k (Suc m) n =
     (case accept_attempt api k n of Some (_, True, n') \<Rightarrow> attempts api k m n' | _ \<Rightarrow> None)"

lemma attempts_end:
  assumes "RegisterAccept api k n = Some r"
  shows "\<exists>m. attempts api k m n = None"
proof (rule RegisterAccept.raw_induct [where P = "\<lambda>api k n r. \<exists>m. attempts api k m n = None", OF _ assms])
  fix f and api k and n :: "('a, 'b) net" and r
  assume IH: "\<And>api k n r. f api k n = Some r \<Longrightarrow> \<exists>m. attempts api k m n = None"
    and eq: "(case accept_attempt api k n of None \<Rightarrow> Some (Inl NullDeref)
      | Some (i, refused, n') \<Rightarrow>
          if refused then Option.bind (f api k n') (\<lambda>r. Some (bindR r (\<lambda>n''. Inr (Session_destroy i n''))))
          else Some (Inr n')) = Some r"
  show "\<exists>m. attempts api k m n = None"
  proof (cases "\<exists>i n'. accept_attempt api k n = Some (i, True, n')")
    case True
    then obtain i n' where a: "accept_attempt api k n = Some (i, True, n')" by blast
    then obtain r' where "f api k n' = Some r'" using eq by (auto simp: bind_eq_Some_conv)
    then obtain m where "attempts api k m n' = None" using IH by blast
    then show ?thesis using a by (intro exI [of _ "Suc m"]) simp
  next
    case False
    then have "attempts api k 1 n = None" by (auto split: option.split bool.split)
    then show ?thesis by blast
  qed
qed

lemma attempts_returns: "attempts api k m n = None \<Longrightarrow> \<exists>r. RegisterAccept api k n = Some r"
proof (induction m arbitrary: n)
  case (Suc m)
  show ?case
  proof (cases "\<exists>i n'. accept_attempt api k n = Some (i, True, n')")
    case True
    then obtain i n' where a: "accept_attempt api k n = Some (i, True, n')" by blast
    then obtain r where "RegisterAccept api k n' = Some r" using Suc by auto
    then show ?thesis using a by (subst RegisterAccept.simps) simp
  next
    case False
    then show ?thesis by (subst RegisterAccept.simps) (auto split: option.split)
  qed
qed simp

section \<open>The accept events\<close>

text \<open>A session prepared for a connection: known to the program, not connected, not in the service.\<close>

definition waiting :: "('p, 'c) world \<Rightarrow> sid \<Rightarrow> bool" where
  "waiting w i \<longleftrightarrow> i < w_next w \<and> i \<notin> sv_sessions (w_service w) \<and> (\<exists>s. w_sessions w i = Some s \<and> \<not> se_connected s)"

definition events_ok :: "nat set \<Rightarrow> ('p, 'c) net \<Rightarrow> bool" where
  "events_ok A n \<longleftrightarrow>
     (\<forall>j \<in> A. j < length (li_acceptEvents (nt_listener n)) \<and> ae_owner (li_acceptEvents (nt_listener n) ! j) \<and>
        (\<exists>i. ae_session (li_acceptEvents (nt_listener n) ! j) = Some i \<and> waiting (nt_world n) i)) \<and>
     inj_on (\<lambda>j. ae_session (li_acceptEvents (nt_listener n) ! j)) A"

definition world_ok :: "('p, 'c) world \<Rightarrow> bool" where
  "world_ok w \<longleftrightarrow> (\<forall>i \<in> sv_sessions (w_service w). i < w_next w)"

definition accept_inv :: "('p, 'c) net \<Rightarrow> bool" where
  "accept_inv n \<longleftrightarrow> world_ok (nt_world n) \<and> events_ok {..<length (li_acceptEvents (nt_listener n))} n"

lemma attempt_sel:
  assumes "accept_attempt api k n = Some (i, refused, n')"
  shows "i = w_next (nt_world n)"
    "nt_world n' = (nt_world n)\<lparr>w_sessions := (w_sessions (nt_world n))(i \<mapsto> Session_new), w_next := i + 1\<rparr>"
    "nt_listener n' = (nt_listener n)\<lparr>li_acceptEvents :=
       (li_acceptEvents (nt_listener n))[k := (li_acceptEvents (nt_listener n) ! k)\<lparr>ae_session := Some i\<rparr>]\<rparr>"
    "\<exists>cs. nt_calls n' = nt_calls n @ cs"
  using assms
  by (auto simp: accept_attempt_def make_session_def CreateSession_def CreateSocket_def IocpCore_Register_def os_try_def
      set_event_def Let_def split: if_splits option.splits)

lemma Session_destroy_sel [simp]:
  "nt_world (Session_destroy i n) = nt_world n" "nt_listener (Session_destroy i n) = nt_listener n"
  by (simp_all add: Session_destroy_def)

lemma Session_destroy_calls: "\<exists>cs. nt_calls (Session_destroy i n) = nt_calls n @ cs"
  by (simp add: Session_destroy_def SocketUtils_Close_def)

lemma events_ok_cong:
  "nt_world n' = nt_world n \<Longrightarrow> nt_listener n' = nt_listener n \<Longrightarrow> events_ok A n' = events_ok A n"
  by (simp add: events_ok_def)

lemma waiting_new:
  assumes "waiting w j"
  shows "waiting (w\<lparr>w_sessions := (w_sessions w)(w_next w \<mapsto> Session_new), w_next := w_next w + 1\<rparr>) j"
  using assms by (auto simp: waiting_def)

lemma accept_inv_destroy: "accept_inv (Session_destroy i n) = accept_inv n"
  by (simp add: accept_inv_def events_ok_cong [of "Session_destroy i n" n])

lemma attempt_events:
  assumes a: "accept_attempt api k n = Some (i, refused, n')"
    and k: "k \<notin> A" "k < length (li_acceptEvents (nt_listener n))" "ae_owner (li_acceptEvents (nt_listener n) ! k)"
    and ok: "events_ok A n" "world_ok (nt_world n)"
  shows "events_ok (insert k A) n'" "events_ok A n'" "world_ok (nt_world n')"
proof -
  let ?es = "li_acceptEvents (nt_listener n)" and ?es' = "li_acceptEvents (nt_listener n')"
  note sel = attempt_sel [OF a]
  have new: "waiting (nt_world n') i"
    using ok(2) unfolding sel by (auto simp: waiting_def world_ok_def Session_new_def)
  have es: "?es' ! j = ?es ! j" "length ?es' = length ?es" if "j \<noteq> k" for j using that by (simp_all add: sel(3))
  have old: "j < length ?es' \<and> ae_owner (?es' ! j) \<and> (\<exists>s. ae_session (?es' ! j) = Some s \<and> s \<noteq> i \<and> waiting (nt_world n') s)"
    if j: "j \<in> A" for j
  proof -
    obtain s where s: "j < length ?es" "ae_owner (?es ! j)" "ae_session (?es ! j) = Some s" "waiting (nt_world n) s"
      using ok(1) j unfolding events_ok_def by blast
    have "j \<noteq> k" using j k(1) by blast
    moreover have "s \<noteq> i" using s(4) sel(1) by (simp add: waiting_def)
    moreover have "waiting (nt_world n') s" using waiting_new [OF s(4)] by (simp add: sel)
    ultimately show ?thesis using s es by auto
  qed
  have at_k: "?es' ! k = (?es ! k)\<lparr>ae_session := Some i\<rparr>" "k < length ?es'" using k(2) by (simp_all add: sel(3))
  have "inj_on (\<lambda>j. ae_session (?es ! j)) A" using ok(1) by (simp add: events_ok_def)
  then have inj: "inj_on (\<lambda>j. ae_session (?es' ! j)) A"
    by (subst inj_on_cong [of A _ "\<lambda>j. ae_session (?es ! j)"]) (use k(1) es(1) in \<open>metis, simp\<close>)
  show "events_ok A n'" using old inj unfolding events_ok_def by blast
  have "ae_session (?es' ! k) \<notin> (\<lambda>j. ae_session (?es' ! j)) ` A" using old at_k by fastforce
  then show "events_ok (insert k A) n'"
    using old inj at_k k(3) new by (auto simp: events_ok_def)
  show "world_ok (nt_world n')" using ok(2) by (auto simp: world_ok_def sel)
qed

text \<open>What \<open>RegisterAccept\<close> changes: it makes sessions, gives one to its event, and leaves the rest.\<close>

definition accept_frame :: "('p, 'c) net \<Rightarrow> ('p, 'c) net \<Rightarrow> bool" where
  "accept_frame n n' \<longleftrightarrow>
     length (li_acceptEvents (nt_listener n')) = length (li_acceptEvents (nt_listener n)) \<and>
     w_service (nt_world n') = w_service (nt_world n) \<and> w_next (nt_world n) \<le> w_next (nt_world n') \<and>
     (\<forall>i < w_next (nt_world n). w_sessions (nt_world n') i = w_sessions (nt_world n) i) \<and>
     (\<exists>cs. nt_calls n' = nt_calls n @ cs)"

lemma accept_frame_trans: "accept_frame n n' \<Longrightarrow> accept_frame n' n'' \<Longrightarrow> accept_frame n n''"
  by (auto simp: accept_frame_def)

lemma accept_frame_destroy: "accept_frame n (Session_destroy i n)"
  using Session_destroy_calls [of i n] by (simp add: accept_frame_def)

lemma RegisterAccept_ok:
  fixes n :: "('p, 'c) net"
  assumes ret: "RegisterAccept api k n = Some (Inr n')"
    and pre: "k \<notin> A" "k < length (li_acceptEvents (nt_listener n))" "ae_owner (li_acceptEvents (nt_listener n) ! k)"
      "events_ok A n" "world_ok (nt_world n)"
  shows "events_ok (insert k A) n' \<and> world_ok (nt_world n') \<and> accept_frame n n'"
proof -
  let ?P = "\<lambda>(api :: winsock_api) k (n :: ('p, 'c) net) (r :: ('p, 'c) net res). \<forall>n'. r = Inr n' \<longrightarrow> k \<notin> A \<longrightarrow> k < length (li_acceptEvents (nt_listener n)) \<longrightarrow>
    ae_owner (li_acceptEvents (nt_listener n) ! k) \<longrightarrow> events_ok A n \<longrightarrow> world_ok (nt_world n) \<longrightarrow>
    events_ok (insert k A) n' \<and> world_ok (nt_world n') \<and> accept_frame n n'"
  have "?P api k n (Inr n')"
  proof (rule RegisterAccept.raw_induct [where P = ?P, OF _ ret])
    fix f and api k and n :: "('p, 'c) net" and r
    assume IH: "\<And>api k n r. f api k n = Some r \<Longrightarrow> ?P api k n r"
      and eq: "(case accept_attempt api k n of None \<Rightarrow> Some (Inl NullDeref)
        | Some (i, refused, n') \<Rightarrow>
            if refused then Option.bind (f api k n') (\<lambda>r. Some (bindR r (\<lambda>n''. Inr (Session_destroy i n''))))
            else Some (Inr n')) = Some r"
    show "?P api k n r"
    proof (intro allI impI)
      fix n'
      assume r: "r = Inr n'" and k: "k \<notin> A" "k < length (li_acceptEvents (nt_listener n))"
          "ae_owner (li_acceptEvents (nt_listener n) ! k)" and ok: "events_ok A n" "world_ok (nt_world n)"
      obtain i refused n1 where a: "accept_attempt api k n = Some (i, refused, n1)"
        using eq r by (cases "accept_attempt api k n") auto
      note sel = attempt_sel [OF a] and ev = attempt_events [OF a k ok]
      have fr: "accept_frame n n1" using sel(4) by (simp add: accept_frame_def sel(1-3))
      show "events_ok (insert k A) n' \<and> world_ok (nt_world n') \<and> accept_frame n n'"
      proof (cases refused)
        case False
        then have "n' = n1" using eq r a by simp
        then show ?thesis using ev fr by simp
      next
        case True
        then obtain n2 where n2: "f api k n1 = Some (Inr n2)" "n' = Session_destroy i n2"
          using eq r a by (auto simp: bind_eq_Some_conv bindR_Inr_iff)
        have "k < length (li_acceptEvents (nt_listener n1))" "ae_owner (li_acceptEvents (nt_listener n1) ! k)"
          using k by (simp_all add: sel(3))
        then have "events_ok (insert k A) n2 \<and> world_ok (nt_world n2) \<and> accept_frame n1 n2"
          using IH [OF n2(1)] k(1) ev(2,3) by blast
        moreover have "events_ok (insert k A) n' = events_ok (insert k A) n2" by (rule events_ok_cong) (simp_all add: n2(2))
        ultimately show ?thesis
          using accept_frame_trans [OF accept_frame_trans [OF fr] accept_frame_destroy] n2(2) by auto
      qed
    qed
  qed
  then show ?thesis using pre by blast
qed

lemma accept_loop_ok:
  "accept_loop api c n = Some (Inr n') \<Longrightarrow> accept_inv n \<Longrightarrow>
    accept_inv n' \<and> length (li_acceptEvents (nt_listener n')) = length (li_acceptEvents (nt_listener n)) + c \<and>
    w_service (nt_world n') = w_service (nt_world n) \<and> (\<exists>cs. nt_calls n' = nt_calls n @ cs)"
proof (induction c arbitrary: n)
  case (Suc c)
  let ?k = "length (li_acceptEvents (nt_listener n))"
  let ?n1 = "n\<lparr>nt_listener := (nt_listener n)\<lparr>li_acceptEvents :=
    li_acceptEvents (nt_listener n) @ [AcceptEvent_new\<lparr>ae_owner := True\<rparr>]\<rparr>\<rparr>"
  obtain n2 where n2: "RegisterAccept api ?k ?n1 = Some (Inr n2)" "accept_loop api c n2 = Some (Inr n')"
    using Suc.prems(1) by (cases "RegisterAccept api ?k ?n1") (auto simp: Let_def split: sum.splits)
  have "inj_on (\<lambda>j. ae_session (li_acceptEvents (nt_listener ?n1) ! j)) {..<?k}"
    using Suc.prems(2) by (subst inj_on_cong [of _ _ "\<lambda>j. ae_session (li_acceptEvents (nt_listener n) ! j)"])
      (auto simp: accept_inv_def events_ok_def nth_append)
  then have "events_ok {..<?k} ?n1" "world_ok (nt_world ?n1)"
    using Suc.prems(2) by (auto simp: accept_inv_def events_ok_def nth_append less_Suc_eq)
  then have "events_ok (insert ?k {..<?k}) n2 \<and> world_ok (nt_world n2) \<and> accept_frame ?n1 n2"
    using RegisterAccept_ok [OF n2(1), of "{..<?k}"] by simp
  then have 2: "accept_inv n2" "length (li_acceptEvents (nt_listener n2)) = Suc ?k"
      "w_service (nt_world n2) = w_service (nt_world n)" "\<exists>cs. nt_calls n2 = nt_calls n @ cs"
    by (auto simp: accept_inv_def accept_frame_def lessThan_Suc)
  show ?case using Suc.IH [OF n2(2) 2(1)] 2(2-) by auto
qed simp

lemma guard_call_cases:
  assumes "guard_call (os_try api c) n cont = Some (Inr (ok, n'))"
  shows "(cont (n\<lparr>nt_calls := nt_calls n @ [c]\<rparr>) = Some (Inr (ok, n'))) \<or> (\<not> ok \<and> n' = n\<lparr>nt_calls := nt_calls n @ [c]\<rparr>)"
  using assms by (auto simp: guard_call_def os_try_def split: if_splits)

lemmas socket_call_defs = IocpCore_Register_def SetReuseAddress_def SetLinger_def SocketUtils_Bind_def
  SocketUtils_Listen_def SetSockOpt_def

text \<open>The calls that set up the listening socket, in the order of the code.\<close>

definition listen_calls :: "SOCKET \<Rightarrow> net_address \<Rightarrow> os_call list" where
  "listen_calls s address = [Call_WSASocket, Call_CreateIoCompletionPort s,
     Call_setsockopt s SOL_SOCKET SO_REUSEADDR (OptBool True), Call_setsockopt s SOL_SOCKET SO_LINGER (OptLinger 0 0),
     Call_bind s (GetSockAddr address), Call_listen s SOMAXCONN]"

definition listening :: "winsock_api \<Rightarrow> net_address \<Rightarrow> ('p, 'c) net \<Rightarrow> ('p, 'c) net" where
  "listening api address n =
     (let s = wa_WSASocket api (nt_calls n) in
      n\<lparr>nt_listener := (nt_listener n)\<lparr>li_service := True, li_socket := s\<rparr>, nt_calls := nt_calls n @ listen_calls s address\<rparr>)"

lemma StartAccept_cases:
  assumes "StartAccept api address service n = Some (Inr (ok, n'))"
  shows "(ok \<and> wa_WSASocket api (nt_calls n) \<noteq> INVALID_SOCKET \<and>
      accept_loop api (nat (sv_maxSessionCount (w_service (nt_world n)))) (listening api address n) = Some (Inr n')) \<or>
    (\<not> ok \<and> li_acceptEvents (nt_listener n') = li_acceptEvents (nt_listener n) \<and> nt_world n' = nt_world n)"
  using assms unfolding StartAccept_def Let_def CreateSocket_def socket_call_defs
  by (auto split: if_splits dest!: guard_call_cases simp: bind_eq_Some_conv bindR_Inr_iff listen_calls_def listening_def Let_def)

lemma ProcessConnect_frame:
  assumes "ProcessConnect ws conn i r w = Inr (r', w')" "calm_callback conn"
  shows "w_next w' = w_next w" "sv_sessions (w_service w') = insert i (sv_sessions (w_service w))"
    "j \<noteq> i \<Longrightarrow> rel_option calm (w_sessions w j) (w_sessions w' j)"
proof -
  obtain w1 w2 where 1: "on_session i (\<lambda>s. s\<lparr>se_connectOwner := False, se_connected := True\<rparr>) w = Inr w1"
      "conn i (AddSession i w1) = Inr w2" "RegisterRecv_world ws i r w2 = Inr (r', w')"
    using assms(1) by (auto simp: ProcessConnect_def bindR_Inr_iff)
  have "calm_world (AddSession i w1) w'"
    using calm_world_trans [OF _ calm_RegisterRecv_world [OF 1(3)]] 1(2) assms(2) by (auto simp: calm_callback_def)
  then have c: "w_service w' = w_service (AddSession i w1)" "w_next w' = w_next (AddSession i w1)"
      "rel_option calm (w_sessions (AddSession i w1) j) (w_sessions w' j)" by (simp_all add: calm_world_def)
  have "w_sessions (AddSession i w1) j = w_sessions w j" if "j \<noteq> i"
    using that 1(1) by (auto simp: AddSession_def on_session_def split: option.splits)
  then show "w_next w' = w_next w" "sv_sessions (w_service w') = insert i (sv_sessions (w_service w))"
      "j \<noteq> i \<Longrightarrow> rel_option calm (w_sessions w j) (w_sessions w' j)"
    using 1(1) c by (auto simp: AddSession_def on_session_def split: option.splits)
qed

lemma waiting_connect:
  assumes "ProcessConnect ws conn i r w = Inr (r', w')" "calm_callback conn" "waiting w j" "j \<noteq> i"
  shows "waiting w' j"
proof -
  note f = ProcessConnect_frame [OF assms(1,2)]
  obtain s where "w_sessions w j = Some s" "\<not> se_connected s" using assms(3) by (auto simp: waiting_def)
  then obtain s' where "w_sessions w' j = Some s'" "\<not> se_connected s'"
    using f(3) [OF assms(4)] by (auto simp: option_rel_Some1 calm_def)
  then show ?thesis using assms(3,4) f(1,2) by (simp add: waiting_def)
qed

lemma ProcessAccept_cases:
  assumes "ProcessAccept api ws conn k n = Some (Inr n')" "ae_session (li_acceptEvents (nt_listener n) ! k) = Some i"
  obtains m where "reject api k i m = Some (Inr n')" "nt_listener m = nt_listener n" "nt_world m = nt_world n"
    | m w r' where "ProcessConnect ws conn i Session_new_recv (nt_world n) = Inr (r', w)"
      "RegisterAccept api k m = Some (Inr n')" "nt_listener m = nt_listener n" "nt_world m = w"
  using assms unfolding ProcessAccept_def SetUpdateAcceptSocket_def SetSockOpt_def os_try_def
  by (fastforce simp: Let_def split: if_splits option.splits sum.splits)

section \<open>Properties\<close>


text \<open>C27: A listener that starts has created, registered, configured, bound and set listening one socket, in this
  order; it then has one accept event for each admissible session, each with a session of its own that is
  not connected and not in the service. A listener that does not start has no accept event.\<close>

theorem start_accept_ready:
  assumes "StartAccept api address service n = Some (Inr (ok, n'))"
    and "li_acceptEvents (nt_listener n) = []" "world_ok (nt_world n)"
  shows "if ok
    then accept_inv n' \<and>
      length (li_acceptEvents (nt_listener n')) = nat (sv_maxSessionCount (w_service (nt_world n))) \<and>
      w_service (nt_world n') = w_service (nt_world n) \<and>
      (\<exists>cs. nt_calls n' = nt_calls n @ listen_calls (wa_WSASocket api (nt_calls n)) address @ cs)
    else li_acceptEvents (nt_listener n') = [] \<and> nt_world n' = nt_world n"
proof -
  let ?m = "listening api address n"
  have m: "accept_inv ?m" "nt_world ?m = nt_world n" "li_acceptEvents (nt_listener ?m) = []"
      "nt_calls ?m = nt_calls n @ listen_calls (wa_WSASocket api (nt_calls n)) address"
    using assms(2,3) by (simp_all add: listening_def Let_def accept_inv_def events_ok_def)
  show ?thesis
    using StartAccept_cases [OF assms(1)] accept_loop_ok [OF _ m(1)] assms(2) m(2-) by fastforce
qed

definition calm_api :: winsock_api where
  "calm_api = \<lparr>wa_ok = (\<lambda>_ _. True), wa_WSASocket = (\<lambda>calls. of_nat (length calls)),
     wa_getpeername = (\<lambda>_ _. Some \<lparr>sin_family = 2, sin_port = 1, sin_addr = 1\<rparr>), wa_AcceptEx = (\<lambda>_ _ _. None)\<rparr>"

definition demo_net :: "(byte list, unit) net" where
  "demo_net = net_new (world_new (Service_new ServerType True 2) ())"

definition demo_address :: net_address where
  "demo_address = NetAddress_sock \<lparr>sin_family = 2, sin_port = 24862, sin_addr = 16777343\<rparr>"

lemma calm_attempt:
  "accept_attempt calm_api k n = Some (w_next (nt_world n), False,
     snd (snd (the (accept_attempt calm_api k n))))"
  by (simp add: accept_attempt_def make_session_def CreateSession_def CreateSocket_def IocpCore_Register_def os_try_def
      calm_api_def Let_def)

lemma calm_register: "RegisterAccept calm_api k n = Some (Inr (snd (snd (the (accept_attempt calm_api k n)))))"
  by (subst RegisterAccept.simps, subst calm_attempt) simp

lemma calm_loop: "\<exists>n'. accept_loop calm_api c n = Some (Inr n')"
  by (induction c arbitrary: n) (simp_all add: calm_register Let_def)

lemma calm_start: "\<exists>n'. StartAccept calm_api demo_address True demo_net = Some (Inr (True, n'))"
proof -
  obtain n' where "accept_loop calm_api 2 (listening calm_api demo_address demo_net) = Some (Inr n')"
    using calm_loop by blast
  then show ?thesis
    by (simp add: StartAccept_def CreateSocket_def socket_call_defs guard_call_def os_try_def listening_def listen_calls_def Let_def
        demo_net_def net_new_def world_new_def Service_new_def calm_api_def INVALID_SOCKET_def)
qed

theorem start_accept_ready_witness:
  "\<exists>n'. StartAccept calm_api demo_address True demo_net = Some (Inr (True, n')) \<and> accept_inv n' \<and>
    length (li_acceptEvents (nt_listener n')) = 2"
proof -
  obtain n' where n': "StartAccept calm_api demo_address True demo_net = Some (Inr (True, n'))" using calm_start by blast
  have "li_acceptEvents (nt_listener demo_net) = []" "world_ok (nt_world demo_net)"
      "sv_maxSessionCount (w_service (nt_world demo_net)) = 2"
    by (simp_all add: demo_net_def net_new_def Listener_new_def world_ok_def world_new_def Service_new_def)
  then show ?thesis using start_accept_ready [OF n'] n' by auto
qed

text \<open>C28: Handling an accepted connection keeps the accept events: there are as many as before, each with its own
  unconnected session outside the service. The service gains at most the session of the event, and every
  other waiting session still waits.\<close>

theorem accept_keeps_events:
  assumes inv: "accept_inv n" and k: "k < length (li_acceptEvents (nt_listener n))"
    and conn: "calm_callback OnConnected" and ret: "ProcessAccept api ws OnConnected k n = Some (Inr n')"
  shows "accept_inv n' \<and> length (li_acceptEvents (nt_listener n')) = length (li_acceptEvents (nt_listener n)) \<and>
    (\<exists>i. ae_session (li_acceptEvents (nt_listener n) ! k) = Some i \<and>
      sv_sessions (w_service (nt_world n')) \<in> {sv_sessions (w_service (nt_world n)), insert i (sv_sessions (w_service (nt_world n)))})"
proof -
  let ?es = "li_acceptEvents (nt_listener n)" and ?A = "{..<length (li_acceptEvents (nt_listener n))} - {k}"
  obtain i where i: "ae_session (?es ! k) = Some i" "waiting (nt_world n) i" "ae_owner (?es ! k)"
    using inv k unfolding accept_inv_def events_ok_def by blast
  have A: "insert k ?A = {..<length ?es}" using k by auto
  have again: "accept_inv m' \<and> length (li_acceptEvents (nt_listener m')) = length ?es \<and> w_service (nt_world m') = w_service (nt_world m)"
    if m: "RegisterAccept api k m = Some (Inr m')" "nt_listener m = nt_listener n" "events_ok ?A m" "world_ok (nt_world m)" for m m'
    using RegisterAccept_ok [OF m(1) _ _ _ m(3,4)] m(2) k i(3) unfolding A by (simp add: accept_inv_def accept_frame_def)
  have old: "events_ok ?A m" if "nt_listener m = nt_listener n" "\<And>j. waiting (nt_world n) j \<Longrightarrow> j \<noteq> i \<Longrightarrow> waiting (nt_world m) j" for m
    using inv i(1) that unfolding accept_inv_def events_ok_def inj_on_def by (metis (no_types, lifting) DiffE insertI1 k lessThan_iff)
  have wk: "world_ok (nt_world n)" using inv by (simp add: accept_inv_def)
  have rejected: ?thesis if r: "reject api k i m = Some (Inr n')" "nt_listener m = nt_listener n" "nt_world m = nt_world n" for m
  proof -
    obtain m' where m': "RegisterAccept api k m = Some (Inr m')" "n' = Session_destroy i m'"
      using r(1) by (auto simp: reject_def bind_eq_Some_conv bindR_Inr_iff)
    have "accept_inv m' \<and> length (li_acceptEvents (nt_listener m')) = length ?es \<and> w_service (nt_world m') = w_service (nt_world m)"
      using again [OF m'(1) r(2) old [OF r(2)]] r(3) wk by simp
    then show ?thesis using i(1) r(3) by (simp add: m'(2) accept_inv_destroy)
  qed
  have connected: ?thesis
    if c: "ProcessConnect ws OnConnected i Session_new_recv (nt_world n) = Inr (r', w)" "RegisterAccept api k m = Some (Inr n')"
      "nt_listener m = nt_listener n" "nt_world m = w" for m w r'
  proof -
    note fr = ProcessConnect_frame [OF c(1) conn]
    have "events_ok ?A m" by (rule old [OF c(3)]) (use waiting_connect [OF c(1) conn] c(4) in auto)
    moreover have "world_ok (nt_world m)" using wk i(2) fr(1,2) c(4) by (auto simp: world_ok_def waiting_def)
    ultimately show ?thesis using again [OF c(2,3)] i(1) fr(2) c(4) by auto
  qed
  from ProcessAccept_cases [OF ret i(1)] show ?thesis using rejected connected by cases blast+
qed

definition no_callback :: "(byte list, unit) callback" where
  "no_callback = (\<lambda>_ w. Inr w)"

theorem accept_keeps_events_witness:
  "\<exists>n n'. accept_inv n \<and> ProcessAccept calm_api quiet_winsock no_callback 0 n = Some (Inr n') \<and> accept_inv n'"
proof -
  obtain n where n: "StartAccept calm_api demo_address True demo_net = Some (Inr (True, n))" using calm_start by blast
  have d: "li_acceptEvents (nt_listener demo_net) = []" "world_ok (nt_world demo_net)"
      "sv_maxSessionCount (w_service (nt_world demo_net)) = 2"
    by (simp_all add: demo_net_def net_new_def Listener_new_def world_ok_def world_new_def Service_new_def)
  have "accept_inv n \<and> length (li_acceptEvents (nt_listener n)) = 2"
    using StartAccept_cases [OF n] accept_loop_ok [of calm_api 2 "listening calm_api demo_address demo_net" n] d
    by (auto simp: accept_inv_def events_ok_def listening_def Let_def)
  then have inv: "accept_inv n" "0 < length (li_acceptEvents (nt_listener n))" by simp_all
  then obtain i where i: "ae_session (li_acceptEvents (nt_listener n) ! 0) = Some i" "waiting (nt_world n) i"
    unfolding accept_inv_def events_ok_def by blast
  have "\<exists>n'. ProcessAccept calm_api quiet_winsock no_callback 0 n = Some (Inr n')"
    using i by (auto simp: ProcessAccept_def SetUpdateAcceptSocket_def SetSockOpt_def os_try_def waiting_def Let_def
        ProcessConnect_def on_session_def no_callback_def RegisterRecv_world_def AddSession_def calm_register
        split: option.splits prod.splits)
       (auto simp: calm_api_def)
  moreover have "calm_callback no_callback" by (simp add: calm_callback_def no_callback_def calm_world_refl)
  ultimately show ?thesis using accept_keeps_events [OF inv] inv by blast
qed

end
