(* ===== verification/Threads.thy ===== *)
theory Threads
  imports JobQueue Listener
begin

text \<open>
  Threads and the life of the process: \<open>ServerCore/ThreadManager.cpp\<close>, \<open>CoreGlobal.cpp\<close>, the handles of
  the connection pool, and the worker loop of \<open>Server/Server.cpp\<close>. A thread takes its number when it
  starts to run, so that the numbers depend on the order in which the operating system starts threads.
\<close>

section \<open>Thread numbers\<close>

datatype thread_state = Ready | Running int | Finished int

record thread_manager =
  tm_SThreadId :: u32
  tm_main :: int
  tm_threads :: "thread_state list"

text \<open>\<open>fetch_add\<close> on the static counter; the old value becomes the thread-local \<open>LThreadId\<close>.\<close>

definition InitTLS :: "u32 \<Rightarrow> int \<times> u32" where
  "InitTLS SThreadId = (sint SThreadId, SThreadId + 1)"

definition ThreadManager_new :: thread_manager where
  "ThreadManager_new = (case InitTLS 1 of (LThreadId, SThreadId) \<Rightarrow>
     \<lparr>tm_SThreadId = SThreadId, tm_main = LThreadId, tm_threads = []\<rparr>)"

definition Launch :: "thread_manager \<Rightarrow> thread_manager" where
  "Launch m = m\<lparr>tm_threads := tm_threads m @ [Ready]\<rparr>"

text \<open>The loop of the server's \<open>main\<close> that launches ten workers.\<close>

fun launch_workers :: "nat \<Rightarrow> thread_manager \<Rightarrow> thread_manager" where
  "launch_workers 0 m = m"
| "launch_workers (Suc n) m = launch_workers n (Launch m)"

text \<open>The new thread begins to run, and returns from its callback.\<close>

definition thread_start :: "nat \<Rightarrow> thread_manager \<Rightarrow> thread_manager" where
  "thread_start j m = (case InitTLS (tm_SThreadId m) of (LThreadId, SThreadId) \<Rightarrow>
     m\<lparr>tm_SThreadId := SThreadId, tm_threads := (tm_threads m)[j := Running LThreadId]\<rparr>)"

definition thread_end :: "nat \<Rightarrow> int \<Rightarrow> thread_manager \<Rightarrow> thread_manager" where
  "thread_end j i m = m\<lparr>tm_threads := (tm_threads m)[j := Finished i]\<rparr>"

text \<open>\<open>Join\<close> waits for every thread; \<open>None\<close> while it still waits.\<close>

definition Join :: "thread_manager \<Rightarrow> thread_manager option" where
  "Join m = (if \<forall>t \<in> set (tm_threads m). \<exists>i. t = Finished i then Some (m\<lparr>tm_threads := []\<rparr>) else None)"

inductive tm_step :: "thread_manager \<Rightarrow> thread_manager \<Rightarrow> bool" where
  launch: "tm_step m (Launch m)"
| start: "j < length (tm_threads m) \<Longrightarrow> tm_threads m ! j = Ready \<Longrightarrow> tm_step m (thread_start j m)"
| finish: "j < length (tm_threads m) \<Longrightarrow> tm_threads m ! j = Running i \<Longrightarrow> tm_step m (thread_end j i m)"

fun thread_id :: "thread_state \<Rightarrow> int option" where
  "thread_id Ready = None"
| "thread_id (Running i) = Some i"
| "thread_id (Finished i) = Some i"

definition started :: "thread_manager \<Rightarrow> nat set" where
  "started m = {j. j < length (tm_threads m) \<and> tm_threads m ! j \<noteq> Ready}"

text \<open>The numbers given out so far are 1 to \<open>card (started m) + 1\<close>, each to one thread.\<close>

definition tm_inv :: "thread_manager \<Rightarrow> bool" where
  "tm_inv m \<longleftrightarrow> tm_main m = 1 \<and> tm_SThreadId m = of_nat (card (started m) + 2) \<and>
     (card (started m) + 2 < 2 ^ 31 \<longrightarrow>
        (\<forall>j \<in> started m. \<exists>i. thread_id (tm_threads m ! j) = Some i \<and> 2 \<le> i \<and> i \<le> int (card (started m)) + 1) \<and>
        inj_on (\<lambda>j. thread_id (tm_threads m ! j)) (started m))"

lemma finite_started [simp]: "finite (started m)"
  by (simp add: started_def)

lemma started_launch: "started (Launch m) = started m"
  by (auto simp: started_def Launch_def nth_append less_Suc_eq)

lemma started_start:
  "j < length (tm_threads m) \<Longrightarrow> started (thread_start j m) = insert j (started m)"
  by (auto simp: started_def thread_start_def InitTLS_def nth_list_update split: if_splits)

lemma started_end:
  "tm_threads m ! j = Running i \<Longrightarrow> started (thread_end j i m) = started m"
proof -
  assume r: "tm_threads m ! j = Running i"
  have "tm_threads (thread_end j i m) ! k = Ready \<longleftrightarrow> tm_threads m ! k = Ready" if "k < length (tm_threads m)" for k
    using r that by (cases "k = j") (simp_all add: thread_end_def)
  then show ?thesis by (auto simp: started_def thread_end_def)
qed

lemma sint_small:
  assumes "n < 2 ^ 31"
  shows "sint (of_nat n :: u32) = int n"
proof -
  have "n < 2 ^ 32" using assms by simp
  then have "uint (of_nat n :: u32) = int n" by (simp add: unsigned_of_nat take_bit_nat_eq_self)
  then show ?thesis using assms by (simp add: sint_uint signed_take_bit_int_eq_self)
qed

lemma tm_inv_start:
  assumes "tm_inv m" "j < length (tm_threads m)" "tm_threads m ! j = Ready"
  shows "tm_inv (thread_start j m)"
proof -
  let ?c = "card (started m)" and ?m = "thread_start j m"
  have j: "j \<notin> started m" using assms(3) by (simp add: started_def)
  have st: "started ?m = insert j (started m)" "card (started ?m) = ?c + 1"
    using started_start [OF assms(2)] j by simp_all
  have nth: "tm_threads ?m ! k = tm_threads m ! k" if "k \<in> started m" for k
  proof -
    have "k \<noteq> j" using that j by blast
    then show ?thesis by (simp add: thread_start_def InitTLS_def)
  qed
  have "thread_id (tm_threads ?m ! j) = Some (int ?c + 2)" if "?c + 2 < 2 ^ 31"
    using assms(1,2) that sint_small [of "?c + 2"] by (simp add: thread_start_def InitTLS_def tm_inv_def)
  moreover have "tm_SThreadId ?m = of_nat (?c + 3)" using assms(1) by (simp add: thread_start_def InitTLS_def tm_inv_def)
  moreover have "inj_on (\<lambda>k. thread_id (tm_threads ?m ! k)) (started m)" if "?c + 2 < 2 ^ 31"
    using assms(1) that nth by (subst inj_on_cong [of _ _ "\<lambda>k. thread_id (tm_threads m ! k)"]) (auto simp: tm_inv_def)
  moreover have "\<forall>k \<in> started m. \<exists>i. thread_id (tm_threads ?m ! k) = Some i \<and> 2 \<le> i \<and> i \<le> int ?c + 1" if "?c + 2 < 2 ^ 31"
    using assms(1) that nth by (simp add: tm_inv_def)
  moreover have "tm_main ?m = 1" using assms(1) by (simp add: thread_start_def InitTLS_def tm_inv_def)
  ultimately show ?thesis
    unfolding tm_inv_def st by (fastforce simp: inj_on_insert j)
qed

lemma tm_inv_step: "tm_step m m' \<Longrightarrow> tm_inv m \<Longrightarrow> tm_inv m'"
proof (induction rule: tm_step.induct)
  case (launch m)
  have "tm_threads (Launch m) ! k = tm_threads m ! k" if "k \<in> started m" for k
    using that by (simp add: Launch_def started_def nth_append)
  then have "(\<lambda>k. thread_id (tm_threads (Launch m) ! k)) k = (\<lambda>k. thread_id (tm_threads m ! k)) k" if "k \<in> started m" for k
    using that by simp
  then have "inj_on (\<lambda>k. thread_id (tm_threads (Launch m) ! k)) (started m) = inj_on (\<lambda>k. thread_id (tm_threads m ! k)) (started m)"
    by (rule inj_on_cong)
  then show ?case
    using launch \<open>\<And>k. k \<in> started m \<Longrightarrow> tm_threads (Launch m) ! k = tm_threads m ! k\<close>
    unfolding tm_inv_def started_launch by (simp add: Launch_def)
next
  case (start j m)
  then show ?case by (rule tm_inv_start [rotated])
next
  case (finish j m i)
  have id: "thread_id (tm_threads (thread_end j i m) ! k) = thread_id (tm_threads m ! k)" for k
    using finish.hyps by (cases "k = j") (simp_all add: thread_end_def)
  show ?case
    using finish unfolding tm_inv_def started_end [OF finish.hyps(2)] id by (simp add: thread_end_def)
qed

lemma tm_inv_reachable: "tm_step\<^sup>*\<^sup>* ThreadManager_new m \<Longrightarrow> tm_inv m"
proof (induction rule: rtranclp_induct)
  case base
  show ?case by (simp add: tm_inv_def ThreadManager_new_def InitTLS_def started_def)
next
  case (step y z)
  then show ?case using tm_inv_step by blast
qed

text \<open>C29: Thread numbers, which the locks use as identities. Under any order in which threads are launched, begin
  to run and end, the main thread has number 1 and every other thread that runs or ran has a number of
  its own, between 2 and the number of launched threads plus 1.\<close>

theorem thread_ids_distinct:
  assumes "tm_step\<^sup>*\<^sup>* ThreadManager_new m" "length (tm_threads m) + 2 < 2 ^ 31"
    and "j < length (tm_threads m)" "thread_id (tm_threads m ! j) = Some i"
  shows "tm_main m = 1 \<and> 2 \<le> i \<and> i \<le> int (length (tm_threads m)) + 1 \<and>
    (\<forall>k < length (tm_threads m). thread_id (tm_threads m ! k) = Some i \<longrightarrow> k = j)"
proof -
  have inv: "tm_inv m" by (rule tm_inv_reachable [OF assms(1)])
  have "started m \<subseteq> {..<length (tm_threads m)}" by (auto simp: started_def)
  then have c: "card (started m) \<le> length (tm_threads m)" using card_mono [of "{..<length (tm_threads m)}"] by simp
  have in_started: "k \<in> started m" if "k < length (tm_threads m)" "thread_id (tm_threads m ! k) = Some i" for k
    using that by (auto simp: started_def)
  have ids: "\<forall>j \<in> started m. \<exists>i. thread_id (tm_threads m ! j) = Some i \<and> 2 \<le> i \<and> i \<le> int (card (started m)) + 1"
      "inj_on (\<lambda>j. thread_id (tm_threads m ! j)) (started m)" "tm_main m = 1"
    using inv assms(2) c by (simp_all add: tm_inv_def)
  obtain i' where i': "thread_id (tm_threads m ! j) = Some i'" "2 \<le> i'" "i' \<le> int (card (started m)) + 1"
    using ids(1) in_started [OF assms(3,4)] by blast
  have "k = j" if k: "k < length (tm_threads m)" "thread_id (tm_threads m ! k) = Some i" for k
    using inj_onD [OF ids(2), of k j] in_started k assms(3,4) by simp
  then show ?thesis using i' ids(3) assms(4) c by auto
qed

theorem thread_ids_distinct_witness:
  "let m = thread_start 0 (thread_start 1 (Launch (Launch ThreadManager_new))) in
   tm_threads m = [Running 3, Running 2] \<and> tm_main m = 1"
proof -
  let ?launched = "Launch (Launch ThreadManager_new)"
  let ?m = "thread_start 0 (thread_start 1 ?launched)"
  have m: "tm_threads ?m = [Running 3, Running 2]"
    by (simp add: thread_start_def InitTLS_def Launch_def ThreadManager_new_def)
  have 1: "tm_step ThreadManager_new (Launch ThreadManager_new)" "tm_step (Launch ThreadManager_new) ?launched"
    by (rule tm_step.launch)+
  have 2: "tm_step ?launched (thread_start 1 ?launched)" by (rule tm_step.start) (simp_all add: Launch_def ThreadManager_new_def InitTLS_def)
  have 3: "tm_step (thread_start 1 ?launched) ?m"
    by (rule tm_step.start) (simp_all add: Launch_def ThreadManager_new_def InitTLS_def thread_start_def)
  have "tm_step\<^sup>*\<^sup>* ThreadManager_new ?m"
    using 1 2 3 by (meson converse_rtranclp_into_rtranclp rtranclp.rtrancl_refl)
  from thread_ids_distinct [OF this, of 0 3] have "tm_main ?m = 1" unfolding m by simp
  then show ?thesis unfolding Let_def m by blast
qed

section \<open>Worker threads\<close>

definition WORKER_TICK :: u64 where "WORKER_TICK = 64"

text \<open>
  One turn of a worker. A completion is what \<open>GetQueuedCompletionStatus\<close> answers: whether it succeeded, the
  error, and the event with its owner.
\<close>

type_synonym 'o completion = "bool \<times> int \<times> 'o option option"

definition worker_turn ::
  "(nat \<Rightarrow> u64) \<Rightarrow> ('f \<Rightarrow> ('f, 'c) jobs \<Rightarrow> ('f, 'c) jobs res) \<Rightarrow> ('o \<Rightarrow> ('f, 'c) jobs \<Rightarrow> ('f, 'c) jobs res option) \<Rightarrow>
     'o completion \<Rightarrow> ('f, 'c) jobs \<Rightarrow> ('f, 'c) jobs res option" where
  "worker_turn clock run dispatch completion w =
     (case GetTickCount64 clock w of (now, w1) \<Rightarrow>
      case completion of (ok, err, ev) \<Rightarrow>
      case IocpCore_Dispatch ok err ev dispatch (w1\<lparr>js_endTick := now + WORKER_TICK\<rparr>) of
        None \<Rightarrow> None
      | Some (Inl f) \<Rightarrow> Some (Inl f)
      | Some (Inr (_, w2)) \<Rightarrow> ExcuteGlobalJobs clock run w2)"

text \<open>\<open>WorkerThread\<close> for a sequence of completions; it leaves its loop when the service no longer runs.\<close>

fun WorkerThread ::
  "(nat \<Rightarrow> u64) \<Rightarrow> ('f \<Rightarrow> ('f, 'c) jobs \<Rightarrow> ('f, 'c) jobs res) \<Rightarrow> ('c \<Rightarrow> bool) \<Rightarrow>
     ('o \<Rightarrow> ('f, 'c) jobs \<Rightarrow> ('f, 'c) jobs res option) \<Rightarrow> 'o completion list \<Rightarrow> ('f, 'c) jobs \<Rightarrow> ('f, 'c) jobs res option" where
  "WorkerThread clock run isRunning dispatch [] w = Some (Inr w)"
| "WorkerThread clock run isRunning dispatch (c # cs) w =
     (if \<not> isRunning (js_content w) then Some (Inr w)
      else case worker_turn clock run dispatch c w of
        None \<Rightarrow> None
      | Some (Inl f) \<Rightarrow> Some (Inl f)
      | Some (Inr w') \<Rightarrow> WorkerThread clock run isRunning dispatch cs w')"

definition leftovers_only :: "('f, 'c) jobs \<Rightarrow> bool" where
  "leftovers_only w \<longleftrightarrow> (\<forall>q \<in> set (lq_items (js_global w)). q \<noteq> 0 \<and> js_queues w q = Some JobQueue_new)"

lemma idle_turn:
  assumes "leftovers_only w"
  shows "\<exists>w' n. worker_turn clock run dispatch (False, WAIT_TIMEOUT, ev) w = Some (Inr w') \<and> js_content w' = js_content w \<and>
    leftovers_only w' \<and> lq_items (js_global w') = drop n (lq_items (js_global w)) \<and> (lq_items (js_global w) \<noteq> [] \<longrightarrow> 0 < n)"
proof -
  let ?w = "w\<lparr>js_time := js_time w + 1, js_endTick := clock (js_time w) + WORKER_TICK\<rparr>"
  obtain w' n where "ExcuteGlobalJobs clock run ?w = Some (Inr w')" "js_content w' = js_content w" "js_queues w' = js_queues w"
      "lq_items (js_global w') = drop n (lq_items (js_global w))" "lq_items (js_global w) \<noteq> [] \<longrightarrow> 0 < n"
    using leftovers_drained [of ?w clock run] assms by (auto simp: leftovers_only_def)
  then show ?thesis
    using assms set_drop_subset [of n "lq_items (js_global w)"]
    by (intro exI [of _ w'] exI [of _ n])
      (auto simp: worker_turn_def GetTickCount64_def IocpCore_Dispatch_def Let_def leftovers_only_def)
qed

lemma idle_worker:
  "leftovers_only w \<Longrightarrow> isRunning (js_content w) \<Longrightarrow> length (lq_items (js_global w)) \<le> n \<Longrightarrow>
    \<exists>w'. WorkerThread clock run isRunning dispatch (replicate n (False, WAIT_TIMEOUT, ev)) w = Some (Inr w') \<and>
      js_content w' = js_content w \<and> lq_items (js_global w') = []"
proof (induction n arbitrary: w)
  case (Suc n)
  obtain w1 k where 1: "worker_turn clock run dispatch (False, WAIT_TIMEOUT, ev) w = Some (Inr w1)" "js_content w1 = js_content w"
      "leftovers_only w1" "lq_items (js_global w1) = drop k (lq_items (js_global w))" "lq_items (js_global w) \<noteq> [] \<longrightarrow> 0 < k"
    using idle_turn [OF Suc.prems(1)] by blast
  have "length (lq_items (js_global w1)) \<le> n" using 1(4,5) Suc.prems(3) by (cases "lq_items (js_global w)") auto
  then show ?case using Suc.IH [OF 1(3)] 1(1,2) Suc.prems(2) by auto
qed simp

text \<open>C30: A worker to which the completion port answers only timeouts keeps running and clears the global list: after
  as many turns as the list has entries the list is empty, and nothing else has happened.\<close>

theorem idle_worker_drains:
  assumes "leftovers_only w" "isRunning (js_content w)" "length (lq_items (js_global w)) \<le> n"
  shows "\<exists>w'. WorkerThread clock run isRunning dispatch (replicate n (False, WAIT_TIMEOUT, ev)) w = Some (Inr w') \<and>
    js_content w' = js_content w \<and> lq_items (js_global w') = []"
  using assms by (rule idle_worker)

theorem idle_worker_drains_witness:
  "\<exists>w'. WorkerThread (\<lambda>_. 5) (\<lambda>(f :: nat) w. Inr w) (\<lambda>_. True) (\<lambda>(_ :: nat) w. Some (Inr w))
      (replicate 1 (False, WAIT_TIMEOUT, None)) ((jobs_start (4 :: nat))\<lparr>js_global := \<lparr>lq_items = [2]\<rparr>, js_queues := [2 \<mapsto> JobQueue_new]\<rparr>)
    = Some (Inr w') \<and> js_content w' = 4 \<and> lq_items (js_global w') = []"
  using idle_worker_drains [of "(jobs_start (4 :: nat))\<lparr>js_global := \<lparr>lq_items = [2]\<rparr>, js_queues := [2 \<mapsto> JobQueue_new]\<rparr>"
      "\<lambda>_. True" 1 "\<lambda>_. 5" "\<lambda>(f :: nat) w. Inr w" "\<lambda>(_ :: nat) w. Some (Inr w)" None]
  by (simp add: leftovers_only_def jobs_start_def del: WorkerThread.simps)

section \<open>The process\<close>

text \<open>The handles of the connection pool. \<open>DBConnection\<close> has no destructor, so that deleting it frees nothing.\<close>

record db_handles =
  dh_connection :: "nat option"
  dh_statement :: "nat option"

definition DBConnection_Clear :: "db_handles \<Rightarrow> nat list \<Rightarrow> db_handles \<times> nat list" where
  "DBConnection_Clear h freed =
     (\<lparr>dh_connection = None, dh_statement = None\<rparr>,
      freed @ (case dh_connection h of None \<Rightarrow> [] | Some c \<Rightarrow> [c]) @ (case dh_statement h of None \<Rightarrow> [] | Some s \<Rightarrow> [s]))"

record pool_handles =
  ph_environment :: "nat option"
  ph_connections :: "db_handles list"

definition DBConnectionPool_Clear :: "pool_handles \<Rightarrow> nat list \<Rightarrow> pool_handles \<times> nat list" where
  "DBConnectionPool_Clear p freed =
     (\<lparr>ph_environment = None, ph_connections = []\<rparr>, freed @ (case ph_environment p of None \<Rightarrow> [] | Some e \<Rightarrow> [e]))"

record core_global =
  cg_GThreadManager :: thread_manager
  cg_GDBConnectionPool :: pool_handles
  cg_sockets :: socket_utils
  cg_calls :: "os_call list"
  cg_freed :: "nat list"

definition CoreGlobal_new :: "winsock_api \<Rightarrow> os_call list \<Rightarrow> core_global res" where
  "CoreGlobal_new api calls =
     bindR (SocketUtils_Init api calls) (\<lambda>(sockets, calls).
       Inr \<lparr>cg_GThreadManager = ThreadManager_new, cg_GDBConnectionPool = \<lparr>ph_environment = None, ph_connections = []\<rparr>,
         cg_sockets = sockets, cg_calls = calls, cg_freed = []\<rparr>)"

text \<open>The destructor waits in \<open>Join\<close> until every thread has ended.\<close>

definition CoreGlobal_destroy :: "core_global \<Rightarrow> core_global option" where
  "CoreGlobal_destroy g =
     (case Join (cg_GThreadManager g) of
        None \<Rightarrow> None
      | Some threads \<Rightarrow>
          (case DBConnectionPool_Clear (cg_GDBConnectionPool g) (cg_freed g) of (pool, freed) \<Rightarrow>
             Some (g\<lparr>cg_GThreadManager := threads, cg_GDBConnectionPool := pool, cg_freed := freed,
               cg_calls := SocketUtils_Clear (cg_calls g)\<rparr>)))"

text \<open>\<open>OnClose\<close> of the server and \<open>ExitInstance\<close> of the client.\<close>

definition OnClose :: "service \<Rightarrow> core_global \<Rightarrow> service \<times> core_global option" where
  "OnClose service g =
     (CloseService service,
      case Join (cg_GThreadManager g) of
        None \<Rightarrow> None
      | Some threads \<Rightarrow> CoreGlobal_destroy (g\<lparr>cg_GThreadManager := threads\<rparr>))"

end
