(* ===== verification/Session_Manager.thy ===== *)
theory Session_Manager
  imports Service
begin

text \<open>
  The session manager of the server (\<open>Server/ClientSessionManager.cpp\<close>): a locked set of sessions. Every method takes
  the lock for its whole body. The set is ordered by addresses; the model orders it by session number.
\<close>

record session_manager =
  gm_sessions :: "sid set"

definition ClientSessionManager_new :: session_manager where
  "ClientSessionManager_new = \<lparr>gm_sessions = {}\<rparr>"

definition ClientSessionManager_Add :: "sid \<Rightarrow> session_manager \<Rightarrow> session_manager" where
  "ClientSessionManager_Add i m = m\<lparr>gm_sessions := insert i (gm_sessions m)\<rparr>"

definition ClientSessionManager_Remove :: "sid \<Rightarrow> session_manager \<Rightarrow> session_manager" where
  "ClientSessionManager_Remove i m = m\<lparr>gm_sessions := gm_sessions m - {i}\<rparr>"

definition ClientSessionManager_Broadcast ::
  "'p winsock \<Rightarrow> 'p \<Rightarrow> session_manager \<Rightarrow> ('p, 'c) world \<Rightarrow> ('p, 'c) world res" where
  "ClientSessionManager_Broadcast ws sendBuffer m w = send_each ws sendBuffer (sorted_list_of_set (gm_sessions m)) w"

text \<open>Sending to distinct sessions reaches each of them once and no other.\<close>

lemma send_each_sessions:
  assumes "distinct is" "\<forall>i \<in> set is. w_sessions w i \<noteq> None"
  shows "send_each ws p is w =
    Inr (w\<lparr>w_sessions := \<lambda>i. if i \<in> set is then map_option (Session_Send ws p) (w_sessions w i) else w_sessions w i\<rparr>)"
  using assms
proof (induction "is" arbitrary: w)
  case (Cons j js)
  then obtain s where s: "w_sessions w j = Some s" by auto
  let ?w = "w\<lparr>w_sessions := (w_sessions w)(j \<mapsto> Session_Send ws p s)\<rparr>"
  have "send_each ws p js ?w =
    Inr (?w\<lparr>w_sessions := \<lambda>i. if i \<in> set js then map_option (Session_Send ws p) (w_sessions ?w i) else w_sessions ?w i\<rparr>)"
    using Cons by (intro Cons.IH) auto
  moreover have "(\<lambda>i. if i \<in> set js then map_option (Session_Send ws p) (w_sessions ?w i) else w_sessions ?w i) =
    (\<lambda>i. if i \<in> set (j # js) then map_option (Session_Send ws p) (w_sessions w i) else w_sessions w i)"
    using Cons.prems(1) s by (auto simp: fun_eq_iff)
  ultimately show ?case using s by (simp add: on_session_def)
qed simp

lemma Broadcast_reaches_all:
  assumes "finite (gm_sessions m)" "\<forall>i \<in> gm_sessions m. w_sessions w i \<noteq> None"
  shows "ClientSessionManager_Broadcast ws p m w =
    Inr (w\<lparr>w_sessions := \<lambda>i. if i \<in> gm_sessions m then map_option (Session_Send ws p) (w_sessions w i) else w_sessions w i\<rparr>)"
  using assms by (simp add: ClientSessionManager_Broadcast_def send_each_sessions)

end
