(* ===== verification/SendBuffer.thy ===== *)
theory SendBuffer
  imports Framing
begin

text \<open>
  The send side's memory (\<open>ServerCore/SendBuffer.h\<close>, \<open>ServerCore/SendBuffer.cpp\<close>): chunks of 6000
  bytes, each handing out consecutive regions as \<open>SendBuffer\<close>s; one current chunk per thread
  (\<open>LSendBufferChunk\<close>); and the manager's pool, to which a chunk returns when its last
  \<open>shared_ptr\<close> is released (the deleter \<open>PushGlobal\<close>). References are made explicit: a chunk is
  alive as long as a thread's current chunk or a live send buffer names it. The theory shows
  that opening, filling and closing a new buffer never changes the bytes of another live
  buffer, however chunks are recycled.
\<close>

section \<open>Chunks and buffers\<close>

type_synonym chunk_id = nat
type_synonym thread_id = nat

definition SEND_BUFFER_CHUNK_SIZE :: u32 where
  "SEND_BUFFER_CHUNK_SIZE = 6000"

record send_chunk =
  ck_buffer :: "byte list"
  ck_open :: bool
  ck_usedSize :: u32

record send_buffer =
  sb_owner :: chunk_id
  sb_offset :: nat
  sb_allocSize :: u32
  sb_writeSize :: u32

definition SendBufferChunk_new :: send_chunk where
  "SendBufferChunk_new =
     \<lparr>ck_buffer = replicate (unat SEND_BUFFER_CHUNK_SIZE) 0, ck_open = False, ck_usedSize = 0\<rparr>"

definition SendBufferChunk_Reset :: "send_chunk \<Rightarrow> send_chunk" where
  "SendBufferChunk_Reset k = k\<lparr>ck_open := False, ck_usedSize := 0\<rparr>"

definition SendBufferChunk_FreeSize :: "send_chunk \<Rightarrow> u32" where
  "SendBufferChunk_FreeSize k = of_nat (length (ck_buffer k)) - ck_usedSize k"

definition SendBuffer_new :: "chunk_id \<Rightarrow> nat \<Rightarrow> u32 \<Rightarrow> send_buffer" where
  "SendBuffer_new owner buffer allocSize =
     \<lparr>sb_owner = owner, sb_offset = buffer, sb_allocSize = allocSize, sb_writeSize = 0\<rparr>"

definition SendBufferChunk_Open ::
  "chunk_id \<Rightarrow> u32 \<Rightarrow> send_chunk \<Rightarrow> (send_buffer option \<times> send_chunk) res" where
  "SendBufferChunk_Open this allocSize k =
     ASSERT_CRASH (allocSize \<le> SEND_BUFFER_CHUNK_SIZE)
       (ASSERT_CRASH (ck_open k = False)
         (if allocSize > SendBufferChunk_FreeSize k then Inr (None, k)
          else Inr (Some (SendBuffer_new this (unat (ck_usedSize k)) allocSize),
                    k\<lparr>ck_open := True\<rparr>)))"

definition SendBufferChunk_Close :: "u32 \<Rightarrow> send_chunk \<Rightarrow> send_chunk res" where
  "SendBufferChunk_Close writeSize k =
     ASSERT_CRASH (ck_open k = True)
       (Inr (k\<lparr>ck_open := False, ck_usedSize := ck_usedSize k + writeSize\<rparr>))"

section \<open>The manager\<close>

record send_mgr =
  sm_chunks :: "chunk_id \<Rightarrow> send_chunk option"
  sm_pool :: "chunk_id list"
  sm_tls :: "thread_id \<Rightarrow> chunk_id option"
  sm_live :: "send_buffer list"
  sm_next :: chunk_id

definition sm_empty :: send_mgr where
  "sm_empty = \<lparr>sm_chunks = Map.empty, sm_pool = [], sm_tls = (\<lambda>_. None), sm_live = [], sm_next = 0\<rparr>"

definition set_chunk :: "chunk_id \<Rightarrow> send_chunk \<Rightarrow> send_mgr \<Rightarrow> send_mgr" where
  "set_chunk c k m = m\<lparr>sm_chunks := (sm_chunks m)(c \<mapsto> k)\<rparr>"

lemma set_chunk_live: "set_chunk c k (m\<lparr>sm_live := l\<rparr>) = (set_chunk c k m)\<lparr>sm_live := l\<rparr>"
  by (cases m) (simp add: set_chunk_def)

lemma set_chunk_simps [simp]:
  "sm_chunks (set_chunk c k m) = (sm_chunks m)(c \<mapsto> k)"
  "sm_live (set_chunk c k m) = sm_live m"
  "sm_tls (set_chunk c k m) = sm_tls m"
  "sm_pool (set_chunk c k m) = sm_pool m"
  "sm_next (set_chunk c k m) = sm_next m"
  "set_chunk c k' (set_chunk c k m) = set_chunk c k' m"
  by (simp_all add: set_chunk_def)

definition with_chunk :: "chunk_id \<Rightarrow> (send_chunk \<Rightarrow> 'a res) \<Rightarrow> send_mgr \<Rightarrow> 'a res" where
  "with_chunk c f m = (case sm_chunks m c of None \<Rightarrow> Inl NullDeref | Some k \<Rightarrow> f k)"

definition SendBufferManager_Push :: "chunk_id \<Rightarrow> send_mgr \<Rightarrow> send_mgr" where
  "SendBufferManager_Push c m = m\<lparr>sm_pool := sm_pool m @ [c]\<rparr>"

definition SendBufferManager_PushGlobal :: "chunk_id \<Rightarrow> send_mgr \<Rightarrow> send_mgr" where
  "SendBufferManager_PushGlobal c m = SendBufferManager_Push c m"

definition SendBufferManager_Pop :: "send_mgr \<Rightarrow> chunk_id \<times> send_mgr" where
  "SendBufferManager_Pop m =
     (if sm_pool m \<noteq> [] then (last (sm_pool m), m\<lparr>sm_pool := butlast (sm_pool m)\<rparr>)
      else (sm_next m, set_chunk (sm_next m) SendBufferChunk_new (m\<lparr>sm_next := Suc (sm_next m)\<rparr>)))"

text \<open>
  Releasing one reference to a chunk: the deleter runs when neither a thread's current chunk nor
  a live send buffer names it any more.
\<close>

definition chunk_referenced :: "chunk_id \<Rightarrow> send_mgr \<Rightarrow> bool" where
  "chunk_referenced c m \<longleftrightarrow> (\<exists>t. sm_tls m t = Some c) \<or> (\<exists>sb \<in> set (sm_live m). sb_owner sb = c)"

definition release_chunk :: "chunk_id \<Rightarrow> send_mgr \<Rightarrow> send_mgr" where
  "release_chunk c m = (if chunk_referenced c m then m else SendBufferManager_PushGlobal c m)"

definition drop_send_buffer :: "send_buffer \<Rightarrow> send_mgr \<Rightarrow> send_mgr" where
  "drop_send_buffer sb m = release_chunk (sb_owner sb) (m\<lparr>sm_live := remove1 sb (sm_live m)\<rparr>)"

text \<open>\<open>LSendBufferChunk = Pop(); LSendBufferChunk->Reset();\<close> on thread \<open>t\<close>.\<close>

definition renew_tls :: "thread_id \<Rightarrow> send_mgr \<Rightarrow> send_mgr res" where
  "renew_tls t m =
     (let (c, m1) = SendBufferManager_Pop m;
          m2 = m1\<lparr>sm_tls := (sm_tls m1)(t \<mapsto> c)\<rparr>;
          m3 = (case sm_tls m t of None \<Rightarrow> m2 | Some old \<Rightarrow> release_chunk old m2)
      in with_chunk c (\<lambda>k. Inr (set_chunk c (SendBufferChunk_Reset k) m3)) m3)"

definition with_tls :: "thread_id \<Rightarrow> (chunk_id \<Rightarrow> send_chunk \<Rightarrow> 'a res) \<Rightarrow> send_mgr \<Rightarrow> 'a res" where
  "with_tls t f m = (case sm_tls m t of None \<Rightarrow> Inl NullDeref | Some c \<Rightarrow> with_chunk c (f c) m)"

definition SendBufferManager_Open ::
  "thread_id \<Rightarrow> u32 \<Rightarrow> send_mgr \<Rightarrow> (send_buffer option \<times> send_mgr) res" where
  "SendBufferManager_Open t sz m =
     bindR (if sm_tls m t = None then renew_tls t m else Inr m) (\<lambda>m1.
     with_tls t (\<lambda>_ k1. ASSERT_CRASH (ck_open k1 = False)
       (bindR (if SendBufferChunk_FreeSize k1 < sz then renew_tls t m1 else Inr m1) (\<lambda>m2.
        with_tls t (\<lambda>c k. bindR (SendBufferChunk_Open c sz k) (\<lambda>(sb, k').
          Inr (sb, set_chunk c k' (case sb of None \<Rightarrow> m2
                 | Some b \<Rightarrow> m2\<lparr>sm_live := sm_live m2 @ [b]\<rparr>)))) m2))) m1)"

text \<open>Writing through \<open>Buffer()\<close>: outside the chunk's array the write is out of bounds.\<close>

definition buffer_write :: "send_buffer \<Rightarrow> nat \<Rightarrow> byte list \<Rightarrow> send_mgr \<Rightarrow> send_mgr res" where
  "buffer_write sb i bs m =
     with_chunk (sb_owner sb) (\<lambda>k.
       if sb_offset sb + i + length bs \<le> length (ck_buffer k)
       then Inr (set_chunk (sb_owner sb) (k\<lparr>ck_buffer := overwrite (sb_offset sb + i) bs (ck_buffer k)\<rparr>) m)
       else Inl OutOfBounds) m"

text \<open>\<open>SendBuffer::Close\<close>: the buffer is updated in place, then its chunk is closed.\<close>

definition SendBuffer_Close :: "u32 \<Rightarrow> send_buffer \<Rightarrow> send_mgr \<Rightarrow> (send_buffer \<times> send_mgr) res" where
  "SendBuffer_Close writeSize sb m =
     ASSERT_CRASH (sb_allocSize sb \<ge> writeSize)
       (let sb' = sb\<lparr>sb_writeSize := writeSize\<rparr>;
            m1 = m\<lparr>sm_live := map (\<lambda>b. if b = sb then sb' else b) (sm_live m)\<rparr>
        in with_chunk (sb_owner sb) (\<lambda>k. bindR (SendBufferChunk_Close writeSize k)
             (\<lambda>k'. Inr (sb', set_chunk (sb_owner sb) k' m1))) m1)"

section \<open>Invariant between calls\<close>

definition sb_end :: "send_buffer \<Rightarrow> nat" where
  "sb_end sb = sb_offset sb + unat (sb_writeSize sb)"

definition sb_disjoint :: "send_buffer \<Rightarrow> send_buffer \<Rightarrow> bool" where
  "sb_disjoint a b \<longleftrightarrow>
     (sb_owner a = sb_owner b \<longrightarrow> sb_end a \<le> sb_offset b \<or> sb_end b \<le> sb_offset a)"

definition chunk_ok :: "send_mgr \<Rightarrow> chunk_id \<Rightarrow> send_chunk \<Rightarrow> bool" where
  "chunk_ok m c k \<longleftrightarrow>
     length (ck_buffer k) = 6000 \<and> \<not> ck_open k \<and> unat (ck_usedSize k) \<le> 6000 \<and> c < sm_next m"

definition live_ok :: "send_mgr \<Rightarrow> send_buffer \<Rightarrow> bool" where
  "live_ok m sb \<longleftrightarrow> sb_owner sb \<notin> set (sm_pool m) \<and> 0 < unat (sb_writeSize sb) \<and>
     (\<exists>k. sm_chunks m (sb_owner sb) = Some k \<and> sb_end sb \<le> unat (ck_usedSize k))"

definition sm_inv :: "send_mgr \<Rightarrow> bool" where
  [inv_defs]: "sm_inv m \<longleftrightarrow>
     (\<forall>c k. sm_chunks m c = Some k \<longrightarrow> chunk_ok m c k) \<and>
     distinct (sm_pool m) \<and> set (sm_pool m) \<subseteq> dom (sm_chunks m) \<and>
     (\<forall>t c. sm_tls m t = Some c \<longrightarrow> c \<in> dom (sm_chunks m) \<and> c \<notin> set (sm_pool m)) \<and>
     (\<forall>t t' c. sm_tls m t = Some c \<longrightarrow> sm_tls m t' = Some c \<longrightarrow> t = t') \<and>
     (\<forall>sb \<in> set (sm_live m). live_ok m sb) \<and>
     sorted_wrt sb_disjoint (sm_live m)"

definition sb_bytes :: "send_mgr \<Rightarrow> send_buffer \<Rightarrow> byte list" where
  "sb_bytes m sb = (case sm_chunks m (sb_owner sb) of None \<Rightarrow> []
     | Some k \<Rightarrow> bslice (sb_offset sb) (unat (sb_writeSize sb)) (ck_buffer k))"

lemma sm_inv_empty: "sm_inv sm_empty"
  by (simp add: sm_inv_def sm_empty_def)

lemma unat_chunk_size [simp]: "unat SEND_BUFFER_CHUNK_SIZE = 6000"
  by (simp add: SEND_BUFFER_CHUNK_SIZE_def)

text \<open>Releasing a reference and recycling never touch the memory of a chunk.\<close>

lemma release_chunk_simps [simp]:
  "sm_chunks (release_chunk c m) = sm_chunks m"
  "sm_tls (release_chunk c m) = sm_tls m"
  "sm_live (release_chunk c m) = sm_live m"
  "sm_next (release_chunk c m) = sm_next m"
  by (simp_all add: release_chunk_def SendBufferManager_PushGlobal_def SendBufferManager_Push_def)

lemma release_chunk_pool:
  "sm_pool (release_chunk c m) = (if chunk_referenced c m then sm_pool m else sm_pool m @ [c])"
  by (simp add: release_chunk_def SendBufferManager_PushGlobal_def SendBufferManager_Push_def)

lemma release_chunk_inv:
  assumes "sm_inv m" "c \<in> dom (sm_chunks m)" "c \<notin> set (sm_pool m)"
  shows "sm_inv (release_chunk c m)"
  using assms
  by (auto simp: sm_inv_def chunk_ok_def live_ok_def release_chunk_pool chunk_referenced_def)

lemma sorted_wrt_remove1: "sorted_wrt R xs \<Longrightarrow> sorted_wrt R (remove1 x xs)"
  by (induction xs) (auto dest: notin_set_remove1)

lemma drop_send_buffer_inv:
  assumes "sm_inv m" "sb \<in> set (sm_live m)"
  shows "sm_inv (drop_send_buffer sb m)"
proof -
  have "live_ok m sb" using assms by (simp add: sm_inv_def)
  then have "sb_owner sb \<in> dom (sm_chunks m)" "sb_owner sb \<notin> set (sm_pool m)"
    by (auto simp: live_ok_def)
  moreover have "sm_inv (m\<lparr>sm_live := remove1 sb (sm_live m)\<rparr>)"
    using assms(1) by (auto simp: sm_inv_def chunk_ok_def live_ok_def sorted_wrt_remove1
        dest: notin_set_remove1)
  ultimately show ?thesis
    unfolding drop_send_buffer_def by (intro release_chunk_inv) auto
qed

lemma drop_send_buffer_bytes: "sb_bytes (drop_send_buffer sb m) b = sb_bytes m b"
  by (simp add: drop_send_buffer_def sb_bytes_def)

text \<open>The popped chunk is alive, not in the pool, and nobody else's.\<close>

definition fresh_chunk :: "chunk_id \<Rightarrow> send_mgr \<Rightarrow> bool" where
  "fresh_chunk c m \<longleftrightarrow> c \<in> dom (sm_chunks m) \<and> c \<notin> set (sm_pool m) \<and> \<not> chunk_referenced c m"

definition same_memory :: "send_mgr \<Rightarrow> send_mgr \<Rightarrow> bool" where
  "same_memory m m' \<longleftrightarrow> sm_live m' = sm_live m \<and>
     (\<forall>c k. sm_chunks m c = Some k \<longrightarrow> (\<exists>k'. sm_chunks m' c = Some k' \<and> ck_buffer k' = ck_buffer k))"

lemma Pop_ok:
  assumes inv: "sm_inv m" and pop: "SendBufferManager_Pop m = (c, m')"
  shows "sm_inv m'" and "fresh_chunk c m'" and "same_memory m m'" and "sm_tls m' = sm_tls m"
proof -
  have *: "sm_inv m' \<and> fresh_chunk c m' \<and> same_memory m m' \<and> sm_tls m' = sm_tls m"
  proof (cases "sm_pool m = []")
    case True
    let ?n = "sm_next m"
    have none: "sm_chunks m ?n = None"
      using inv by (cases "sm_chunks m ?n") (auto simp: sm_inv_def chunk_ok_def)
    have eq: "c = ?n" "m' = set_chunk ?n SendBufferChunk_new (m\<lparr>sm_next := Suc ?n\<rparr>)"
      using True pop by (auto simp: SendBufferManager_Pop_def)
    have own: "sb_owner sb \<noteq> ?n" if "sb \<in> set (sm_live m)" for sb
      using inv that none by (auto simp: sm_inv_def live_ok_def)
    have tls: "sm_tls m t \<noteq> Some ?n" for t
      using inv none by (fastforce simp: sm_inv_def)
    show ?thesis
      using inv True none own tls unfolding eq
      by (auto simp: sm_inv_def set_chunk_def chunk_ok_def live_ok_def SendBufferChunk_new_def
          fresh_chunk_def chunk_referenced_def same_memory_def less_Suc_eq)
  next
    case False
    have eq: "c = last (sm_pool m)" "m' = m\<lparr>sm_pool := butlast (sm_pool m)\<rparr>"
      using False pop by (auto simp: SendBufferManager_Pop_def)
    have pool: "sm_pool m = butlast (sm_pool m) @ [c]" and inp: "c \<in> set (sm_pool m)"
      using False eq by simp_all
    have d: "distinct (butlast (sm_pool m) @ [c])"
      using inv pool by (simp add: sm_inv_def)
    show ?thesis
      using inv inp d unfolding eq(2)
      by (auto simp: sm_inv_def chunk_ok_def live_ok_def fresh_chunk_def chunk_referenced_def
          same_memory_def dest: in_set_butlastD)
  qed
  then show "sm_inv m'" "fresh_chunk c m'" "same_memory m m'" "sm_tls m' = sm_tls m" by auto
qed

lemma sm_inv_tlsD:
  "sm_inv m \<Longrightarrow> sm_tls m t = Some c \<Longrightarrow> c \<in> dom (sm_chunks m) \<and> c \<notin> set (sm_pool m)"
  by (simp add: sm_inv_def)

lemma sm_inv_chunkD: "sm_inv m \<Longrightarrow> sm_chunks m c = Some k \<Longrightarrow> chunk_ok m c k"
  by (simp add: sm_inv_def)

lemma set_chunk_inv:
  assumes "sm_inv m" "chunk_ok m c k'" "c \<in> dom (sm_chunks m)"
    and "\<And>sb. sb \<in> set (sm_live m) \<Longrightarrow> sb_owner sb = c \<Longrightarrow> sb_end sb \<le> unat (ck_usedSize k')"
  shows "sm_inv (set_chunk c k' m)"
proof -
  have "live_ok (set_chunk c k' m) sb" if "sb \<in> set (sm_live m)" for sb
  proof -
    have "live_ok m sb" using that assms(1) by (simp add: sm_inv_def)
    with that assms(4) show ?thesis by (auto simp: live_ok_def set_chunk_def)
  qed
  moreover have "chunk_ok (set_chunk c k' m) c'' k''"
    if "sm_chunks (set_chunk c k' m) c'' = Some k''" for c'' k''
    using that assms(1,2) by (auto simp: set_chunk_def chunk_ok_def sm_inv_def split: if_splits)
  moreover have "dom (sm_chunks (set_chunk c k' m)) = dom (sm_chunks m)"
    using assms(3) by (auto simp: set_chunk_def)
  ultimately show ?thesis
    using assms(1) unfolding sm_inv_def by (simp add: set_chunk_def)
qed

lemma renew_tls_ok:
  assumes inv: "sm_inv m"
  shows "\<exists>m' c k. renew_tls t m = Inr m' \<and> sm_inv m' \<and> same_memory m m' \<and>
    sm_tls m' t = Some c \<and> sm_chunks m' c = Some k \<and> ck_usedSize k = 0"
proof -
  obtain c m1 where pop: "SendBufferManager_Pop m = (c, m1)" by fastforce
  note P = Pop_ok [OF inv pop]
  let ?m2 = "m1\<lparr>sm_tls := (sm_tls m1)(t \<mapsto> c)\<rparr>"
  let ?m3 = "case sm_tls m t of None \<Rightarrow> ?m2 | Some old \<Rightarrow> release_chunk old ?m2"
  have inv2: "sm_inv ?m2"
    using P(1,2)
    by (auto simp: sm_inv_def chunk_ok_def live_ok_def fresh_chunk_def chunk_referenced_def)
  have inv3: "sm_inv ?m3"
  proof (cases "sm_tls m t")
    case None
    with inv2 show ?thesis by simp
  next
    case (Some old)
    then have "old \<in> dom (sm_chunks m1)" "old \<notin> set (sm_pool m1)"
      using sm_inv_tlsD [OF P(1), of t old] P(4) by simp_all
    with Some inv2 show ?thesis by (simp add: release_chunk_inv)
  qed
  have fields: "sm_chunks ?m3 = sm_chunks m1" "sm_live ?m3 = sm_live m1"
    "sm_tls ?m3 = (sm_tls m1)(t \<mapsto> c)" "sm_next ?m3 = sm_next m1"
    by (simp_all split: option.split)
  obtain k where k: "sm_chunks m1 c = Some k"
    using P(2) by (auto simp: fresh_chunk_def)
  let ?m' = "set_chunk c (SendBufferChunk_Reset k) ?m3"
  have none: "\<forall>sb \<in> set (sm_live m1). sb_owner sb \<noteq> c"
    using P(2) by (auto simp: fresh_chunk_def chunk_referenced_def)
  have "renew_tls t m = Inr ?m'"
    using pop k fields(1) by (simp add: renew_tls_def with_chunk_def Let_def)
  moreover have "sm_inv ?m'"
  proof (rule set_chunk_inv [OF inv3])
    show "chunk_ok ?m3 c (SendBufferChunk_Reset k)"
      using sm_inv_chunkD [OF P(1) k] fields(4)
      by (simp add: chunk_ok_def SendBufferChunk_Reset_def)
    show "c \<in> dom (sm_chunks ?m3)" using k fields(1) by auto
    show "sb_end sb \<le> unat (ck_usedSize (SendBufferChunk_Reset k))"
      if "sb \<in> set (sm_live ?m3)" "sb_owner sb = c" for sb
      using that none fields(2) by auto
  qed
  moreover have "same_memory m ?m'"
    using P(3) k fields(1,2)
    by (fastforce simp: same_memory_def set_chunk_def SendBufferChunk_Reset_def)
  moreover have "sm_tls ?m' t = Some c" "sm_chunks ?m' c = Some (SendBufferChunk_Reset k)"
    using fields by (simp_all add: set_chunk_def)
  ultimately show ?thesis by (auto simp: SendBufferChunk_Reset_def)
qed

lemma same_memory_refl: "same_memory m m"
  by (simp add: same_memory_def)

lemma same_memory_trans: "same_memory a b \<Longrightarrow> same_memory b c \<Longrightarrow> same_memory a c"
  unfolding same_memory_def by metis

lemma same_memory_bytes:
  assumes "sm_inv m" "same_memory m m'" "sb \<in> set (sm_live m)"
  shows "sb_bytes m' sb = sb_bytes m sb"
proof -
  obtain k where "sm_chunks m (sb_owner sb) = Some k"
    using assms(1,3) by (auto simp: sm_inv_def live_ok_def)
  with assms(2) show ?thesis by (fastforce simp: same_memory_def sb_bytes_def)
qed

lemma unat_FreeSize:
  assumes "chunk_ok m c k"
  shows "unat (SendBufferChunk_FreeSize k) = 6000 - unat (ck_usedSize k)"
proof -
  have le: "ck_usedSize k \<le> (6000 :: u32)"
    using assms by (simp add: chunk_ok_def word_le_nat_alt)
  have "SendBufferChunk_FreeSize k = 6000 - ck_usedSize k"
    using assms by (simp add: SendBufferChunk_FreeSize_def chunk_ok_def)
  then have "unat (SendBufferChunk_FreeSize k) = unat (6000 :: u32) - unat (ck_usedSize k)"
    using le by (simp only: unat_sub)
  then show ?thesis by simp
qed

text \<open>
  Opening a buffer of at most 6000 bytes always succeeds and yields a region behind everything
  in use in the thread's chunk.
\<close>

lemma Open_ok:
  assumes inv: "sm_inv m" and sz: "unat sz \<le> 6000"
  shows "\<exists>m2 c k. sm_inv m2 \<and> same_memory m m2 \<and> sm_tls m2 t = Some c \<and> sm_chunks m2 c = Some k \<and>
    unat (ck_usedSize k) + unat sz \<le> 6000 \<and>
    SendBufferManager_Open t sz m =
      Inr (Some (SendBuffer_new c (unat (ck_usedSize k)) sz),
           set_chunk c (k\<lparr>ck_open := True\<rparr>)
             (m2\<lparr>sm_live := sm_live m2 @ [SendBuffer_new c (unat (ck_usedSize k)) sz]\<rparr>))"
proof -
  have "\<exists>m1 c1 k1. (if sm_tls m t = None then renew_tls t m else Inr m) = Inr m1 \<and> sm_inv m1 \<and>
      same_memory m m1 \<and> sm_tls m1 t = Some c1 \<and> sm_chunks m1 c1 = Some k1"
    using renew_tls_ok [OF inv, of t] inv same_memory_refl
    by (cases "sm_tls m t") (auto simp: sm_inv_def)
  then obtain m1 c1 k1 where m1: "(if sm_tls m t = None then renew_tls t m else Inr m) = Inr m1"
    and inv1: "sm_inv m1" and mem1: "same_memory m m1"
    and t1: "sm_tls m1 t = Some c1" "sm_chunks m1 c1 = Some k1" by blast
  have ok1: "chunk_ok m1 c1 k1" using inv1 t1 by (simp add: sm_inv_def)
  let ?sel = "if SendBufferChunk_FreeSize k1 < sz then renew_tls t m1 else Inr m1"
  have "\<exists>m2 c k. ?sel = Inr m2 \<and> sm_inv m2 \<and> same_memory m1 m2 \<and> sm_tls m2 t = Some c \<and>
      sm_chunks m2 c = Some k \<and> unat (ck_usedSize k) + unat sz \<le> 6000"
  proof (cases "SendBufferChunk_FreeSize k1 < sz")
    case True
    then show ?thesis using renew_tls_ok [OF inv1, of t] sz by auto
  next
    case False
    then have "unat sz \<le> 6000 - unat (ck_usedSize k1)"
      using unat_FreeSize [OF ok1] by (simp add: word_less_nat_alt)
    moreover have "unat (ck_usedSize k1) \<le> 6000" using ok1 by (simp add: chunk_ok_def)
    ultimately show ?thesis using False inv1 t1 same_memory_refl by auto
  qed
  then obtain m2 c k where sel: "?sel = Inr m2" and inv2: "sm_inv m2" and mem2: "same_memory m1 m2"
    and t2: "sm_tls m2 t = Some c" "sm_chunks m2 c = Some k"
    and fit: "unat (ck_usedSize k) + unat sz \<le> 6000" by blast
  have ok2: "chunk_ok m2 c k" using inv2 t2 by (simp add: sm_inv_def)
  have "\<not> sz > SendBufferChunk_FreeSize k"
    using unat_FreeSize [OF ok2] fit by (simp add: word_less_nat_alt)
  moreover have "sz \<le> SEND_BUFFER_CHUNK_SIZE"
    using sz by (simp add: word_le_nat_alt)
  ultimately have "SendBufferChunk_Open c sz k =
      Inr (Some (SendBuffer_new c (unat (ck_usedSize k)) sz), k\<lparr>ck_open := True\<rparr>)"
    using ok2 by (simp add: SendBufferChunk_Open_def chunk_ok_def)
  then have "SendBufferManager_Open t sz m =
      Inr (Some (SendBuffer_new c (unat (ck_usedSize k)) sz),
           set_chunk c (k\<lparr>ck_open := True\<rparr>)
             (m2\<lparr>sm_live := sm_live m2 @ [SendBuffer_new c (unat (ck_usedSize k)) sz]\<rparr>))"
    using m1 t1 ok1 sel t2
    by (simp add: SendBufferManager_Open_def with_tls_def with_chunk_def chunk_ok_def)
  then show ?thesis
    using inv2 t2 fit same_memory_trans [OF mem1 mem2] by blast
qed

lemma Open_too_big:
  assumes inv: "sm_inv m" and sz: "6000 < unat sz"
  shows "SendBufferManager_Open t sz m = Inl CrashAssert"
proof -
  have "\<exists>m1 c1 k1. (if sm_tls m t = None then renew_tls t m else Inr m) = Inr m1 \<and> sm_inv m1 \<and>
      sm_tls m1 t = Some c1 \<and> sm_chunks m1 c1 = Some k1"
    using renew_tls_ok [OF inv, of t] inv by (cases "sm_tls m t") (auto simp: sm_inv_def)
  then obtain m1 c1 k1 where m1: "(if sm_tls m t = None then renew_tls t m else Inr m) = Inr m1"
    and inv1: "sm_inv m1" and t1: "sm_tls m1 t = Some c1" "sm_chunks m1 c1 = Some k1" by blast
  have ok1: "chunk_ok m1 c1 k1" using inv1 t1 by (simp add: sm_inv_def)
  have less: "SendBufferChunk_FreeSize k1 < sz"
    using unat_FreeSize [OF ok1] sz by (simp add: word_less_nat_alt)
  obtain m2 c k where sel: "renew_tls t m1 = Inr m2" "sm_tls m2 t = Some c" "sm_chunks m2 c = Some k"
    using renew_tls_ok [OF inv1, of t] by blast
  have "\<not> sz \<le> SEND_BUFFER_CHUNK_SIZE"
    using sz by (simp add: word_le_nat_alt)
  then show ?thesis
    using m1 t1 ok1 less sel
    by (simp add: SendBufferManager_Open_def with_tls_def with_chunk_def chunk_ok_def
        SendBufferChunk_Open_def)
qed

section \<open>Building a packet in a send buffer\<close>

text \<open>
  \<open>MakeSendBuffer(pkt, pktId)\<close> of \<open>ClientPacketHandler.h\<close> and \<open>ServerPacketHandler.h\<close>. The packet's
  serialisation is the argument \<open>payload\<close>; its length is what \<open>ByteSizeLong\<close> returns and
  \<open>SerializeToArray\<close> fails when the size it is given is smaller. Both sizes are \<open>uint16_t\<close>.
\<close>

definition MakeSendBuffer ::
  "thread_id \<Rightarrow> byte list \<Rightarrow> u16 \<Rightarrow> send_mgr \<Rightarrow> (send_buffer \<times> send_mgr) res" where
  "MakeSendBuffer t payload pktId m =
     (let dataSize = (of_nat (length payload) :: u16);
          packetSize = dataSize + of_int sizeof_PacketHeader
      in bindR (SendBufferManager_Open t (ucast packetSize) m) (\<lambda>(osb, m1).
         case osb of None \<Rightarrow> Inl NullDeref
         | Some sb \<Rightarrow>
             bindR (buffer_write sb 0 (PacketHeader_bytes \<lparr>ph_size = packetSize, ph_id = pktId\<rparr>) m1) (\<lambda>m2.
             ASSERT_CRASH (length payload \<le> unat dataSize)
               (bindR (buffer_write sb 4 payload m2) (\<lambda>m3.
                SendBuffer_Close (ucast packetSize) sb m3)))))"

definition packet_bytes :: "u16 \<Rightarrow> byte list \<Rightarrow> byte list" where
  "packet_bytes pktId payload =
     PacketHeader_bytes \<lparr>ph_size = of_nat (length payload + 4), ph_id = pktId\<rparr> @ payload"

text \<open>
  The packet as a value: what the send buffer holds after \<open>MakeSendBuffer\<close>, without the memory
  it lives in.
\<close>

definition MakePacket :: "u16 \<Rightarrow> byte list \<Rightarrow> byte list res" where
  "MakePacket pktId payload =
     (if length payload + 4 \<le> 6000 then Inr (packet_bytes pktId payload) else Inl CrashAssert)"

lemma length_packet_bytes [simp]: "length (packet_bytes i p) = length p + 4"
  by (simp add: packet_bytes_def)

lemma wf_packet_bytes:
  assumes "length p + 4 < 65536"
  shows "wf_packet (packet_bytes i p)"
proof -
  have "unat (of_nat (length p + 4) :: u16) = length p + 4"
    using assms by (simp add: unat_of_nat del: of_nat_add)
  then have "uint (of_nat (length p + 4) :: u16) = int (length p + 4)"
    by (metis of_nat_unat)
  then show ?thesis
    by (simp add: wf_packet_def packet_bytes_def del: of_nat_add)
qed

lemma overwrite_header_payload:
  assumes "i + 4 + length p \<le> length xs" "length h = 4"
  shows "overwrite (i + 4) p (overwrite i h xs) = overwrite i (h @ p) xs"
proof -
  have "take (i + 4) (overwrite i h xs) = take i xs @ h"
    using assms by (simp add: overwrite_def)
  moreover have "drop (i + 4 + length p) (overwrite i h xs) = drop (i + 4 + length p) xs"
    using assms by (simp add: overwrite_def add.commute add.left_commute)
  ultimately show ?thesis
    by (simp add: overwrite_def assms(2) add.assoc)
qed

lemma add_live_inv:
  assumes "sm_inv m" "live_ok m sb" "\<And>b. b \<in> set (sm_live m) \<Longrightarrow> sb_disjoint b sb"
  shows "sm_inv (m\<lparr>sm_live := sm_live m @ [sb]\<rparr>)"
proof -
  have live: "live_ok (m\<lparr>sm_live := sm_live m @ [sb]\<rparr>) = live_ok m"
    and chunk: "chunk_ok (m\<lparr>sm_live := sm_live m @ [sb]\<rparr>) = chunk_ok m"
    by (simp_all add: live_ok_def chunk_ok_def fun_eq_iff)
  show ?thesis
    using assms by (simp add: sm_inv_def live chunk sorted_wrt_append)
qed

lemma live_after_close:
  assumes inv: "sm_inv m" and c: "sm_chunks m c = Some k" "sm_tls m t = Some c"
    and fit: "unat (ck_usedSize k) + n \<le> 6000" and n: "0 < n" "length bs = n"
  shows "sm_inv (set_chunk c (k\<lparr>ck_buffer := overwrite (unat (ck_usedSize k)) bs (ck_buffer k),
             ck_open := False, ck_usedSize := ck_usedSize k + of_nat n\<rparr>)
          (m\<lparr>sm_live := sm_live m @ [\<lparr>sb_owner = c, sb_offset = unat (ck_usedSize k),
             sb_allocSize = a, sb_writeSize = of_nat n\<rparr>]\<rparr>))"
    (is "sm_inv (set_chunk c ?k' (m\<lparr>sm_live := sm_live m @ [?sb]\<rparr>))")
proof -
  let ?m1 = "set_chunk c ?k' m"
  have ok: "chunk_ok m c k" using inv c by (simp add: sm_inv_def)
  have un: "unat (of_nat n :: u32) = n" using fit by (simp add: unat_of_nat)
  have used: "unat (ck_usedSize k + of_nat n) = unat (ck_usedSize k) + n"
    using fit un by (simp add: unat_plus_if')
  have len: "length (overwrite (unat (ck_usedSize k)) bs (ck_buffer k)) = 6000"
    using ok fit n by (simp add: chunk_ok_def)
  have ends: "sb_end sb \<le> unat (ck_usedSize k)" if "sb \<in> set (sm_live m)" "sb_owner sb = c" for sb
    using that inv c by (auto simp: sm_inv_def live_ok_def)
  have inv1: "sm_inv ?m1"
  proof (rule set_chunk_inv [OF inv])
    show "chunk_ok m c ?k'" using ok used fit len by (simp add: chunk_ok_def)
    show "c \<in> dom (sm_chunks m)" using c by auto
    show "sb_end sb \<le> unat (ck_usedSize ?k')" if "sb \<in> set (sm_live m)" "sb_owner sb = c" for sb
      using ends [OF that] used by simp
  qed
  have disj: "sb_disjoint sb ?sb" if "sb \<in> set (sm_live m)" for sb
    using ends [OF that] by (auto simp: sb_disjoint_def)
  have "live_ok ?m1 ?sb"
    using used un n sm_inv_tlsD [OF inv c(2)]
    by (simp add: live_ok_def set_chunk_def sb_end_def)
  then have "sm_inv (?m1\<lparr>sm_live := sm_live ?m1 @ [?sb]\<rparr>)"
    by (intro add_live_inv [OF inv1]) (simp_all add: disj)
  then show ?thesis by (simp add: set_chunk_live)
qed

lemma size_word:
  assumes "n \<le> 6000"
  shows "unat (ucast (of_nat n :: u16) :: u32) = n" "(ucast (of_nat n :: u16) :: u32) = of_nat n"
proof -
  show 1: "unat (ucast (of_nat n :: u16) :: u32) = n"
    using assms by (simp add: unsigned_ucast_eq take_bit_eq_mod unat_of_nat)
  show "(ucast (of_nat n :: u16) :: u32) = of_nat n"
    using 1 assms by (intro word_unat_eq_iff [THEN iffD2]) (simp add: unat_of_nat)
qed

text \<open>Writing behind the used part of a chunk leaves the live buffers alone.\<close>

lemma others_keep_bytes:
  assumes inv: "sm_inv m" and k: "sm_chunks m c = Some k" and room: "unat (ck_usedSize k) + length bs \<le> 6000"
    and b: "b \<in> set (sm_live m)"
  shows "sb_bytes (set_chunk c (k\<lparr>ck_buffer := overwrite (unat (ck_usedSize k)) bs (ck_buffer k), ck_open := False, ck_usedSize := used\<rparr>)
      (m\<lparr>sm_live := l\<rparr>)) b = sb_bytes m b"
proof (cases "sb_owner b = c")
  case True
  have len: "length (ck_buffer k) = 6000" using sm_inv_chunkD [OF inv k] by (simp add: chunk_ok_def)
  have "sb_end b \<le> unat (ck_usedSize k)" using inv b k True by (auto simp: sm_inv_def live_ok_def)
  with True show ?thesis using k len room by (simp add: sb_bytes_def sb_end_def bslice_overwrite_below)
next
  case False
  then show ?thesis by (simp add: sb_bytes_def)
qed

lemma MakeSendBuffer_ok:
  assumes inv: "sm_inv m" and fit: "length payload + 4 \<le> 6000"
  shows "\<exists>sb m'. MakeSendBuffer t payload pktId m = Inr (sb, m') \<and> sm_inv m' \<and>
     sm_live m' = sm_live m @ [sb] \<and> sb_bytes m' sb = packet_bytes pktId payload \<and>
     (\<forall>b \<in> set (sm_live m). sb_bytes m' b = sb_bytes m b)"
proof -
  let ?n = "length payload + 4"
  let ?ps = "of_nat (length payload) + of_int sizeof_PacketHeader :: u16"
  have ps: "?ps = of_nat ?n" by (simp add: sizeof_PacketHeader_def)
  note unps = size_word(1) [OF fit] and word = size_word(2) [OF fit]
  have fit': "unat (of_nat ?n :: u32) \<le> 6000" using unps word fit by simp
  obtain m2 c k where inv2: "sm_inv m2" and mem: "same_memory m m2" and t2: "sm_tls m2 t = Some c"
    and k: "sm_chunks m2 c = Some k" and room: "unat (ck_usedSize k) + unat (of_nat ?n :: u32) \<le> 6000"
    and op: "SendBufferManager_Open t (of_nat ?n) m =
      Inr (Some (SendBuffer_new c (unat (ck_usedSize k)) (of_nat ?n)),
           set_chunk c (k\<lparr>ck_open := True\<rparr>)
             (m2\<lparr>sm_live := sm_live m2 @ [SendBuffer_new c (unat (ck_usedSize k)) (of_nat ?n)]\<rparr>))"
    using Open_ok [OF inv fit', of t] by (elim exE conjE) (rule that)
  let ?u = "unat (ck_usedSize k)"
  let ?h = "PacketHeader_bytes \<lparr>ph_size = of_nat ?n, ph_id = pktId\<rparr>"
  let ?sb = "\<lparr>sb_owner = c, sb_offset = ?u, sb_allocSize = of_nat ?n, sb_writeSize = of_nat ?n\<rparr>"
  let ?k' = "k\<lparr>ck_buffer := overwrite ?u (?h @ payload) (ck_buffer k),
             ck_open := False, ck_usedSize := ck_usedSize k + of_nat ?n\<rparr>"
  let ?m' = "set_chunk c ?k' (m2\<lparr>sm_live := sm_live m2 @ [?sb]\<rparr>)"
  have room': "?u + ?n \<le> 6000" using room unps word by simp
  have len: "length (ck_buffer k) = 6000"
    using sm_inv_chunkD [OF inv2 k] by (simp add: chunk_ok_def)
  have notin: "SendBuffer_new c ?u (of_nat ?n) \<notin> set (sm_live m2)"
    using inv2 by (auto simp: sm_inv_def live_ok_def SendBuffer_new_def)
  have upd: "map (\<lambda>b. if b = SendBuffer_new c ?u (of_nat ?n) then ?sb else b) (sm_live m2) = sm_live m2"
    using notin by (intro map_idI) auto
  let ?new = "SendBuffer_new c ?u (of_nat ?n)"
  let ?mo = "\<lambda>buf. set_chunk c (k\<lparr>ck_open := True, ck_buffer := buf\<rparr>) (m2\<lparr>sm_live := sm_live m2 @ [?new]\<rparr>)"
  have w1: "buffer_write ?new 0 ?h (set_chunk c (k\<lparr>ck_open := True\<rparr>) (m2\<lparr>sm_live := sm_live m2 @ [?new]\<rparr>))
      = Inr (?mo (overwrite ?u ?h (ck_buffer k)))"
    using room' len by (simp add: buffer_write_def with_chunk_def SendBuffer_new_def)
  have w2: "buffer_write ?new 4 payload (?mo (overwrite ?u ?h (ck_buffer k)))
      = Inr (?mo (overwrite ?u (?h @ payload) (ck_buffer k)))"
    using room' len overwrite_header_payload [of ?u payload "ck_buffer k" ?h]
    by (simp add: buffer_write_def with_chunk_def SendBuffer_new_def)
  have cl: "SendBuffer_Close (of_nat ?n) ?new (?mo (overwrite ?u (?h @ payload) (ck_buffer k)))
      = Inr (?sb, ?m')"
    using upd by (simp add: SendBuffer_Close_def Let_def with_chunk_def set_chunk_live
        SendBufferChunk_Close_def SendBuffer_new_def del: of_nat_add)
  have dsize: "length payload \<le> unat (of_nat (length payload) :: u16)"
    using fit by (simp add: unat_of_nat)
  have 1: "MakeSendBuffer t payload pktId m = Inr (?sb, ?m')"
    unfolding MakeSendBuffer_def Let_def ps word op
    by (simp only: bindR_simps prod.case option.case w1 w2 cl dsize ASSERT_CRASH_simps simp_thms)
  have 2: "sm_inv ?m'"
    using live_after_close [OF inv2 k t2 room', of "?h @ payload"] by simp
  have 3: "sm_live ?m' = sm_live m @ [?sb]"
    using mem by (simp add: same_memory_def)
  have 4: "sb_bytes ?m' ?sb = packet_bytes pktId payload"
    using room' len unps word
    by (simp add: sb_bytes_def packet_bytes_def bslice_overwrite_same)
  have 5: "sb_bytes ?m' b = sb_bytes m b" if b: "b \<in> set (sm_live m)" for b
    using others_keep_bytes [OF inv2 k, of "?h @ payload" b] same_memory_bytes [OF inv mem b] b mem room' by (simp add: same_memory_def)
  show ?thesis
    by (intro exI [of _ ?sb] exI [of _ ?m'] conjI ballI 1 2 3 4 5)
qed

lemma MakeSendBuffer_crash:
  assumes inv: "sm_inv m" and big: "6000 < length payload + 4" "length payload + 4 < 65536"
  shows "MakeSendBuffer t payload pktId m = Inl CrashAssert"
proof -
  let ?n = "length payload + 4"
  let ?ps = "of_nat (length payload) + of_int sizeof_PacketHeader :: u16"
  have ps: "?ps = of_nat ?n" by (simp add: sizeof_PacketHeader_def)
  have "unat (ucast (of_nat ?n :: u16) :: u32) = ?n"
    using big by (simp add: unsigned_ucast_eq take_bit_eq_mod unat_of_nat del: of_nat_add)
  then have "SendBufferManager_Open t (ucast ?ps) m = Inl CrashAssert"
    unfolding ps using big by (intro Open_too_big [OF inv]) simp
  then show ?thesis
    by (simp add: MakeSendBuffer_def Let_def)
qed

lemma MakeSendBuffer_huge:
  assumes inv: "sm_inv m" and big: "65536 \<le> length payload + 4"
  shows "\<exists>e. MakeSendBuffer t payload pktId m = Inl e"
proof -
  let ?ps = "of_nat (length payload) + of_int sizeof_PacketHeader :: u16"
  let ?d = "of_nat (length payload) :: u16"
  show ?thesis
  proof (cases "unat (ucast ?ps :: u32) \<le> 6000")
    case False
    then have "SendBufferManager_Open t (ucast ?ps) m = Inl CrashAssert"
      by (intro Open_too_big [OF inv]) simp
    then show ?thesis by (simp add: MakeSendBuffer_def Let_def)
  next
    case True
    obtain m2 c k where inv2: "sm_inv m2" and k: "sm_chunks m2 c = Some k"
      and op: "SendBufferManager_Open t (ucast ?ps) m =
        Inr (Some (SendBuffer_new c (unat (ck_usedSize k)) (ucast ?ps)),
             set_chunk c (k\<lparr>ck_open := True\<rparr>)
               (m2\<lparr>sm_live := sm_live m2 @ [SendBuffer_new c (unat (ck_usedSize k)) (ucast ?ps)]\<rparr>))"
      using Open_ok [OF inv True, of t] by (elim exE conjE) (rule that)
    let ?new = "SendBuffer_new c (unat (ck_usedSize k)) (ucast ?ps)"
    have len: "length (ck_buffer k) = 6000"
      using sm_inv_chunkD [OF inv2 k] by (simp add: chunk_ok_def)
    let ?m1 = "set_chunk c (k\<lparr>ck_open := True\<rparr>) (m2\<lparr>sm_live := sm_live m2 @ [?new]\<rparr>)"
    let ?h = "PacketHeader_bytes \<lparr>ph_size = ?ps, ph_id = pktId\<rparr>"
    have "\<exists>e. bindR (buffer_write ?new 0 ?h ?m1) (\<lambda>m2. ASSERT_CRASH (length payload \<le> unat ?d)
        (bindR (buffer_write ?new 4 payload m2) (\<lambda>m3. SendBuffer_Close (ucast ?ps) ?new m3))) = Inl e"
    proof (cases "unat (ck_usedSize k) + 4 \<le> 6000")
      case False
      then show ?thesis
        using len by (simp add: buffer_write_def with_chunk_def SendBuffer_new_def)
    next
      case fits: True
      let ?m2 = "set_chunk c (k\<lparr>ck_open := True, ck_buffer := overwrite (unat (ck_usedSize k)) ?h (ck_buffer k)\<rparr>)
          (m2\<lparr>sm_live := sm_live m2 @ [?new]\<rparr>)"
      have w1: "buffer_write ?new 0 ?h ?m1 = Inr ?m2"
        using len fits by (simp add: buffer_write_def with_chunk_def SendBuffer_new_def)
      have "buffer_write ?new 4 payload ?m2 = Inl OutOfBounds"
        using len fits big by (simp add: buffer_write_def with_chunk_def SendBuffer_new_def)
      then show ?thesis
        unfolding w1 by (cases "length payload \<le> unat ?d") (simp_all del: word_of_nat_eq_0_iff)
    qed
    then show ?thesis
      unfolding MakeSendBuffer_def Let_def op by simp
  qed
qed

section \<open>Properties\<close>

text \<open>C2: Building a packet in the shared send-buffer memory refines building it as a value. From
  every memory state that satisfies the invariant, a packet of at most 6000 bytes is stored as
  exactly its header and payload, the bytes of every other live send buffer are unchanged and the
  invariant holds again; a larger one ends in the assertion, and one whose size does not fit
  \<open>uint16_t\<close> in a fault.\<close>

theorem MakeSendBuffer_refines:
  assumes "sm_inv m"
  shows "case MakePacket pktId payload of
      Inr bs \<Rightarrow> \<exists>sb m'. MakeSendBuffer t payload pktId m = Inr (sb, m') \<and> sm_inv m' \<and>
        sm_live m' = sm_live m @ [sb] \<and> sb_bytes m' sb = bs \<and>
        (\<forall>b \<in> set (sm_live m). sb_bytes m' b = sb_bytes m b)
    | Inl e \<Rightarrow> if length payload + 4 < 65536 then MakeSendBuffer t payload pktId m = Inl e
        else \<exists>e'. MakeSendBuffer t payload pktId m = Inl e'"
  using MakeSendBuffer_ok [OF assms, of payload t pktId] MakeSendBuffer_crash [OF assms, of payload t pktId]
    MakeSendBuffer_huge [OF assms, of payload t pktId]
  by (auto simp: MakePacket_def)

theorem MakeSendBuffer_refines_witness:
  "sm_inv sm_empty \<and> (\<exists>sb m'. MakeSendBuffer 1 [7, 8] 1003 sm_empty = Inr (sb, m') \<and>
     sb_bytes m' sb = [6, 0, 235, 3, 7, 8])"
  using MakeSendBuffer_refines [OF sm_inv_empty, where pktId = 1003 and payload = "[7, 8]" and t = 1] sm_inv_empty
  by (auto simp: MakePacket_def packet_bytes_def PacketHeader_bytes_def le16_def)

end
