(* ===== verification/Wire.thy ===== *)
theory Wire
  imports Prelude "HOL-Library.Log_Nat"
begin

text \<open>
  The wire format the generated messages are written in: the inline helpers of
  \<open>Include/google/protobuf/io/coded_stream.h\<close>, \<open>wire_format_lite.h\<close> and \<open>message_lite.h\<close> that
  \<open>Protocol.pb.cc\<close> calls, and a reference decoder, which is the published definition of the format
  (the parser itself is compiled library code).

  The theory shows that the size helpers, which compute the number of bytes by arithmetic on the
  number of leading zeros, agree with the writers, and that the decoder inverts the writers.
\<close>

unbundle bit_operations_syntax

section \<open>Variable-length integers\<close>

text \<open>\<open>EpsCopyOutputStream::UnsafeVarint\<close>; the 32-bit writer \<open>UnsafeWriteSize\<close> is the same loop.\<close>

lemma unat_drop_7: "unat (drop_bit 7 (v :: u64)) = unat v div 128"
  by (simp add: drop_bit_eq_div unat_div)

function UnsafeVarint :: "u64 \<Rightarrow> byte list" where
  "UnsafeVarint v =
     (if v \<ge> 0x80 then ucast (v OR 0x80) # UnsafeVarint (drop_bit 7 v) else [ucast v])"
  by auto
termination
proof (relation "measure unat")
  fix v :: u64
  assume "0x80 \<le> v"
  then have "128 \<le> unat v" by (simp add: word_le_nat_alt)
  then show "(drop_bit 7 v, v) \<in> measure unat" by (simp add: unat_drop_7)
qed simp

declare UnsafeVarint.simps [simp del]

definition UnsafeWriteSize :: "u32 \<Rightarrow> byte list" where
  "UnsafeWriteSize v = UnsafeVarint (ucast v)"

text \<open>
  \<open>CodedOutputStream::VarintSize32\<close> and \<open>VarintSize64\<close>. \<open>countl_zero\<close> is \<open>absl::countl_zero\<close>, the number of
  leading zero bits.
\<close>

fun countl_zero :: "nat \<Rightarrow> nat \<Rightarrow> nat" where
  "countl_zero 0 n = 0"
| "countl_zero (Suc w) n = (if 2 ^ w \<le> n then 0 else Suc (countl_zero w n))"

definition VarintSize32 :: "u32 \<Rightarrow> nat" where
  "VarintSize32 value =
     (let log2value = 31 - countl_zero 32 (unat (value OR 1)) in (log2value * 9 + (64 + 9)) div 64)"

definition VarintSize64 :: "u64 \<Rightarrow> nat" where
  "VarintSize64 value =
     (let log2value = 63 - countl_zero 64 (unat (value OR 1)) in (log2value * 9 + (64 + 9)) div 64)"

section \<open>Length-delimited data\<close>

definition LengthDelimitedSize :: "nat \<Rightarrow> nat" where
  "LengthDelimitedSize len = len + VarintSize32 (of_nat len)"

definition StringSize :: "byte list \<Rightarrow> nat" where
  "StringSize value = LengthDelimitedSize (length value)"

definition Int64Size :: "u64 list \<Rightarrow> nat" where
  "Int64Size values = (\<Sum>v\<leftarrow>values. VarintSize64 v)"

text \<open>
  The parts of the library that are not in the headers: the slow path of the string writer (taken
  for strings of 128 bytes and more, and, by the predicate \<open>NoRoom\<close>, when the output buffer is nearly
  full), the size of a packed field (with the value it stores in the message's cache), and the
  writing of unknown fields.
\<close>

datatype wire_value = Varint nat | Fixed64 "byte list" | LenDelim "byte list" | Fixed32 "byte list"

type_synonym unknown_fields = "(nat \<times> wire_value) list"

record pb_lib =
  NoRoom :: "u32 \<Rightarrow> byte list \<Rightarrow> bool"
  WriteStringOutline :: "u32 \<Rightarrow> byte list \<Rightarrow> byte list"
  Int64SizeWithPackedTagSize :: "u64 list \<Rightarrow> nat \<Rightarrow> nat \<times> int"
  SerializeUnknownFields :: "unknown_fields \<Rightarrow> byte list"
  UnknownFieldsSize :: "unknown_fields \<Rightarrow> nat"

text \<open>\<open>WriteTag\<close>, \<open>WriteString\<close>, \<open>WriteBoolToArray\<close> and \<open>WriteInt64Packed\<close> for a field number.\<close>

definition WriteTag :: "u32 \<Rightarrow> u32 \<Rightarrow> byte list" where
  "WriteTag num wt = UnsafeVarint (ucast (push_bit 3 num OR wt))"

text \<open>The format of a string field, and the writer, whose fast path stores the size in one byte.\<close>

definition put_string :: "u32 \<Rightarrow> byte list \<Rightarrow> byte list" where
  "put_string num s = WriteTag num 2 @ UnsafeWriteSize (of_nat (length s)) @ s"

definition WriteString :: "pb_lib \<Rightarrow> u32 \<Rightarrow> byte list \<Rightarrow> byte list" where
  "WriteString lib num s =
     (if length s \<ge> 128 \<or> NoRoom lib num s then WriteStringOutline lib num s
      else UnsafeVarint (ucast (push_bit 3 num OR 2)) @ [of_nat (length s)] @ s)"

definition WriteBoolToArray :: "u32 \<Rightarrow> bool \<Rightarrow> byte list" where
  "WriteBoolToArray num value = WriteTag num 0 @ [if value then 1 else 0]"

definition WriteInt64Packed :: "u32 \<Rightarrow> u64 list \<Rightarrow> int \<Rightarrow> byte list" where
  "WriteInt64Packed num values byte_size =
     WriteTag num 2 @ UnsafeWriteSize (of_int byte_size) @ concat (map UnsafeVarint values)"

section \<open>Presence bits\<close>

definition SetHasBit :: "u32 \<Rightarrow> u32 \<Rightarrow> u32" where
  "SetHasBit bits m = bits OR m"

definition ClearHasBit :: "u32 \<Rightarrow> u32 \<Rightarrow> u32" where
  "ClearHasBit bits m = bits AND NOT m"

definition CheckHasBit :: "u32 \<Rightarrow> u32 \<Rightarrow> bool" where
  "CheckHasBit bits m = (bits AND m \<noteq> 0)"

definition BatchCheckHasBit :: "u32 \<Rightarrow> u32 \<Rightarrow> bool" where
  "BatchCheckHasBit bits m = (bits AND m \<noteq> 0)"

section \<open>Sizes agree with the writers\<close>

text \<open>The writer on natural numbers.\<close>

fun varint_nat :: "nat \<Rightarrow> nat list" where
  "varint_nat n = (if n < 128 then [n] else (n mod 128 + 128) # varint_nat (n div 128))"

declare varint_nat.simps [simp del]

lemma bit_128: "bit (128 :: nat) k \<longleftrightarrow> k = 7"
proof -
  have "(128 :: nat) = 2 ^ 7" by simp
  then show ?thesis by (simp only: bit_exp_iff) auto
qed

lemma low_nat: "(n OR 128) mod 256 = n mod 128 + (128 :: nat)"
proof -
  have "take_bit 8 (n OR 128) = take_bit 7 n OR (128 :: nat)"
  proof (rule bit_eqI)
    fix k :: nat
    have "k < 8 \<longleftrightarrow> k < 7 \<or> k = 7" by linarith
    then show "bit (take_bit 8 (n OR 128)) k = bit (take_bit 7 n OR (128 :: nat)) k"
      by (auto simp: bit_take_bit_iff bit_or_iff bit_128)
  qed
  also have "\<dots> = take_bit 7 n + 128"
    by (rule disjunctive_add [symmetric]) (auto simp: bit_take_bit_iff bit_128)
  finally show ?thesis by (simp add: take_bit_eq_mod)
qed

lemma low_byte: "unat (ucast (v OR 0x80 :: u64) :: byte) = unat v mod 128 + 128"
proof -
  have "unat (v OR 0x80) = unat v OR 128" by (simp add: unsigned_or_eq)
  then show ?thesis
    using low_nat [of "unat v"] by (simp add: unsigned_ucast_eq take_bit_eq_mod)
qed

lemma UnsafeVarint_nat: "map unat (UnsafeVarint v) = varint_nat (unat v)"
proof (induction v rule: UnsafeVarint.induct)
  case (1 v)
  show ?case
  proof (cases "v \<ge> 0x80")
    case True
    then have "\<not> unat v < 128" by (simp add: word_le_nat_alt)
    then show ?thesis
      using True 1 by (simp add: UnsafeVarint.simps [of v] varint_nat.simps [of "unat v"] low_byte unat_drop_7)
  next
    case False
    then have "unat v < 128" by (simp add: word_le_nat_alt)
    then show ?thesis
      using False
      by (simp add: UnsafeVarint.simps [of v] varint_nat.simps [of "unat v"] unsigned_ucast_eq take_bit_eq_mod)
  qed
qed

lemma length_UnsafeVarint: "length (UnsafeVarint v) = length (varint_nat (unat v))"
  using UnsafeVarint_nat [of v] by (metis length_map)

lemma length_varint_nat:
  "2 ^ k \<le> n \<Longrightarrow> n < 2 ^ Suc k \<Longrightarrow> length (varint_nat n) = k div 7 + 1"
proof (induction k arbitrary: n rule: less_induct)
  case (less k)
  show ?case
  proof (cases "n < 128")
    case True
    then have "(2 :: nat) ^ k < 2 ^ 7" using less.prems by simp
    then have "k < 7" by (rule power_less_imp_less_exp [rotated]) simp
    then show ?thesis using True by (simp add: varint_nat.simps)
  next
    case False
    then have "(2 :: nat) ^ 7 < 2 ^ Suc k" using less.prems by simp
    then have "7 < Suc k" by (rule power_less_imp_less_exp [rotated]) simp
    then obtain j where k: "k = j + 7" by (metis add.commute le_Suc_ex less_Suc_eq_le)
    have "2 ^ j * 128 \<le> n" "n < 2 ^ Suc j * 128"
      using less.prems unfolding k by (simp_all add: power_add)
    then have "2 ^ j \<le> n div 128" "n div 128 < 2 ^ Suc j"
      by (simp_all add: less_eq_div_iff_mult_less_eq div_less_iff_less_mult)
    then have "length (varint_nat (n div 128)) = j div 7 + 1"
      using k by (intro less.IH) simp_all
    then show ?thesis using False k by (simp add: varint_nat.simps [of n])
  qed
qed

lemma countl_zero_log:
  "1 \<le> n \<Longrightarrow> n < 2 ^ w \<Longrightarrow> countl_zero w n < w \<and>
     2 ^ (w - 1 - countl_zero w n) \<le> n \<and> n < 2 ^ Suc (w - 1 - countl_zero w n)"
proof (induction w)
  case (Suc w)
  show ?case
  proof (cases "2 ^ w \<le> n")
    case False
    then have "countl_zero w n < w \<and> 2 ^ (w - 1 - countl_zero w n) \<le> n \<and> n < 2 ^ Suc (w - 1 - countl_zero w n)"
      using Suc by simp
    then show ?thesis using False by simp
  qed (use Suc in simp)
qed simp

lemma or_one_pos: "1 \<le> (n :: nat) OR 1"
  unfolding or_one_eq by (cases "n = 0") (simp, linarith)

lemma or_one_bounds:
  assumes "2 ^ k \<le> (n :: nat)" "n < 2 ^ Suc k"
  shows "2 ^ k \<le> n OR 1" "n OR 1 < 2 ^ Suc k"
proof -
  have "n OR 1 = n + of_bool (even n)" by (rule or_one_eq)
  then have eq: "n OR 1 = n + (if even n then 1 else 0)" by (simp only: of_bool_def)
  show "2 ^ k \<le> n OR 1" using assms(1) eq by simp
  have "n + 1 \<noteq> 2 ^ Suc k" if "even n"
    using that by (metis even_add even_power odd_one zero_less_Suc even_numeral)
  then show "n OR 1 < 2 ^ Suc k" using assms(2) eq by auto
qed

lemma length_varint_or_one: "length (varint_nat (n OR 1)) = length (varint_nat n)"
proof (cases "n = 0")
  case False
  have "n < 2 ^ n" by (rule less_exp)
  then have k: "2 ^ (n - 1 - countl_zero n n) \<le> n" "n < 2 ^ Suc (n - 1 - countl_zero n n)"
    using countl_zero_log [of n n] False by auto
  show ?thesis
    using length_varint_nat [OF k] length_varint_nat [OF or_one_bounds [OF k]] by simp
qed (simp add: varint_nat.simps)

lemma size_formula: "k < 64 \<Longrightarrow> (k * 9 + 73) div 64 = k div 7 + (1 :: nat)"
proof -
  assume "k < 64"
  have "\<forall>k \<in> set [0..<64]. (k * 9 + 73) div 64 = k div 7 + (1 :: nat)"
    by code_simp
  with \<open>k < 64\<close> show ?thesis by simp
qed

lemma VarintSize64_length: "VarintSize64 v = length (UnsafeVarint v)"
proof -
  let ?n = "unat (v OR 1)"
  have n: "?n = unat v OR 1" by (simp add: unsigned_or_eq)
  have "1 \<le> ?n" unfolding n by (rule or_one_pos)
  moreover have "?n < 2 ^ 64" using unsigned_less [of "v OR 1"] by simp
  ultimately have k: "countl_zero 64 ?n < 64" "2 ^ (63 - countl_zero 64 ?n) \<le> ?n"
    "?n < 2 ^ Suc (63 - countl_zero 64 ?n)"
    using countl_zero_log [of ?n 64] by simp_all
  have "VarintSize64 v = (63 - countl_zero 64 ?n) div 7 + 1"
    using size_formula [of "63 - countl_zero 64 ?n"] by (simp add: VarintSize64_def Let_def)
  also have "\<dots> = length (varint_nat ?n)" using length_varint_nat [OF k(2,3)] by simp
  finally show ?thesis by (simp only: n length_varint_or_one length_UnsafeVarint)
qed

lemma unat_ucast_32_64: "unat (ucast (v :: u32) :: u64) = unat v"
proof -
  have "unat v < 2 ^ 32" using unsigned_less [of v, where 'a = nat] by simp
  then show ?thesis by (simp add: unsigned_ucast_eq take_bit_eq_mod)
qed

lemma VarintSize32_length: "VarintSize32 v = length (UnsafeWriteSize v)"
proof -
  let ?n = "unat (v OR 1)"
  have n: "?n = unat v OR 1" by (simp add: unsigned_or_eq)
  have "1 \<le> ?n" unfolding n by (rule or_one_pos)
  moreover have "?n < 2 ^ 32" using unsigned_less [of "v OR 1"] by simp
  ultimately have k: "2 ^ (31 - countl_zero 32 ?n) \<le> ?n" "?n < 2 ^ Suc (31 - countl_zero 32 ?n)"
    using countl_zero_log [of ?n 32] by simp_all
  have "VarintSize32 v = (31 - countl_zero 32 ?n) div 7 + 1"
    using size_formula [of "31 - countl_zero 32 ?n"] by (simp add: VarintSize32_def Let_def)
  also have "\<dots> = length (varint_nat ?n)" using length_varint_nat [OF k] by simp
  also have "\<dots> = length (varint_nat (unat v))" by (simp only: n length_varint_or_one)
  finally show ?thesis by (simp add: UnsafeWriteSize_def length_UnsafeVarint unat_ucast_32_64)
qed

text \<open>
  What the library promises of the parts that are not in the headers: a string field in the wire
  format, the size of a packed field (an empty one is not written), and that unknown fields are
  written in as many bytes as their size says, none if there are none.
\<close>

definition pb_ok :: "pb_lib \<Rightarrow> bool" where
  "pb_ok lib \<longleftrightarrow>
     (\<forall>num s. WriteStringOutline lib num s = put_string num s) \<and>
     (\<forall>vs t. Int64SizeWithPackedTagSize lib vs t =
        (if vs = [] then (0, 0) else (t + LengthDelimitedSize (Int64Size vs), int (Int64Size vs)))) \<and>
     (\<forall>u. length (SerializeUnknownFields lib u) = UnknownFieldsSize lib u) \<and>
     SerializeUnknownFields lib [] = []"

lemma WriteSize_small: "n < 128 \<Longrightarrow> UnsafeWriteSize (of_nat n) = [of_nat n]"
proof -
  assume n: "n < 128"
  then have u: "unat (ucast (of_nat n :: u32) :: u64) = n"
    by (simp add: unat_ucast_32_64 unat_of_nat)
  then have "\<not> (ucast (of_nat n :: u32) :: u64) \<ge> 0x80"
    using n by (simp add: word_le_nat_alt)
  moreover have "(ucast (ucast (of_nat n :: u32) :: u64) :: byte) = of_nat n"
  proof -
    have "unat (ucast y :: byte) = n" if "unat y = n" for y :: u64
      using that n by (simp add: unsigned_ucast_eq take_bit_eq_mod)
    from this [OF u] show ?thesis
      using n by (intro word_unat_eq_iff [THEN iffD2]) (simp add: unat_of_nat)
  qed
  ultimately show ?thesis
    unfolding UnsafeWriteSize_def by (subst UnsafeVarint.simps) simp
qed

lemma WriteString_eq: "pb_ok lib \<Longrightarrow> WriteString lib = put_string"
  by (intro ext) (auto simp: WriteString_def put_string_def pb_ok_def WriteTag_def WriteSize_small)

lemma length_put_string:
  "length (put_string num s) = length (WriteTag num 2) + StringSize s"
  by (simp add: put_string_def StringSize_def LengthDelimitedSize_def VarintSize32_length)

lemma Int64Size_length: "Int64Size vs = length (concat (map UnsafeVarint vs))"
  by (simp add: Int64Size_def VarintSize64_length length_concat comp_def)

section \<open>The reference decoder\<close>

text \<open>
  A message on the wire is a sequence of fields; a field is a tag (field number and wire type) and
  its value. A variable-length integer has at most ten bytes.
\<close>

fun get_varint :: "nat \<Rightarrow> byte list \<Rightarrow> (nat \<times> byte list) option" where
  "get_varint k [] = None"
| "get_varint 0 (b # bs) = None"
| "get_varint (Suc k) (b # bs) =
     (if unat b < 128 then Some (unat b, bs)
      else case get_varint k bs of None \<Rightarrow> None
        | Some (n, rest) \<Rightarrow> Some (unat b - 128 + 128 * n, rest))"

definition get_bytes :: "nat \<Rightarrow> byte list \<Rightarrow> (byte list \<times> byte list) option" where
  "get_bytes n bs = (if length bs < n then None else Some (take n bs, drop n bs))"

definition get_field :: "byte list \<Rightarrow> ((nat \<times> wire_value) \<times> byte list) option" where
  "get_field bs =
     (case get_varint 10 bs of None \<Rightarrow> None
      | Some (tag, rest) \<Rightarrow>
          if tag div 8 = 0 then None
          else if tag mod 8 = 0 then
            map_option (\<lambda>(n, r). ((tag div 8, Varint n), r)) (get_varint 10 rest)
          else if tag mod 8 = 1 then
            map_option (\<lambda>(b, r). ((tag div 8, Fixed64 b), r)) (get_bytes 8 rest)
          else if tag mod 8 = 2 then
            (case get_varint 10 rest of None \<Rightarrow> None
             | Some (n, r) \<Rightarrow> map_option (\<lambda>(b, r'). ((tag div 8, LenDelim b), r')) (get_bytes n r))
          else if tag mod 8 = 5 then
            map_option (\<lambda>(b, r). ((tag div 8, Fixed32 b), r)) (get_bytes 4 rest)
          else None)"

lemma get_varint_shorter: "get_varint k bs = Some (n, r) \<Longrightarrow> length r < length bs"
  by (induction k bs arbitrary: n r rule: get_varint.induct)
    (auto split: if_splits option.splits simp: less_SucI)

lemma get_bytes_shorter: "get_bytes n bs = Some (b, r) \<Longrightarrow> length r \<le> length bs"
  by (auto simp: get_bytes_def split: if_splits)

lemma get_field_shorter: "get_field bs = Some (f, r) \<Longrightarrow> length r < length bs"
  by (auto simp: get_field_def split: option.splits if_splits
      dest!: get_varint_shorter get_bytes_shorter)

text \<open>The fields of a message.\<close>

type_synonym wire_field = "nat \<times> wire_value"

function get_fields :: "byte list \<Rightarrow> wire_field list option" where
  "get_fields bs =
     (if bs = [] then Some []
      else case get_field bs of None \<Rightarrow> None
        | Some (f, r) \<Rightarrow> map_option ((#) f) (get_fields r))"
  by auto
termination by (relation "measure length") (auto dest: get_field_shorter)

declare get_fields.simps [simp del]

function get_packed :: "byte list \<Rightarrow> nat list option" where
  "get_packed bs =
     (if bs = [] then Some []
      else case get_varint 10 bs of None \<Rightarrow> None
        | Some (n, r) \<Rightarrow> map_option ((#) n) (get_packed r))"
  by auto
termination by (relation "measure length") (auto dest: get_varint_shorter)

declare get_packed.simps [simp del]

section \<open>The decoder inverts the writers\<close>

lemma get_varint_nat:
  "length (varint_nat n) \<le> k \<Longrightarrow> map unat bs = varint_nat n \<Longrightarrow> get_varint k (bs @ rest) = Some (n, rest)"
proof (induction n arbitrary: k bs rule: varint_nat.induct)
  case (1 n)
  show ?case
  proof (cases "n < 128")
    case True
    then have v: "varint_nat n = [n]" by (simp add: varint_nat.simps)
    then obtain b where "bs = [b]" "unat b = n" using 1(3) by (cases bs) auto
    then show ?thesis using 1(2) v True by (cases k) simp_all
  next
    case False
    then have v: "varint_nat n = (n mod 128 + 128) # varint_nat (n div 128)" by (simp add: varint_nat.simps)
    then obtain b bs' where bs: "bs = b # bs'" "unat b = n mod 128 + 128" "map unat bs' = varint_nat (n div 128)"
      using 1(3) by (cases bs) auto
    obtain k' where k: "k = Suc k'" using 1(2) v by (cases k) auto
    then have "get_varint k' (bs' @ rest) = Some (n div 128, rest)"
      using 1(1) [OF False, of k' bs'] 1(2) v bs(3) by simp
    then show ?thesis using k bs by simp
  qed
qed

lemma length_UnsafeVarint_le: "length (UnsafeVarint v) \<le> 10"
proof -
  let ?l = "63 - countl_zero 64 (unat (v OR 1))"
  have "?l \<le> 63" by simp
  then have "(?l * 9 + 73) div 64 \<le> (63 * 9 + 73) div 64"
    by (intro div_le_mono add_mono mult_mono) simp_all
  then show ?thesis by (simp add: VarintSize64_length [symmetric] VarintSize64_def Let_def)
qed

lemma get_varint_UnsafeVarint: "get_varint 10 (UnsafeVarint v @ rest) = Some (unat v, rest)"
  by (rule get_varint_nat) (use length_UnsafeVarint_le [of v] UnsafeVarint_nat [of v] in
      \<open>simp_all add: length_UnsafeVarint\<close>)

lemma get_varint_size:
  "n < 2 ^ 32 \<Longrightarrow> get_varint 10 (UnsafeWriteSize (of_nat n) @ rest) = Some (n, rest)"
  by (simp add: UnsafeWriteSize_def get_varint_UnsafeVarint unat_ucast_32_64 unat_of_nat)

lemma get_packed_UnsafeVarint: "get_packed (concat (map UnsafeVarint vs)) = Some (map unat vs)"
proof (induction vs)
  case (Cons v vs)
  have "UnsafeVarint v \<noteq> []" by (subst UnsafeVarint.simps) simp
  then show ?case
    using Cons by (simp add: get_packed.simps [of "UnsafeVarint v @ _"] get_varint_UnsafeVarint)
qed (simp add: get_packed.simps)

text \<open>The tags of the fields 1 to 15 take one byte.\<close>

lemma WriteTag_small:
  assumes "num \<in> {1, 2, 3}" "wt \<in> {0, 2}"
  shows "length (WriteTag num wt) = 1" "get_varint 10 (WriteTag num wt @ rest) = Some (unat num * 8 + unat wt, rest)"
proof -
  have u: "unat (push_bit 3 num OR wt) = unat num * 8 + unat wt" using assms by auto
  show "get_varint 10 (WriteTag num wt @ rest) = Some (unat num * 8 + unat wt, rest)"
    unfolding WriteTag_def get_varint_UnsafeVarint unat_ucast_32_64 u by simp
  have "unat num * 8 + unat wt < 128" using assms by auto
  then show "length (WriteTag num wt) = 1"
    unfolding WriteTag_def length_UnsafeVarint unat_ucast_32_64 u by (simp add: varint_nat.simps)
qed

lemma get_field_put_string:
  assumes "num \<in> {1, 2, 3}" "length s < 2 ^ 32"
  shows "get_field (put_string num s @ rest) = Some ((unat num, LenDelim s), rest)"
proof -
  have "get_varint 10 (put_string num s @ rest) = Some (unat num * 8 + 2, UnsafeWriteSize (of_nat (length s)) @ s @ rest)"
    using WriteTag_small(2) [OF assms(1), of 2] by (simp add: put_string_def)
  moreover have "unat num \<noteq> 0" using assms(1) by auto
  moreover have "(unat num * 8 + 2) div 8 = unat num" "(unat num * 8 + 2) mod 8 = 2" by presburger+
  ultimately show ?thesis
    using get_varint_size [OF assms(2), of "s @ rest"]
    by (simp add: get_field_def get_bytes_def)
qed

lemma WriteInt64Packed_put_string:
  assumes "byte_size = int (Int64Size vs)"
  shows "WriteInt64Packed num vs byte_size = put_string num (concat (map UnsafeVarint vs))"
  using assms by (simp add: WriteInt64Packed_def put_string_def Int64Size_length)

lemma length_WriteBool:
  "num \<in> {1, 2, 3} \<Longrightarrow> length (WriteBoolToArray num v) = 2"
  using WriteTag_small(1) [of num 0] by (simp add: WriteBoolToArray_def)

lemma get_field_WriteBool:
  assumes "num \<in> {1, 2, 3}"
  shows "get_field (WriteBoolToArray num v @ rest) = Some ((unat num, Varint (if v then 1 else 0)), rest)"
proof -
  have "get_varint 10 (WriteBoolToArray num v @ rest) = Some (unat num * 8, (if v then 1 else 0) # rest)"
    using WriteTag_small(2) [OF assms(1), of 0] by (simp add: WriteBoolToArray_def)
  moreover have "unat num \<noteq> 0" using assms(1) by auto
  moreover have "get_varint 10 ((if v then 1 else 0) # rest) = Some ((if v then 1 else 0), rest)"
    by (simp add: eval_nat_numeral)
  ultimately show ?thesis by (simp add: get_field_def)
qed

section \<open>Writing and reading sequences of fields\<close>

text \<open>\<open>encodes bs fs\<close>: the bytes \<open>bs\<close> are read as the fields \<open>fs\<close>, whatever follows them.\<close>

definition encodes :: "byte list \<Rightarrow> wire_field list \<Rightarrow> bool" where
  "encodes bs fs \<longleftrightarrow> (\<forall>rest. get_fields (bs @ rest) = map_option ((@) fs) (get_fields rest))"

lemma append_Nil_fun: "(@) [] = (\<lambda>x. x)"
  by (simp add: fun_eq_iff)

lemma encodes_Nil [simp, intro]: "encodes [] []"
  by (simp add: encodes_def option.map_ident append_Nil_fun)

lemma encodes_append [intro]: "encodes a fs \<Longrightarrow> encodes b gs \<Longrightarrow> encodes (a @ b) (fs @ gs)"
proof -
  assume "encodes a fs" "encodes b gs"
  then have "get_fields ((a @ b) @ rest) = map_option ((@) (fs @ gs)) (get_fields rest)" for rest
    by (cases "get_fields rest") (simp_all add: encodes_def)
  then show ?thesis by (simp add: encodes_def)
qed

lemma encodes_get_fields: "encodes bs fs \<Longrightarrow> get_fields bs = Some fs"
  unfolding encodes_def by (metis append_Nil2 get_fields.simps option.simps(9))

lemma encodes_field:
  assumes "\<And>rest. get_field (bs @ rest) = Some ((num, v), rest)" "bs \<noteq> []"
  shows "encodes bs [(num, v)]"
  unfolding encodes_def
proof
  fix rest
  show "get_fields (bs @ rest) = map_option ((@) [(num, v)]) (get_fields rest)"
    using assms by (subst get_fields.simps, cases "get_fields rest") simp_all
qed

lemma WriteTag_nonempty: "WriteTag num wt \<noteq> []"
  unfolding WriteTag_def by (subst UnsafeVarint.simps) simp

lemma encodes_put_string:
  "num \<in> {1, 2, 3} \<Longrightarrow> length s < 2 ^ 32 \<Longrightarrow>
     encodes (put_string num s) [(unat num, LenDelim s)]"
  by (rule encodes_field [OF get_field_put_string]) (simp_all add: put_string_def WriteTag_nonempty)

lemma encodes_WriteBool:
  "num \<in> {1, 2, 3} \<Longrightarrow>
     encodes (WriteBoolToArray num v) [(unat num, Varint (if v then 1 else 0))]"
  by (rule encodes_field [OF get_field_WriteBool]) (simp_all add: WriteBoolToArray_def)

lemma encodes_put_strings:
  "num \<in> {1, 2, 3} \<Longrightarrow> \<forall>s \<in> set ss. length s < 2 ^ 32 \<Longrightarrow>
     encodes (concat (map (put_string num) ss)) (map (\<lambda>s. (unat num, LenDelim s)) ss)"
proof (induction ss)
  case (Cons s ss)
  have "encodes (put_string num s @ concat (map (put_string num) ss))
      ([(unat num, LenDelim s)] @ map (\<lambda>s. (unat num, LenDelim s)) ss)"
    using Cons by (intro encodes_append encodes_put_string) simp_all
  then show ?case by simp
qed simp

lemma encodes_if: "(c \<Longrightarrow> encodes a fs) \<Longrightarrow> encodes (if c then a else []) (if c then fs else [])"
  by simp

text \<open>Applying the fields one after the other; a field may be rejected.\<close>

fun fold_fields :: "(wire_field \<Rightarrow> 'm \<Rightarrow> 'm option) \<Rightarrow> wire_field list \<Rightarrow> 'm \<Rightarrow> 'm option" where
  "fold_fields f [] m = Some m"
| "fold_fields f (x # xs) m = Option.bind (f x m) (fold_fields f xs)"

lemma fold_fields_append:
  "fold_fields f (xs @ ys) m = Option.bind (fold_fields f xs m) (fold_fields f ys)"
proof (induction xs arbitrary: m)
  case (Cons x xs)
  then show ?case by (cases "f x m") simp_all
qed simp

definition parse_message :: "(wire_field \<Rightarrow> 'm \<Rightarrow> 'm option) \<Rightarrow> 'm \<Rightarrow> byte list \<Rightarrow> 'm option" where
  "parse_message f m0 bs = Option.bind (get_fields bs) (\<lambda>fs. fold_fields f fs m0)"

lemma parse_message_encodes: "encodes bs fs \<Longrightarrow> parse_message f m0 bs = fold_fields f fs m0"
  by (simp add: parse_message_def encodes_get_fields)

section \<open>Presence bits\<close>

lemma CheckHasBit_0 [simp]: "\<not> CheckHasBit 0 m"
  by (simp add: CheckHasBit_def)

lemma no_batch:
  "\<not> BatchCheckHasBit b 3 \<Longrightarrow> \<not> CheckHasBit b 1 \<and> \<not> CheckHasBit b 2"
  "\<not> BatchCheckHasBit b 7 \<Longrightarrow> \<not> CheckHasBit b 1 \<and> \<not> CheckHasBit b 2 \<and> \<not> CheckHasBit b 4"
proof -
  have sub: "b AND m = 0" if "b AND n = 0" "m = n AND m" for m n :: u32
  proof -
    have "b AND m = (b AND n) AND m" using that(2) by (simp add: and.assoc)
    then show ?thesis using that(1) by simp
  qed
  show "\<not> BatchCheckHasBit b 3 \<Longrightarrow> \<not> CheckHasBit b 1 \<and> \<not> CheckHasBit b 2"
    "\<not> BatchCheckHasBit b 7 \<Longrightarrow> \<not> CheckHasBit b 1 \<and> \<not> CheckHasBit b 2 \<and> \<not> CheckHasBit b 4"
    using sub [of 3 1] sub [of 3 2] sub [of 7 1] sub [of 7 2] sub [of 7 4]
    by (simp_all add: BatchCheckHasBit_def CheckHasBit_def)
qed

lemma CheckHasBit_or: "CheckHasBit (a OR b) m \<longleftrightarrow> CheckHasBit a m \<or> CheckHasBit b m"
  by (metis (no_types, lifting) CheckHasBit_def and.commute bit.conj_disj_distrib or_eq_0_iff)

lemma CheckHasBit_set [simp]:
  "CheckHasBit (SetHasBit b m) k \<longleftrightarrow> CheckHasBit b k \<or> CheckHasBit m k"
  by (simp add: SetHasBit_def CheckHasBit_or)

lemma CheckHasBit_masks [simp]:
  "CheckHasBit 1 1" "CheckHasBit 2 2" "CheckHasBit 4 4" "\<not> CheckHasBit 1 2" "\<not> CheckHasBit 1 4"
  "\<not> CheckHasBit 2 1" "\<not> CheckHasBit 2 4" "\<not> CheckHasBit 4 1" "\<not> CheckHasBit 4 2"
  by (simp_all add: CheckHasBit_def)

section \<open>Rules for the messages\<close>

lemma SetHasBit_twice [simp]: "SetHasBit (SetHasBit b m) m = SetHasBit b m"
  by (simp add: SetHasBit_def or.assoc)

lemma pb_ok_string_size:
  "pb_ok lib \<Longrightarrow> num \<in> {1, 2, 3} \<Longrightarrow> length (WriteString lib num s) = 1 + StringSize s"
  using WriteTag_small(1) [of num 2] by (simp add: WriteString_eq length_put_string)

lemma pb_ok_strings_size:
  "pb_ok lib \<Longrightarrow> num \<in> {1, 2, 3} \<Longrightarrow>
     length (concat (map (WriteString lib num) ss)) = 1 * length ss + (\<Sum>s\<leftarrow>ss. StringSize s)"
  by (induction ss) (simp_all add: pb_ok_string_size)

lemma pb_ok_packed:
  "pb_ok lib \<Longrightarrow> Int64SizeWithPackedTagSize lib vs t =
     (if vs = [] then (0, 0) else (t + LengthDelimitedSize (Int64Size vs), int (Int64Size vs)))"
  by (simp add: pb_ok_def)

lemma pb_ok_packed_size:
  "num \<in> {1, 2, 3} \<Longrightarrow>
     length (WriteInt64Packed num vs (int (Int64Size vs))) = 1 + LengthDelimitedSize (Int64Size vs)"
  using WriteTag_small(1) [of num 2]
  by (simp add: WriteInt64Packed_put_string length_put_string StringSize_def Int64Size_length)

lemma Int64Size_pos: "vs \<noteq> [] \<Longrightarrow> 0 < Int64Size vs"
proof (cases vs)
  case (Cons v vs')
  have "UnsafeVarint v \<noteq> []" by (subst UnsafeVarint.simps) simp
  then show ?thesis using Cons by (simp add: Int64Size_length)
qed simp

lemma pb_ok_unknown:
  "pb_ok lib \<Longrightarrow> length (SerializeUnknownFields lib u) = UnknownFieldsSize lib u"
  by (simp add: pb_ok_def)

lemmas message_size = pb_ok_string_size pb_ok_strings_size pb_ok_packed_size length_WriteBool Int64Size_pos

lemma encodes_string_1: "length s < 2 ^ 32 \<Longrightarrow> encodes (put_string 1 s) [(1, LenDelim s)]"
  and encodes_string_2: "length s < 2 ^ 32 \<Longrightarrow> encodes (put_string 2 s) [(2, LenDelim s)]"
  and encodes_string_3: "length s < 2 ^ 32 \<Longrightarrow> encodes (put_string 3 s) [(3, LenDelim s)]"
  using encodes_put_string [of 1 s] encodes_put_string [of 2 s] encodes_put_string [of 3 s] by simp_all

lemma encodes_strings_1: "\<forall>s \<in> set ss. length s < 2 ^ 32 \<Longrightarrow>
    encodes (concat (map (put_string 1) ss)) (map (\<lambda>s. (1, LenDelim s)) ss)"
  and encodes_strings_2: "\<forall>s \<in> set ss. length s < 2 ^ 32 \<Longrightarrow>
    encodes (concat (map (put_string 2) ss)) (map (\<lambda>s. (2, LenDelim s)) ss)"
  and encodes_strings_3: "\<forall>s \<in> set ss. length s < 2 ^ 32 \<Longrightarrow>
    encodes (concat (map (put_string 3) ss)) (map (\<lambda>s. (3, LenDelim s)) ss)"
  using encodes_put_strings [of 1 ss] encodes_put_strings [of 2 ss] encodes_put_strings [of 3 ss] by simp_all

lemma encodes_true_1: "b \<Longrightarrow> encodes (WriteBoolToArray 1 b) [(1, Varint 1)]"
  using encodes_WriteBool [of 1 b] by simp

lemmas encodes_fields = encodes_string_1 encodes_string_2 encodes_string_3 encodes_strings_1
  encodes_strings_2 encodes_strings_3 encodes_true_1 encodes_Nil

end
