(* ===== verification/Messages_C.thy ===== *)
theory Messages_C
  imports Wire
begin

text \<open>
  The messages the client sends, as \<open>Server/Protocol.pb.cc\<close> implements them: the fields with their
  presence bits, the accessors, \<open>Clear\<close>, \<open>_InternalSerialize\<close>, \<open>ByteSizeLong\<close>, \<open>MergeImpl\<close>, \<open>CopyFrom\<close>,
  \<open>InternalSwap\<close> and the parse table. (\<open>Client/Protocol.pb.cc\<close> is the same file.) \<open>_field\<close> and \<open>_parse\<close>
  are the reference decoder with that table; \<open>valid\<close> is the library's check for well-formed UTF-8.

  For each message the theory shows that the accessors keep the presence bits consistent, that
  \<open>ByteSizeLong\<close> is the number of bytes written, and that decoding what was written gives the
  same field values.
\<close>

unbundle bit_operations_syntax

section \<open>C_LOGIN\<close>

record C_LOGIN =
  C_LOGIN_has_bits :: u32
  C_LOGIN_id :: "byte list"
  C_LOGIN_pssd :: "byte list"
  C_LOGIN_unknown :: unknown_fields

definition C_LOGIN_new :: C_LOGIN where
  "C_LOGIN_new = \<lparr>C_LOGIN_has_bits = 0, C_LOGIN_id = [], C_LOGIN_pssd = [],
     C_LOGIN_unknown = []\<rparr>"

definition C_LOGIN_set_id :: "byte list \<Rightarrow> C_LOGIN \<Rightarrow> C_LOGIN" where
  "C_LOGIN_set_id value this =
     this\<lparr>C_LOGIN_has_bits := SetHasBit (C_LOGIN_has_bits this) 1, C_LOGIN_id := value\<rparr>"

definition C_LOGIN_set_pssd :: "byte list \<Rightarrow> C_LOGIN \<Rightarrow> C_LOGIN" where
  "C_LOGIN_set_pssd value this =
     this\<lparr>C_LOGIN_has_bits := SetHasBit (C_LOGIN_has_bits this) 2, C_LOGIN_pssd := value\<rparr>"

definition C_LOGIN_Clear :: "C_LOGIN \<Rightarrow> C_LOGIN" where
  "C_LOGIN_Clear this =
     (let bits = C_LOGIN_has_bits this in
      this\<lparr>C_LOGIN_id := (if BatchCheckHasBit bits 3 \<and> CheckHasBit bits 1 then [] else C_LOGIN_id this),
        C_LOGIN_pssd := (if BatchCheckHasBit bits 3 \<and> CheckHasBit bits 2 then [] else C_LOGIN_pssd this),
        C_LOGIN_has_bits := 0,
        C_LOGIN_unknown := []\<rparr>)"

definition C_LOGIN_InternalSerialize :: "pb_lib \<Rightarrow> C_LOGIN \<Rightarrow> byte list" where
  "C_LOGIN_InternalSerialize lib this =
     (let bits = C_LOGIN_has_bits this in
      (if CheckHasBit bits 1 then if C_LOGIN_id this \<noteq> [] then WriteString lib 1 (C_LOGIN_id this) else [] else []) @
      (if CheckHasBit bits 2 then if C_LOGIN_pssd this \<noteq> [] then WriteString lib 2 (C_LOGIN_pssd this) else [] else []) @
      (if C_LOGIN_unknown this \<noteq> [] then SerializeUnknownFields lib (C_LOGIN_unknown this) else []))"

definition C_LOGIN_ByteSizeLong :: "pb_lib \<Rightarrow> C_LOGIN \<Rightarrow> nat" where
  "C_LOGIN_ByteSizeLong lib this =
     (let bits = C_LOGIN_has_bits this in
      (if BatchCheckHasBit bits 3 then
         (if CheckHasBit bits 1 then if C_LOGIN_id this \<noteq> [] then 1 + StringSize (C_LOGIN_id this) else 0 else 0) +
         (if CheckHasBit bits 2 then if C_LOGIN_pssd this \<noteq> [] then 1 + StringSize (C_LOGIN_pssd this) else 0 else 0)
       else 0) +
      (if C_LOGIN_unknown this \<noteq> [] then UnknownFieldsSize lib (C_LOGIN_unknown this) else 0))"

definition C_LOGIN_MergeImpl :: "C_LOGIN \<Rightarrow> C_LOGIN \<Rightarrow> C_LOGIN" where
  "C_LOGIN_MergeImpl to from =
     (let bits = C_LOGIN_has_bits from in
      to\<lparr>C_LOGIN_id := (if BatchCheckHasBit bits 3 \<and> CheckHasBit bits 1 \<and> C_LOGIN_id from \<noteq> [] then C_LOGIN_id from else C_LOGIN_id to),
        C_LOGIN_pssd := (if BatchCheckHasBit bits 3 \<and> CheckHasBit bits 2 \<and> C_LOGIN_pssd from \<noteq> [] then C_LOGIN_pssd from else C_LOGIN_pssd to),
        C_LOGIN_has_bits := C_LOGIN_has_bits to OR bits,
        C_LOGIN_unknown := C_LOGIN_unknown to @ C_LOGIN_unknown from\<rparr>)"

definition C_LOGIN_CopyFrom :: "bool \<Rightarrow> C_LOGIN \<Rightarrow> C_LOGIN \<Rightarrow> C_LOGIN" where
  "C_LOGIN_CopyFrom same this from = (if same then this else C_LOGIN_MergeImpl (C_LOGIN_Clear this) from)"

definition C_LOGIN_InternalSwap :: "C_LOGIN \<Rightarrow> C_LOGIN \<Rightarrow> C_LOGIN \<times> C_LOGIN" where
  "C_LOGIN_InternalSwap this other =
     (this\<lparr>C_LOGIN_unknown := C_LOGIN_unknown other, C_LOGIN_has_bits := C_LOGIN_has_bits other, C_LOGIN_id := C_LOGIN_id other, C_LOGIN_pssd := C_LOGIN_pssd other\<rparr>,
      other\<lparr>C_LOGIN_unknown := C_LOGIN_unknown this, C_LOGIN_has_bits := C_LOGIN_has_bits this, C_LOGIN_id := C_LOGIN_id this, C_LOGIN_pssd := C_LOGIN_pssd this\<rparr>)"

text \<open>The parse table: the field numbers, their types and what a field does to the message.\<close>

definition C_LOGIN_field :: "(byte list \<Rightarrow> bool) \<Rightarrow> wire_field \<Rightarrow> C_LOGIN \<Rightarrow> C_LOGIN option" where
  "C_LOGIN_field valid f this =
     (case f of (num, v) \<Rightarrow>
        if num = 1 then
          (case v of LenDelim s \<Rightarrow> if valid s then Some (C_LOGIN_set_id s this) else None
           | _ \<Rightarrow> Some (this\<lparr>C_LOGIN_unknown := C_LOGIN_unknown this @ [(num, v)]\<rparr>))
        else if num = 2 then
          (case v of LenDelim s \<Rightarrow> if valid s then Some (C_LOGIN_set_pssd s this) else None
           | _ \<Rightarrow> Some (this\<lparr>C_LOGIN_unknown := C_LOGIN_unknown this @ [(num, v)]\<rparr>))
        else Some (this\<lparr>C_LOGIN_unknown := C_LOGIN_unknown this @ [(num, v)]\<rparr>))"

definition C_LOGIN_parse :: "(byte list \<Rightarrow> bool) \<Rightarrow> byte list \<Rightarrow> C_LOGIN option" where
  "C_LOGIN_parse valid = parse_message (C_LOGIN_field valid) C_LOGIN_new"

definition C_LOGIN_wf :: "C_LOGIN \<Rightarrow> bool" where
  [inv_defs]: "C_LOGIN_wf m \<longleftrightarrow>
     (\<not> CheckHasBit (C_LOGIN_has_bits m) 1 \<longrightarrow> C_LOGIN_id m = []) \<and>
     (\<not> CheckHasBit (C_LOGIN_has_bits m) 2 \<longrightarrow> C_LOGIN_pssd m = [])"

lemmas C_LOGIN_set_defs = C_LOGIN_set_id_def C_LOGIN_set_pssd_def

lemma C_LOGIN_wf_ops:
  "C_LOGIN_wf C_LOGIN_new"
  "C_LOGIN_wf m \<Longrightarrow> C_LOGIN_wf (C_LOGIN_set_id x1 m)"
  "C_LOGIN_wf m \<Longrightarrow> C_LOGIN_wf (C_LOGIN_set_pssd x2 m)"
  "C_LOGIN_wf m \<Longrightarrow> C_LOGIN_wf m' \<Longrightarrow> C_LOGIN_wf (C_LOGIN_MergeImpl m m')"
  by (auto simp: C_LOGIN_wf_def C_LOGIN_new_def C_LOGIN_set_defs C_LOGIN_MergeImpl_def Let_def CheckHasBit_or)

lemma C_LOGIN_Clear_new: "C_LOGIN_wf m \<Longrightarrow> C_LOGIN_Clear m = C_LOGIN_new"
  using no_batch [of "C_LOGIN_has_bits m"]
  by (auto simp: C_LOGIN_wf_def C_LOGIN_Clear_def C_LOGIN_new_def Let_def)

lemma C_LOGIN_copy: "C_LOGIN_wf m \<Longrightarrow> C_LOGIN_wf m' \<Longrightarrow> C_LOGIN_CopyFrom False m m' = m'"
  using no_batch [of "C_LOGIN_has_bits m'"]
  by (cases m') (auto simp: C_LOGIN_CopyFrom_def C_LOGIN_Clear_new C_LOGIN_MergeImpl_def C_LOGIN_new_def C_LOGIN_wf_def Let_def)

lemma C_LOGIN_swap: "C_LOGIN_InternalSwap a b = (b, a)"
  by (simp add: C_LOGIN_InternalSwap_def)

lemma C_LOGIN_size: "pb_ok lib \<Longrightarrow> C_LOGIN_ByteSizeLong lib m = length (C_LOGIN_InternalSerialize lib m)"
  using no_batch [of "C_LOGIN_has_bits m"]
  by (auto simp: C_LOGIN_ByteSizeLong_def C_LOGIN_InternalSerialize_def Let_def message_size pb_ok_unknown)

lemma C_LOGIN_roundtrip:
  assumes lib: "pb_ok lib" and wf: "C_LOGIN_wf m" "C_LOGIN_unknown m = []"
    and ok: "valid (C_LOGIN_id m)" "length (C_LOGIN_id m) < 2 ^ 32"
      "valid (C_LOGIN_pssd m)" "length (C_LOGIN_pssd m) < 2 ^ 32"
  shows "\<exists>r. C_LOGIN_parse valid (C_LOGIN_InternalSerialize lib m) = Some r \<and> C_LOGIN_wf r \<and> C_LOGIN_unknown r = [] \<and>
    C_LOGIN_id r = C_LOGIN_id m \<and> C_LOGIN_pssd r = C_LOGIN_pssd m"
proof -
  let ?fs = "(if CheckHasBit (C_LOGIN_has_bits m) 1 then if C_LOGIN_id m \<noteq> [] then [(1, LenDelim (C_LOGIN_id m))] else [] else []) @
     (if CheckHasBit (C_LOGIN_has_bits m) 2 then if C_LOGIN_pssd m \<noteq> [] then [(2, LenDelim (C_LOGIN_pssd m))] else [] else []) @ []"
  have "encodes (C_LOGIN_InternalSerialize lib m) ?fs"
    unfolding C_LOGIN_InternalSerialize_def Let_def WriteString_eq [OF lib] wf(2)
    by (intro encodes_append encodes_if encodes_fields) (use ok in auto)
  then have parse: "C_LOGIN_parse valid (C_LOGIN_InternalSerialize lib m) = fold_fields (C_LOGIN_field valid) ?fs C_LOGIN_new"
    unfolding C_LOGIN_parse_def by (simp only: parse_message_encodes)
  have "\<exists>r. fold_fields (C_LOGIN_field valid) ?fs C_LOGIN_new = Some r \<and> C_LOGIN_wf r \<and> C_LOGIN_unknown r = [] \<and> C_LOGIN_id r = C_LOGIN_id m \<and> C_LOGIN_pssd r = C_LOGIN_pssd m"
    using wf ok by (auto simp: fold_fields_append C_LOGIN_field_def C_LOGIN_new_def C_LOGIN_set_defs C_LOGIN_wf_def)
  then show ?thesis unfolding parse .
qed

section \<open>C_REGISTER\<close>

record C_REGISTER =
  C_REGISTER_has_bits :: u32
  C_REGISTER_id :: "byte list"
  C_REGISTER_pssd :: "byte list"
  C_REGISTER_unknown :: unknown_fields

definition C_REGISTER_new :: C_REGISTER where
  "C_REGISTER_new = \<lparr>C_REGISTER_has_bits = 0, C_REGISTER_id = [], C_REGISTER_pssd = [],
     C_REGISTER_unknown = []\<rparr>"

definition C_REGISTER_set_id :: "byte list \<Rightarrow> C_REGISTER \<Rightarrow> C_REGISTER" where
  "C_REGISTER_set_id value this =
     this\<lparr>C_REGISTER_has_bits := SetHasBit (C_REGISTER_has_bits this) 1, C_REGISTER_id := value\<rparr>"

definition C_REGISTER_set_pssd :: "byte list \<Rightarrow> C_REGISTER \<Rightarrow> C_REGISTER" where
  "C_REGISTER_set_pssd value this =
     this\<lparr>C_REGISTER_has_bits := SetHasBit (C_REGISTER_has_bits this) 2, C_REGISTER_pssd := value\<rparr>"

definition C_REGISTER_Clear :: "C_REGISTER \<Rightarrow> C_REGISTER" where
  "C_REGISTER_Clear this =
     (let bits = C_REGISTER_has_bits this in
      this\<lparr>C_REGISTER_id := (if BatchCheckHasBit bits 3 \<and> CheckHasBit bits 1 then [] else C_REGISTER_id this),
        C_REGISTER_pssd := (if BatchCheckHasBit bits 3 \<and> CheckHasBit bits 2 then [] else C_REGISTER_pssd this),
        C_REGISTER_has_bits := 0,
        C_REGISTER_unknown := []\<rparr>)"

definition C_REGISTER_InternalSerialize :: "pb_lib \<Rightarrow> C_REGISTER \<Rightarrow> byte list" where
  "C_REGISTER_InternalSerialize lib this =
     (let bits = C_REGISTER_has_bits this in
      (if CheckHasBit bits 1 then if C_REGISTER_id this \<noteq> [] then WriteString lib 1 (C_REGISTER_id this) else [] else []) @
      (if CheckHasBit bits 2 then if C_REGISTER_pssd this \<noteq> [] then WriteString lib 2 (C_REGISTER_pssd this) else [] else []) @
      (if C_REGISTER_unknown this \<noteq> [] then SerializeUnknownFields lib (C_REGISTER_unknown this) else []))"

definition C_REGISTER_ByteSizeLong :: "pb_lib \<Rightarrow> C_REGISTER \<Rightarrow> nat" where
  "C_REGISTER_ByteSizeLong lib this =
     (let bits = C_REGISTER_has_bits this in
      (if BatchCheckHasBit bits 3 then
         (if CheckHasBit bits 1 then if C_REGISTER_id this \<noteq> [] then 1 + StringSize (C_REGISTER_id this) else 0 else 0) +
         (if CheckHasBit bits 2 then if C_REGISTER_pssd this \<noteq> [] then 1 + StringSize (C_REGISTER_pssd this) else 0 else 0)
       else 0) +
      (if C_REGISTER_unknown this \<noteq> [] then UnknownFieldsSize lib (C_REGISTER_unknown this) else 0))"

definition C_REGISTER_MergeImpl :: "C_REGISTER \<Rightarrow> C_REGISTER \<Rightarrow> C_REGISTER" where
  "C_REGISTER_MergeImpl to from =
     (let bits = C_REGISTER_has_bits from in
      to\<lparr>C_REGISTER_id := (if BatchCheckHasBit bits 3 \<and> CheckHasBit bits 1 \<and> C_REGISTER_id from \<noteq> [] then C_REGISTER_id from else C_REGISTER_id to),
        C_REGISTER_pssd := (if BatchCheckHasBit bits 3 \<and> CheckHasBit bits 2 \<and> C_REGISTER_pssd from \<noteq> [] then C_REGISTER_pssd from else C_REGISTER_pssd to),
        C_REGISTER_has_bits := C_REGISTER_has_bits to OR bits,
        C_REGISTER_unknown := C_REGISTER_unknown to @ C_REGISTER_unknown from\<rparr>)"

definition C_REGISTER_CopyFrom :: "bool \<Rightarrow> C_REGISTER \<Rightarrow> C_REGISTER \<Rightarrow> C_REGISTER" where
  "C_REGISTER_CopyFrom same this from = (if same then this else C_REGISTER_MergeImpl (C_REGISTER_Clear this) from)"

definition C_REGISTER_InternalSwap :: "C_REGISTER \<Rightarrow> C_REGISTER \<Rightarrow> C_REGISTER \<times> C_REGISTER" where
  "C_REGISTER_InternalSwap this other =
     (this\<lparr>C_REGISTER_unknown := C_REGISTER_unknown other, C_REGISTER_has_bits := C_REGISTER_has_bits other, C_REGISTER_id := C_REGISTER_id other, C_REGISTER_pssd := C_REGISTER_pssd other\<rparr>,
      other\<lparr>C_REGISTER_unknown := C_REGISTER_unknown this, C_REGISTER_has_bits := C_REGISTER_has_bits this, C_REGISTER_id := C_REGISTER_id this, C_REGISTER_pssd := C_REGISTER_pssd this\<rparr>)"

text \<open>The parse table: the field numbers, their types and what a field does to the message.\<close>

definition C_REGISTER_field :: "(byte list \<Rightarrow> bool) \<Rightarrow> wire_field \<Rightarrow> C_REGISTER \<Rightarrow> C_REGISTER option" where
  "C_REGISTER_field valid f this =
     (case f of (num, v) \<Rightarrow>
        if num = 1 then
          (case v of LenDelim s \<Rightarrow> if valid s then Some (C_REGISTER_set_id s this) else None
           | _ \<Rightarrow> Some (this\<lparr>C_REGISTER_unknown := C_REGISTER_unknown this @ [(num, v)]\<rparr>))
        else if num = 2 then
          (case v of LenDelim s \<Rightarrow> if valid s then Some (C_REGISTER_set_pssd s this) else None
           | _ \<Rightarrow> Some (this\<lparr>C_REGISTER_unknown := C_REGISTER_unknown this @ [(num, v)]\<rparr>))
        else Some (this\<lparr>C_REGISTER_unknown := C_REGISTER_unknown this @ [(num, v)]\<rparr>))"

definition C_REGISTER_parse :: "(byte list \<Rightarrow> bool) \<Rightarrow> byte list \<Rightarrow> C_REGISTER option" where
  "C_REGISTER_parse valid = parse_message (C_REGISTER_field valid) C_REGISTER_new"

definition C_REGISTER_wf :: "C_REGISTER \<Rightarrow> bool" where
  [inv_defs]: "C_REGISTER_wf m \<longleftrightarrow>
     (\<not> CheckHasBit (C_REGISTER_has_bits m) 1 \<longrightarrow> C_REGISTER_id m = []) \<and>
     (\<not> CheckHasBit (C_REGISTER_has_bits m) 2 \<longrightarrow> C_REGISTER_pssd m = [])"

lemmas C_REGISTER_set_defs = C_REGISTER_set_id_def C_REGISTER_set_pssd_def

lemma C_REGISTER_wf_ops:
  "C_REGISTER_wf C_REGISTER_new"
  "C_REGISTER_wf m \<Longrightarrow> C_REGISTER_wf (C_REGISTER_set_id x1 m)"
  "C_REGISTER_wf m \<Longrightarrow> C_REGISTER_wf (C_REGISTER_set_pssd x2 m)"
  "C_REGISTER_wf m \<Longrightarrow> C_REGISTER_wf m' \<Longrightarrow> C_REGISTER_wf (C_REGISTER_MergeImpl m m')"
  by (auto simp: C_REGISTER_wf_def C_REGISTER_new_def C_REGISTER_set_defs C_REGISTER_MergeImpl_def Let_def CheckHasBit_or)

lemma C_REGISTER_Clear_new: "C_REGISTER_wf m \<Longrightarrow> C_REGISTER_Clear m = C_REGISTER_new"
  using no_batch [of "C_REGISTER_has_bits m"]
  by (auto simp: C_REGISTER_wf_def C_REGISTER_Clear_def C_REGISTER_new_def Let_def)

lemma C_REGISTER_copy: "C_REGISTER_wf m \<Longrightarrow> C_REGISTER_wf m' \<Longrightarrow> C_REGISTER_CopyFrom False m m' = m'"
  using no_batch [of "C_REGISTER_has_bits m'"]
  by (cases m') (auto simp: C_REGISTER_CopyFrom_def C_REGISTER_Clear_new C_REGISTER_MergeImpl_def C_REGISTER_new_def C_REGISTER_wf_def Let_def)

lemma C_REGISTER_swap: "C_REGISTER_InternalSwap a b = (b, a)"
  by (simp add: C_REGISTER_InternalSwap_def)

lemma C_REGISTER_size: "pb_ok lib \<Longrightarrow> C_REGISTER_ByteSizeLong lib m = length (C_REGISTER_InternalSerialize lib m)"
  using no_batch [of "C_REGISTER_has_bits m"]
  by (auto simp: C_REGISTER_ByteSizeLong_def C_REGISTER_InternalSerialize_def Let_def message_size pb_ok_unknown)

lemma C_REGISTER_roundtrip:
  assumes lib: "pb_ok lib" and wf: "C_REGISTER_wf m" "C_REGISTER_unknown m = []"
    and ok: "valid (C_REGISTER_id m)" "length (C_REGISTER_id m) < 2 ^ 32"
      "valid (C_REGISTER_pssd m)" "length (C_REGISTER_pssd m) < 2 ^ 32"
  shows "\<exists>r. C_REGISTER_parse valid (C_REGISTER_InternalSerialize lib m) = Some r \<and> C_REGISTER_wf r \<and> C_REGISTER_unknown r = [] \<and>
    C_REGISTER_id r = C_REGISTER_id m \<and> C_REGISTER_pssd r = C_REGISTER_pssd m"
proof -
  let ?fs = "(if CheckHasBit (C_REGISTER_has_bits m) 1 then if C_REGISTER_id m \<noteq> [] then [(1, LenDelim (C_REGISTER_id m))] else [] else []) @
     (if CheckHasBit (C_REGISTER_has_bits m) 2 then if C_REGISTER_pssd m \<noteq> [] then [(2, LenDelim (C_REGISTER_pssd m))] else [] else []) @ []"
  have "encodes (C_REGISTER_InternalSerialize lib m) ?fs"
    unfolding C_REGISTER_InternalSerialize_def Let_def WriteString_eq [OF lib] wf(2)
    by (intro encodes_append encodes_if encodes_fields) (use ok in auto)
  then have parse: "C_REGISTER_parse valid (C_REGISTER_InternalSerialize lib m) = fold_fields (C_REGISTER_field valid) ?fs C_REGISTER_new"
    unfolding C_REGISTER_parse_def by (simp only: parse_message_encodes)
  have "\<exists>r. fold_fields (C_REGISTER_field valid) ?fs C_REGISTER_new = Some r \<and> C_REGISTER_wf r \<and> C_REGISTER_unknown r = [] \<and> C_REGISTER_id r = C_REGISTER_id m \<and> C_REGISTER_pssd r = C_REGISTER_pssd m"
    using wf ok by (auto simp: fold_fields_append C_REGISTER_field_def C_REGISTER_new_def C_REGISTER_set_defs C_REGISTER_wf_def)
  then show ?thesis unfolding parse .
qed

section \<open>C_REFRESH_LOBBY\<close>

record C_REFRESH_LOBBY =
  C_REFRESH_LOBBY_unknown :: unknown_fields

definition C_REFRESH_LOBBY_new :: C_REFRESH_LOBBY where
  "C_REFRESH_LOBBY_new = \<lparr>C_REFRESH_LOBBY_unknown = []\<rparr>"

text \<open>A message without fields is written by the library's \<open>ZeroFieldsBase\<close>: its unknown fields.\<close>

definition C_REFRESH_LOBBY_InternalSerialize :: "pb_lib \<Rightarrow> C_REFRESH_LOBBY \<Rightarrow> byte list" where
  "C_REFRESH_LOBBY_InternalSerialize lib this = SerializeUnknownFields lib (C_REFRESH_LOBBY_unknown this)"

definition C_REFRESH_LOBBY_ByteSizeLong :: "pb_lib \<Rightarrow> C_REFRESH_LOBBY \<Rightarrow> nat" where
  "C_REFRESH_LOBBY_ByteSizeLong lib this = UnknownFieldsSize lib (C_REFRESH_LOBBY_unknown this)"

definition C_REFRESH_LOBBY_field :: "(byte list \<Rightarrow> bool) \<Rightarrow> wire_field \<Rightarrow> C_REFRESH_LOBBY \<Rightarrow> C_REFRESH_LOBBY option" where
  "C_REFRESH_LOBBY_field valid f this = Some (this\<lparr>C_REFRESH_LOBBY_unknown := C_REFRESH_LOBBY_unknown this @ [f]\<rparr>)"

definition C_REFRESH_LOBBY_parse :: "(byte list \<Rightarrow> bool) \<Rightarrow> byte list \<Rightarrow> C_REFRESH_LOBBY option" where
  "C_REFRESH_LOBBY_parse valid = parse_message (C_REFRESH_LOBBY_field valid) C_REFRESH_LOBBY_new"

lemma C_REFRESH_LOBBY_size: "pb_ok lib \<Longrightarrow> C_REFRESH_LOBBY_ByteSizeLong lib m = length (C_REFRESH_LOBBY_InternalSerialize lib m)"
  by (simp add: C_REFRESH_LOBBY_ByteSizeLong_def C_REFRESH_LOBBY_InternalSerialize_def pb_ok_def)

lemma C_REFRESH_LOBBY_roundtrip:
  assumes "pb_ok lib" "C_REFRESH_LOBBY_unknown m = []"
  shows "C_REFRESH_LOBBY_parse valid (C_REFRESH_LOBBY_InternalSerialize lib m) = Some C_REFRESH_LOBBY_new"
  using assms by (simp add: C_REFRESH_LOBBY_parse_def C_REFRESH_LOBBY_InternalSerialize_def pb_ok_def parse_message_def get_fields.simps)

section \<open>C_CREATE_ROOM\<close>

record C_CREATE_ROOM =
  C_CREATE_ROOM_has_bits :: u32
  C_CREATE_ROOM_id :: "byte list"
  C_CREATE_ROOM_roomname :: "byte list"
  C_CREATE_ROOM_unknown :: unknown_fields

definition C_CREATE_ROOM_new :: C_CREATE_ROOM where
  "C_CREATE_ROOM_new = \<lparr>C_CREATE_ROOM_has_bits = 0, C_CREATE_ROOM_id = [], C_CREATE_ROOM_roomname = [],
     C_CREATE_ROOM_unknown = []\<rparr>"

definition C_CREATE_ROOM_set_id :: "byte list \<Rightarrow> C_CREATE_ROOM \<Rightarrow> C_CREATE_ROOM" where
  "C_CREATE_ROOM_set_id value this =
     this\<lparr>C_CREATE_ROOM_has_bits := SetHasBit (C_CREATE_ROOM_has_bits this) 1, C_CREATE_ROOM_id := value\<rparr>"

definition C_CREATE_ROOM_set_roomname :: "byte list \<Rightarrow> C_CREATE_ROOM \<Rightarrow> C_CREATE_ROOM" where
  "C_CREATE_ROOM_set_roomname value this =
     this\<lparr>C_CREATE_ROOM_has_bits := SetHasBit (C_CREATE_ROOM_has_bits this) 2, C_CREATE_ROOM_roomname := value\<rparr>"

definition C_CREATE_ROOM_Clear :: "C_CREATE_ROOM \<Rightarrow> C_CREATE_ROOM" where
  "C_CREATE_ROOM_Clear this =
     (let bits = C_CREATE_ROOM_has_bits this in
      this\<lparr>C_CREATE_ROOM_id := (if BatchCheckHasBit bits 3 \<and> CheckHasBit bits 1 then [] else C_CREATE_ROOM_id this),
        C_CREATE_ROOM_roomname := (if BatchCheckHasBit bits 3 \<and> CheckHasBit bits 2 then [] else C_CREATE_ROOM_roomname this),
        C_CREATE_ROOM_has_bits := 0,
        C_CREATE_ROOM_unknown := []\<rparr>)"

definition C_CREATE_ROOM_InternalSerialize :: "pb_lib \<Rightarrow> C_CREATE_ROOM \<Rightarrow> byte list" where
  "C_CREATE_ROOM_InternalSerialize lib this =
     (let bits = C_CREATE_ROOM_has_bits this in
      (if CheckHasBit bits 1 then if C_CREATE_ROOM_id this \<noteq> [] then WriteString lib 1 (C_CREATE_ROOM_id this) else [] else []) @
      (if CheckHasBit bits 2 then if C_CREATE_ROOM_roomname this \<noteq> [] then WriteString lib 2 (C_CREATE_ROOM_roomname this) else [] else []) @
      (if C_CREATE_ROOM_unknown this \<noteq> [] then SerializeUnknownFields lib (C_CREATE_ROOM_unknown this) else []))"

definition C_CREATE_ROOM_ByteSizeLong :: "pb_lib \<Rightarrow> C_CREATE_ROOM \<Rightarrow> nat" where
  "C_CREATE_ROOM_ByteSizeLong lib this =
     (let bits = C_CREATE_ROOM_has_bits this in
      (if BatchCheckHasBit bits 3 then
         (if CheckHasBit bits 1 then if C_CREATE_ROOM_id this \<noteq> [] then 1 + StringSize (C_CREATE_ROOM_id this) else 0 else 0) +
         (if CheckHasBit bits 2 then if C_CREATE_ROOM_roomname this \<noteq> [] then 1 + StringSize (C_CREATE_ROOM_roomname this) else 0 else 0)
       else 0) +
      (if C_CREATE_ROOM_unknown this \<noteq> [] then UnknownFieldsSize lib (C_CREATE_ROOM_unknown this) else 0))"

definition C_CREATE_ROOM_MergeImpl :: "C_CREATE_ROOM \<Rightarrow> C_CREATE_ROOM \<Rightarrow> C_CREATE_ROOM" where
  "C_CREATE_ROOM_MergeImpl to from =
     (let bits = C_CREATE_ROOM_has_bits from in
      to\<lparr>C_CREATE_ROOM_id := (if BatchCheckHasBit bits 3 \<and> CheckHasBit bits 1 \<and> C_CREATE_ROOM_id from \<noteq> [] then C_CREATE_ROOM_id from else C_CREATE_ROOM_id to),
        C_CREATE_ROOM_roomname := (if BatchCheckHasBit bits 3 \<and> CheckHasBit bits 2 \<and> C_CREATE_ROOM_roomname from \<noteq> [] then C_CREATE_ROOM_roomname from else C_CREATE_ROOM_roomname to),
        C_CREATE_ROOM_has_bits := C_CREATE_ROOM_has_bits to OR bits,
        C_CREATE_ROOM_unknown := C_CREATE_ROOM_unknown to @ C_CREATE_ROOM_unknown from\<rparr>)"

definition C_CREATE_ROOM_CopyFrom :: "bool \<Rightarrow> C_CREATE_ROOM \<Rightarrow> C_CREATE_ROOM \<Rightarrow> C_CREATE_ROOM" where
  "C_CREATE_ROOM_CopyFrom same this from = (if same then this else C_CREATE_ROOM_MergeImpl (C_CREATE_ROOM_Clear this) from)"

definition C_CREATE_ROOM_InternalSwap :: "C_CREATE_ROOM \<Rightarrow> C_CREATE_ROOM \<Rightarrow> C_CREATE_ROOM \<times> C_CREATE_ROOM" where
  "C_CREATE_ROOM_InternalSwap this other =
     (this\<lparr>C_CREATE_ROOM_unknown := C_CREATE_ROOM_unknown other, C_CREATE_ROOM_has_bits := C_CREATE_ROOM_has_bits other, C_CREATE_ROOM_id := C_CREATE_ROOM_id other, C_CREATE_ROOM_roomname := C_CREATE_ROOM_roomname other\<rparr>,
      other\<lparr>C_CREATE_ROOM_unknown := C_CREATE_ROOM_unknown this, C_CREATE_ROOM_has_bits := C_CREATE_ROOM_has_bits this, C_CREATE_ROOM_id := C_CREATE_ROOM_id this, C_CREATE_ROOM_roomname := C_CREATE_ROOM_roomname this\<rparr>)"

text \<open>The parse table: the field numbers, their types and what a field does to the message.\<close>

definition C_CREATE_ROOM_field :: "(byte list \<Rightarrow> bool) \<Rightarrow> wire_field \<Rightarrow> C_CREATE_ROOM \<Rightarrow> C_CREATE_ROOM option" where
  "C_CREATE_ROOM_field valid f this =
     (case f of (num, v) \<Rightarrow>
        if num = 1 then
          (case v of LenDelim s \<Rightarrow> if valid s then Some (C_CREATE_ROOM_set_id s this) else None
           | _ \<Rightarrow> Some (this\<lparr>C_CREATE_ROOM_unknown := C_CREATE_ROOM_unknown this @ [(num, v)]\<rparr>))
        else if num = 2 then
          (case v of LenDelim s \<Rightarrow> if valid s then Some (C_CREATE_ROOM_set_roomname s this) else None
           | _ \<Rightarrow> Some (this\<lparr>C_CREATE_ROOM_unknown := C_CREATE_ROOM_unknown this @ [(num, v)]\<rparr>))
        else Some (this\<lparr>C_CREATE_ROOM_unknown := C_CREATE_ROOM_unknown this @ [(num, v)]\<rparr>))"

definition C_CREATE_ROOM_parse :: "(byte list \<Rightarrow> bool) \<Rightarrow> byte list \<Rightarrow> C_CREATE_ROOM option" where
  "C_CREATE_ROOM_parse valid = parse_message (C_CREATE_ROOM_field valid) C_CREATE_ROOM_new"

definition C_CREATE_ROOM_wf :: "C_CREATE_ROOM \<Rightarrow> bool" where
  [inv_defs]: "C_CREATE_ROOM_wf m \<longleftrightarrow>
     (\<not> CheckHasBit (C_CREATE_ROOM_has_bits m) 1 \<longrightarrow> C_CREATE_ROOM_id m = []) \<and>
     (\<not> CheckHasBit (C_CREATE_ROOM_has_bits m) 2 \<longrightarrow> C_CREATE_ROOM_roomname m = [])"

lemmas C_CREATE_ROOM_set_defs = C_CREATE_ROOM_set_id_def C_CREATE_ROOM_set_roomname_def

lemma C_CREATE_ROOM_wf_ops:
  "C_CREATE_ROOM_wf C_CREATE_ROOM_new"
  "C_CREATE_ROOM_wf m \<Longrightarrow> C_CREATE_ROOM_wf (C_CREATE_ROOM_set_id x1 m)"
  "C_CREATE_ROOM_wf m \<Longrightarrow> C_CREATE_ROOM_wf (C_CREATE_ROOM_set_roomname x2 m)"
  "C_CREATE_ROOM_wf m \<Longrightarrow> C_CREATE_ROOM_wf m' \<Longrightarrow> C_CREATE_ROOM_wf (C_CREATE_ROOM_MergeImpl m m')"
  by (auto simp: C_CREATE_ROOM_wf_def C_CREATE_ROOM_new_def C_CREATE_ROOM_set_defs C_CREATE_ROOM_MergeImpl_def Let_def CheckHasBit_or)

lemma C_CREATE_ROOM_Clear_new: "C_CREATE_ROOM_wf m \<Longrightarrow> C_CREATE_ROOM_Clear m = C_CREATE_ROOM_new"
  using no_batch [of "C_CREATE_ROOM_has_bits m"]
  by (auto simp: C_CREATE_ROOM_wf_def C_CREATE_ROOM_Clear_def C_CREATE_ROOM_new_def Let_def)

lemma C_CREATE_ROOM_copy: "C_CREATE_ROOM_wf m \<Longrightarrow> C_CREATE_ROOM_wf m' \<Longrightarrow> C_CREATE_ROOM_CopyFrom False m m' = m'"
  using no_batch [of "C_CREATE_ROOM_has_bits m'"]
  by (cases m') (auto simp: C_CREATE_ROOM_CopyFrom_def C_CREATE_ROOM_Clear_new C_CREATE_ROOM_MergeImpl_def C_CREATE_ROOM_new_def C_CREATE_ROOM_wf_def Let_def)

lemma C_CREATE_ROOM_swap: "C_CREATE_ROOM_InternalSwap a b = (b, a)"
  by (simp add: C_CREATE_ROOM_InternalSwap_def)

lemma C_CREATE_ROOM_size: "pb_ok lib \<Longrightarrow> C_CREATE_ROOM_ByteSizeLong lib m = length (C_CREATE_ROOM_InternalSerialize lib m)"
  using no_batch [of "C_CREATE_ROOM_has_bits m"]
  by (auto simp: C_CREATE_ROOM_ByteSizeLong_def C_CREATE_ROOM_InternalSerialize_def Let_def message_size pb_ok_unknown)

lemma C_CREATE_ROOM_roundtrip:
  assumes lib: "pb_ok lib" and wf: "C_CREATE_ROOM_wf m" "C_CREATE_ROOM_unknown m = []"
    and ok: "valid (C_CREATE_ROOM_id m)" "length (C_CREATE_ROOM_id m) < 2 ^ 32"
      "valid (C_CREATE_ROOM_roomname m)" "length (C_CREATE_ROOM_roomname m) < 2 ^ 32"
  shows "\<exists>r. C_CREATE_ROOM_parse valid (C_CREATE_ROOM_InternalSerialize lib m) = Some r \<and> C_CREATE_ROOM_wf r \<and> C_CREATE_ROOM_unknown r = [] \<and>
    C_CREATE_ROOM_id r = C_CREATE_ROOM_id m \<and> C_CREATE_ROOM_roomname r = C_CREATE_ROOM_roomname m"
proof -
  let ?fs = "(if CheckHasBit (C_CREATE_ROOM_has_bits m) 1 then if C_CREATE_ROOM_id m \<noteq> [] then [(1, LenDelim (C_CREATE_ROOM_id m))] else [] else []) @
     (if CheckHasBit (C_CREATE_ROOM_has_bits m) 2 then if C_CREATE_ROOM_roomname m \<noteq> [] then [(2, LenDelim (C_CREATE_ROOM_roomname m))] else [] else []) @ []"
  have "encodes (C_CREATE_ROOM_InternalSerialize lib m) ?fs"
    unfolding C_CREATE_ROOM_InternalSerialize_def Let_def WriteString_eq [OF lib] wf(2)
    by (intro encodes_append encodes_if encodes_fields) (use ok in auto)
  then have parse: "C_CREATE_ROOM_parse valid (C_CREATE_ROOM_InternalSerialize lib m) = fold_fields (C_CREATE_ROOM_field valid) ?fs C_CREATE_ROOM_new"
    unfolding C_CREATE_ROOM_parse_def by (simp only: parse_message_encodes)
  have "\<exists>r. fold_fields (C_CREATE_ROOM_field valid) ?fs C_CREATE_ROOM_new = Some r \<and> C_CREATE_ROOM_wf r \<and> C_CREATE_ROOM_unknown r = [] \<and> C_CREATE_ROOM_id r = C_CREATE_ROOM_id m \<and> C_CREATE_ROOM_roomname r = C_CREATE_ROOM_roomname m"
    using wf ok by (auto simp: fold_fields_append C_CREATE_ROOM_field_def C_CREATE_ROOM_new_def C_CREATE_ROOM_set_defs C_CREATE_ROOM_wf_def)
  then show ?thesis unfolding parse .
qed

section \<open>C_JOIN_ROOM\<close>

record C_JOIN_ROOM =
  C_JOIN_ROOM_has_bits :: u32
  C_JOIN_ROOM_id :: "byte list"
  C_JOIN_ROOM_roomname :: "byte list"
  C_JOIN_ROOM_unknown :: unknown_fields

definition C_JOIN_ROOM_new :: C_JOIN_ROOM where
  "C_JOIN_ROOM_new = \<lparr>C_JOIN_ROOM_has_bits = 0, C_JOIN_ROOM_id = [], C_JOIN_ROOM_roomname = [],
     C_JOIN_ROOM_unknown = []\<rparr>"

definition C_JOIN_ROOM_set_id :: "byte list \<Rightarrow> C_JOIN_ROOM \<Rightarrow> C_JOIN_ROOM" where
  "C_JOIN_ROOM_set_id value this =
     this\<lparr>C_JOIN_ROOM_has_bits := SetHasBit (C_JOIN_ROOM_has_bits this) 1, C_JOIN_ROOM_id := value\<rparr>"

definition C_JOIN_ROOM_set_roomname :: "byte list \<Rightarrow> C_JOIN_ROOM \<Rightarrow> C_JOIN_ROOM" where
  "C_JOIN_ROOM_set_roomname value this =
     this\<lparr>C_JOIN_ROOM_has_bits := SetHasBit (C_JOIN_ROOM_has_bits this) 2, C_JOIN_ROOM_roomname := value\<rparr>"

definition C_JOIN_ROOM_Clear :: "C_JOIN_ROOM \<Rightarrow> C_JOIN_ROOM" where
  "C_JOIN_ROOM_Clear this =
     (let bits = C_JOIN_ROOM_has_bits this in
      this\<lparr>C_JOIN_ROOM_id := (if BatchCheckHasBit bits 3 \<and> CheckHasBit bits 1 then [] else C_JOIN_ROOM_id this),
        C_JOIN_ROOM_roomname := (if BatchCheckHasBit bits 3 \<and> CheckHasBit bits 2 then [] else C_JOIN_ROOM_roomname this),
        C_JOIN_ROOM_has_bits := 0,
        C_JOIN_ROOM_unknown := []\<rparr>)"

definition C_JOIN_ROOM_InternalSerialize :: "pb_lib \<Rightarrow> C_JOIN_ROOM \<Rightarrow> byte list" where
  "C_JOIN_ROOM_InternalSerialize lib this =
     (let bits = C_JOIN_ROOM_has_bits this in
      (if CheckHasBit bits 1 then if C_JOIN_ROOM_id this \<noteq> [] then WriteString lib 1 (C_JOIN_ROOM_id this) else [] else []) @
      (if CheckHasBit bits 2 then if C_JOIN_ROOM_roomname this \<noteq> [] then WriteString lib 2 (C_JOIN_ROOM_roomname this) else [] else []) @
      (if C_JOIN_ROOM_unknown this \<noteq> [] then SerializeUnknownFields lib (C_JOIN_ROOM_unknown this) else []))"

definition C_JOIN_ROOM_ByteSizeLong :: "pb_lib \<Rightarrow> C_JOIN_ROOM \<Rightarrow> nat" where
  "C_JOIN_ROOM_ByteSizeLong lib this =
     (let bits = C_JOIN_ROOM_has_bits this in
      (if BatchCheckHasBit bits 3 then
         (if CheckHasBit bits 1 then if C_JOIN_ROOM_id this \<noteq> [] then 1 + StringSize (C_JOIN_ROOM_id this) else 0 else 0) +
         (if CheckHasBit bits 2 then if C_JOIN_ROOM_roomname this \<noteq> [] then 1 + StringSize (C_JOIN_ROOM_roomname this) else 0 else 0)
       else 0) +
      (if C_JOIN_ROOM_unknown this \<noteq> [] then UnknownFieldsSize lib (C_JOIN_ROOM_unknown this) else 0))"

definition C_JOIN_ROOM_MergeImpl :: "C_JOIN_ROOM \<Rightarrow> C_JOIN_ROOM \<Rightarrow> C_JOIN_ROOM" where
  "C_JOIN_ROOM_MergeImpl to from =
     (let bits = C_JOIN_ROOM_has_bits from in
      to\<lparr>C_JOIN_ROOM_id := (if BatchCheckHasBit bits 3 \<and> CheckHasBit bits 1 \<and> C_JOIN_ROOM_id from \<noteq> [] then C_JOIN_ROOM_id from else C_JOIN_ROOM_id to),
        C_JOIN_ROOM_roomname := (if BatchCheckHasBit bits 3 \<and> CheckHasBit bits 2 \<and> C_JOIN_ROOM_roomname from \<noteq> [] then C_JOIN_ROOM_roomname from else C_JOIN_ROOM_roomname to),
        C_JOIN_ROOM_has_bits := C_JOIN_ROOM_has_bits to OR bits,
        C_JOIN_ROOM_unknown := C_JOIN_ROOM_unknown to @ C_JOIN_ROOM_unknown from\<rparr>)"

definition C_JOIN_ROOM_CopyFrom :: "bool \<Rightarrow> C_JOIN_ROOM \<Rightarrow> C_JOIN_ROOM \<Rightarrow> C_JOIN_ROOM" where
  "C_JOIN_ROOM_CopyFrom same this from = (if same then this else C_JOIN_ROOM_MergeImpl (C_JOIN_ROOM_Clear this) from)"

definition C_JOIN_ROOM_InternalSwap :: "C_JOIN_ROOM \<Rightarrow> C_JOIN_ROOM \<Rightarrow> C_JOIN_ROOM \<times> C_JOIN_ROOM" where
  "C_JOIN_ROOM_InternalSwap this other =
     (this\<lparr>C_JOIN_ROOM_unknown := C_JOIN_ROOM_unknown other, C_JOIN_ROOM_has_bits := C_JOIN_ROOM_has_bits other, C_JOIN_ROOM_id := C_JOIN_ROOM_id other, C_JOIN_ROOM_roomname := C_JOIN_ROOM_roomname other\<rparr>,
      other\<lparr>C_JOIN_ROOM_unknown := C_JOIN_ROOM_unknown this, C_JOIN_ROOM_has_bits := C_JOIN_ROOM_has_bits this, C_JOIN_ROOM_id := C_JOIN_ROOM_id this, C_JOIN_ROOM_roomname := C_JOIN_ROOM_roomname this\<rparr>)"

text \<open>The parse table: the field numbers, their types and what a field does to the message.\<close>

definition C_JOIN_ROOM_field :: "(byte list \<Rightarrow> bool) \<Rightarrow> wire_field \<Rightarrow> C_JOIN_ROOM \<Rightarrow> C_JOIN_ROOM option" where
  "C_JOIN_ROOM_field valid f this =
     (case f of (num, v) \<Rightarrow>
        if num = 1 then
          (case v of LenDelim s \<Rightarrow> if valid s then Some (C_JOIN_ROOM_set_id s this) else None
           | _ \<Rightarrow> Some (this\<lparr>C_JOIN_ROOM_unknown := C_JOIN_ROOM_unknown this @ [(num, v)]\<rparr>))
        else if num = 2 then
          (case v of LenDelim s \<Rightarrow> if valid s then Some (C_JOIN_ROOM_set_roomname s this) else None
           | _ \<Rightarrow> Some (this\<lparr>C_JOIN_ROOM_unknown := C_JOIN_ROOM_unknown this @ [(num, v)]\<rparr>))
        else Some (this\<lparr>C_JOIN_ROOM_unknown := C_JOIN_ROOM_unknown this @ [(num, v)]\<rparr>))"

definition C_JOIN_ROOM_parse :: "(byte list \<Rightarrow> bool) \<Rightarrow> byte list \<Rightarrow> C_JOIN_ROOM option" where
  "C_JOIN_ROOM_parse valid = parse_message (C_JOIN_ROOM_field valid) C_JOIN_ROOM_new"

definition C_JOIN_ROOM_wf :: "C_JOIN_ROOM \<Rightarrow> bool" where
  [inv_defs]: "C_JOIN_ROOM_wf m \<longleftrightarrow>
     (\<not> CheckHasBit (C_JOIN_ROOM_has_bits m) 1 \<longrightarrow> C_JOIN_ROOM_id m = []) \<and>
     (\<not> CheckHasBit (C_JOIN_ROOM_has_bits m) 2 \<longrightarrow> C_JOIN_ROOM_roomname m = [])"

lemmas C_JOIN_ROOM_set_defs = C_JOIN_ROOM_set_id_def C_JOIN_ROOM_set_roomname_def

lemma C_JOIN_ROOM_wf_ops:
  "C_JOIN_ROOM_wf C_JOIN_ROOM_new"
  "C_JOIN_ROOM_wf m \<Longrightarrow> C_JOIN_ROOM_wf (C_JOIN_ROOM_set_id x1 m)"
  "C_JOIN_ROOM_wf m \<Longrightarrow> C_JOIN_ROOM_wf (C_JOIN_ROOM_set_roomname x2 m)"
  "C_JOIN_ROOM_wf m \<Longrightarrow> C_JOIN_ROOM_wf m' \<Longrightarrow> C_JOIN_ROOM_wf (C_JOIN_ROOM_MergeImpl m m')"
  by (auto simp: C_JOIN_ROOM_wf_def C_JOIN_ROOM_new_def C_JOIN_ROOM_set_defs C_JOIN_ROOM_MergeImpl_def Let_def CheckHasBit_or)

lemma C_JOIN_ROOM_Clear_new: "C_JOIN_ROOM_wf m \<Longrightarrow> C_JOIN_ROOM_Clear m = C_JOIN_ROOM_new"
  using no_batch [of "C_JOIN_ROOM_has_bits m"]
  by (auto simp: C_JOIN_ROOM_wf_def C_JOIN_ROOM_Clear_def C_JOIN_ROOM_new_def Let_def)

lemma C_JOIN_ROOM_copy: "C_JOIN_ROOM_wf m \<Longrightarrow> C_JOIN_ROOM_wf m' \<Longrightarrow> C_JOIN_ROOM_CopyFrom False m m' = m'"
  using no_batch [of "C_JOIN_ROOM_has_bits m'"]
  by (cases m') (auto simp: C_JOIN_ROOM_CopyFrom_def C_JOIN_ROOM_Clear_new C_JOIN_ROOM_MergeImpl_def C_JOIN_ROOM_new_def C_JOIN_ROOM_wf_def Let_def)

lemma C_JOIN_ROOM_swap: "C_JOIN_ROOM_InternalSwap a b = (b, a)"
  by (simp add: C_JOIN_ROOM_InternalSwap_def)

lemma C_JOIN_ROOM_size: "pb_ok lib \<Longrightarrow> C_JOIN_ROOM_ByteSizeLong lib m = length (C_JOIN_ROOM_InternalSerialize lib m)"
  using no_batch [of "C_JOIN_ROOM_has_bits m"]
  by (auto simp: C_JOIN_ROOM_ByteSizeLong_def C_JOIN_ROOM_InternalSerialize_def Let_def message_size pb_ok_unknown)

lemma C_JOIN_ROOM_roundtrip:
  assumes lib: "pb_ok lib" and wf: "C_JOIN_ROOM_wf m" "C_JOIN_ROOM_unknown m = []"
    and ok: "valid (C_JOIN_ROOM_id m)" "length (C_JOIN_ROOM_id m) < 2 ^ 32"
      "valid (C_JOIN_ROOM_roomname m)" "length (C_JOIN_ROOM_roomname m) < 2 ^ 32"
  shows "\<exists>r. C_JOIN_ROOM_parse valid (C_JOIN_ROOM_InternalSerialize lib m) = Some r \<and> C_JOIN_ROOM_wf r \<and> C_JOIN_ROOM_unknown r = [] \<and>
    C_JOIN_ROOM_id r = C_JOIN_ROOM_id m \<and> C_JOIN_ROOM_roomname r = C_JOIN_ROOM_roomname m"
proof -
  let ?fs = "(if CheckHasBit (C_JOIN_ROOM_has_bits m) 1 then if C_JOIN_ROOM_id m \<noteq> [] then [(1, LenDelim (C_JOIN_ROOM_id m))] else [] else []) @
     (if CheckHasBit (C_JOIN_ROOM_has_bits m) 2 then if C_JOIN_ROOM_roomname m \<noteq> [] then [(2, LenDelim (C_JOIN_ROOM_roomname m))] else [] else []) @ []"
  have "encodes (C_JOIN_ROOM_InternalSerialize lib m) ?fs"
    unfolding C_JOIN_ROOM_InternalSerialize_def Let_def WriteString_eq [OF lib] wf(2)
    by (intro encodes_append encodes_if encodes_fields) (use ok in auto)
  then have parse: "C_JOIN_ROOM_parse valid (C_JOIN_ROOM_InternalSerialize lib m) = fold_fields (C_JOIN_ROOM_field valid) ?fs C_JOIN_ROOM_new"
    unfolding C_JOIN_ROOM_parse_def by (simp only: parse_message_encodes)
  have "\<exists>r. fold_fields (C_JOIN_ROOM_field valid) ?fs C_JOIN_ROOM_new = Some r \<and> C_JOIN_ROOM_wf r \<and> C_JOIN_ROOM_unknown r = [] \<and> C_JOIN_ROOM_id r = C_JOIN_ROOM_id m \<and> C_JOIN_ROOM_roomname r = C_JOIN_ROOM_roomname m"
    using wf ok by (auto simp: fold_fields_append C_JOIN_ROOM_field_def C_JOIN_ROOM_new_def C_JOIN_ROOM_set_defs C_JOIN_ROOM_wf_def)
  then show ?thesis unfolding parse .
qed

section \<open>C_CHAT_LOG\<close>

record C_CHAT_LOG =
  C_CHAT_LOG_has_bits :: u32
  C_CHAT_LOG_id :: "byte list"
  C_CHAT_LOG_roomname :: "byte list"
  C_CHAT_LOG_log :: "byte list"
  C_CHAT_LOG_unknown :: unknown_fields

definition C_CHAT_LOG_new :: C_CHAT_LOG where
  "C_CHAT_LOG_new = \<lparr>C_CHAT_LOG_has_bits = 0, C_CHAT_LOG_id = [], C_CHAT_LOG_roomname = [], C_CHAT_LOG_log = [],
     C_CHAT_LOG_unknown = []\<rparr>"

definition C_CHAT_LOG_set_id :: "byte list \<Rightarrow> C_CHAT_LOG \<Rightarrow> C_CHAT_LOG" where
  "C_CHAT_LOG_set_id value this =
     this\<lparr>C_CHAT_LOG_has_bits := SetHasBit (C_CHAT_LOG_has_bits this) 1, C_CHAT_LOG_id := value\<rparr>"

definition C_CHAT_LOG_set_roomname :: "byte list \<Rightarrow> C_CHAT_LOG \<Rightarrow> C_CHAT_LOG" where
  "C_CHAT_LOG_set_roomname value this =
     this\<lparr>C_CHAT_LOG_has_bits := SetHasBit (C_CHAT_LOG_has_bits this) 2, C_CHAT_LOG_roomname := value\<rparr>"

definition C_CHAT_LOG_set_log :: "byte list \<Rightarrow> C_CHAT_LOG \<Rightarrow> C_CHAT_LOG" where
  "C_CHAT_LOG_set_log value this =
     this\<lparr>C_CHAT_LOG_has_bits := SetHasBit (C_CHAT_LOG_has_bits this) 4, C_CHAT_LOG_log := value\<rparr>"

definition C_CHAT_LOG_Clear :: "C_CHAT_LOG \<Rightarrow> C_CHAT_LOG" where
  "C_CHAT_LOG_Clear this =
     (let bits = C_CHAT_LOG_has_bits this in
      this\<lparr>C_CHAT_LOG_id := (if BatchCheckHasBit bits 7 \<and> CheckHasBit bits 1 then [] else C_CHAT_LOG_id this),
        C_CHAT_LOG_roomname := (if BatchCheckHasBit bits 7 \<and> CheckHasBit bits 2 then [] else C_CHAT_LOG_roomname this),
        C_CHAT_LOG_log := (if BatchCheckHasBit bits 7 \<and> CheckHasBit bits 4 then [] else C_CHAT_LOG_log this),
        C_CHAT_LOG_has_bits := 0,
        C_CHAT_LOG_unknown := []\<rparr>)"

definition C_CHAT_LOG_InternalSerialize :: "pb_lib \<Rightarrow> C_CHAT_LOG \<Rightarrow> byte list" where
  "C_CHAT_LOG_InternalSerialize lib this =
     (let bits = C_CHAT_LOG_has_bits this in
      (if CheckHasBit bits 1 then if C_CHAT_LOG_id this \<noteq> [] then WriteString lib 1 (C_CHAT_LOG_id this) else [] else []) @
      (if CheckHasBit bits 2 then if C_CHAT_LOG_roomname this \<noteq> [] then WriteString lib 2 (C_CHAT_LOG_roomname this) else [] else []) @
      (if CheckHasBit bits 4 then if C_CHAT_LOG_log this \<noteq> [] then WriteString lib 3 (C_CHAT_LOG_log this) else [] else []) @
      (if C_CHAT_LOG_unknown this \<noteq> [] then SerializeUnknownFields lib (C_CHAT_LOG_unknown this) else []))"

definition C_CHAT_LOG_ByteSizeLong :: "pb_lib \<Rightarrow> C_CHAT_LOG \<Rightarrow> nat" where
  "C_CHAT_LOG_ByteSizeLong lib this =
     (let bits = C_CHAT_LOG_has_bits this in
      (if BatchCheckHasBit bits 7 then
         (if CheckHasBit bits 1 then if C_CHAT_LOG_id this \<noteq> [] then 1 + StringSize (C_CHAT_LOG_id this) else 0 else 0) +
         (if CheckHasBit bits 2 then if C_CHAT_LOG_roomname this \<noteq> [] then 1 + StringSize (C_CHAT_LOG_roomname this) else 0 else 0) +
         (if CheckHasBit bits 4 then if C_CHAT_LOG_log this \<noteq> [] then 1 + StringSize (C_CHAT_LOG_log this) else 0 else 0)
       else 0) +
      (if C_CHAT_LOG_unknown this \<noteq> [] then UnknownFieldsSize lib (C_CHAT_LOG_unknown this) else 0))"

definition C_CHAT_LOG_MergeImpl :: "C_CHAT_LOG \<Rightarrow> C_CHAT_LOG \<Rightarrow> C_CHAT_LOG" where
  "C_CHAT_LOG_MergeImpl to from =
     (let bits = C_CHAT_LOG_has_bits from in
      to\<lparr>C_CHAT_LOG_id := (if BatchCheckHasBit bits 7 \<and> CheckHasBit bits 1 \<and> C_CHAT_LOG_id from \<noteq> [] then C_CHAT_LOG_id from else C_CHAT_LOG_id to),
        C_CHAT_LOG_roomname := (if BatchCheckHasBit bits 7 \<and> CheckHasBit bits 2 \<and> C_CHAT_LOG_roomname from \<noteq> [] then C_CHAT_LOG_roomname from else C_CHAT_LOG_roomname to),
        C_CHAT_LOG_log := (if BatchCheckHasBit bits 7 \<and> CheckHasBit bits 4 \<and> C_CHAT_LOG_log from \<noteq> [] then C_CHAT_LOG_log from else C_CHAT_LOG_log to),
        C_CHAT_LOG_has_bits := C_CHAT_LOG_has_bits to OR bits,
        C_CHAT_LOG_unknown := C_CHAT_LOG_unknown to @ C_CHAT_LOG_unknown from\<rparr>)"

definition C_CHAT_LOG_CopyFrom :: "bool \<Rightarrow> C_CHAT_LOG \<Rightarrow> C_CHAT_LOG \<Rightarrow> C_CHAT_LOG" where
  "C_CHAT_LOG_CopyFrom same this from = (if same then this else C_CHAT_LOG_MergeImpl (C_CHAT_LOG_Clear this) from)"

definition C_CHAT_LOG_InternalSwap :: "C_CHAT_LOG \<Rightarrow> C_CHAT_LOG \<Rightarrow> C_CHAT_LOG \<times> C_CHAT_LOG" where
  "C_CHAT_LOG_InternalSwap this other =
     (this\<lparr>C_CHAT_LOG_unknown := C_CHAT_LOG_unknown other, C_CHAT_LOG_has_bits := C_CHAT_LOG_has_bits other, C_CHAT_LOG_id := C_CHAT_LOG_id other, C_CHAT_LOG_roomname := C_CHAT_LOG_roomname other, C_CHAT_LOG_log := C_CHAT_LOG_log other\<rparr>,
      other\<lparr>C_CHAT_LOG_unknown := C_CHAT_LOG_unknown this, C_CHAT_LOG_has_bits := C_CHAT_LOG_has_bits this, C_CHAT_LOG_id := C_CHAT_LOG_id this, C_CHAT_LOG_roomname := C_CHAT_LOG_roomname this, C_CHAT_LOG_log := C_CHAT_LOG_log this\<rparr>)"

text \<open>The parse table: the field numbers, their types and what a field does to the message.\<close>

definition C_CHAT_LOG_field :: "(byte list \<Rightarrow> bool) \<Rightarrow> wire_field \<Rightarrow> C_CHAT_LOG \<Rightarrow> C_CHAT_LOG option" where
  "C_CHAT_LOG_field valid f this =
     (case f of (num, v) \<Rightarrow>
        if num = 1 then
          (case v of LenDelim s \<Rightarrow> if valid s then Some (C_CHAT_LOG_set_id s this) else None
           | _ \<Rightarrow> Some (this\<lparr>C_CHAT_LOG_unknown := C_CHAT_LOG_unknown this @ [(num, v)]\<rparr>))
        else if num = 2 then
          (case v of LenDelim s \<Rightarrow> if valid s then Some (C_CHAT_LOG_set_roomname s this) else None
           | _ \<Rightarrow> Some (this\<lparr>C_CHAT_LOG_unknown := C_CHAT_LOG_unknown this @ [(num, v)]\<rparr>))
        else if num = 3 then
          (case v of LenDelim s \<Rightarrow> if valid s then Some (C_CHAT_LOG_set_log s this) else None
           | _ \<Rightarrow> Some (this\<lparr>C_CHAT_LOG_unknown := C_CHAT_LOG_unknown this @ [(num, v)]\<rparr>))
        else Some (this\<lparr>C_CHAT_LOG_unknown := C_CHAT_LOG_unknown this @ [(num, v)]\<rparr>))"

definition C_CHAT_LOG_parse :: "(byte list \<Rightarrow> bool) \<Rightarrow> byte list \<Rightarrow> C_CHAT_LOG option" where
  "C_CHAT_LOG_parse valid = parse_message (C_CHAT_LOG_field valid) C_CHAT_LOG_new"

definition C_CHAT_LOG_wf :: "C_CHAT_LOG \<Rightarrow> bool" where
  [inv_defs]: "C_CHAT_LOG_wf m \<longleftrightarrow>
     (\<not> CheckHasBit (C_CHAT_LOG_has_bits m) 1 \<longrightarrow> C_CHAT_LOG_id m = []) \<and>
     (\<not> CheckHasBit (C_CHAT_LOG_has_bits m) 2 \<longrightarrow> C_CHAT_LOG_roomname m = []) \<and>
     (\<not> CheckHasBit (C_CHAT_LOG_has_bits m) 4 \<longrightarrow> C_CHAT_LOG_log m = [])"

lemmas C_CHAT_LOG_set_defs = C_CHAT_LOG_set_id_def C_CHAT_LOG_set_roomname_def C_CHAT_LOG_set_log_def

lemma C_CHAT_LOG_wf_ops:
  "C_CHAT_LOG_wf C_CHAT_LOG_new"
  "C_CHAT_LOG_wf m \<Longrightarrow> C_CHAT_LOG_wf (C_CHAT_LOG_set_id x1 m)"
  "C_CHAT_LOG_wf m \<Longrightarrow> C_CHAT_LOG_wf (C_CHAT_LOG_set_roomname x2 m)"
  "C_CHAT_LOG_wf m \<Longrightarrow> C_CHAT_LOG_wf (C_CHAT_LOG_set_log x3 m)"
  "C_CHAT_LOG_wf m \<Longrightarrow> C_CHAT_LOG_wf m' \<Longrightarrow> C_CHAT_LOG_wf (C_CHAT_LOG_MergeImpl m m')"
  by (auto simp: C_CHAT_LOG_wf_def C_CHAT_LOG_new_def C_CHAT_LOG_set_defs C_CHAT_LOG_MergeImpl_def Let_def CheckHasBit_or)

lemma C_CHAT_LOG_Clear_new: "C_CHAT_LOG_wf m \<Longrightarrow> C_CHAT_LOG_Clear m = C_CHAT_LOG_new"
  using no_batch [of "C_CHAT_LOG_has_bits m"]
  by (auto simp: C_CHAT_LOG_wf_def C_CHAT_LOG_Clear_def C_CHAT_LOG_new_def Let_def)

lemma C_CHAT_LOG_copy: "C_CHAT_LOG_wf m \<Longrightarrow> C_CHAT_LOG_wf m' \<Longrightarrow> C_CHAT_LOG_CopyFrom False m m' = m'"
  using no_batch [of "C_CHAT_LOG_has_bits m'"]
  by (cases m') (auto simp: C_CHAT_LOG_CopyFrom_def C_CHAT_LOG_Clear_new C_CHAT_LOG_MergeImpl_def C_CHAT_LOG_new_def C_CHAT_LOG_wf_def Let_def)

lemma C_CHAT_LOG_swap: "C_CHAT_LOG_InternalSwap a b = (b, a)"
  by (simp add: C_CHAT_LOG_InternalSwap_def)

lemma C_CHAT_LOG_size: "pb_ok lib \<Longrightarrow> C_CHAT_LOG_ByteSizeLong lib m = length (C_CHAT_LOG_InternalSerialize lib m)"
  using no_batch [of "C_CHAT_LOG_has_bits m"]
  by (auto simp: C_CHAT_LOG_ByteSizeLong_def C_CHAT_LOG_InternalSerialize_def Let_def message_size pb_ok_unknown)

lemma C_CHAT_LOG_roundtrip:
  assumes lib: "pb_ok lib" and wf: "C_CHAT_LOG_wf m" "C_CHAT_LOG_unknown m = []"
    and ok: "valid (C_CHAT_LOG_id m)" "length (C_CHAT_LOG_id m) < 2 ^ 32"
      "valid (C_CHAT_LOG_roomname m)" "length (C_CHAT_LOG_roomname m) < 2 ^ 32"
      "valid (C_CHAT_LOG_log m)" "length (C_CHAT_LOG_log m) < 2 ^ 32"
  shows "\<exists>r. C_CHAT_LOG_parse valid (C_CHAT_LOG_InternalSerialize lib m) = Some r \<and> C_CHAT_LOG_wf r \<and> C_CHAT_LOG_unknown r = [] \<and>
    C_CHAT_LOG_id r = C_CHAT_LOG_id m \<and> C_CHAT_LOG_roomname r = C_CHAT_LOG_roomname m \<and> C_CHAT_LOG_log r = C_CHAT_LOG_log m"
proof -
  let ?fs = "(if CheckHasBit (C_CHAT_LOG_has_bits m) 1 then if C_CHAT_LOG_id m \<noteq> [] then [(1, LenDelim (C_CHAT_LOG_id m))] else [] else []) @
     (if CheckHasBit (C_CHAT_LOG_has_bits m) 2 then if C_CHAT_LOG_roomname m \<noteq> [] then [(2, LenDelim (C_CHAT_LOG_roomname m))] else [] else []) @
     (if CheckHasBit (C_CHAT_LOG_has_bits m) 4 then if C_CHAT_LOG_log m \<noteq> [] then [(3, LenDelim (C_CHAT_LOG_log m))] else [] else []) @ []"
  have "encodes (C_CHAT_LOG_InternalSerialize lib m) ?fs"
    unfolding C_CHAT_LOG_InternalSerialize_def Let_def WriteString_eq [OF lib] wf(2)
    by (intro encodes_append encodes_if encodes_fields) (use ok in auto)
  then have parse: "C_CHAT_LOG_parse valid (C_CHAT_LOG_InternalSerialize lib m) = fold_fields (C_CHAT_LOG_field valid) ?fs C_CHAT_LOG_new"
    unfolding C_CHAT_LOG_parse_def by (simp only: parse_message_encodes)
  have "\<exists>r. fold_fields (C_CHAT_LOG_field valid) ?fs C_CHAT_LOG_new = Some r \<and> C_CHAT_LOG_wf r \<and> C_CHAT_LOG_unknown r = [] \<and> C_CHAT_LOG_id r = C_CHAT_LOG_id m \<and> C_CHAT_LOG_roomname r = C_CHAT_LOG_roomname m \<and> C_CHAT_LOG_log r = C_CHAT_LOG_log m"
    using wf ok by (auto simp: fold_fields_append C_CHAT_LOG_field_def C_CHAT_LOG_new_def C_CHAT_LOG_set_defs C_CHAT_LOG_wf_def)
  then show ?thesis unfolding parse .
qed

section \<open>C_ROOM_OUT\<close>

record C_ROOM_OUT =
  C_ROOM_OUT_has_bits :: u32
  C_ROOM_OUT_id :: "byte list"
  C_ROOM_OUT_roomname :: "byte list"
  C_ROOM_OUT_unknown :: unknown_fields

definition C_ROOM_OUT_new :: C_ROOM_OUT where
  "C_ROOM_OUT_new = \<lparr>C_ROOM_OUT_has_bits = 0, C_ROOM_OUT_id = [], C_ROOM_OUT_roomname = [],
     C_ROOM_OUT_unknown = []\<rparr>"

definition C_ROOM_OUT_set_id :: "byte list \<Rightarrow> C_ROOM_OUT \<Rightarrow> C_ROOM_OUT" where
  "C_ROOM_OUT_set_id value this =
     this\<lparr>C_ROOM_OUT_has_bits := SetHasBit (C_ROOM_OUT_has_bits this) 1, C_ROOM_OUT_id := value\<rparr>"

definition C_ROOM_OUT_set_roomname :: "byte list \<Rightarrow> C_ROOM_OUT \<Rightarrow> C_ROOM_OUT" where
  "C_ROOM_OUT_set_roomname value this =
     this\<lparr>C_ROOM_OUT_has_bits := SetHasBit (C_ROOM_OUT_has_bits this) 2, C_ROOM_OUT_roomname := value\<rparr>"

definition C_ROOM_OUT_Clear :: "C_ROOM_OUT \<Rightarrow> C_ROOM_OUT" where
  "C_ROOM_OUT_Clear this =
     (let bits = C_ROOM_OUT_has_bits this in
      this\<lparr>C_ROOM_OUT_id := (if BatchCheckHasBit bits 3 \<and> CheckHasBit bits 1 then [] else C_ROOM_OUT_id this),
        C_ROOM_OUT_roomname := (if BatchCheckHasBit bits 3 \<and> CheckHasBit bits 2 then [] else C_ROOM_OUT_roomname this),
        C_ROOM_OUT_has_bits := 0,
        C_ROOM_OUT_unknown := []\<rparr>)"

definition C_ROOM_OUT_InternalSerialize :: "pb_lib \<Rightarrow> C_ROOM_OUT \<Rightarrow> byte list" where
  "C_ROOM_OUT_InternalSerialize lib this =
     (let bits = C_ROOM_OUT_has_bits this in
      (if CheckHasBit bits 1 then if C_ROOM_OUT_id this \<noteq> [] then WriteString lib 1 (C_ROOM_OUT_id this) else [] else []) @
      (if CheckHasBit bits 2 then if C_ROOM_OUT_roomname this \<noteq> [] then WriteString lib 2 (C_ROOM_OUT_roomname this) else [] else []) @
      (if C_ROOM_OUT_unknown this \<noteq> [] then SerializeUnknownFields lib (C_ROOM_OUT_unknown this) else []))"

definition C_ROOM_OUT_ByteSizeLong :: "pb_lib \<Rightarrow> C_ROOM_OUT \<Rightarrow> nat" where
  "C_ROOM_OUT_ByteSizeLong lib this =
     (let bits = C_ROOM_OUT_has_bits this in
      (if BatchCheckHasBit bits 3 then
         (if CheckHasBit bits 1 then if C_ROOM_OUT_id this \<noteq> [] then 1 + StringSize (C_ROOM_OUT_id this) else 0 else 0) +
         (if CheckHasBit bits 2 then if C_ROOM_OUT_roomname this \<noteq> [] then 1 + StringSize (C_ROOM_OUT_roomname this) else 0 else 0)
       else 0) +
      (if C_ROOM_OUT_unknown this \<noteq> [] then UnknownFieldsSize lib (C_ROOM_OUT_unknown this) else 0))"

definition C_ROOM_OUT_MergeImpl :: "C_ROOM_OUT \<Rightarrow> C_ROOM_OUT \<Rightarrow> C_ROOM_OUT" where
  "C_ROOM_OUT_MergeImpl to from =
     (let bits = C_ROOM_OUT_has_bits from in
      to\<lparr>C_ROOM_OUT_id := (if BatchCheckHasBit bits 3 \<and> CheckHasBit bits 1 \<and> C_ROOM_OUT_id from \<noteq> [] then C_ROOM_OUT_id from else C_ROOM_OUT_id to),
        C_ROOM_OUT_roomname := (if BatchCheckHasBit bits 3 \<and> CheckHasBit bits 2 \<and> C_ROOM_OUT_roomname from \<noteq> [] then C_ROOM_OUT_roomname from else C_ROOM_OUT_roomname to),
        C_ROOM_OUT_has_bits := C_ROOM_OUT_has_bits to OR bits,
        C_ROOM_OUT_unknown := C_ROOM_OUT_unknown to @ C_ROOM_OUT_unknown from\<rparr>)"

definition C_ROOM_OUT_CopyFrom :: "bool \<Rightarrow> C_ROOM_OUT \<Rightarrow> C_ROOM_OUT \<Rightarrow> C_ROOM_OUT" where
  "C_ROOM_OUT_CopyFrom same this from = (if same then this else C_ROOM_OUT_MergeImpl (C_ROOM_OUT_Clear this) from)"

definition C_ROOM_OUT_InternalSwap :: "C_ROOM_OUT \<Rightarrow> C_ROOM_OUT \<Rightarrow> C_ROOM_OUT \<times> C_ROOM_OUT" where
  "C_ROOM_OUT_InternalSwap this other =
     (this\<lparr>C_ROOM_OUT_unknown := C_ROOM_OUT_unknown other, C_ROOM_OUT_has_bits := C_ROOM_OUT_has_bits other, C_ROOM_OUT_id := C_ROOM_OUT_id other, C_ROOM_OUT_roomname := C_ROOM_OUT_roomname other\<rparr>,
      other\<lparr>C_ROOM_OUT_unknown := C_ROOM_OUT_unknown this, C_ROOM_OUT_has_bits := C_ROOM_OUT_has_bits this, C_ROOM_OUT_id := C_ROOM_OUT_id this, C_ROOM_OUT_roomname := C_ROOM_OUT_roomname this\<rparr>)"

text \<open>The parse table: the field numbers, their types and what a field does to the message.\<close>

definition C_ROOM_OUT_field :: "(byte list \<Rightarrow> bool) \<Rightarrow> wire_field \<Rightarrow> C_ROOM_OUT \<Rightarrow> C_ROOM_OUT option" where
  "C_ROOM_OUT_field valid f this =
     (case f of (num, v) \<Rightarrow>
        if num = 1 then
          (case v of LenDelim s \<Rightarrow> if valid s then Some (C_ROOM_OUT_set_id s this) else None
           | _ \<Rightarrow> Some (this\<lparr>C_ROOM_OUT_unknown := C_ROOM_OUT_unknown this @ [(num, v)]\<rparr>))
        else if num = 2 then
          (case v of LenDelim s \<Rightarrow> if valid s then Some (C_ROOM_OUT_set_roomname s this) else None
           | _ \<Rightarrow> Some (this\<lparr>C_ROOM_OUT_unknown := C_ROOM_OUT_unknown this @ [(num, v)]\<rparr>))
        else Some (this\<lparr>C_ROOM_OUT_unknown := C_ROOM_OUT_unknown this @ [(num, v)]\<rparr>))"

definition C_ROOM_OUT_parse :: "(byte list \<Rightarrow> bool) \<Rightarrow> byte list \<Rightarrow> C_ROOM_OUT option" where
  "C_ROOM_OUT_parse valid = parse_message (C_ROOM_OUT_field valid) C_ROOM_OUT_new"

definition C_ROOM_OUT_wf :: "C_ROOM_OUT \<Rightarrow> bool" where
  [inv_defs]: "C_ROOM_OUT_wf m \<longleftrightarrow>
     (\<not> CheckHasBit (C_ROOM_OUT_has_bits m) 1 \<longrightarrow> C_ROOM_OUT_id m = []) \<and>
     (\<not> CheckHasBit (C_ROOM_OUT_has_bits m) 2 \<longrightarrow> C_ROOM_OUT_roomname m = [])"

lemmas C_ROOM_OUT_set_defs = C_ROOM_OUT_set_id_def C_ROOM_OUT_set_roomname_def

lemma C_ROOM_OUT_wf_ops:
  "C_ROOM_OUT_wf C_ROOM_OUT_new"
  "C_ROOM_OUT_wf m \<Longrightarrow> C_ROOM_OUT_wf (C_ROOM_OUT_set_id x1 m)"
  "C_ROOM_OUT_wf m \<Longrightarrow> C_ROOM_OUT_wf (C_ROOM_OUT_set_roomname x2 m)"
  "C_ROOM_OUT_wf m \<Longrightarrow> C_ROOM_OUT_wf m' \<Longrightarrow> C_ROOM_OUT_wf (C_ROOM_OUT_MergeImpl m m')"
  by (auto simp: C_ROOM_OUT_wf_def C_ROOM_OUT_new_def C_ROOM_OUT_set_defs C_ROOM_OUT_MergeImpl_def Let_def CheckHasBit_or)

lemma C_ROOM_OUT_Clear_new: "C_ROOM_OUT_wf m \<Longrightarrow> C_ROOM_OUT_Clear m = C_ROOM_OUT_new"
  using no_batch [of "C_ROOM_OUT_has_bits m"]
  by (auto simp: C_ROOM_OUT_wf_def C_ROOM_OUT_Clear_def C_ROOM_OUT_new_def Let_def)

lemma C_ROOM_OUT_copy: "C_ROOM_OUT_wf m \<Longrightarrow> C_ROOM_OUT_wf m' \<Longrightarrow> C_ROOM_OUT_CopyFrom False m m' = m'"
  using no_batch [of "C_ROOM_OUT_has_bits m'"]
  by (cases m') (auto simp: C_ROOM_OUT_CopyFrom_def C_ROOM_OUT_Clear_new C_ROOM_OUT_MergeImpl_def C_ROOM_OUT_new_def C_ROOM_OUT_wf_def Let_def)

lemma C_ROOM_OUT_swap: "C_ROOM_OUT_InternalSwap a b = (b, a)"
  by (simp add: C_ROOM_OUT_InternalSwap_def)

lemma C_ROOM_OUT_size: "pb_ok lib \<Longrightarrow> C_ROOM_OUT_ByteSizeLong lib m = length (C_ROOM_OUT_InternalSerialize lib m)"
  using no_batch [of "C_ROOM_OUT_has_bits m"]
  by (auto simp: C_ROOM_OUT_ByteSizeLong_def C_ROOM_OUT_InternalSerialize_def Let_def message_size pb_ok_unknown)

lemma C_ROOM_OUT_roundtrip:
  assumes lib: "pb_ok lib" and wf: "C_ROOM_OUT_wf m" "C_ROOM_OUT_unknown m = []"
    and ok: "valid (C_ROOM_OUT_id m)" "length (C_ROOM_OUT_id m) < 2 ^ 32"
      "valid (C_ROOM_OUT_roomname m)" "length (C_ROOM_OUT_roomname m) < 2 ^ 32"
  shows "\<exists>r. C_ROOM_OUT_parse valid (C_ROOM_OUT_InternalSerialize lib m) = Some r \<and> C_ROOM_OUT_wf r \<and> C_ROOM_OUT_unknown r = [] \<and>
    C_ROOM_OUT_id r = C_ROOM_OUT_id m \<and> C_ROOM_OUT_roomname r = C_ROOM_OUT_roomname m"
proof -
  let ?fs = "(if CheckHasBit (C_ROOM_OUT_has_bits m) 1 then if C_ROOM_OUT_id m \<noteq> [] then [(1, LenDelim (C_ROOM_OUT_id m))] else [] else []) @
     (if CheckHasBit (C_ROOM_OUT_has_bits m) 2 then if C_ROOM_OUT_roomname m \<noteq> [] then [(2, LenDelim (C_ROOM_OUT_roomname m))] else [] else []) @ []"
  have "encodes (C_ROOM_OUT_InternalSerialize lib m) ?fs"
    unfolding C_ROOM_OUT_InternalSerialize_def Let_def WriteString_eq [OF lib] wf(2)
    by (intro encodes_append encodes_if encodes_fields) (use ok in auto)
  then have parse: "C_ROOM_OUT_parse valid (C_ROOM_OUT_InternalSerialize lib m) = fold_fields (C_ROOM_OUT_field valid) ?fs C_ROOM_OUT_new"
    unfolding C_ROOM_OUT_parse_def by (simp only: parse_message_encodes)
  have "\<exists>r. fold_fields (C_ROOM_OUT_field valid) ?fs C_ROOM_OUT_new = Some r \<and> C_ROOM_OUT_wf r \<and> C_ROOM_OUT_unknown r = [] \<and> C_ROOM_OUT_id r = C_ROOM_OUT_id m \<and> C_ROOM_OUT_roomname r = C_ROOM_OUT_roomname m"
    using wf ok by (auto simp: fold_fields_append C_ROOM_OUT_field_def C_ROOM_OUT_new_def C_ROOM_OUT_set_defs C_ROOM_OUT_wf_def)
  then show ?thesis unfolding parse .
qed

end
