(* ===== verification/Messages_S.thy ===== *)
theory Messages_S
  imports Wire
begin

text \<open>
  The messages the server sends, in the same form as in \<open>Messages_C\<close>.
\<close>

unbundle bit_operations_syntax

section \<open>S_LOGIN\<close>

record S_LOGIN =
  S_LOGIN_has_bits :: u32
  S_LOGIN_id :: "byte list"
  S_LOGIN_pssd :: "byte list"
  S_LOGIN_issuccess :: "bool"
  S_LOGIN_unknown :: unknown_fields

definition S_LOGIN_new :: S_LOGIN where
  "S_LOGIN_new = \<lparr>S_LOGIN_has_bits = 0, S_LOGIN_id = [], S_LOGIN_pssd = [], S_LOGIN_issuccess = False,
     S_LOGIN_unknown = []\<rparr>"

definition S_LOGIN_set_issuccess :: "bool \<Rightarrow> S_LOGIN \<Rightarrow> S_LOGIN" where
  "S_LOGIN_set_issuccess value this =
     this\<lparr>S_LOGIN_has_bits := SetHasBit (S_LOGIN_has_bits this) 4, S_LOGIN_issuccess := value\<rparr>"

definition S_LOGIN_set_id :: "byte list \<Rightarrow> S_LOGIN \<Rightarrow> S_LOGIN" where
  "S_LOGIN_set_id value this =
     this\<lparr>S_LOGIN_has_bits := SetHasBit (S_LOGIN_has_bits this) 1, S_LOGIN_id := value\<rparr>"

definition S_LOGIN_set_pssd :: "byte list \<Rightarrow> S_LOGIN \<Rightarrow> S_LOGIN" where
  "S_LOGIN_set_pssd value this =
     this\<lparr>S_LOGIN_has_bits := SetHasBit (S_LOGIN_has_bits this) 2, S_LOGIN_pssd := value\<rparr>"

definition S_LOGIN_Clear :: "S_LOGIN \<Rightarrow> S_LOGIN" where
  "S_LOGIN_Clear this =
     (let bits = S_LOGIN_has_bits this in
      this\<lparr>S_LOGIN_id := (if BatchCheckHasBit bits 3 \<and> CheckHasBit bits 1 then [] else S_LOGIN_id this),
        S_LOGIN_pssd := (if BatchCheckHasBit bits 3 \<and> CheckHasBit bits 2 then [] else S_LOGIN_pssd this),
        S_LOGIN_issuccess := False,
        S_LOGIN_has_bits := 0,
        S_LOGIN_unknown := []\<rparr>)"

definition S_LOGIN_InternalSerialize :: "pb_lib \<Rightarrow> S_LOGIN \<Rightarrow> byte list" where
  "S_LOGIN_InternalSerialize lib this =
     (let bits = S_LOGIN_has_bits this in
      (if CheckHasBit bits 4 then if S_LOGIN_issuccess this then WriteBoolToArray 1 (S_LOGIN_issuccess this) else [] else []) @
      (if CheckHasBit bits 1 then if S_LOGIN_id this \<noteq> [] then WriteString lib 2 (S_LOGIN_id this) else [] else []) @
      (if CheckHasBit bits 2 then if S_LOGIN_pssd this \<noteq> [] then WriteString lib 3 (S_LOGIN_pssd this) else [] else []) @
      (if S_LOGIN_unknown this \<noteq> [] then SerializeUnknownFields lib (S_LOGIN_unknown this) else []))"

definition S_LOGIN_ByteSizeLong :: "pb_lib \<Rightarrow> S_LOGIN \<Rightarrow> nat" where
  "S_LOGIN_ByteSizeLong lib this =
     (let bits = S_LOGIN_has_bits this in
      (if BatchCheckHasBit bits 7 then
         (if CheckHasBit bits 1 then if S_LOGIN_id this \<noteq> [] then 1 + StringSize (S_LOGIN_id this) else 0 else 0) +
         (if CheckHasBit bits 2 then if S_LOGIN_pssd this \<noteq> [] then 1 + StringSize (S_LOGIN_pssd this) else 0 else 0) +
         (if CheckHasBit bits 4 then if S_LOGIN_issuccess this then 2 else 0 else 0)
       else 0) +
      (if S_LOGIN_unknown this \<noteq> [] then UnknownFieldsSize lib (S_LOGIN_unknown this) else 0))"

definition S_LOGIN_MergeImpl :: "S_LOGIN \<Rightarrow> S_LOGIN \<Rightarrow> S_LOGIN" where
  "S_LOGIN_MergeImpl to from =
     (let bits = S_LOGIN_has_bits from in
      to\<lparr>S_LOGIN_id := (if BatchCheckHasBit bits 7 \<and> CheckHasBit bits 1 \<and> S_LOGIN_id from \<noteq> [] then S_LOGIN_id from else S_LOGIN_id to),
        S_LOGIN_pssd := (if BatchCheckHasBit bits 7 \<and> CheckHasBit bits 2 \<and> S_LOGIN_pssd from \<noteq> [] then S_LOGIN_pssd from else S_LOGIN_pssd to),
        S_LOGIN_issuccess := (if BatchCheckHasBit bits 7 \<and> CheckHasBit bits 4 \<and> S_LOGIN_issuccess from then S_LOGIN_issuccess from else S_LOGIN_issuccess to),
        S_LOGIN_has_bits := S_LOGIN_has_bits to OR bits,
        S_LOGIN_unknown := S_LOGIN_unknown to @ S_LOGIN_unknown from\<rparr>)"

definition S_LOGIN_CopyFrom :: "bool \<Rightarrow> S_LOGIN \<Rightarrow> S_LOGIN \<Rightarrow> S_LOGIN" where
  "S_LOGIN_CopyFrom same this from = (if same then this else S_LOGIN_MergeImpl (S_LOGIN_Clear this) from)"

definition S_LOGIN_InternalSwap :: "S_LOGIN \<Rightarrow> S_LOGIN \<Rightarrow> S_LOGIN \<times> S_LOGIN" where
  "S_LOGIN_InternalSwap this other =
     (this\<lparr>S_LOGIN_unknown := S_LOGIN_unknown other, S_LOGIN_has_bits := S_LOGIN_has_bits other, S_LOGIN_id := S_LOGIN_id other, S_LOGIN_pssd := S_LOGIN_pssd other, S_LOGIN_issuccess := S_LOGIN_issuccess other\<rparr>,
      other\<lparr>S_LOGIN_unknown := S_LOGIN_unknown this, S_LOGIN_has_bits := S_LOGIN_has_bits this, S_LOGIN_id := S_LOGIN_id this, S_LOGIN_pssd := S_LOGIN_pssd this, S_LOGIN_issuccess := S_LOGIN_issuccess this\<rparr>)"

text \<open>The parse table: the field numbers, their types and what a field does to the message.\<close>

definition S_LOGIN_field :: "(byte list \<Rightarrow> bool) \<Rightarrow> wire_field \<Rightarrow> S_LOGIN \<Rightarrow> S_LOGIN option" where
  "S_LOGIN_field valid f this =
     (case f of (num, v) \<Rightarrow>
        if num = 1 then
          (case v of Varint n \<Rightarrow> Some (S_LOGIN_set_issuccess ((of_nat n :: u64) \<noteq> 0) this)
           | _ \<Rightarrow> Some (this\<lparr>S_LOGIN_unknown := S_LOGIN_unknown this @ [(num, v)]\<rparr>))
        else if num = 2 then
          (case v of LenDelim s \<Rightarrow> if valid s then Some (S_LOGIN_set_id s this) else None
           | _ \<Rightarrow> Some (this\<lparr>S_LOGIN_unknown := S_LOGIN_unknown this @ [(num, v)]\<rparr>))
        else if num = 3 then
          (case v of LenDelim s \<Rightarrow> if valid s then Some (S_LOGIN_set_pssd s this) else None
           | _ \<Rightarrow> Some (this\<lparr>S_LOGIN_unknown := S_LOGIN_unknown this @ [(num, v)]\<rparr>))
        else Some (this\<lparr>S_LOGIN_unknown := S_LOGIN_unknown this @ [(num, v)]\<rparr>))"

definition S_LOGIN_parse :: "(byte list \<Rightarrow> bool) \<Rightarrow> byte list \<Rightarrow> S_LOGIN option" where
  "S_LOGIN_parse valid = parse_message (S_LOGIN_field valid) S_LOGIN_new"

definition S_LOGIN_wf :: "S_LOGIN \<Rightarrow> bool" where
  [inv_defs]: "S_LOGIN_wf m \<longleftrightarrow>
     (\<not> CheckHasBit (S_LOGIN_has_bits m) 1 \<longrightarrow> S_LOGIN_id m = []) \<and>
     (\<not> CheckHasBit (S_LOGIN_has_bits m) 2 \<longrightarrow> S_LOGIN_pssd m = []) \<and>
     (\<not> CheckHasBit (S_LOGIN_has_bits m) 4 \<longrightarrow> S_LOGIN_issuccess m = False)"

lemmas S_LOGIN_set_defs = S_LOGIN_set_issuccess_def S_LOGIN_set_id_def S_LOGIN_set_pssd_def

lemma S_LOGIN_wf_ops:
  "S_LOGIN_wf S_LOGIN_new"
  "S_LOGIN_wf m \<Longrightarrow> S_LOGIN_wf (S_LOGIN_set_issuccess x1 m)"
  "S_LOGIN_wf m \<Longrightarrow> S_LOGIN_wf (S_LOGIN_set_id x2 m)"
  "S_LOGIN_wf m \<Longrightarrow> S_LOGIN_wf (S_LOGIN_set_pssd x3 m)"
  "S_LOGIN_wf m \<Longrightarrow> S_LOGIN_wf m' \<Longrightarrow> S_LOGIN_wf (S_LOGIN_MergeImpl m m')"
  by (auto simp: S_LOGIN_wf_def S_LOGIN_new_def S_LOGIN_set_defs S_LOGIN_MergeImpl_def Let_def CheckHasBit_or)

lemma S_LOGIN_Clear_new: "S_LOGIN_wf m \<Longrightarrow> S_LOGIN_Clear m = S_LOGIN_new"
  using no_batch [of "S_LOGIN_has_bits m"]
  by (auto simp: S_LOGIN_wf_def S_LOGIN_Clear_def S_LOGIN_new_def Let_def)

lemma S_LOGIN_copy: "S_LOGIN_wf m \<Longrightarrow> S_LOGIN_wf m' \<Longrightarrow> S_LOGIN_CopyFrom False m m' = m'"
  using no_batch [of "S_LOGIN_has_bits m'"]
  by (cases m') (auto simp: S_LOGIN_CopyFrom_def S_LOGIN_Clear_new S_LOGIN_MergeImpl_def S_LOGIN_new_def S_LOGIN_wf_def Let_def)

lemma S_LOGIN_swap: "S_LOGIN_InternalSwap a b = (b, a)"
  by (simp add: S_LOGIN_InternalSwap_def)

lemma S_LOGIN_size: "pb_ok lib \<Longrightarrow> S_LOGIN_ByteSizeLong lib m = length (S_LOGIN_InternalSerialize lib m)"
  using no_batch [of "S_LOGIN_has_bits m"]
  by (auto simp: S_LOGIN_ByteSizeLong_def S_LOGIN_InternalSerialize_def Let_def message_size pb_ok_unknown)

lemma S_LOGIN_roundtrip:
  assumes lib: "pb_ok lib" and wf: "S_LOGIN_wf m" "S_LOGIN_unknown m = []"
    and ok: "valid (S_LOGIN_id m)" "length (S_LOGIN_id m) < 2 ^ 32"
      "valid (S_LOGIN_pssd m)" "length (S_LOGIN_pssd m) < 2 ^ 32"
  shows "\<exists>r. S_LOGIN_parse valid (S_LOGIN_InternalSerialize lib m) = Some r \<and> S_LOGIN_wf r \<and> S_LOGIN_unknown r = [] \<and>
    S_LOGIN_issuccess r = S_LOGIN_issuccess m \<and> S_LOGIN_id r = S_LOGIN_id m \<and> S_LOGIN_pssd r = S_LOGIN_pssd m"
proof -
  let ?fs = "(if CheckHasBit (S_LOGIN_has_bits m) 4 then if S_LOGIN_issuccess m then [(1, Varint 1)] else [] else []) @
     (if CheckHasBit (S_LOGIN_has_bits m) 1 then if S_LOGIN_id m \<noteq> [] then [(2, LenDelim (S_LOGIN_id m))] else [] else []) @
     (if CheckHasBit (S_LOGIN_has_bits m) 2 then if S_LOGIN_pssd m \<noteq> [] then [(3, LenDelim (S_LOGIN_pssd m))] else [] else []) @ []"
  have "encodes (S_LOGIN_InternalSerialize lib m) ?fs"
    unfolding S_LOGIN_InternalSerialize_def Let_def WriteString_eq [OF lib] wf(2)
    by (intro encodes_append encodes_if encodes_fields) (use ok in auto)
  then have parse: "S_LOGIN_parse valid (S_LOGIN_InternalSerialize lib m) = fold_fields (S_LOGIN_field valid) ?fs S_LOGIN_new"
    unfolding S_LOGIN_parse_def by (simp only: parse_message_encodes)
  have "\<exists>r. fold_fields (S_LOGIN_field valid) ?fs S_LOGIN_new = Some r \<and> S_LOGIN_wf r \<and> S_LOGIN_unknown r = [] \<and> S_LOGIN_issuccess r = S_LOGIN_issuccess m \<and> S_LOGIN_id r = S_LOGIN_id m \<and> S_LOGIN_pssd r = S_LOGIN_pssd m"
    using wf ok by (auto simp: fold_fields_append S_LOGIN_field_def S_LOGIN_new_def S_LOGIN_set_defs S_LOGIN_wf_def)
  then show ?thesis unfolding parse .
qed

section \<open>S_REGISTER\<close>

record S_REGISTER =
  S_REGISTER_has_bits :: u32
  S_REGISTER_id :: "byte list"
  S_REGISTER_pssd :: "byte list"
  S_REGISTER_issuccess :: "bool"
  S_REGISTER_unknown :: unknown_fields

definition S_REGISTER_new :: S_REGISTER where
  "S_REGISTER_new = \<lparr>S_REGISTER_has_bits = 0, S_REGISTER_id = [], S_REGISTER_pssd = [], S_REGISTER_issuccess = False,
     S_REGISTER_unknown = []\<rparr>"

definition S_REGISTER_set_issuccess :: "bool \<Rightarrow> S_REGISTER \<Rightarrow> S_REGISTER" where
  "S_REGISTER_set_issuccess value this =
     this\<lparr>S_REGISTER_has_bits := SetHasBit (S_REGISTER_has_bits this) 4, S_REGISTER_issuccess := value\<rparr>"

definition S_REGISTER_set_id :: "byte list \<Rightarrow> S_REGISTER \<Rightarrow> S_REGISTER" where
  "S_REGISTER_set_id value this =
     this\<lparr>S_REGISTER_has_bits := SetHasBit (S_REGISTER_has_bits this) 1, S_REGISTER_id := value\<rparr>"

definition S_REGISTER_set_pssd :: "byte list \<Rightarrow> S_REGISTER \<Rightarrow> S_REGISTER" where
  "S_REGISTER_set_pssd value this =
     this\<lparr>S_REGISTER_has_bits := SetHasBit (S_REGISTER_has_bits this) 2, S_REGISTER_pssd := value\<rparr>"

definition S_REGISTER_Clear :: "S_REGISTER \<Rightarrow> S_REGISTER" where
  "S_REGISTER_Clear this =
     (let bits = S_REGISTER_has_bits this in
      this\<lparr>S_REGISTER_id := (if BatchCheckHasBit bits 3 \<and> CheckHasBit bits 1 then [] else S_REGISTER_id this),
        S_REGISTER_pssd := (if BatchCheckHasBit bits 3 \<and> CheckHasBit bits 2 then [] else S_REGISTER_pssd this),
        S_REGISTER_issuccess := False,
        S_REGISTER_has_bits := 0,
        S_REGISTER_unknown := []\<rparr>)"

definition S_REGISTER_InternalSerialize :: "pb_lib \<Rightarrow> S_REGISTER \<Rightarrow> byte list" where
  "S_REGISTER_InternalSerialize lib this =
     (let bits = S_REGISTER_has_bits this in
      (if CheckHasBit bits 4 then if S_REGISTER_issuccess this then WriteBoolToArray 1 (S_REGISTER_issuccess this) else [] else []) @
      (if CheckHasBit bits 1 then if S_REGISTER_id this \<noteq> [] then WriteString lib 2 (S_REGISTER_id this) else [] else []) @
      (if CheckHasBit bits 2 then if S_REGISTER_pssd this \<noteq> [] then WriteString lib 3 (S_REGISTER_pssd this) else [] else []) @
      (if S_REGISTER_unknown this \<noteq> [] then SerializeUnknownFields lib (S_REGISTER_unknown this) else []))"

definition S_REGISTER_ByteSizeLong :: "pb_lib \<Rightarrow> S_REGISTER \<Rightarrow> nat" where
  "S_REGISTER_ByteSizeLong lib this =
     (let bits = S_REGISTER_has_bits this in
      (if BatchCheckHasBit bits 7 then
         (if CheckHasBit bits 1 then if S_REGISTER_id this \<noteq> [] then 1 + StringSize (S_REGISTER_id this) else 0 else 0) +
         (if CheckHasBit bits 2 then if S_REGISTER_pssd this \<noteq> [] then 1 + StringSize (S_REGISTER_pssd this) else 0 else 0) +
         (if CheckHasBit bits 4 then if S_REGISTER_issuccess this then 2 else 0 else 0)
       else 0) +
      (if S_REGISTER_unknown this \<noteq> [] then UnknownFieldsSize lib (S_REGISTER_unknown this) else 0))"

definition S_REGISTER_MergeImpl :: "S_REGISTER \<Rightarrow> S_REGISTER \<Rightarrow> S_REGISTER" where
  "S_REGISTER_MergeImpl to from =
     (let bits = S_REGISTER_has_bits from in
      to\<lparr>S_REGISTER_id := (if BatchCheckHasBit bits 7 \<and> CheckHasBit bits 1 \<and> S_REGISTER_id from \<noteq> [] then S_REGISTER_id from else S_REGISTER_id to),
        S_REGISTER_pssd := (if BatchCheckHasBit bits 7 \<and> CheckHasBit bits 2 \<and> S_REGISTER_pssd from \<noteq> [] then S_REGISTER_pssd from else S_REGISTER_pssd to),
        S_REGISTER_issuccess := (if BatchCheckHasBit bits 7 \<and> CheckHasBit bits 4 \<and> S_REGISTER_issuccess from then S_REGISTER_issuccess from else S_REGISTER_issuccess to),
        S_REGISTER_has_bits := S_REGISTER_has_bits to OR bits,
        S_REGISTER_unknown := S_REGISTER_unknown to @ S_REGISTER_unknown from\<rparr>)"

definition S_REGISTER_CopyFrom :: "bool \<Rightarrow> S_REGISTER \<Rightarrow> S_REGISTER \<Rightarrow> S_REGISTER" where
  "S_REGISTER_CopyFrom same this from = (if same then this else S_REGISTER_MergeImpl (S_REGISTER_Clear this) from)"

definition S_REGISTER_InternalSwap :: "S_REGISTER \<Rightarrow> S_REGISTER \<Rightarrow> S_REGISTER \<times> S_REGISTER" where
  "S_REGISTER_InternalSwap this other =
     (this\<lparr>S_REGISTER_unknown := S_REGISTER_unknown other, S_REGISTER_has_bits := S_REGISTER_has_bits other, S_REGISTER_id := S_REGISTER_id other, S_REGISTER_pssd := S_REGISTER_pssd other, S_REGISTER_issuccess := S_REGISTER_issuccess other\<rparr>,
      other\<lparr>S_REGISTER_unknown := S_REGISTER_unknown this, S_REGISTER_has_bits := S_REGISTER_has_bits this, S_REGISTER_id := S_REGISTER_id this, S_REGISTER_pssd := S_REGISTER_pssd this, S_REGISTER_issuccess := S_REGISTER_issuccess this\<rparr>)"

text \<open>The parse table: the field numbers, their types and what a field does to the message.\<close>

definition S_REGISTER_field :: "(byte list \<Rightarrow> bool) \<Rightarrow> wire_field \<Rightarrow> S_REGISTER \<Rightarrow> S_REGISTER option" where
  "S_REGISTER_field valid f this =
     (case f of (num, v) \<Rightarrow>
        if num = 1 then
          (case v of Varint n \<Rightarrow> Some (S_REGISTER_set_issuccess ((of_nat n :: u64) \<noteq> 0) this)
           | _ \<Rightarrow> Some (this\<lparr>S_REGISTER_unknown := S_REGISTER_unknown this @ [(num, v)]\<rparr>))
        else if num = 2 then
          (case v of LenDelim s \<Rightarrow> if valid s then Some (S_REGISTER_set_id s this) else None
           | _ \<Rightarrow> Some (this\<lparr>S_REGISTER_unknown := S_REGISTER_unknown this @ [(num, v)]\<rparr>))
        else if num = 3 then
          (case v of LenDelim s \<Rightarrow> if valid s then Some (S_REGISTER_set_pssd s this) else None
           | _ \<Rightarrow> Some (this\<lparr>S_REGISTER_unknown := S_REGISTER_unknown this @ [(num, v)]\<rparr>))
        else Some (this\<lparr>S_REGISTER_unknown := S_REGISTER_unknown this @ [(num, v)]\<rparr>))"

definition S_REGISTER_parse :: "(byte list \<Rightarrow> bool) \<Rightarrow> byte list \<Rightarrow> S_REGISTER option" where
  "S_REGISTER_parse valid = parse_message (S_REGISTER_field valid) S_REGISTER_new"

definition S_REGISTER_wf :: "S_REGISTER \<Rightarrow> bool" where
  [inv_defs]: "S_REGISTER_wf m \<longleftrightarrow>
     (\<not> CheckHasBit (S_REGISTER_has_bits m) 1 \<longrightarrow> S_REGISTER_id m = []) \<and>
     (\<not> CheckHasBit (S_REGISTER_has_bits m) 2 \<longrightarrow> S_REGISTER_pssd m = []) \<and>
     (\<not> CheckHasBit (S_REGISTER_has_bits m) 4 \<longrightarrow> S_REGISTER_issuccess m = False)"

lemmas S_REGISTER_set_defs = S_REGISTER_set_issuccess_def S_REGISTER_set_id_def S_REGISTER_set_pssd_def

lemma S_REGISTER_wf_ops:
  "S_REGISTER_wf S_REGISTER_new"
  "S_REGISTER_wf m \<Longrightarrow> S_REGISTER_wf (S_REGISTER_set_issuccess x1 m)"
  "S_REGISTER_wf m \<Longrightarrow> S_REGISTER_wf (S_REGISTER_set_id x2 m)"
  "S_REGISTER_wf m \<Longrightarrow> S_REGISTER_wf (S_REGISTER_set_pssd x3 m)"
  "S_REGISTER_wf m \<Longrightarrow> S_REGISTER_wf m' \<Longrightarrow> S_REGISTER_wf (S_REGISTER_MergeImpl m m')"
  by (auto simp: S_REGISTER_wf_def S_REGISTER_new_def S_REGISTER_set_defs S_REGISTER_MergeImpl_def Let_def CheckHasBit_or)

lemma S_REGISTER_Clear_new: "S_REGISTER_wf m \<Longrightarrow> S_REGISTER_Clear m = S_REGISTER_new"
  using no_batch [of "S_REGISTER_has_bits m"]
  by (auto simp: S_REGISTER_wf_def S_REGISTER_Clear_def S_REGISTER_new_def Let_def)

lemma S_REGISTER_copy: "S_REGISTER_wf m \<Longrightarrow> S_REGISTER_wf m' \<Longrightarrow> S_REGISTER_CopyFrom False m m' = m'"
  using no_batch [of "S_REGISTER_has_bits m'"]
  by (cases m') (auto simp: S_REGISTER_CopyFrom_def S_REGISTER_Clear_new S_REGISTER_MergeImpl_def S_REGISTER_new_def S_REGISTER_wf_def Let_def)

lemma S_REGISTER_swap: "S_REGISTER_InternalSwap a b = (b, a)"
  by (simp add: S_REGISTER_InternalSwap_def)

lemma S_REGISTER_size: "pb_ok lib \<Longrightarrow> S_REGISTER_ByteSizeLong lib m = length (S_REGISTER_InternalSerialize lib m)"
  using no_batch [of "S_REGISTER_has_bits m"]
  by (auto simp: S_REGISTER_ByteSizeLong_def S_REGISTER_InternalSerialize_def Let_def message_size pb_ok_unknown)

lemma S_REGISTER_roundtrip:
  assumes lib: "pb_ok lib" and wf: "S_REGISTER_wf m" "S_REGISTER_unknown m = []"
    and ok: "valid (S_REGISTER_id m)" "length (S_REGISTER_id m) < 2 ^ 32"
      "valid (S_REGISTER_pssd m)" "length (S_REGISTER_pssd m) < 2 ^ 32"
  shows "\<exists>r. S_REGISTER_parse valid (S_REGISTER_InternalSerialize lib m) = Some r \<and> S_REGISTER_wf r \<and> S_REGISTER_unknown r = [] \<and>
    S_REGISTER_issuccess r = S_REGISTER_issuccess m \<and> S_REGISTER_id r = S_REGISTER_id m \<and> S_REGISTER_pssd r = S_REGISTER_pssd m"
proof -
  let ?fs = "(if CheckHasBit (S_REGISTER_has_bits m) 4 then if S_REGISTER_issuccess m then [(1, Varint 1)] else [] else []) @
     (if CheckHasBit (S_REGISTER_has_bits m) 1 then if S_REGISTER_id m \<noteq> [] then [(2, LenDelim (S_REGISTER_id m))] else [] else []) @
     (if CheckHasBit (S_REGISTER_has_bits m) 2 then if S_REGISTER_pssd m \<noteq> [] then [(3, LenDelim (S_REGISTER_pssd m))] else [] else []) @ []"
  have "encodes (S_REGISTER_InternalSerialize lib m) ?fs"
    unfolding S_REGISTER_InternalSerialize_def Let_def WriteString_eq [OF lib] wf(2)
    by (intro encodes_append encodes_if encodes_fields) (use ok in auto)
  then have parse: "S_REGISTER_parse valid (S_REGISTER_InternalSerialize lib m) = fold_fields (S_REGISTER_field valid) ?fs S_REGISTER_new"
    unfolding S_REGISTER_parse_def by (simp only: parse_message_encodes)
  have "\<exists>r. fold_fields (S_REGISTER_field valid) ?fs S_REGISTER_new = Some r \<and> S_REGISTER_wf r \<and> S_REGISTER_unknown r = [] \<and> S_REGISTER_issuccess r = S_REGISTER_issuccess m \<and> S_REGISTER_id r = S_REGISTER_id m \<and> S_REGISTER_pssd r = S_REGISTER_pssd m"
    using wf ok by (auto simp: fold_fields_append S_REGISTER_field_def S_REGISTER_new_def S_REGISTER_set_defs S_REGISTER_wf_def)
  then show ?thesis unfolding parse .
qed

section \<open>S_REFRESH_LOBBY\<close>

record S_REFRESH_LOBBY =
  S_REFRESH_LOBBY_has_bits :: u32
  S_REFRESH_LOBBY_roomnames :: "byte list list"
  S_REFRESH_LOBBY_usercounts :: "u64 list"
  S_REFRESH_LOBBY_issuccess :: "bool"
  S_REFRESH_LOBBY_usercounts_cached :: int
  S_REFRESH_LOBBY_unknown :: unknown_fields

definition S_REFRESH_LOBBY_new :: S_REFRESH_LOBBY where
  "S_REFRESH_LOBBY_new = \<lparr>S_REFRESH_LOBBY_has_bits = 0, S_REFRESH_LOBBY_roomnames = [], S_REFRESH_LOBBY_usercounts = [], S_REFRESH_LOBBY_issuccess = False, S_REFRESH_LOBBY_usercounts_cached = 0,
     S_REFRESH_LOBBY_unknown = []\<rparr>"

definition S_REFRESH_LOBBY_set_issuccess :: "bool \<Rightarrow> S_REFRESH_LOBBY \<Rightarrow> S_REFRESH_LOBBY" where
  "S_REFRESH_LOBBY_set_issuccess value this =
     this\<lparr>S_REFRESH_LOBBY_has_bits := SetHasBit (S_REFRESH_LOBBY_has_bits this) 4, S_REFRESH_LOBBY_issuccess := value\<rparr>"

definition S_REFRESH_LOBBY_add_roomnames :: "byte list \<Rightarrow> S_REFRESH_LOBBY \<Rightarrow> S_REFRESH_LOBBY" where
  "S_REFRESH_LOBBY_add_roomnames value this =
     this\<lparr>S_REFRESH_LOBBY_has_bits := SetHasBit (S_REFRESH_LOBBY_has_bits this) 1, S_REFRESH_LOBBY_roomnames := S_REFRESH_LOBBY_roomnames this @ [value]\<rparr>"

definition S_REFRESH_LOBBY_add_usercounts :: "u64 \<Rightarrow> S_REFRESH_LOBBY \<Rightarrow> S_REFRESH_LOBBY" where
  "S_REFRESH_LOBBY_add_usercounts value this =
     this\<lparr>S_REFRESH_LOBBY_has_bits := SetHasBit (S_REFRESH_LOBBY_has_bits this) 2, S_REFRESH_LOBBY_usercounts := S_REFRESH_LOBBY_usercounts this @ [value]\<rparr>"

definition S_REFRESH_LOBBY_Clear :: "S_REFRESH_LOBBY \<Rightarrow> S_REFRESH_LOBBY" where
  "S_REFRESH_LOBBY_Clear this =
     (let bits = S_REFRESH_LOBBY_has_bits this in
      this\<lparr>S_REFRESH_LOBBY_roomnames := (if BatchCheckHasBit bits 3 \<and> CheckHasBit bits 1 then [] else S_REFRESH_LOBBY_roomnames this),
        S_REFRESH_LOBBY_usercounts := (if BatchCheckHasBit bits 3 \<and> CheckHasBit bits 2 then [] else S_REFRESH_LOBBY_usercounts this),
        S_REFRESH_LOBBY_issuccess := False,
        S_REFRESH_LOBBY_has_bits := 0,
        S_REFRESH_LOBBY_unknown := []\<rparr>)"

definition S_REFRESH_LOBBY_InternalSerialize :: "pb_lib \<Rightarrow> S_REFRESH_LOBBY \<Rightarrow> byte list" where
  "S_REFRESH_LOBBY_InternalSerialize lib this =
     (let bits = S_REFRESH_LOBBY_has_bits this in
      (if CheckHasBit bits 4 then if S_REFRESH_LOBBY_issuccess this then WriteBoolToArray 1 (S_REFRESH_LOBBY_issuccess this) else [] else []) @
      (if CheckHasBit bits 1 then concat (map (WriteString lib 2) (S_REFRESH_LOBBY_roomnames this)) else []) @
      (if CheckHasBit bits 2 then if S_REFRESH_LOBBY_usercounts_cached this > 0
         then WriteInt64Packed 3 (S_REFRESH_LOBBY_usercounts this) (S_REFRESH_LOBBY_usercounts_cached this) else [] else []) @
      (if S_REFRESH_LOBBY_unknown this \<noteq> [] then SerializeUnknownFields lib (S_REFRESH_LOBBY_unknown this) else []))"

text \<open>\<open>ByteSizeLong\<close> also stores the size of the packed field in the message.\<close>

definition S_REFRESH_LOBBY_ByteSizeLong :: "pb_lib \<Rightarrow> S_REFRESH_LOBBY \<Rightarrow> nat \<times> S_REFRESH_LOBBY" where
  "S_REFRESH_LOBBY_ByteSizeLong lib this =
     (let bits = S_REFRESH_LOBBY_has_bits this in
      ((if BatchCheckHasBit bits 7 then
         (if CheckHasBit bits 1 then 1 * length (S_REFRESH_LOBBY_roomnames this) + (\<Sum>s\<leftarrow>S_REFRESH_LOBBY_roomnames this. StringSize s) else 0) +
         (if CheckHasBit bits 2 then fst (Int64SizeWithPackedTagSize lib (S_REFRESH_LOBBY_usercounts this) 1) else 0) +
         (if CheckHasBit bits 4 then if S_REFRESH_LOBBY_issuccess this then 2 else 0 else 0)
       else 0) +
      (if S_REFRESH_LOBBY_unknown this \<noteq> [] then UnknownFieldsSize lib (S_REFRESH_LOBBY_unknown this) else 0),
       if BatchCheckHasBit bits 7 \<and> CheckHasBit bits 2
       then this\<lparr>S_REFRESH_LOBBY_usercounts_cached := snd (Int64SizeWithPackedTagSize lib (S_REFRESH_LOBBY_usercounts this) 1)\<rparr> else this))"

definition S_REFRESH_LOBBY_MergeImpl :: "S_REFRESH_LOBBY \<Rightarrow> S_REFRESH_LOBBY \<Rightarrow> S_REFRESH_LOBBY" where
  "S_REFRESH_LOBBY_MergeImpl to from =
     (let bits = S_REFRESH_LOBBY_has_bits from in
      to\<lparr>S_REFRESH_LOBBY_roomnames := (if BatchCheckHasBit bits 7 \<and> CheckHasBit bits 1 then S_REFRESH_LOBBY_roomnames to @ S_REFRESH_LOBBY_roomnames from else S_REFRESH_LOBBY_roomnames to),
        S_REFRESH_LOBBY_usercounts := (if BatchCheckHasBit bits 7 \<and> CheckHasBit bits 2 then S_REFRESH_LOBBY_usercounts to @ S_REFRESH_LOBBY_usercounts from else S_REFRESH_LOBBY_usercounts to),
        S_REFRESH_LOBBY_issuccess := (if BatchCheckHasBit bits 7 \<and> CheckHasBit bits 4 \<and> S_REFRESH_LOBBY_issuccess from then S_REFRESH_LOBBY_issuccess from else S_REFRESH_LOBBY_issuccess to),
        S_REFRESH_LOBBY_has_bits := S_REFRESH_LOBBY_has_bits to OR bits,
        S_REFRESH_LOBBY_unknown := S_REFRESH_LOBBY_unknown to @ S_REFRESH_LOBBY_unknown from\<rparr>)"

definition S_REFRESH_LOBBY_CopyFrom :: "bool \<Rightarrow> S_REFRESH_LOBBY \<Rightarrow> S_REFRESH_LOBBY \<Rightarrow> S_REFRESH_LOBBY" where
  "S_REFRESH_LOBBY_CopyFrom same this from = (if same then this else S_REFRESH_LOBBY_MergeImpl (S_REFRESH_LOBBY_Clear this) from)"

definition S_REFRESH_LOBBY_InternalSwap :: "S_REFRESH_LOBBY \<Rightarrow> S_REFRESH_LOBBY \<Rightarrow> S_REFRESH_LOBBY \<times> S_REFRESH_LOBBY" where
  "S_REFRESH_LOBBY_InternalSwap this other =
     (this\<lparr>S_REFRESH_LOBBY_unknown := S_REFRESH_LOBBY_unknown other, S_REFRESH_LOBBY_has_bits := S_REFRESH_LOBBY_has_bits other, S_REFRESH_LOBBY_roomnames := S_REFRESH_LOBBY_roomnames other, S_REFRESH_LOBBY_usercounts := S_REFRESH_LOBBY_usercounts other, S_REFRESH_LOBBY_issuccess := S_REFRESH_LOBBY_issuccess other\<rparr>,
      other\<lparr>S_REFRESH_LOBBY_unknown := S_REFRESH_LOBBY_unknown this, S_REFRESH_LOBBY_has_bits := S_REFRESH_LOBBY_has_bits this, S_REFRESH_LOBBY_roomnames := S_REFRESH_LOBBY_roomnames this, S_REFRESH_LOBBY_usercounts := S_REFRESH_LOBBY_usercounts this, S_REFRESH_LOBBY_issuccess := S_REFRESH_LOBBY_issuccess this\<rparr>)"

text \<open>The parse table: the field numbers, their types and what a field does to the message.\<close>

definition S_REFRESH_LOBBY_field :: "(byte list \<Rightarrow> bool) \<Rightarrow> wire_field \<Rightarrow> S_REFRESH_LOBBY \<Rightarrow> S_REFRESH_LOBBY option" where
  "S_REFRESH_LOBBY_field valid f this =
     (case f of (num, v) \<Rightarrow>
        if num = 1 then
          (case v of Varint n \<Rightarrow> Some (S_REFRESH_LOBBY_set_issuccess ((of_nat n :: u64) \<noteq> 0) this)
           | _ \<Rightarrow> Some (this\<lparr>S_REFRESH_LOBBY_unknown := S_REFRESH_LOBBY_unknown this @ [(num, v)]\<rparr>))
        else if num = 2 then
          (case v of LenDelim s \<Rightarrow> if valid s then Some (S_REFRESH_LOBBY_add_roomnames s this) else None
           | _ \<Rightarrow> Some (this\<lparr>S_REFRESH_LOBBY_unknown := S_REFRESH_LOBBY_unknown this @ [(num, v)]\<rparr>))
        else if num = 3 then
          (case v of LenDelim b \<Rightarrow> map_option (\<lambda>ns. fold (\<lambda>n. S_REFRESH_LOBBY_add_usercounts (of_nat n)) ns this) (get_packed b)
           | Varint n \<Rightarrow> Some (S_REFRESH_LOBBY_add_usercounts (of_nat n) this)
           | _ \<Rightarrow> Some (this\<lparr>S_REFRESH_LOBBY_unknown := S_REFRESH_LOBBY_unknown this @ [(num, v)]\<rparr>))
        else Some (this\<lparr>S_REFRESH_LOBBY_unknown := S_REFRESH_LOBBY_unknown this @ [(num, v)]\<rparr>))"

definition S_REFRESH_LOBBY_parse :: "(byte list \<Rightarrow> bool) \<Rightarrow> byte list \<Rightarrow> S_REFRESH_LOBBY option" where
  "S_REFRESH_LOBBY_parse valid = parse_message (S_REFRESH_LOBBY_field valid) S_REFRESH_LOBBY_new"

definition S_REFRESH_LOBBY_wf :: "S_REFRESH_LOBBY \<Rightarrow> bool" where
  [inv_defs]: "S_REFRESH_LOBBY_wf m \<longleftrightarrow>
     (\<not> CheckHasBit (S_REFRESH_LOBBY_has_bits m) 1 \<longrightarrow> S_REFRESH_LOBBY_roomnames m = []) \<and>
     (\<not> CheckHasBit (S_REFRESH_LOBBY_has_bits m) 2 \<longrightarrow> S_REFRESH_LOBBY_usercounts m = []) \<and>
     (\<not> CheckHasBit (S_REFRESH_LOBBY_has_bits m) 4 \<longrightarrow> S_REFRESH_LOBBY_issuccess m = False)"

lemmas S_REFRESH_LOBBY_set_defs = S_REFRESH_LOBBY_set_issuccess_def S_REFRESH_LOBBY_add_roomnames_def S_REFRESH_LOBBY_add_usercounts_def

lemma S_REFRESH_LOBBY_wf_ops:
  "S_REFRESH_LOBBY_wf S_REFRESH_LOBBY_new"
  "S_REFRESH_LOBBY_wf m \<Longrightarrow> S_REFRESH_LOBBY_wf (S_REFRESH_LOBBY_set_issuccess x1 m)"
  "S_REFRESH_LOBBY_wf m \<Longrightarrow> S_REFRESH_LOBBY_wf (S_REFRESH_LOBBY_add_roomnames x2 m)"
  "S_REFRESH_LOBBY_wf m \<Longrightarrow> S_REFRESH_LOBBY_wf (S_REFRESH_LOBBY_add_usercounts x3 m)"
  "S_REFRESH_LOBBY_wf m \<Longrightarrow> S_REFRESH_LOBBY_wf m' \<Longrightarrow> S_REFRESH_LOBBY_wf (S_REFRESH_LOBBY_MergeImpl m m')"
  by (auto simp: S_REFRESH_LOBBY_wf_def S_REFRESH_LOBBY_new_def S_REFRESH_LOBBY_set_defs S_REFRESH_LOBBY_MergeImpl_def Let_def CheckHasBit_or)

lemma S_REFRESH_LOBBY_Clear_new: "S_REFRESH_LOBBY_wf m \<Longrightarrow> S_REFRESH_LOBBY_Clear m = S_REFRESH_LOBBY_new\<lparr>S_REFRESH_LOBBY_usercounts_cached := S_REFRESH_LOBBY_usercounts_cached m\<rparr>"
  using no_batch [of "S_REFRESH_LOBBY_has_bits m"]
  by (auto simp: S_REFRESH_LOBBY_wf_def S_REFRESH_LOBBY_Clear_def S_REFRESH_LOBBY_new_def Let_def)

lemma S_REFRESH_LOBBY_copy: "S_REFRESH_LOBBY_wf m \<Longrightarrow> S_REFRESH_LOBBY_wf m' \<Longrightarrow> S_REFRESH_LOBBY_CopyFrom False m m' = m'\<lparr>S_REFRESH_LOBBY_usercounts_cached := S_REFRESH_LOBBY_usercounts_cached m\<rparr>"
  using no_batch [of "S_REFRESH_LOBBY_has_bits m'"]
  by (cases m') (auto simp: S_REFRESH_LOBBY_CopyFrom_def S_REFRESH_LOBBY_Clear_new S_REFRESH_LOBBY_MergeImpl_def S_REFRESH_LOBBY_new_def S_REFRESH_LOBBY_wf_def Let_def)

lemma S_REFRESH_LOBBY_swap: "S_REFRESH_LOBBY_InternalSwap a b = (b\<lparr>S_REFRESH_LOBBY_usercounts_cached := S_REFRESH_LOBBY_usercounts_cached a\<rparr>, a\<lparr>S_REFRESH_LOBBY_usercounts_cached := S_REFRESH_LOBBY_usercounts_cached b\<rparr>)"
  by (simp add: S_REFRESH_LOBBY_InternalSwap_def)

lemma S_REFRESH_LOBBY_size:
  assumes lib: "pb_ok lib"
  shows "fst (S_REFRESH_LOBBY_ByteSizeLong lib m) = length (S_REFRESH_LOBBY_InternalSerialize lib (snd (S_REFRESH_LOBBY_ByteSizeLong lib m)))"
proof (cases "BatchCheckHasBit (S_REFRESH_LOBBY_has_bits m) 7")
  case True
  then show ?thesis
    using Int64Size_pos [of "S_REFRESH_LOBBY_usercounts m"]
    by (cases "CheckHasBit (S_REFRESH_LOBBY_has_bits m) 2"; cases "S_REFRESH_LOBBY_usercounts m = []")
      (simp_all add: S_REFRESH_LOBBY_ByteSizeLong_def S_REFRESH_LOBBY_InternalSerialize_def Let_def pb_ok_string_size [OF lib] pb_ok_strings_size [OF lib]
        pb_ok_packed_size length_WriteBool pb_ok_unknown [OF lib] pb_ok_packed [OF lib])
next
  case False
  then show ?thesis
    using no_batch(2) [of "S_REFRESH_LOBBY_has_bits m"]
    by (simp add: S_REFRESH_LOBBY_ByteSizeLong_def S_REFRESH_LOBBY_InternalSerialize_def Let_def pb_ok_unknown [OF lib])
qed

lemma S_REFRESH_LOBBY_fold_roomnames:
  "\<forall>s \<in> set ss. valid s \<Longrightarrow> fold_fields (S_REFRESH_LOBBY_field valid) (map (\<lambda>s. (2, LenDelim s)) ss) m =
     Some (m\<lparr>S_REFRESH_LOBBY_has_bits := (if ss = [] then S_REFRESH_LOBBY_has_bits m else SetHasBit (S_REFRESH_LOBBY_has_bits m) 1), S_REFRESH_LOBBY_roomnames := S_REFRESH_LOBBY_roomnames m @ ss\<rparr>)"
  by (induction ss arbitrary: m) (auto simp: S_REFRESH_LOBBY_field_def S_REFRESH_LOBBY_add_roomnames_def SetHasBit_twice)

lemma S_REFRESH_LOBBY_fold_usercounts:
  "fold (\<lambda>n. S_REFRESH_LOBBY_add_usercounts (of_nat n)) (map unat ss) m =
     m\<lparr>S_REFRESH_LOBBY_has_bits := (if ss = [] then S_REFRESH_LOBBY_has_bits m else SetHasBit (S_REFRESH_LOBBY_has_bits m) 2), S_REFRESH_LOBBY_usercounts := S_REFRESH_LOBBY_usercounts m @ ss\<rparr>"
  by (induction ss arbitrary: m) (auto simp: S_REFRESH_LOBBY_add_usercounts_def SetHasBit_twice)

lemma S_REFRESH_LOBBY_roundtrip:
  assumes lib: "pb_ok lib" and wf: "S_REFRESH_LOBBY_wf m" "S_REFRESH_LOBBY_unknown m = []"
    and ok: "\<forall>s \<in> set (S_REFRESH_LOBBY_roomnames m). valid s \<and> length s < 2 ^ 32"
      "Int64Size (S_REFRESH_LOBBY_usercounts m) < 2 ^ 32"
  shows "\<exists>r. S_REFRESH_LOBBY_parse valid (S_REFRESH_LOBBY_InternalSerialize lib (snd (S_REFRESH_LOBBY_ByteSizeLong lib m))) = Some r \<and> S_REFRESH_LOBBY_wf r \<and> S_REFRESH_LOBBY_unknown r = [] \<and>
    S_REFRESH_LOBBY_issuccess r = S_REFRESH_LOBBY_issuccess m \<and> S_REFRESH_LOBBY_roomnames r = S_REFRESH_LOBBY_roomnames m \<and> S_REFRESH_LOBBY_usercounts r = S_REFRESH_LOBBY_usercounts m"
proof -
  let ?fs = "(if CheckHasBit (S_REFRESH_LOBBY_has_bits m) 4 then if S_REFRESH_LOBBY_issuccess m then [(1, Varint 1)] else [] else []) @
     (if CheckHasBit (S_REFRESH_LOBBY_has_bits m) 1 then map (\<lambda>s. (2, LenDelim s)) (S_REFRESH_LOBBY_roomnames m) else []) @
     (if CheckHasBit (S_REFRESH_LOBBY_has_bits m) 2 then if S_REFRESH_LOBBY_usercounts m \<noteq> [] then [(3, LenDelim (concat (map UnsafeVarint (S_REFRESH_LOBBY_usercounts m))))] else [] else []) @ []"
  have ser: "S_REFRESH_LOBBY_InternalSerialize lib (snd (S_REFRESH_LOBBY_ByteSizeLong lib m)) =
     (if CheckHasBit (S_REFRESH_LOBBY_has_bits m) 4 then if S_REFRESH_LOBBY_issuccess m then WriteBoolToArray 1 (S_REFRESH_LOBBY_issuccess m) else [] else []) @
     (if CheckHasBit (S_REFRESH_LOBBY_has_bits m) 1 then concat (map (put_string 2) (S_REFRESH_LOBBY_roomnames m)) else []) @
     (if CheckHasBit (S_REFRESH_LOBBY_has_bits m) 2 then if S_REFRESH_LOBBY_usercounts m \<noteq> [] then put_string 3 (concat (map UnsafeVarint (S_REFRESH_LOBBY_usercounts m))) else [] else []) @ []"
  proof (cases "BatchCheckHasBit (S_REFRESH_LOBBY_has_bits m) 7 \<and> CheckHasBit (S_REFRESH_LOBBY_has_bits m) 2")
    case True
    then show ?thesis using wf(2) Int64Size_pos [of "S_REFRESH_LOBBY_usercounts m"]
      by (simp add: S_REFRESH_LOBBY_InternalSerialize_def S_REFRESH_LOBBY_ByteSizeLong_def Let_def pb_ok_packed [OF lib] WriteString_eq [OF lib]
          WriteInt64Packed_put_string)
  next
    case False
    then have "\<not> CheckHasBit (S_REFRESH_LOBBY_has_bits m) 2" using no_batch(2) [of "S_REFRESH_LOBBY_has_bits m"] by auto
    then show ?thesis using wf(2)
      by (simp add: S_REFRESH_LOBBY_InternalSerialize_def S_REFRESH_LOBBY_ByteSizeLong_def Let_def WriteString_eq [OF lib])
  qed
  have "encodes (S_REFRESH_LOBBY_InternalSerialize lib (snd (S_REFRESH_LOBBY_ByteSizeLong lib m))) ?fs"
    unfolding ser by (intro encodes_append encodes_if encodes_fields) (use ok in \<open>auto simp: Int64Size_length\<close>)
  then have parse: "S_REFRESH_LOBBY_parse valid (S_REFRESH_LOBBY_InternalSerialize lib (snd (S_REFRESH_LOBBY_ByteSizeLong lib m))) = fold_fields (S_REFRESH_LOBBY_field valid) ?fs S_REFRESH_LOBBY_new"
    unfolding S_REFRESH_LOBBY_parse_def by (simp only: parse_message_encodes)
  have "\<exists>r. fold_fields (S_REFRESH_LOBBY_field valid) ?fs S_REFRESH_LOBBY_new = Some r \<and> S_REFRESH_LOBBY_wf r \<and> S_REFRESH_LOBBY_unknown r = [] \<and> S_REFRESH_LOBBY_issuccess r = S_REFRESH_LOBBY_issuccess m \<and> S_REFRESH_LOBBY_roomnames r = S_REFRESH_LOBBY_roomnames m \<and> S_REFRESH_LOBBY_usercounts r = S_REFRESH_LOBBY_usercounts m"
    using wf ok by (auto simp: fold_fields_append S_REFRESH_LOBBY_field_def S_REFRESH_LOBBY_new_def S_REFRESH_LOBBY_set_defs S_REFRESH_LOBBY_wf_def S_REFRESH_LOBBY_fold_roomnames S_REFRESH_LOBBY_fold_usercounts get_packed_UnsafeVarint)
  then show ?thesis unfolding parse .
qed

section \<open>S_CREATE_ROOM\<close>

record S_CREATE_ROOM =
  S_CREATE_ROOM_has_bits :: u32
  S_CREATE_ROOM_roomname :: "byte list"
  S_CREATE_ROOM_issuccess :: "bool"
  S_CREATE_ROOM_unknown :: unknown_fields

definition S_CREATE_ROOM_new :: S_CREATE_ROOM where
  "S_CREATE_ROOM_new = \<lparr>S_CREATE_ROOM_has_bits = 0, S_CREATE_ROOM_roomname = [], S_CREATE_ROOM_issuccess = False,
     S_CREATE_ROOM_unknown = []\<rparr>"

definition S_CREATE_ROOM_set_issuccess :: "bool \<Rightarrow> S_CREATE_ROOM \<Rightarrow> S_CREATE_ROOM" where
  "S_CREATE_ROOM_set_issuccess value this =
     this\<lparr>S_CREATE_ROOM_has_bits := SetHasBit (S_CREATE_ROOM_has_bits this) 2, S_CREATE_ROOM_issuccess := value\<rparr>"

definition S_CREATE_ROOM_set_roomname :: "byte list \<Rightarrow> S_CREATE_ROOM \<Rightarrow> S_CREATE_ROOM" where
  "S_CREATE_ROOM_set_roomname value this =
     this\<lparr>S_CREATE_ROOM_has_bits := SetHasBit (S_CREATE_ROOM_has_bits this) 1, S_CREATE_ROOM_roomname := value\<rparr>"

definition S_CREATE_ROOM_Clear :: "S_CREATE_ROOM \<Rightarrow> S_CREATE_ROOM" where
  "S_CREATE_ROOM_Clear this =
     (let bits = S_CREATE_ROOM_has_bits this in
      this\<lparr>S_CREATE_ROOM_roomname := (if CheckHasBit bits 1 then [] else S_CREATE_ROOM_roomname this),
        S_CREATE_ROOM_issuccess := False,
        S_CREATE_ROOM_has_bits := 0,
        S_CREATE_ROOM_unknown := []\<rparr>)"

definition S_CREATE_ROOM_InternalSerialize :: "pb_lib \<Rightarrow> S_CREATE_ROOM \<Rightarrow> byte list" where
  "S_CREATE_ROOM_InternalSerialize lib this =
     (let bits = S_CREATE_ROOM_has_bits this in
      (if CheckHasBit bits 2 then if S_CREATE_ROOM_issuccess this then WriteBoolToArray 1 (S_CREATE_ROOM_issuccess this) else [] else []) @
      (if CheckHasBit bits 1 then if S_CREATE_ROOM_roomname this \<noteq> [] then WriteString lib 2 (S_CREATE_ROOM_roomname this) else [] else []) @
      (if S_CREATE_ROOM_unknown this \<noteq> [] then SerializeUnknownFields lib (S_CREATE_ROOM_unknown this) else []))"

definition S_CREATE_ROOM_ByteSizeLong :: "pb_lib \<Rightarrow> S_CREATE_ROOM \<Rightarrow> nat" where
  "S_CREATE_ROOM_ByteSizeLong lib this =
     (let bits = S_CREATE_ROOM_has_bits this in
      (if BatchCheckHasBit bits 3 then
         (if CheckHasBit bits 1 then if S_CREATE_ROOM_roomname this \<noteq> [] then 1 + StringSize (S_CREATE_ROOM_roomname this) else 0 else 0) +
         (if CheckHasBit bits 2 then if S_CREATE_ROOM_issuccess this then 2 else 0 else 0)
       else 0) +
      (if S_CREATE_ROOM_unknown this \<noteq> [] then UnknownFieldsSize lib (S_CREATE_ROOM_unknown this) else 0))"

definition S_CREATE_ROOM_MergeImpl :: "S_CREATE_ROOM \<Rightarrow> S_CREATE_ROOM \<Rightarrow> S_CREATE_ROOM" where
  "S_CREATE_ROOM_MergeImpl to from =
     (let bits = S_CREATE_ROOM_has_bits from in
      to\<lparr>S_CREATE_ROOM_roomname := (if BatchCheckHasBit bits 3 \<and> CheckHasBit bits 1 \<and> S_CREATE_ROOM_roomname from \<noteq> [] then S_CREATE_ROOM_roomname from else S_CREATE_ROOM_roomname to),
        S_CREATE_ROOM_issuccess := (if BatchCheckHasBit bits 3 \<and> CheckHasBit bits 2 \<and> S_CREATE_ROOM_issuccess from then S_CREATE_ROOM_issuccess from else S_CREATE_ROOM_issuccess to),
        S_CREATE_ROOM_has_bits := S_CREATE_ROOM_has_bits to OR bits,
        S_CREATE_ROOM_unknown := S_CREATE_ROOM_unknown to @ S_CREATE_ROOM_unknown from\<rparr>)"

definition S_CREATE_ROOM_CopyFrom :: "bool \<Rightarrow> S_CREATE_ROOM \<Rightarrow> S_CREATE_ROOM \<Rightarrow> S_CREATE_ROOM" where
  "S_CREATE_ROOM_CopyFrom same this from = (if same then this else S_CREATE_ROOM_MergeImpl (S_CREATE_ROOM_Clear this) from)"

definition S_CREATE_ROOM_InternalSwap :: "S_CREATE_ROOM \<Rightarrow> S_CREATE_ROOM \<Rightarrow> S_CREATE_ROOM \<times> S_CREATE_ROOM" where
  "S_CREATE_ROOM_InternalSwap this other =
     (this\<lparr>S_CREATE_ROOM_unknown := S_CREATE_ROOM_unknown other, S_CREATE_ROOM_has_bits := S_CREATE_ROOM_has_bits other, S_CREATE_ROOM_roomname := S_CREATE_ROOM_roomname other, S_CREATE_ROOM_issuccess := S_CREATE_ROOM_issuccess other\<rparr>,
      other\<lparr>S_CREATE_ROOM_unknown := S_CREATE_ROOM_unknown this, S_CREATE_ROOM_has_bits := S_CREATE_ROOM_has_bits this, S_CREATE_ROOM_roomname := S_CREATE_ROOM_roomname this, S_CREATE_ROOM_issuccess := S_CREATE_ROOM_issuccess this\<rparr>)"

text \<open>The parse table: the field numbers, their types and what a field does to the message.\<close>

definition S_CREATE_ROOM_field :: "(byte list \<Rightarrow> bool) \<Rightarrow> wire_field \<Rightarrow> S_CREATE_ROOM \<Rightarrow> S_CREATE_ROOM option" where
  "S_CREATE_ROOM_field valid f this =
     (case f of (num, v) \<Rightarrow>
        if num = 1 then
          (case v of Varint n \<Rightarrow> Some (S_CREATE_ROOM_set_issuccess ((of_nat n :: u64) \<noteq> 0) this)
           | _ \<Rightarrow> Some (this\<lparr>S_CREATE_ROOM_unknown := S_CREATE_ROOM_unknown this @ [(num, v)]\<rparr>))
        else if num = 2 then
          (case v of LenDelim s \<Rightarrow> if valid s then Some (S_CREATE_ROOM_set_roomname s this) else None
           | _ \<Rightarrow> Some (this\<lparr>S_CREATE_ROOM_unknown := S_CREATE_ROOM_unknown this @ [(num, v)]\<rparr>))
        else Some (this\<lparr>S_CREATE_ROOM_unknown := S_CREATE_ROOM_unknown this @ [(num, v)]\<rparr>))"

definition S_CREATE_ROOM_parse :: "(byte list \<Rightarrow> bool) \<Rightarrow> byte list \<Rightarrow> S_CREATE_ROOM option" where
  "S_CREATE_ROOM_parse valid = parse_message (S_CREATE_ROOM_field valid) S_CREATE_ROOM_new"

definition S_CREATE_ROOM_wf :: "S_CREATE_ROOM \<Rightarrow> bool" where
  [inv_defs]: "S_CREATE_ROOM_wf m \<longleftrightarrow>
     (\<not> CheckHasBit (S_CREATE_ROOM_has_bits m) 1 \<longrightarrow> S_CREATE_ROOM_roomname m = []) \<and>
     (\<not> CheckHasBit (S_CREATE_ROOM_has_bits m) 2 \<longrightarrow> S_CREATE_ROOM_issuccess m = False)"

lemmas S_CREATE_ROOM_set_defs = S_CREATE_ROOM_set_issuccess_def S_CREATE_ROOM_set_roomname_def

lemma S_CREATE_ROOM_wf_ops:
  "S_CREATE_ROOM_wf S_CREATE_ROOM_new"
  "S_CREATE_ROOM_wf m \<Longrightarrow> S_CREATE_ROOM_wf (S_CREATE_ROOM_set_issuccess x1 m)"
  "S_CREATE_ROOM_wf m \<Longrightarrow> S_CREATE_ROOM_wf (S_CREATE_ROOM_set_roomname x2 m)"
  "S_CREATE_ROOM_wf m \<Longrightarrow> S_CREATE_ROOM_wf m' \<Longrightarrow> S_CREATE_ROOM_wf (S_CREATE_ROOM_MergeImpl m m')"
  by (auto simp: S_CREATE_ROOM_wf_def S_CREATE_ROOM_new_def S_CREATE_ROOM_set_defs S_CREATE_ROOM_MergeImpl_def Let_def CheckHasBit_or)

lemma S_CREATE_ROOM_Clear_new: "S_CREATE_ROOM_wf m \<Longrightarrow> S_CREATE_ROOM_Clear m = S_CREATE_ROOM_new"
  using no_batch [of "S_CREATE_ROOM_has_bits m"]
  by (auto simp: S_CREATE_ROOM_wf_def S_CREATE_ROOM_Clear_def S_CREATE_ROOM_new_def Let_def)

lemma S_CREATE_ROOM_copy: "S_CREATE_ROOM_wf m \<Longrightarrow> S_CREATE_ROOM_wf m' \<Longrightarrow> S_CREATE_ROOM_CopyFrom False m m' = m'"
  using no_batch [of "S_CREATE_ROOM_has_bits m'"]
  by (cases m') (auto simp: S_CREATE_ROOM_CopyFrom_def S_CREATE_ROOM_Clear_new S_CREATE_ROOM_MergeImpl_def S_CREATE_ROOM_new_def S_CREATE_ROOM_wf_def Let_def)

lemma S_CREATE_ROOM_swap: "S_CREATE_ROOM_InternalSwap a b = (b, a)"
  by (simp add: S_CREATE_ROOM_InternalSwap_def)

lemma S_CREATE_ROOM_size: "pb_ok lib \<Longrightarrow> S_CREATE_ROOM_ByteSizeLong lib m = length (S_CREATE_ROOM_InternalSerialize lib m)"
  using no_batch [of "S_CREATE_ROOM_has_bits m"]
  by (auto simp: S_CREATE_ROOM_ByteSizeLong_def S_CREATE_ROOM_InternalSerialize_def Let_def message_size pb_ok_unknown)

lemma S_CREATE_ROOM_roundtrip:
  assumes lib: "pb_ok lib" and wf: "S_CREATE_ROOM_wf m" "S_CREATE_ROOM_unknown m = []"
    and ok: "valid (S_CREATE_ROOM_roomname m)" "length (S_CREATE_ROOM_roomname m) < 2 ^ 32"
  shows "\<exists>r. S_CREATE_ROOM_parse valid (S_CREATE_ROOM_InternalSerialize lib m) = Some r \<and> S_CREATE_ROOM_wf r \<and> S_CREATE_ROOM_unknown r = [] \<and>
    S_CREATE_ROOM_issuccess r = S_CREATE_ROOM_issuccess m \<and> S_CREATE_ROOM_roomname r = S_CREATE_ROOM_roomname m"
proof -
  let ?fs = "(if CheckHasBit (S_CREATE_ROOM_has_bits m) 2 then if S_CREATE_ROOM_issuccess m then [(1, Varint 1)] else [] else []) @
     (if CheckHasBit (S_CREATE_ROOM_has_bits m) 1 then if S_CREATE_ROOM_roomname m \<noteq> [] then [(2, LenDelim (S_CREATE_ROOM_roomname m))] else [] else []) @ []"
  have "encodes (S_CREATE_ROOM_InternalSerialize lib m) ?fs"
    unfolding S_CREATE_ROOM_InternalSerialize_def Let_def WriteString_eq [OF lib] wf(2)
    by (intro encodes_append encodes_if encodes_fields) (use ok in auto)
  then have parse: "S_CREATE_ROOM_parse valid (S_CREATE_ROOM_InternalSerialize lib m) = fold_fields (S_CREATE_ROOM_field valid) ?fs S_CREATE_ROOM_new"
    unfolding S_CREATE_ROOM_parse_def by (simp only: parse_message_encodes)
  have "\<exists>r. fold_fields (S_CREATE_ROOM_field valid) ?fs S_CREATE_ROOM_new = Some r \<and> S_CREATE_ROOM_wf r \<and> S_CREATE_ROOM_unknown r = [] \<and> S_CREATE_ROOM_issuccess r = S_CREATE_ROOM_issuccess m \<and> S_CREATE_ROOM_roomname r = S_CREATE_ROOM_roomname m"
    using wf ok by (auto simp: fold_fields_append S_CREATE_ROOM_field_def S_CREATE_ROOM_new_def S_CREATE_ROOM_set_defs S_CREATE_ROOM_wf_def)
  then show ?thesis unfolding parse .
qed

section \<open>S_JOIN_ROOM\<close>

record S_JOIN_ROOM =
  S_JOIN_ROOM_has_bits :: u32
  S_JOIN_ROOM_userids :: "byte list list"
  S_JOIN_ROOM_roomname :: "byte list"
  S_JOIN_ROOM_issuccess :: "bool"
  S_JOIN_ROOM_unknown :: unknown_fields

definition S_JOIN_ROOM_new :: S_JOIN_ROOM where
  "S_JOIN_ROOM_new = \<lparr>S_JOIN_ROOM_has_bits = 0, S_JOIN_ROOM_userids = [], S_JOIN_ROOM_roomname = [], S_JOIN_ROOM_issuccess = False,
     S_JOIN_ROOM_unknown = []\<rparr>"

definition S_JOIN_ROOM_set_issuccess :: "bool \<Rightarrow> S_JOIN_ROOM \<Rightarrow> S_JOIN_ROOM" where
  "S_JOIN_ROOM_set_issuccess value this =
     this\<lparr>S_JOIN_ROOM_has_bits := SetHasBit (S_JOIN_ROOM_has_bits this) 4, S_JOIN_ROOM_issuccess := value\<rparr>"

definition S_JOIN_ROOM_set_roomname :: "byte list \<Rightarrow> S_JOIN_ROOM \<Rightarrow> S_JOIN_ROOM" where
  "S_JOIN_ROOM_set_roomname value this =
     this\<lparr>S_JOIN_ROOM_has_bits := SetHasBit (S_JOIN_ROOM_has_bits this) 2, S_JOIN_ROOM_roomname := value\<rparr>"

definition S_JOIN_ROOM_add_userids :: "byte list \<Rightarrow> S_JOIN_ROOM \<Rightarrow> S_JOIN_ROOM" where
  "S_JOIN_ROOM_add_userids value this =
     this\<lparr>S_JOIN_ROOM_has_bits := SetHasBit (S_JOIN_ROOM_has_bits this) 1, S_JOIN_ROOM_userids := S_JOIN_ROOM_userids this @ [value]\<rparr>"

definition S_JOIN_ROOM_Clear :: "S_JOIN_ROOM \<Rightarrow> S_JOIN_ROOM" where
  "S_JOIN_ROOM_Clear this =
     (let bits = S_JOIN_ROOM_has_bits this in
      this\<lparr>S_JOIN_ROOM_userids := (if BatchCheckHasBit bits 3 \<and> CheckHasBit bits 1 then [] else S_JOIN_ROOM_userids this),
        S_JOIN_ROOM_roomname := (if BatchCheckHasBit bits 3 \<and> CheckHasBit bits 2 then [] else S_JOIN_ROOM_roomname this),
        S_JOIN_ROOM_issuccess := False,
        S_JOIN_ROOM_has_bits := 0,
        S_JOIN_ROOM_unknown := []\<rparr>)"

definition S_JOIN_ROOM_InternalSerialize :: "pb_lib \<Rightarrow> S_JOIN_ROOM \<Rightarrow> byte list" where
  "S_JOIN_ROOM_InternalSerialize lib this =
     (let bits = S_JOIN_ROOM_has_bits this in
      (if CheckHasBit bits 4 then if S_JOIN_ROOM_issuccess this then WriteBoolToArray 1 (S_JOIN_ROOM_issuccess this) else [] else []) @
      (if CheckHasBit bits 2 then if S_JOIN_ROOM_roomname this \<noteq> [] then WriteString lib 2 (S_JOIN_ROOM_roomname this) else [] else []) @
      (if CheckHasBit bits 1 then concat (map (WriteString lib 3) (S_JOIN_ROOM_userids this)) else []) @
      (if S_JOIN_ROOM_unknown this \<noteq> [] then SerializeUnknownFields lib (S_JOIN_ROOM_unknown this) else []))"

definition S_JOIN_ROOM_ByteSizeLong :: "pb_lib \<Rightarrow> S_JOIN_ROOM \<Rightarrow> nat" where
  "S_JOIN_ROOM_ByteSizeLong lib this =
     (let bits = S_JOIN_ROOM_has_bits this in
      (if BatchCheckHasBit bits 7 then
         (if CheckHasBit bits 1 then 1 * length (S_JOIN_ROOM_userids this) + (\<Sum>s\<leftarrow>S_JOIN_ROOM_userids this. StringSize s) else 0) +
         (if CheckHasBit bits 2 then if S_JOIN_ROOM_roomname this \<noteq> [] then 1 + StringSize (S_JOIN_ROOM_roomname this) else 0 else 0) +
         (if CheckHasBit bits 4 then if S_JOIN_ROOM_issuccess this then 2 else 0 else 0)
       else 0) +
      (if S_JOIN_ROOM_unknown this \<noteq> [] then UnknownFieldsSize lib (S_JOIN_ROOM_unknown this) else 0))"

definition S_JOIN_ROOM_MergeImpl :: "S_JOIN_ROOM \<Rightarrow> S_JOIN_ROOM \<Rightarrow> S_JOIN_ROOM" where
  "S_JOIN_ROOM_MergeImpl to from =
     (let bits = S_JOIN_ROOM_has_bits from in
      to\<lparr>S_JOIN_ROOM_userids := (if BatchCheckHasBit bits 7 \<and> CheckHasBit bits 1 then S_JOIN_ROOM_userids to @ S_JOIN_ROOM_userids from else S_JOIN_ROOM_userids to),
        S_JOIN_ROOM_roomname := (if BatchCheckHasBit bits 7 \<and> CheckHasBit bits 2 \<and> S_JOIN_ROOM_roomname from \<noteq> [] then S_JOIN_ROOM_roomname from else S_JOIN_ROOM_roomname to),
        S_JOIN_ROOM_issuccess := (if BatchCheckHasBit bits 7 \<and> CheckHasBit bits 4 \<and> S_JOIN_ROOM_issuccess from then S_JOIN_ROOM_issuccess from else S_JOIN_ROOM_issuccess to),
        S_JOIN_ROOM_has_bits := S_JOIN_ROOM_has_bits to OR bits,
        S_JOIN_ROOM_unknown := S_JOIN_ROOM_unknown to @ S_JOIN_ROOM_unknown from\<rparr>)"

definition S_JOIN_ROOM_CopyFrom :: "bool \<Rightarrow> S_JOIN_ROOM \<Rightarrow> S_JOIN_ROOM \<Rightarrow> S_JOIN_ROOM" where
  "S_JOIN_ROOM_CopyFrom same this from = (if same then this else S_JOIN_ROOM_MergeImpl (S_JOIN_ROOM_Clear this) from)"

definition S_JOIN_ROOM_InternalSwap :: "S_JOIN_ROOM \<Rightarrow> S_JOIN_ROOM \<Rightarrow> S_JOIN_ROOM \<times> S_JOIN_ROOM" where
  "S_JOIN_ROOM_InternalSwap this other =
     (this\<lparr>S_JOIN_ROOM_unknown := S_JOIN_ROOM_unknown other, S_JOIN_ROOM_has_bits := S_JOIN_ROOM_has_bits other, S_JOIN_ROOM_userids := S_JOIN_ROOM_userids other, S_JOIN_ROOM_roomname := S_JOIN_ROOM_roomname other, S_JOIN_ROOM_issuccess := S_JOIN_ROOM_issuccess other\<rparr>,
      other\<lparr>S_JOIN_ROOM_unknown := S_JOIN_ROOM_unknown this, S_JOIN_ROOM_has_bits := S_JOIN_ROOM_has_bits this, S_JOIN_ROOM_userids := S_JOIN_ROOM_userids this, S_JOIN_ROOM_roomname := S_JOIN_ROOM_roomname this, S_JOIN_ROOM_issuccess := S_JOIN_ROOM_issuccess this\<rparr>)"

text \<open>The parse table: the field numbers, their types and what a field does to the message.\<close>

definition S_JOIN_ROOM_field :: "(byte list \<Rightarrow> bool) \<Rightarrow> wire_field \<Rightarrow> S_JOIN_ROOM \<Rightarrow> S_JOIN_ROOM option" where
  "S_JOIN_ROOM_field valid f this =
     (case f of (num, v) \<Rightarrow>
        if num = 1 then
          (case v of Varint n \<Rightarrow> Some (S_JOIN_ROOM_set_issuccess ((of_nat n :: u64) \<noteq> 0) this)
           | _ \<Rightarrow> Some (this\<lparr>S_JOIN_ROOM_unknown := S_JOIN_ROOM_unknown this @ [(num, v)]\<rparr>))
        else if num = 2 then
          (case v of LenDelim s \<Rightarrow> if valid s then Some (S_JOIN_ROOM_set_roomname s this) else None
           | _ \<Rightarrow> Some (this\<lparr>S_JOIN_ROOM_unknown := S_JOIN_ROOM_unknown this @ [(num, v)]\<rparr>))
        else if num = 3 then
          (case v of LenDelim s \<Rightarrow> if valid s then Some (S_JOIN_ROOM_add_userids s this) else None
           | _ \<Rightarrow> Some (this\<lparr>S_JOIN_ROOM_unknown := S_JOIN_ROOM_unknown this @ [(num, v)]\<rparr>))
        else Some (this\<lparr>S_JOIN_ROOM_unknown := S_JOIN_ROOM_unknown this @ [(num, v)]\<rparr>))"

definition S_JOIN_ROOM_parse :: "(byte list \<Rightarrow> bool) \<Rightarrow> byte list \<Rightarrow> S_JOIN_ROOM option" where
  "S_JOIN_ROOM_parse valid = parse_message (S_JOIN_ROOM_field valid) S_JOIN_ROOM_new"

definition S_JOIN_ROOM_wf :: "S_JOIN_ROOM \<Rightarrow> bool" where
  [inv_defs]: "S_JOIN_ROOM_wf m \<longleftrightarrow>
     (\<not> CheckHasBit (S_JOIN_ROOM_has_bits m) 1 \<longrightarrow> S_JOIN_ROOM_userids m = []) \<and>
     (\<not> CheckHasBit (S_JOIN_ROOM_has_bits m) 2 \<longrightarrow> S_JOIN_ROOM_roomname m = []) \<and>
     (\<not> CheckHasBit (S_JOIN_ROOM_has_bits m) 4 \<longrightarrow> S_JOIN_ROOM_issuccess m = False)"

lemmas S_JOIN_ROOM_set_defs = S_JOIN_ROOM_set_issuccess_def S_JOIN_ROOM_set_roomname_def S_JOIN_ROOM_add_userids_def

lemma S_JOIN_ROOM_wf_ops:
  "S_JOIN_ROOM_wf S_JOIN_ROOM_new"
  "S_JOIN_ROOM_wf m \<Longrightarrow> S_JOIN_ROOM_wf (S_JOIN_ROOM_set_issuccess x1 m)"
  "S_JOIN_ROOM_wf m \<Longrightarrow> S_JOIN_ROOM_wf (S_JOIN_ROOM_set_roomname x2 m)"
  "S_JOIN_ROOM_wf m \<Longrightarrow> S_JOIN_ROOM_wf (S_JOIN_ROOM_add_userids x3 m)"
  "S_JOIN_ROOM_wf m \<Longrightarrow> S_JOIN_ROOM_wf m' \<Longrightarrow> S_JOIN_ROOM_wf (S_JOIN_ROOM_MergeImpl m m')"
  by (auto simp: S_JOIN_ROOM_wf_def S_JOIN_ROOM_new_def S_JOIN_ROOM_set_defs S_JOIN_ROOM_MergeImpl_def Let_def CheckHasBit_or)

lemma S_JOIN_ROOM_Clear_new: "S_JOIN_ROOM_wf m \<Longrightarrow> S_JOIN_ROOM_Clear m = S_JOIN_ROOM_new"
  using no_batch [of "S_JOIN_ROOM_has_bits m"]
  by (auto simp: S_JOIN_ROOM_wf_def S_JOIN_ROOM_Clear_def S_JOIN_ROOM_new_def Let_def)

lemma S_JOIN_ROOM_copy: "S_JOIN_ROOM_wf m \<Longrightarrow> S_JOIN_ROOM_wf m' \<Longrightarrow> S_JOIN_ROOM_CopyFrom False m m' = m'"
  using no_batch [of "S_JOIN_ROOM_has_bits m'"]
  by (cases m') (auto simp: S_JOIN_ROOM_CopyFrom_def S_JOIN_ROOM_Clear_new S_JOIN_ROOM_MergeImpl_def S_JOIN_ROOM_new_def S_JOIN_ROOM_wf_def Let_def)

lemma S_JOIN_ROOM_swap: "S_JOIN_ROOM_InternalSwap a b = (b, a)"
  by (simp add: S_JOIN_ROOM_InternalSwap_def)

lemma S_JOIN_ROOM_size: "pb_ok lib \<Longrightarrow> S_JOIN_ROOM_ByteSizeLong lib m = length (S_JOIN_ROOM_InternalSerialize lib m)"
  using no_batch [of "S_JOIN_ROOM_has_bits m"]
  by (auto simp: S_JOIN_ROOM_ByteSizeLong_def S_JOIN_ROOM_InternalSerialize_def Let_def message_size pb_ok_unknown)

lemma S_JOIN_ROOM_fold_userids:
  "\<forall>s \<in> set ss. valid s \<Longrightarrow> fold_fields (S_JOIN_ROOM_field valid) (map (\<lambda>s. (3, LenDelim s)) ss) m =
     Some (m\<lparr>S_JOIN_ROOM_has_bits := (if ss = [] then S_JOIN_ROOM_has_bits m else SetHasBit (S_JOIN_ROOM_has_bits m) 1), S_JOIN_ROOM_userids := S_JOIN_ROOM_userids m @ ss\<rparr>)"
  by (induction ss arbitrary: m) (auto simp: S_JOIN_ROOM_field_def S_JOIN_ROOM_add_userids_def SetHasBit_twice)

lemma S_JOIN_ROOM_roundtrip:
  assumes lib: "pb_ok lib" and wf: "S_JOIN_ROOM_wf m" "S_JOIN_ROOM_unknown m = []"
    and ok: "valid (S_JOIN_ROOM_roomname m)" "length (S_JOIN_ROOM_roomname m) < 2 ^ 32"
      "\<forall>s \<in> set (S_JOIN_ROOM_userids m). valid s \<and> length s < 2 ^ 32"
  shows "\<exists>r. S_JOIN_ROOM_parse valid (S_JOIN_ROOM_InternalSerialize lib m) = Some r \<and> S_JOIN_ROOM_wf r \<and> S_JOIN_ROOM_unknown r = [] \<and>
    S_JOIN_ROOM_issuccess r = S_JOIN_ROOM_issuccess m \<and> S_JOIN_ROOM_roomname r = S_JOIN_ROOM_roomname m \<and> S_JOIN_ROOM_userids r = S_JOIN_ROOM_userids m"
proof -
  let ?fs = "(if CheckHasBit (S_JOIN_ROOM_has_bits m) 4 then if S_JOIN_ROOM_issuccess m then [(1, Varint 1)] else [] else []) @
     (if CheckHasBit (S_JOIN_ROOM_has_bits m) 2 then if S_JOIN_ROOM_roomname m \<noteq> [] then [(2, LenDelim (S_JOIN_ROOM_roomname m))] else [] else []) @
     (if CheckHasBit (S_JOIN_ROOM_has_bits m) 1 then map (\<lambda>s. (3, LenDelim s)) (S_JOIN_ROOM_userids m) else []) @ []"
  have "encodes (S_JOIN_ROOM_InternalSerialize lib m) ?fs"
    unfolding S_JOIN_ROOM_InternalSerialize_def Let_def WriteString_eq [OF lib] wf(2)
    by (intro encodes_append encodes_if encodes_fields) (use ok in auto)
  then have parse: "S_JOIN_ROOM_parse valid (S_JOIN_ROOM_InternalSerialize lib m) = fold_fields (S_JOIN_ROOM_field valid) ?fs S_JOIN_ROOM_new"
    unfolding S_JOIN_ROOM_parse_def by (simp only: parse_message_encodes)
  have "\<exists>r. fold_fields (S_JOIN_ROOM_field valid) ?fs S_JOIN_ROOM_new = Some r \<and> S_JOIN_ROOM_wf r \<and> S_JOIN_ROOM_unknown r = [] \<and> S_JOIN_ROOM_issuccess r = S_JOIN_ROOM_issuccess m \<and> S_JOIN_ROOM_roomname r = S_JOIN_ROOM_roomname m \<and> S_JOIN_ROOM_userids r = S_JOIN_ROOM_userids m"
    using wf ok by (auto simp: fold_fields_append S_JOIN_ROOM_field_def S_JOIN_ROOM_new_def S_JOIN_ROOM_set_defs S_JOIN_ROOM_wf_def S_JOIN_ROOM_fold_userids get_packed_UnsafeVarint)
  then show ?thesis unfolding parse .
qed

section \<open>S_REFRESH_ROOM\<close>

record S_REFRESH_ROOM =
  S_REFRESH_ROOM_has_bits :: u32
  S_REFRESH_ROOM_userids :: "byte list list"
  S_REFRESH_ROOM_unknown :: unknown_fields

definition S_REFRESH_ROOM_new :: S_REFRESH_ROOM where
  "S_REFRESH_ROOM_new = \<lparr>S_REFRESH_ROOM_has_bits = 0, S_REFRESH_ROOM_userids = [],
     S_REFRESH_ROOM_unknown = []\<rparr>"

definition S_REFRESH_ROOM_add_userids :: "byte list \<Rightarrow> S_REFRESH_ROOM \<Rightarrow> S_REFRESH_ROOM" where
  "S_REFRESH_ROOM_add_userids value this =
     this\<lparr>S_REFRESH_ROOM_has_bits := SetHasBit (S_REFRESH_ROOM_has_bits this) 1, S_REFRESH_ROOM_userids := S_REFRESH_ROOM_userids this @ [value]\<rparr>"

definition S_REFRESH_ROOM_Clear :: "S_REFRESH_ROOM \<Rightarrow> S_REFRESH_ROOM" where
  "S_REFRESH_ROOM_Clear this =
     (let bits = S_REFRESH_ROOM_has_bits this in
      this\<lparr>S_REFRESH_ROOM_userids := (if CheckHasBit bits 1 then [] else S_REFRESH_ROOM_userids this),
        S_REFRESH_ROOM_has_bits := 0,
        S_REFRESH_ROOM_unknown := []\<rparr>)"

definition S_REFRESH_ROOM_InternalSerialize :: "pb_lib \<Rightarrow> S_REFRESH_ROOM \<Rightarrow> byte list" where
  "S_REFRESH_ROOM_InternalSerialize lib this =
     (let bits = S_REFRESH_ROOM_has_bits this in
      (if CheckHasBit bits 1 then concat (map (WriteString lib 1) (S_REFRESH_ROOM_userids this)) else []) @
      (if S_REFRESH_ROOM_unknown this \<noteq> [] then SerializeUnknownFields lib (S_REFRESH_ROOM_unknown this) else []))"

definition S_REFRESH_ROOM_ByteSizeLong :: "pb_lib \<Rightarrow> S_REFRESH_ROOM \<Rightarrow> nat" where
  "S_REFRESH_ROOM_ByteSizeLong lib this =
     (let bits = S_REFRESH_ROOM_has_bits this in
      (if CheckHasBit bits 1 then 1 * length (S_REFRESH_ROOM_userids this) + (\<Sum>s\<leftarrow>S_REFRESH_ROOM_userids this. StringSize s) else 0) +
      (if S_REFRESH_ROOM_unknown this \<noteq> [] then UnknownFieldsSize lib (S_REFRESH_ROOM_unknown this) else 0))"

definition S_REFRESH_ROOM_MergeImpl :: "S_REFRESH_ROOM \<Rightarrow> S_REFRESH_ROOM \<Rightarrow> S_REFRESH_ROOM" where
  "S_REFRESH_ROOM_MergeImpl to from =
     (let bits = S_REFRESH_ROOM_has_bits from in
      to\<lparr>S_REFRESH_ROOM_userids := (if CheckHasBit bits 1 then S_REFRESH_ROOM_userids to @ S_REFRESH_ROOM_userids from else S_REFRESH_ROOM_userids to),
        S_REFRESH_ROOM_has_bits := S_REFRESH_ROOM_has_bits to OR bits,
        S_REFRESH_ROOM_unknown := S_REFRESH_ROOM_unknown to @ S_REFRESH_ROOM_unknown from\<rparr>)"

definition S_REFRESH_ROOM_CopyFrom :: "bool \<Rightarrow> S_REFRESH_ROOM \<Rightarrow> S_REFRESH_ROOM \<Rightarrow> S_REFRESH_ROOM" where
  "S_REFRESH_ROOM_CopyFrom same this from = (if same then this else S_REFRESH_ROOM_MergeImpl (S_REFRESH_ROOM_Clear this) from)"

definition S_REFRESH_ROOM_InternalSwap :: "S_REFRESH_ROOM \<Rightarrow> S_REFRESH_ROOM \<Rightarrow> S_REFRESH_ROOM \<times> S_REFRESH_ROOM" where
  "S_REFRESH_ROOM_InternalSwap this other =
     (this\<lparr>S_REFRESH_ROOM_unknown := S_REFRESH_ROOM_unknown other, S_REFRESH_ROOM_has_bits := S_REFRESH_ROOM_has_bits other, S_REFRESH_ROOM_userids := S_REFRESH_ROOM_userids other\<rparr>,
      other\<lparr>S_REFRESH_ROOM_unknown := S_REFRESH_ROOM_unknown this, S_REFRESH_ROOM_has_bits := S_REFRESH_ROOM_has_bits this, S_REFRESH_ROOM_userids := S_REFRESH_ROOM_userids this\<rparr>)"

text \<open>The parse table: the field numbers, their types and what a field does to the message.\<close>

definition S_REFRESH_ROOM_field :: "(byte list \<Rightarrow> bool) \<Rightarrow> wire_field \<Rightarrow> S_REFRESH_ROOM \<Rightarrow> S_REFRESH_ROOM option" where
  "S_REFRESH_ROOM_field valid f this =
     (case f of (num, v) \<Rightarrow>
        if num = 1 then
          (case v of LenDelim s \<Rightarrow> if valid s then Some (S_REFRESH_ROOM_add_userids s this) else None
           | _ \<Rightarrow> Some (this\<lparr>S_REFRESH_ROOM_unknown := S_REFRESH_ROOM_unknown this @ [(num, v)]\<rparr>))
        else Some (this\<lparr>S_REFRESH_ROOM_unknown := S_REFRESH_ROOM_unknown this @ [(num, v)]\<rparr>))"

definition S_REFRESH_ROOM_parse :: "(byte list \<Rightarrow> bool) \<Rightarrow> byte list \<Rightarrow> S_REFRESH_ROOM option" where
  "S_REFRESH_ROOM_parse valid = parse_message (S_REFRESH_ROOM_field valid) S_REFRESH_ROOM_new"

definition S_REFRESH_ROOM_wf :: "S_REFRESH_ROOM \<Rightarrow> bool" where
  [inv_defs]: "S_REFRESH_ROOM_wf m \<longleftrightarrow>
     (\<not> CheckHasBit (S_REFRESH_ROOM_has_bits m) 1 \<longrightarrow> S_REFRESH_ROOM_userids m = [])"

lemmas S_REFRESH_ROOM_set_defs = S_REFRESH_ROOM_add_userids_def

lemma S_REFRESH_ROOM_wf_ops:
  "S_REFRESH_ROOM_wf S_REFRESH_ROOM_new"
  "S_REFRESH_ROOM_wf m \<Longrightarrow> S_REFRESH_ROOM_wf (S_REFRESH_ROOM_add_userids x1 m)"
  "S_REFRESH_ROOM_wf m \<Longrightarrow> S_REFRESH_ROOM_wf m' \<Longrightarrow> S_REFRESH_ROOM_wf (S_REFRESH_ROOM_MergeImpl m m')"
  by (auto simp: S_REFRESH_ROOM_wf_def S_REFRESH_ROOM_new_def S_REFRESH_ROOM_set_defs S_REFRESH_ROOM_MergeImpl_def Let_def CheckHasBit_or)

lemma S_REFRESH_ROOM_Clear_new: "S_REFRESH_ROOM_wf m \<Longrightarrow> S_REFRESH_ROOM_Clear m = S_REFRESH_ROOM_new"
  using no_batch [of "S_REFRESH_ROOM_has_bits m"]
  by (auto simp: S_REFRESH_ROOM_wf_def S_REFRESH_ROOM_Clear_def S_REFRESH_ROOM_new_def Let_def)

lemma S_REFRESH_ROOM_copy: "S_REFRESH_ROOM_wf m \<Longrightarrow> S_REFRESH_ROOM_wf m' \<Longrightarrow> S_REFRESH_ROOM_CopyFrom False m m' = m'"
  using no_batch [of "S_REFRESH_ROOM_has_bits m'"]
  by (cases m') (auto simp: S_REFRESH_ROOM_CopyFrom_def S_REFRESH_ROOM_Clear_new S_REFRESH_ROOM_MergeImpl_def S_REFRESH_ROOM_new_def S_REFRESH_ROOM_wf_def Let_def)

lemma S_REFRESH_ROOM_swap: "S_REFRESH_ROOM_InternalSwap a b = (b, a)"
  by (simp add: S_REFRESH_ROOM_InternalSwap_def)

lemma S_REFRESH_ROOM_size: "pb_ok lib \<Longrightarrow> S_REFRESH_ROOM_ByteSizeLong lib m = length (S_REFRESH_ROOM_InternalSerialize lib m)"
  using no_batch [of "S_REFRESH_ROOM_has_bits m"]
  by (auto simp: S_REFRESH_ROOM_ByteSizeLong_def S_REFRESH_ROOM_InternalSerialize_def Let_def message_size pb_ok_unknown)

lemma S_REFRESH_ROOM_fold_userids:
  "\<forall>s \<in> set ss. valid s \<Longrightarrow> fold_fields (S_REFRESH_ROOM_field valid) (map (\<lambda>s. (1, LenDelim s)) ss) m =
     Some (m\<lparr>S_REFRESH_ROOM_has_bits := (if ss = [] then S_REFRESH_ROOM_has_bits m else SetHasBit (S_REFRESH_ROOM_has_bits m) 1), S_REFRESH_ROOM_userids := S_REFRESH_ROOM_userids m @ ss\<rparr>)"
  by (induction ss arbitrary: m) (auto simp: S_REFRESH_ROOM_field_def S_REFRESH_ROOM_add_userids_def SetHasBit_twice)

lemma S_REFRESH_ROOM_roundtrip:
  assumes lib: "pb_ok lib" and wf: "S_REFRESH_ROOM_wf m" "S_REFRESH_ROOM_unknown m = []"
    and ok: "\<forall>s \<in> set (S_REFRESH_ROOM_userids m). valid s \<and> length s < 2 ^ 32"
  shows "\<exists>r. S_REFRESH_ROOM_parse valid (S_REFRESH_ROOM_InternalSerialize lib m) = Some r \<and> S_REFRESH_ROOM_wf r \<and> S_REFRESH_ROOM_unknown r = [] \<and>
    S_REFRESH_ROOM_userids r = S_REFRESH_ROOM_userids m"
proof -
  let ?fs = "(if CheckHasBit (S_REFRESH_ROOM_has_bits m) 1 then map (\<lambda>s. (1, LenDelim s)) (S_REFRESH_ROOM_userids m) else []) @ []"
  have "encodes (S_REFRESH_ROOM_InternalSerialize lib m) ?fs"
    unfolding S_REFRESH_ROOM_InternalSerialize_def Let_def WriteString_eq [OF lib] wf(2)
    by (intro encodes_append encodes_if encodes_fields) (use ok in auto)
  then have parse: "S_REFRESH_ROOM_parse valid (S_REFRESH_ROOM_InternalSerialize lib m) = fold_fields (S_REFRESH_ROOM_field valid) ?fs S_REFRESH_ROOM_new"
    unfolding S_REFRESH_ROOM_parse_def by (simp only: parse_message_encodes)
  have "\<exists>r. fold_fields (S_REFRESH_ROOM_field valid) ?fs S_REFRESH_ROOM_new = Some r \<and> S_REFRESH_ROOM_wf r \<and> S_REFRESH_ROOM_unknown r = [] \<and> S_REFRESH_ROOM_userids r = S_REFRESH_ROOM_userids m"
    using wf ok by (auto simp: fold_fields_append S_REFRESH_ROOM_field_def S_REFRESH_ROOM_new_def S_REFRESH_ROOM_set_defs S_REFRESH_ROOM_wf_def S_REFRESH_ROOM_fold_userids [simplified] get_packed_UnsafeVarint)
  then show ?thesis unfolding parse .
qed

section \<open>S_CHAT_LOG\<close>

record S_CHAT_LOG =
  S_CHAT_LOG_has_bits :: u32
  S_CHAT_LOG_id :: "byte list"
  S_CHAT_LOG_log :: "byte list"
  S_CHAT_LOG_unknown :: unknown_fields

definition S_CHAT_LOG_new :: S_CHAT_LOG where
  "S_CHAT_LOG_new = \<lparr>S_CHAT_LOG_has_bits = 0, S_CHAT_LOG_id = [], S_CHAT_LOG_log = [],
     S_CHAT_LOG_unknown = []\<rparr>"

definition S_CHAT_LOG_set_id :: "byte list \<Rightarrow> S_CHAT_LOG \<Rightarrow> S_CHAT_LOG" where
  "S_CHAT_LOG_set_id value this =
     this\<lparr>S_CHAT_LOG_has_bits := SetHasBit (S_CHAT_LOG_has_bits this) 1, S_CHAT_LOG_id := value\<rparr>"

definition S_CHAT_LOG_set_log :: "byte list \<Rightarrow> S_CHAT_LOG \<Rightarrow> S_CHAT_LOG" where
  "S_CHAT_LOG_set_log value this =
     this\<lparr>S_CHAT_LOG_has_bits := SetHasBit (S_CHAT_LOG_has_bits this) 2, S_CHAT_LOG_log := value\<rparr>"

definition S_CHAT_LOG_Clear :: "S_CHAT_LOG \<Rightarrow> S_CHAT_LOG" where
  "S_CHAT_LOG_Clear this =
     (let bits = S_CHAT_LOG_has_bits this in
      this\<lparr>S_CHAT_LOG_id := (if BatchCheckHasBit bits 3 \<and> CheckHasBit bits 1 then [] else S_CHAT_LOG_id this),
        S_CHAT_LOG_log := (if BatchCheckHasBit bits 3 \<and> CheckHasBit bits 2 then [] else S_CHAT_LOG_log this),
        S_CHAT_LOG_has_bits := 0,
        S_CHAT_LOG_unknown := []\<rparr>)"

definition S_CHAT_LOG_InternalSerialize :: "pb_lib \<Rightarrow> S_CHAT_LOG \<Rightarrow> byte list" where
  "S_CHAT_LOG_InternalSerialize lib this =
     (let bits = S_CHAT_LOG_has_bits this in
      (if CheckHasBit bits 1 then if S_CHAT_LOG_id this \<noteq> [] then WriteString lib 1 (S_CHAT_LOG_id this) else [] else []) @
      (if CheckHasBit bits 2 then if S_CHAT_LOG_log this \<noteq> [] then WriteString lib 2 (S_CHAT_LOG_log this) else [] else []) @
      (if S_CHAT_LOG_unknown this \<noteq> [] then SerializeUnknownFields lib (S_CHAT_LOG_unknown this) else []))"

definition S_CHAT_LOG_ByteSizeLong :: "pb_lib \<Rightarrow> S_CHAT_LOG \<Rightarrow> nat" where
  "S_CHAT_LOG_ByteSizeLong lib this =
     (let bits = S_CHAT_LOG_has_bits this in
      (if BatchCheckHasBit bits 3 then
         (if CheckHasBit bits 1 then if S_CHAT_LOG_id this \<noteq> [] then 1 + StringSize (S_CHAT_LOG_id this) else 0 else 0) +
         (if CheckHasBit bits 2 then if S_CHAT_LOG_log this \<noteq> [] then 1 + StringSize (S_CHAT_LOG_log this) else 0 else 0)
       else 0) +
      (if S_CHAT_LOG_unknown this \<noteq> [] then UnknownFieldsSize lib (S_CHAT_LOG_unknown this) else 0))"

definition S_CHAT_LOG_MergeImpl :: "S_CHAT_LOG \<Rightarrow> S_CHAT_LOG \<Rightarrow> S_CHAT_LOG" where
  "S_CHAT_LOG_MergeImpl to from =
     (let bits = S_CHAT_LOG_has_bits from in
      to\<lparr>S_CHAT_LOG_id := (if BatchCheckHasBit bits 3 \<and> CheckHasBit bits 1 \<and> S_CHAT_LOG_id from \<noteq> [] then S_CHAT_LOG_id from else S_CHAT_LOG_id to),
        S_CHAT_LOG_log := (if BatchCheckHasBit bits 3 \<and> CheckHasBit bits 2 \<and> S_CHAT_LOG_log from \<noteq> [] then S_CHAT_LOG_log from else S_CHAT_LOG_log to),
        S_CHAT_LOG_has_bits := S_CHAT_LOG_has_bits to OR bits,
        S_CHAT_LOG_unknown := S_CHAT_LOG_unknown to @ S_CHAT_LOG_unknown from\<rparr>)"

definition S_CHAT_LOG_CopyFrom :: "bool \<Rightarrow> S_CHAT_LOG \<Rightarrow> S_CHAT_LOG \<Rightarrow> S_CHAT_LOG" where
  "S_CHAT_LOG_CopyFrom same this from = (if same then this else S_CHAT_LOG_MergeImpl (S_CHAT_LOG_Clear this) from)"

definition S_CHAT_LOG_InternalSwap :: "S_CHAT_LOG \<Rightarrow> S_CHAT_LOG \<Rightarrow> S_CHAT_LOG \<times> S_CHAT_LOG" where
  "S_CHAT_LOG_InternalSwap this other =
     (this\<lparr>S_CHAT_LOG_unknown := S_CHAT_LOG_unknown other, S_CHAT_LOG_has_bits := S_CHAT_LOG_has_bits other, S_CHAT_LOG_id := S_CHAT_LOG_id other, S_CHAT_LOG_log := S_CHAT_LOG_log other\<rparr>,
      other\<lparr>S_CHAT_LOG_unknown := S_CHAT_LOG_unknown this, S_CHAT_LOG_has_bits := S_CHAT_LOG_has_bits this, S_CHAT_LOG_id := S_CHAT_LOG_id this, S_CHAT_LOG_log := S_CHAT_LOG_log this\<rparr>)"

text \<open>The parse table: the field numbers, their types and what a field does to the message.\<close>

definition S_CHAT_LOG_field :: "(byte list \<Rightarrow> bool) \<Rightarrow> wire_field \<Rightarrow> S_CHAT_LOG \<Rightarrow> S_CHAT_LOG option" where
  "S_CHAT_LOG_field valid f this =
     (case f of (num, v) \<Rightarrow>
        if num = 1 then
          (case v of LenDelim s \<Rightarrow> if valid s then Some (S_CHAT_LOG_set_id s this) else None
           | _ \<Rightarrow> Some (this\<lparr>S_CHAT_LOG_unknown := S_CHAT_LOG_unknown this @ [(num, v)]\<rparr>))
        else if num = 2 then
          (case v of LenDelim s \<Rightarrow> if valid s then Some (S_CHAT_LOG_set_log s this) else None
           | _ \<Rightarrow> Some (this\<lparr>S_CHAT_LOG_unknown := S_CHAT_LOG_unknown this @ [(num, v)]\<rparr>))
        else Some (this\<lparr>S_CHAT_LOG_unknown := S_CHAT_LOG_unknown this @ [(num, v)]\<rparr>))"

definition S_CHAT_LOG_parse :: "(byte list \<Rightarrow> bool) \<Rightarrow> byte list \<Rightarrow> S_CHAT_LOG option" where
  "S_CHAT_LOG_parse valid = parse_message (S_CHAT_LOG_field valid) S_CHAT_LOG_new"

definition S_CHAT_LOG_wf :: "S_CHAT_LOG \<Rightarrow> bool" where
  [inv_defs]: "S_CHAT_LOG_wf m \<longleftrightarrow>
     (\<not> CheckHasBit (S_CHAT_LOG_has_bits m) 1 \<longrightarrow> S_CHAT_LOG_id m = []) \<and>
     (\<not> CheckHasBit (S_CHAT_LOG_has_bits m) 2 \<longrightarrow> S_CHAT_LOG_log m = [])"

lemmas S_CHAT_LOG_set_defs = S_CHAT_LOG_set_id_def S_CHAT_LOG_set_log_def

lemma S_CHAT_LOG_wf_ops:
  "S_CHAT_LOG_wf S_CHAT_LOG_new"
  "S_CHAT_LOG_wf m \<Longrightarrow> S_CHAT_LOG_wf (S_CHAT_LOG_set_id x1 m)"
  "S_CHAT_LOG_wf m \<Longrightarrow> S_CHAT_LOG_wf (S_CHAT_LOG_set_log x2 m)"
  "S_CHAT_LOG_wf m \<Longrightarrow> S_CHAT_LOG_wf m' \<Longrightarrow> S_CHAT_LOG_wf (S_CHAT_LOG_MergeImpl m m')"
  by (auto simp: S_CHAT_LOG_wf_def S_CHAT_LOG_new_def S_CHAT_LOG_set_defs S_CHAT_LOG_MergeImpl_def Let_def CheckHasBit_or)

lemma S_CHAT_LOG_Clear_new: "S_CHAT_LOG_wf m \<Longrightarrow> S_CHAT_LOG_Clear m = S_CHAT_LOG_new"
  using no_batch [of "S_CHAT_LOG_has_bits m"]
  by (auto simp: S_CHAT_LOG_wf_def S_CHAT_LOG_Clear_def S_CHAT_LOG_new_def Let_def)

lemma S_CHAT_LOG_copy: "S_CHAT_LOG_wf m \<Longrightarrow> S_CHAT_LOG_wf m' \<Longrightarrow> S_CHAT_LOG_CopyFrom False m m' = m'"
  using no_batch [of "S_CHAT_LOG_has_bits m'"]
  by (cases m') (auto simp: S_CHAT_LOG_CopyFrom_def S_CHAT_LOG_Clear_new S_CHAT_LOG_MergeImpl_def S_CHAT_LOG_new_def S_CHAT_LOG_wf_def Let_def)

lemma S_CHAT_LOG_swap: "S_CHAT_LOG_InternalSwap a b = (b, a)"
  by (simp add: S_CHAT_LOG_InternalSwap_def)

lemma S_CHAT_LOG_size: "pb_ok lib \<Longrightarrow> S_CHAT_LOG_ByteSizeLong lib m = length (S_CHAT_LOG_InternalSerialize lib m)"
  using no_batch [of "S_CHAT_LOG_has_bits m"]
  by (auto simp: S_CHAT_LOG_ByteSizeLong_def S_CHAT_LOG_InternalSerialize_def Let_def message_size pb_ok_unknown)

lemma S_CHAT_LOG_roundtrip:
  assumes lib: "pb_ok lib" and wf: "S_CHAT_LOG_wf m" "S_CHAT_LOG_unknown m = []"
    and ok: "valid (S_CHAT_LOG_id m)" "length (S_CHAT_LOG_id m) < 2 ^ 32"
      "valid (S_CHAT_LOG_log m)" "length (S_CHAT_LOG_log m) < 2 ^ 32"
  shows "\<exists>r. S_CHAT_LOG_parse valid (S_CHAT_LOG_InternalSerialize lib m) = Some r \<and> S_CHAT_LOG_wf r \<and> S_CHAT_LOG_unknown r = [] \<and>
    S_CHAT_LOG_id r = S_CHAT_LOG_id m \<and> S_CHAT_LOG_log r = S_CHAT_LOG_log m"
proof -
  let ?fs = "(if CheckHasBit (S_CHAT_LOG_has_bits m) 1 then if S_CHAT_LOG_id m \<noteq> [] then [(1, LenDelim (S_CHAT_LOG_id m))] else [] else []) @
     (if CheckHasBit (S_CHAT_LOG_has_bits m) 2 then if S_CHAT_LOG_log m \<noteq> [] then [(2, LenDelim (S_CHAT_LOG_log m))] else [] else []) @ []"
  have "encodes (S_CHAT_LOG_InternalSerialize lib m) ?fs"
    unfolding S_CHAT_LOG_InternalSerialize_def Let_def WriteString_eq [OF lib] wf(2)
    by (intro encodes_append encodes_if encodes_fields) (use ok in auto)
  then have parse: "S_CHAT_LOG_parse valid (S_CHAT_LOG_InternalSerialize lib m) = fold_fields (S_CHAT_LOG_field valid) ?fs S_CHAT_LOG_new"
    unfolding S_CHAT_LOG_parse_def by (simp only: parse_message_encodes)
  have "\<exists>r. fold_fields (S_CHAT_LOG_field valid) ?fs S_CHAT_LOG_new = Some r \<and> S_CHAT_LOG_wf r \<and> S_CHAT_LOG_unknown r = [] \<and> S_CHAT_LOG_id r = S_CHAT_LOG_id m \<and> S_CHAT_LOG_log r = S_CHAT_LOG_log m"
    using wf ok by (auto simp: fold_fields_append S_CHAT_LOG_field_def S_CHAT_LOG_new_def S_CHAT_LOG_set_defs S_CHAT_LOG_wf_def)
  then show ?thesis unfolding parse .
qed

section \<open>S_ROOM_OUT\<close>

record S_ROOM_OUT =
  S_ROOM_OUT_unknown :: unknown_fields

definition S_ROOM_OUT_new :: S_ROOM_OUT where
  "S_ROOM_OUT_new = \<lparr>S_ROOM_OUT_unknown = []\<rparr>"

text \<open>A message without fields is written by the library's \<open>ZeroFieldsBase\<close>: its unknown fields.\<close>

definition S_ROOM_OUT_InternalSerialize :: "pb_lib \<Rightarrow> S_ROOM_OUT \<Rightarrow> byte list" where
  "S_ROOM_OUT_InternalSerialize lib this = SerializeUnknownFields lib (S_ROOM_OUT_unknown this)"

definition S_ROOM_OUT_ByteSizeLong :: "pb_lib \<Rightarrow> S_ROOM_OUT \<Rightarrow> nat" where
  "S_ROOM_OUT_ByteSizeLong lib this = UnknownFieldsSize lib (S_ROOM_OUT_unknown this)"

definition S_ROOM_OUT_field :: "(byte list \<Rightarrow> bool) \<Rightarrow> wire_field \<Rightarrow> S_ROOM_OUT \<Rightarrow> S_ROOM_OUT option" where
  "S_ROOM_OUT_field valid f this = Some (this\<lparr>S_ROOM_OUT_unknown := S_ROOM_OUT_unknown this @ [f]\<rparr>)"

definition S_ROOM_OUT_parse :: "(byte list \<Rightarrow> bool) \<Rightarrow> byte list \<Rightarrow> S_ROOM_OUT option" where
  "S_ROOM_OUT_parse valid = parse_message (S_ROOM_OUT_field valid) S_ROOM_OUT_new"

lemma S_ROOM_OUT_size: "pb_ok lib \<Longrightarrow> S_ROOM_OUT_ByteSizeLong lib m = length (S_ROOM_OUT_InternalSerialize lib m)"
  by (simp add: S_ROOM_OUT_ByteSizeLong_def S_ROOM_OUT_InternalSerialize_def pb_ok_def)

lemma S_ROOM_OUT_roundtrip:
  assumes "pb_ok lib" "S_ROOM_OUT_unknown m = []"
  shows "S_ROOM_OUT_parse valid (S_ROOM_OUT_InternalSerialize lib m) = Some S_ROOM_OUT_new"
  using assms by (simp add: S_ROOM_OUT_parse_def S_ROOM_OUT_InternalSerialize_def pb_ok_def parse_message_def get_fields.simps)

end
