(* ===== verification/Protocol.thy ===== *)
theory Protocol
  imports Messages_C Messages_S
begin

text \<open>
  The fifteen messages together with their packet ids (the enumeration of
  \<open>Server/ClientPacketHandler.h\<close> and \<open>Client/ServerPacketHandler.h\<close>), with what holds of all of them: the
  size announced is the size written, and decoding inverts encoding. The library's part of the
  parser is the reference decoder of \<open>Wire\<close>.
\<close>

section \<open>Packets\<close>

datatype packet =
    Pkt_C_LOGIN C_LOGIN
  | Pkt_S_LOGIN S_LOGIN
  | Pkt_C_REGISTER C_REGISTER
  | Pkt_S_REGISTER S_REGISTER
  | Pkt_C_REFRESH_LOBBY C_REFRESH_LOBBY
  | Pkt_S_REFRESH_LOBBY S_REFRESH_LOBBY
  | Pkt_C_CREATE_ROOM C_CREATE_ROOM
  | Pkt_S_CREATE_ROOM S_CREATE_ROOM
  | Pkt_C_JOIN_ROOM C_JOIN_ROOM
  | Pkt_S_JOIN_ROOM S_JOIN_ROOM
  | Pkt_S_REFRESH_ROOM S_REFRESH_ROOM
  | Pkt_C_CHAT_LOG C_CHAT_LOG
  | Pkt_S_CHAT_LOG S_CHAT_LOG
  | Pkt_C_ROOM_OUT C_ROOM_OUT
  | Pkt_S_ROOM_OUT S_ROOM_OUT

definition PKT_C_LOGIN :: u16 where
  "PKT_C_LOGIN = 1000"

definition PKT_S_LOGIN :: u16 where
  "PKT_S_LOGIN = 1001"

definition PKT_C_REGISTER :: u16 where
  "PKT_C_REGISTER = 1002"

definition PKT_S_REGISTER :: u16 where
  "PKT_S_REGISTER = 1003"

definition PKT_C_REFRESH_LOBBY :: u16 where
  "PKT_C_REFRESH_LOBBY = 1004"

definition PKT_S_REFRESH_LOBBY :: u16 where
  "PKT_S_REFRESH_LOBBY = 1005"

definition PKT_C_CREATE_ROOM :: u16 where
  "PKT_C_CREATE_ROOM = 1006"

definition PKT_S_CREATE_ROOM :: u16 where
  "PKT_S_CREATE_ROOM = 1007"

definition PKT_C_JOIN_ROOM :: u16 where
  "PKT_C_JOIN_ROOM = 1008"

definition PKT_S_JOIN_ROOM :: u16 where
  "PKT_S_JOIN_ROOM = 1009"

definition PKT_S_REFRESH_ROOM :: u16 where
  "PKT_S_REFRESH_ROOM = 1010"

definition PKT_C_CHAT_LOG :: u16 where
  "PKT_C_CHAT_LOG = 1011"

definition PKT_S_CHAT_LOG :: u16 where
  "PKT_S_CHAT_LOG = 1012"

definition PKT_C_ROOM_OUT :: u16 where
  "PKT_C_ROOM_OUT = 1013"

definition PKT_S_ROOM_OUT :: u16 where
  "PKT_S_ROOM_OUT = 1014"

lemmas PKT_defs = PKT_C_LOGIN_def PKT_S_LOGIN_def PKT_C_REGISTER_def PKT_S_REGISTER_def PKT_C_REFRESH_LOBBY_def PKT_S_REFRESH_LOBBY_def PKT_C_CREATE_ROOM_def PKT_S_CREATE_ROOM_def PKT_C_JOIN_ROOM_def PKT_S_JOIN_ROOM_def PKT_S_REFRESH_ROOM_def PKT_C_CHAT_LOG_def PKT_S_CHAT_LOG_def PKT_C_ROOM_OUT_def PKT_S_ROOM_OUT_def

fun packet_id :: "packet \<Rightarrow> u16" where
  "packet_id (Pkt_C_LOGIN m) = PKT_C_LOGIN"
| "packet_id (Pkt_S_LOGIN m) = PKT_S_LOGIN"
| "packet_id (Pkt_C_REGISTER m) = PKT_C_REGISTER"
| "packet_id (Pkt_S_REGISTER m) = PKT_S_REGISTER"
| "packet_id (Pkt_C_REFRESH_LOBBY m) = PKT_C_REFRESH_LOBBY"
| "packet_id (Pkt_S_REFRESH_LOBBY m) = PKT_S_REFRESH_LOBBY"
| "packet_id (Pkt_C_CREATE_ROOM m) = PKT_C_CREATE_ROOM"
| "packet_id (Pkt_S_CREATE_ROOM m) = PKT_S_CREATE_ROOM"
| "packet_id (Pkt_C_JOIN_ROOM m) = PKT_C_JOIN_ROOM"
| "packet_id (Pkt_S_JOIN_ROOM m) = PKT_S_JOIN_ROOM"
| "packet_id (Pkt_S_REFRESH_ROOM m) = PKT_S_REFRESH_ROOM"
| "packet_id (Pkt_C_CHAT_LOG m) = PKT_C_CHAT_LOG"
| "packet_id (Pkt_S_CHAT_LOG m) = PKT_S_CHAT_LOG"
| "packet_id (Pkt_C_ROOM_OUT m) = PKT_C_ROOM_OUT"
| "packet_id (Pkt_S_ROOM_OUT m) = PKT_S_ROOM_OUT"

fun packet_ByteSizeLong :: "pb_lib \<Rightarrow> packet \<Rightarrow> nat" where
  "packet_ByteSizeLong lib (Pkt_C_LOGIN m) = C_LOGIN_ByteSizeLong lib m"
| "packet_ByteSizeLong lib (Pkt_S_LOGIN m) = S_LOGIN_ByteSizeLong lib m"
| "packet_ByteSizeLong lib (Pkt_C_REGISTER m) = C_REGISTER_ByteSizeLong lib m"
| "packet_ByteSizeLong lib (Pkt_S_REGISTER m) = S_REGISTER_ByteSizeLong lib m"
| "packet_ByteSizeLong lib (Pkt_C_REFRESH_LOBBY m) = C_REFRESH_LOBBY_ByteSizeLong lib m"
| "packet_ByteSizeLong lib (Pkt_S_REFRESH_LOBBY m) = fst (S_REFRESH_LOBBY_ByteSizeLong lib m)"
| "packet_ByteSizeLong lib (Pkt_C_CREATE_ROOM m) = C_CREATE_ROOM_ByteSizeLong lib m"
| "packet_ByteSizeLong lib (Pkt_S_CREATE_ROOM m) = S_CREATE_ROOM_ByteSizeLong lib m"
| "packet_ByteSizeLong lib (Pkt_C_JOIN_ROOM m) = C_JOIN_ROOM_ByteSizeLong lib m"
| "packet_ByteSizeLong lib (Pkt_S_JOIN_ROOM m) = S_JOIN_ROOM_ByteSizeLong lib m"
| "packet_ByteSizeLong lib (Pkt_S_REFRESH_ROOM m) = S_REFRESH_ROOM_ByteSizeLong lib m"
| "packet_ByteSizeLong lib (Pkt_C_CHAT_LOG m) = C_CHAT_LOG_ByteSizeLong lib m"
| "packet_ByteSizeLong lib (Pkt_S_CHAT_LOG m) = S_CHAT_LOG_ByteSizeLong lib m"
| "packet_ByteSizeLong lib (Pkt_C_ROOM_OUT m) = C_ROOM_OUT_ByteSizeLong lib m"
| "packet_ByteSizeLong lib (Pkt_S_ROOM_OUT m) = S_ROOM_OUT_ByteSizeLong lib m"

text \<open>\<open>SerializeToArray\<close>: the library calls \<open>ByteSizeLong\<close> and then \<open>_InternalSerialize\<close>.\<close>

fun packet_serialize :: "pb_lib \<Rightarrow> packet \<Rightarrow> byte list" where
  "packet_serialize lib (Pkt_C_LOGIN m) = C_LOGIN_InternalSerialize lib m"
| "packet_serialize lib (Pkt_S_LOGIN m) = S_LOGIN_InternalSerialize lib m"
| "packet_serialize lib (Pkt_C_REGISTER m) = C_REGISTER_InternalSerialize lib m"
| "packet_serialize lib (Pkt_S_REGISTER m) = S_REGISTER_InternalSerialize lib m"
| "packet_serialize lib (Pkt_C_REFRESH_LOBBY m) = C_REFRESH_LOBBY_InternalSerialize lib m"
| "packet_serialize lib (Pkt_S_REFRESH_LOBBY m) = S_REFRESH_LOBBY_InternalSerialize lib (snd (S_REFRESH_LOBBY_ByteSizeLong lib m))"
| "packet_serialize lib (Pkt_C_CREATE_ROOM m) = C_CREATE_ROOM_InternalSerialize lib m"
| "packet_serialize lib (Pkt_S_CREATE_ROOM m) = S_CREATE_ROOM_InternalSerialize lib m"
| "packet_serialize lib (Pkt_C_JOIN_ROOM m) = C_JOIN_ROOM_InternalSerialize lib m"
| "packet_serialize lib (Pkt_S_JOIN_ROOM m) = S_JOIN_ROOM_InternalSerialize lib m"
| "packet_serialize lib (Pkt_S_REFRESH_ROOM m) = S_REFRESH_ROOM_InternalSerialize lib m"
| "packet_serialize lib (Pkt_C_CHAT_LOG m) = C_CHAT_LOG_InternalSerialize lib m"
| "packet_serialize lib (Pkt_S_CHAT_LOG m) = S_CHAT_LOG_InternalSerialize lib m"
| "packet_serialize lib (Pkt_C_ROOM_OUT m) = C_ROOM_OUT_InternalSerialize lib m"
| "packet_serialize lib (Pkt_S_ROOM_OUT m) = S_ROOM_OUT_InternalSerialize lib m"

definition packet_parse :: "(byte list \<Rightarrow> bool) \<Rightarrow> u16 \<Rightarrow> byte list \<Rightarrow> packet option" where
  "packet_parse valid i bs =
     (if i = PKT_C_LOGIN then map_option Pkt_C_LOGIN (C_LOGIN_parse valid bs)
      else if i = PKT_S_LOGIN then map_option Pkt_S_LOGIN (S_LOGIN_parse valid bs)
      else if i = PKT_C_REGISTER then map_option Pkt_C_REGISTER (C_REGISTER_parse valid bs)
      else if i = PKT_S_REGISTER then map_option Pkt_S_REGISTER (S_REGISTER_parse valid bs)
      else if i = PKT_C_REFRESH_LOBBY then map_option Pkt_C_REFRESH_LOBBY (C_REFRESH_LOBBY_parse valid bs)
      else if i = PKT_S_REFRESH_LOBBY then map_option Pkt_S_REFRESH_LOBBY (S_REFRESH_LOBBY_parse valid bs)
      else if i = PKT_C_CREATE_ROOM then map_option Pkt_C_CREATE_ROOM (C_CREATE_ROOM_parse valid bs)
      else if i = PKT_S_CREATE_ROOM then map_option Pkt_S_CREATE_ROOM (S_CREATE_ROOM_parse valid bs)
      else if i = PKT_C_JOIN_ROOM then map_option Pkt_C_JOIN_ROOM (C_JOIN_ROOM_parse valid bs)
      else if i = PKT_S_JOIN_ROOM then map_option Pkt_S_JOIN_ROOM (S_JOIN_ROOM_parse valid bs)
      else if i = PKT_S_REFRESH_ROOM then map_option Pkt_S_REFRESH_ROOM (S_REFRESH_ROOM_parse valid bs)
      else if i = PKT_C_CHAT_LOG then map_option Pkt_C_CHAT_LOG (C_CHAT_LOG_parse valid bs)
      else if i = PKT_S_CHAT_LOG then map_option Pkt_S_CHAT_LOG (S_CHAT_LOG_parse valid bs)
      else if i = PKT_C_ROOM_OUT then map_option Pkt_C_ROOM_OUT (C_ROOM_OUT_parse valid bs)
      else if i = PKT_S_ROOM_OUT then map_option Pkt_S_ROOM_OUT (S_ROOM_OUT_parse valid bs)
      else None)"

text \<open>A packet that can be sent: consistent presence bits, no unknown fields, well-formed strings below 4 GiB.\<close>

fun packet_ok :: "(byte list \<Rightarrow> bool) \<Rightarrow> packet \<Rightarrow> bool" where
  "packet_ok valid (Pkt_C_LOGIN m) \<longleftrightarrow> C_LOGIN_wf m \<and> C_LOGIN_unknown m = [] \<and> valid (C_LOGIN_id m) \<and> length (C_LOGIN_id m) < 2 ^ 32 \<and> valid (C_LOGIN_pssd m) \<and> length (C_LOGIN_pssd m) < 2 ^ 32"
| "packet_ok valid (Pkt_S_LOGIN m) \<longleftrightarrow> S_LOGIN_wf m \<and> S_LOGIN_unknown m = [] \<and> valid (S_LOGIN_id m) \<and> length (S_LOGIN_id m) < 2 ^ 32 \<and> valid (S_LOGIN_pssd m) \<and> length (S_LOGIN_pssd m) < 2 ^ 32"
| "packet_ok valid (Pkt_C_REGISTER m) \<longleftrightarrow> C_REGISTER_wf m \<and> C_REGISTER_unknown m = [] \<and> valid (C_REGISTER_id m) \<and> length (C_REGISTER_id m) < 2 ^ 32 \<and> valid (C_REGISTER_pssd m) \<and> length (C_REGISTER_pssd m) < 2 ^ 32"
| "packet_ok valid (Pkt_S_REGISTER m) \<longleftrightarrow> S_REGISTER_wf m \<and> S_REGISTER_unknown m = [] \<and> valid (S_REGISTER_id m) \<and> length (S_REGISTER_id m) < 2 ^ 32 \<and> valid (S_REGISTER_pssd m) \<and> length (S_REGISTER_pssd m) < 2 ^ 32"
| "packet_ok valid (Pkt_C_REFRESH_LOBBY m) \<longleftrightarrow> C_REFRESH_LOBBY_unknown m = []"
| "packet_ok valid (Pkt_S_REFRESH_LOBBY m) \<longleftrightarrow> S_REFRESH_LOBBY_wf m \<and> S_REFRESH_LOBBY_unknown m = [] \<and> (\<forall>s \<in> set (S_REFRESH_LOBBY_roomnames m). valid s \<and> length s < 2 ^ 32) \<and> Int64Size (S_REFRESH_LOBBY_usercounts m) < 2 ^ 32"
| "packet_ok valid (Pkt_C_CREATE_ROOM m) \<longleftrightarrow> C_CREATE_ROOM_wf m \<and> C_CREATE_ROOM_unknown m = [] \<and> valid (C_CREATE_ROOM_id m) \<and> length (C_CREATE_ROOM_id m) < 2 ^ 32 \<and> valid (C_CREATE_ROOM_roomname m) \<and> length (C_CREATE_ROOM_roomname m) < 2 ^ 32"
| "packet_ok valid (Pkt_S_CREATE_ROOM m) \<longleftrightarrow> S_CREATE_ROOM_wf m \<and> S_CREATE_ROOM_unknown m = [] \<and> valid (S_CREATE_ROOM_roomname m) \<and> length (S_CREATE_ROOM_roomname m) < 2 ^ 32"
| "packet_ok valid (Pkt_C_JOIN_ROOM m) \<longleftrightarrow> C_JOIN_ROOM_wf m \<and> C_JOIN_ROOM_unknown m = [] \<and> valid (C_JOIN_ROOM_id m) \<and> length (C_JOIN_ROOM_id m) < 2 ^ 32 \<and> valid (C_JOIN_ROOM_roomname m) \<and> length (C_JOIN_ROOM_roomname m) < 2 ^ 32"
| "packet_ok valid (Pkt_S_JOIN_ROOM m) \<longleftrightarrow> S_JOIN_ROOM_wf m \<and> S_JOIN_ROOM_unknown m = [] \<and> valid (S_JOIN_ROOM_roomname m) \<and> length (S_JOIN_ROOM_roomname m) < 2 ^ 32 \<and> (\<forall>s \<in> set (S_JOIN_ROOM_userids m). valid s \<and> length s < 2 ^ 32)"
| "packet_ok valid (Pkt_S_REFRESH_ROOM m) \<longleftrightarrow> S_REFRESH_ROOM_wf m \<and> S_REFRESH_ROOM_unknown m = [] \<and> (\<forall>s \<in> set (S_REFRESH_ROOM_userids m). valid s \<and> length s < 2 ^ 32)"
| "packet_ok valid (Pkt_C_CHAT_LOG m) \<longleftrightarrow> C_CHAT_LOG_wf m \<and> C_CHAT_LOG_unknown m = [] \<and> valid (C_CHAT_LOG_id m) \<and> length (C_CHAT_LOG_id m) < 2 ^ 32 \<and> valid (C_CHAT_LOG_roomname m) \<and> length (C_CHAT_LOG_roomname m) < 2 ^ 32 \<and> valid (C_CHAT_LOG_log m) \<and> length (C_CHAT_LOG_log m) < 2 ^ 32"
| "packet_ok valid (Pkt_S_CHAT_LOG m) \<longleftrightarrow> S_CHAT_LOG_wf m \<and> S_CHAT_LOG_unknown m = [] \<and> valid (S_CHAT_LOG_id m) \<and> length (S_CHAT_LOG_id m) < 2 ^ 32 \<and> valid (S_CHAT_LOG_log m) \<and> length (S_CHAT_LOG_log m) < 2 ^ 32"
| "packet_ok valid (Pkt_C_ROOM_OUT m) \<longleftrightarrow> C_ROOM_OUT_wf m \<and> C_ROOM_OUT_unknown m = [] \<and> valid (C_ROOM_OUT_id m) \<and> length (C_ROOM_OUT_id m) < 2 ^ 32 \<and> valid (C_ROOM_OUT_roomname m) \<and> length (C_ROOM_OUT_roomname m) < 2 ^ 32"
| "packet_ok valid (Pkt_S_ROOM_OUT m) \<longleftrightarrow> S_ROOM_OUT_unknown m = []"

text \<open>The same message kind with the same field values.\<close>

fun packet_same :: "packet \<Rightarrow> packet \<Rightarrow> bool" where
  "packet_same (Pkt_C_LOGIN a) q = (case q of Pkt_C_LOGIN b \<Rightarrow> C_LOGIN_id a = C_LOGIN_id b \<and> C_LOGIN_pssd a = C_LOGIN_pssd b | _ \<Rightarrow> False)"
| "packet_same (Pkt_S_LOGIN a) q = (case q of Pkt_S_LOGIN b \<Rightarrow> S_LOGIN_issuccess a = S_LOGIN_issuccess b \<and> S_LOGIN_id a = S_LOGIN_id b \<and> S_LOGIN_pssd a = S_LOGIN_pssd b | _ \<Rightarrow> False)"
| "packet_same (Pkt_C_REGISTER a) q = (case q of Pkt_C_REGISTER b \<Rightarrow> C_REGISTER_id a = C_REGISTER_id b \<and> C_REGISTER_pssd a = C_REGISTER_pssd b | _ \<Rightarrow> False)"
| "packet_same (Pkt_S_REGISTER a) q = (case q of Pkt_S_REGISTER b \<Rightarrow> S_REGISTER_issuccess a = S_REGISTER_issuccess b \<and> S_REGISTER_id a = S_REGISTER_id b \<and> S_REGISTER_pssd a = S_REGISTER_pssd b | _ \<Rightarrow> False)"
| "packet_same (Pkt_C_REFRESH_LOBBY a) q = (case q of Pkt_C_REFRESH_LOBBY b \<Rightarrow> True | _ \<Rightarrow> False)"
| "packet_same (Pkt_S_REFRESH_LOBBY a) q = (case q of Pkt_S_REFRESH_LOBBY b \<Rightarrow> S_REFRESH_LOBBY_issuccess a = S_REFRESH_LOBBY_issuccess b \<and> S_REFRESH_LOBBY_roomnames a = S_REFRESH_LOBBY_roomnames b \<and> S_REFRESH_LOBBY_usercounts a = S_REFRESH_LOBBY_usercounts b | _ \<Rightarrow> False)"
| "packet_same (Pkt_C_CREATE_ROOM a) q = (case q of Pkt_C_CREATE_ROOM b \<Rightarrow> C_CREATE_ROOM_id a = C_CREATE_ROOM_id b \<and> C_CREATE_ROOM_roomname a = C_CREATE_ROOM_roomname b | _ \<Rightarrow> False)"
| "packet_same (Pkt_S_CREATE_ROOM a) q = (case q of Pkt_S_CREATE_ROOM b \<Rightarrow> S_CREATE_ROOM_issuccess a = S_CREATE_ROOM_issuccess b \<and> S_CREATE_ROOM_roomname a = S_CREATE_ROOM_roomname b | _ \<Rightarrow> False)"
| "packet_same (Pkt_C_JOIN_ROOM a) q = (case q of Pkt_C_JOIN_ROOM b \<Rightarrow> C_JOIN_ROOM_id a = C_JOIN_ROOM_id b \<and> C_JOIN_ROOM_roomname a = C_JOIN_ROOM_roomname b | _ \<Rightarrow> False)"
| "packet_same (Pkt_S_JOIN_ROOM a) q = (case q of Pkt_S_JOIN_ROOM b \<Rightarrow> S_JOIN_ROOM_issuccess a = S_JOIN_ROOM_issuccess b \<and> S_JOIN_ROOM_roomname a = S_JOIN_ROOM_roomname b \<and> S_JOIN_ROOM_userids a = S_JOIN_ROOM_userids b | _ \<Rightarrow> False)"
| "packet_same (Pkt_S_REFRESH_ROOM a) q = (case q of Pkt_S_REFRESH_ROOM b \<Rightarrow> S_REFRESH_ROOM_userids a = S_REFRESH_ROOM_userids b | _ \<Rightarrow> False)"
| "packet_same (Pkt_C_CHAT_LOG a) q = (case q of Pkt_C_CHAT_LOG b \<Rightarrow> C_CHAT_LOG_id a = C_CHAT_LOG_id b \<and> C_CHAT_LOG_roomname a = C_CHAT_LOG_roomname b \<and> C_CHAT_LOG_log a = C_CHAT_LOG_log b | _ \<Rightarrow> False)"
| "packet_same (Pkt_S_CHAT_LOG a) q = (case q of Pkt_S_CHAT_LOG b \<Rightarrow> S_CHAT_LOG_id a = S_CHAT_LOG_id b \<and> S_CHAT_LOG_log a = S_CHAT_LOG_log b | _ \<Rightarrow> False)"
| "packet_same (Pkt_C_ROOM_OUT a) q = (case q of Pkt_C_ROOM_OUT b \<Rightarrow> C_ROOM_OUT_id a = C_ROOM_OUT_id b \<and> C_ROOM_OUT_roomname a = C_ROOM_OUT_roomname b | _ \<Rightarrow> False)"
| "packet_same (Pkt_S_ROOM_OUT a) q = (case q of Pkt_S_ROOM_OUT b \<Rightarrow> True | _ \<Rightarrow> False)"

lemma packet_size_eq: "pb_ok lib \<Longrightarrow> packet_ByteSizeLong lib p = length (packet_serialize lib p)"
  by (cases p) (simp_all add: C_LOGIN_size S_LOGIN_size C_REGISTER_size S_REGISTER_size C_REFRESH_LOBBY_size S_REFRESH_LOBBY_size C_CREATE_ROOM_size S_CREATE_ROOM_size C_JOIN_ROOM_size S_JOIN_ROOM_size S_REFRESH_ROOM_size C_CHAT_LOG_size S_CHAT_LOG_size C_ROOM_OUT_size S_ROOM_OUT_size)

lemma packet_parse_id:
  "packet_parse valid PKT_C_LOGIN bs = map_option Pkt_C_LOGIN (C_LOGIN_parse valid bs)"
  "packet_parse valid PKT_S_LOGIN bs = map_option Pkt_S_LOGIN (S_LOGIN_parse valid bs)"
  "packet_parse valid PKT_C_REGISTER bs = map_option Pkt_C_REGISTER (C_REGISTER_parse valid bs)"
  "packet_parse valid PKT_S_REGISTER bs = map_option Pkt_S_REGISTER (S_REGISTER_parse valid bs)"
  "packet_parse valid PKT_C_REFRESH_LOBBY bs = map_option Pkt_C_REFRESH_LOBBY (C_REFRESH_LOBBY_parse valid bs)"
  "packet_parse valid PKT_S_REFRESH_LOBBY bs = map_option Pkt_S_REFRESH_LOBBY (S_REFRESH_LOBBY_parse valid bs)"
  "packet_parse valid PKT_C_CREATE_ROOM bs = map_option Pkt_C_CREATE_ROOM (C_CREATE_ROOM_parse valid bs)"
  "packet_parse valid PKT_S_CREATE_ROOM bs = map_option Pkt_S_CREATE_ROOM (S_CREATE_ROOM_parse valid bs)"
  "packet_parse valid PKT_C_JOIN_ROOM bs = map_option Pkt_C_JOIN_ROOM (C_JOIN_ROOM_parse valid bs)"
  "packet_parse valid PKT_S_JOIN_ROOM bs = map_option Pkt_S_JOIN_ROOM (S_JOIN_ROOM_parse valid bs)"
  "packet_parse valid PKT_S_REFRESH_ROOM bs = map_option Pkt_S_REFRESH_ROOM (S_REFRESH_ROOM_parse valid bs)"
  "packet_parse valid PKT_C_CHAT_LOG bs = map_option Pkt_C_CHAT_LOG (C_CHAT_LOG_parse valid bs)"
  "packet_parse valid PKT_S_CHAT_LOG bs = map_option Pkt_S_CHAT_LOG (S_CHAT_LOG_parse valid bs)"
  "packet_parse valid PKT_C_ROOM_OUT bs = map_option Pkt_C_ROOM_OUT (C_ROOM_OUT_parse valid bs)"
  "packet_parse valid PKT_S_ROOM_OUT bs = map_option Pkt_S_ROOM_OUT (S_ROOM_OUT_parse valid bs)"
  by (simp_all add: packet_parse_def PKT_defs)

lemma packet_roundtrip_ex:
  assumes lib: "pb_ok lib" and ok: "packet_ok valid p"
  shows "\<exists>q. packet_parse valid (packet_id p) (packet_serialize lib p) = Some q \<and> packet_same p q"
proof (cases p)
  case (Pkt_C_LOGIN m)
  then show ?thesis
    using C_LOGIN_roundtrip [OF lib, of m valid] ok by (auto simp: packet_parse_id)
next
  case (Pkt_S_LOGIN m)
  then show ?thesis
    using S_LOGIN_roundtrip [OF lib, of m valid] ok by (auto simp: packet_parse_id)
next
  case (Pkt_C_REGISTER m)
  then show ?thesis
    using C_REGISTER_roundtrip [OF lib, of m valid] ok by (auto simp: packet_parse_id)
next
  case (Pkt_S_REGISTER m)
  then show ?thesis
    using S_REGISTER_roundtrip [OF lib, of m valid] ok by (auto simp: packet_parse_id)
next
  case (Pkt_C_REFRESH_LOBBY m)
  then show ?thesis
    using C_REFRESH_LOBBY_roundtrip [OF lib, of m valid] ok by (simp add: packet_parse_id)
next
  case (Pkt_S_REFRESH_LOBBY m)
  then show ?thesis
    using S_REFRESH_LOBBY_roundtrip [OF lib, of m valid] ok by (auto simp: packet_parse_id)
next
  case (Pkt_C_CREATE_ROOM m)
  then show ?thesis
    using C_CREATE_ROOM_roundtrip [OF lib, of m valid] ok by (auto simp: packet_parse_id)
next
  case (Pkt_S_CREATE_ROOM m)
  then show ?thesis
    using S_CREATE_ROOM_roundtrip [OF lib, of m valid] ok by (auto simp: packet_parse_id)
next
  case (Pkt_C_JOIN_ROOM m)
  then show ?thesis
    using C_JOIN_ROOM_roundtrip [OF lib, of m valid] ok by (auto simp: packet_parse_id)
next
  case (Pkt_S_JOIN_ROOM m)
  then show ?thesis
    using S_JOIN_ROOM_roundtrip [OF lib, of m valid] ok by (auto simp: packet_parse_id)
next
  case (Pkt_S_REFRESH_ROOM m)
  then show ?thesis
    using S_REFRESH_ROOM_roundtrip [OF lib, of m valid] ok by (auto simp: packet_parse_id)
next
  case (Pkt_C_CHAT_LOG m)
  then show ?thesis
    using C_CHAT_LOG_roundtrip [OF lib, of m valid] ok by (auto simp: packet_parse_id)
next
  case (Pkt_S_CHAT_LOG m)
  then show ?thesis
    using S_CHAT_LOG_roundtrip [OF lib, of m valid] ok by (auto simp: packet_parse_id)
next
  case (Pkt_C_ROOM_OUT m)
  then show ?thesis
    using C_ROOM_OUT_roundtrip [OF lib, of m valid] ok by (auto simp: packet_parse_id)
next
  case (Pkt_S_ROOM_OUT m)
  then show ?thesis
    using S_ROOM_OUT_roundtrip [OF lib, of m valid] ok by (simp add: packet_parse_id)
qed

section \<open>Properties\<close>

text \<open>C6: Serialising any of the fifteen messages and decoding the bytes under the packet's id gives a
  packet of the same kind with the same field values.\<close>

theorem packet_roundtrip:
  assumes "pb_ok lib" "packet_ok valid p"
  shows "\<exists>q. packet_parse valid (packet_id p) (packet_serialize lib p) = Some q \<and> packet_same p q"
  using assms by (rule packet_roundtrip_ex)

text \<open>A library that keeps the promises, with every string on the slow path.\<close>

fun put_unknown :: "nat \<times> wire_value \<Rightarrow> byte list" where
  "put_unknown (num, Varint n) = WriteTag (of_nat num) 0 @ UnsafeVarint (of_nat n)"
| "put_unknown (num, Fixed64 b) = WriteTag (of_nat num) 1 @ b"
| "put_unknown (num, LenDelim b) = put_string (of_nat num) b"
| "put_unknown (num, Fixed32 b) = WriteTag (of_nat num) 5 @ b"

definition plain_lib :: pb_lib where
  "plain_lib = \<lparr>NoRoom = (\<lambda>_ _. True), WriteStringOutline = put_string,
     Int64SizeWithPackedTagSize = (\<lambda>vs t. if vs = [] then (0, 0)
       else (t + LengthDelimitedSize (Int64Size vs), int (Int64Size vs))),
     SerializeUnknownFields = (\<lambda>u. concat (map put_unknown u)),
     UnknownFieldsSize = (\<lambda>u. length (concat (map put_unknown u)))\<rparr>"

lemma plain_lib_ok: "pb_ok plain_lib"
  by (simp add: pb_ok_def plain_lib_def)

theorem packet_roundtrip_witness:
  "\<exists>q. packet_parse (\<lambda>_. True) PKT_S_CHAT_LOG
      (packet_serialize plain_lib (Pkt_S_CHAT_LOG (S_CHAT_LOG_set_log [72, 105] (S_CHAT_LOG_set_id [97] S_CHAT_LOG_new))))
    = Some q \<and> packet_same (Pkt_S_CHAT_LOG (S_CHAT_LOG_set_log [72, 105] (S_CHAT_LOG_set_id [97] S_CHAT_LOG_new))) q"
  using packet_roundtrip [OF plain_lib_ok, of "\<lambda>_. True"
      "Pkt_S_CHAT_LOG (S_CHAT_LOG_set_log [72, 105] (S_CHAT_LOG_set_id [97] S_CHAT_LOG_new))"]
  by (simp add: S_CHAT_LOG_wf_ops) (simp add: S_CHAT_LOG_set_defs S_CHAT_LOG_new_def)

text \<open>C21: The size every message announces (\<open>ByteSizeLong\<close>, from which the packet header and the send
  buffer are sized) is exactly the number of bytes its serialisation writes.\<close>

theorem packet_size:
  assumes "pb_ok lib"
  shows "packet_ByteSizeLong lib p = length (packet_serialize lib p)"
  using assms by (rule packet_size_eq)

theorem packet_size_witness:
  "packet_ByteSizeLong plain_lib (Pkt_S_JOIN_ROOM (S_JOIN_ROOM_add_userids [97] S_JOIN_ROOM_new)) =
   length (packet_serialize plain_lib (Pkt_S_JOIN_ROOM (S_JOIN_ROOM_add_userids [97] S_JOIN_ROOM_new)))"
  by (rule packet_size [OF plain_lib_ok])

text \<open>C22: The number of bytes of a variable-length integer, which the library computes from the number
  of leading zeros as (9 log2 + 73) / 64, is the number of bytes the writing loop produces, for every
  32-bit and every 64-bit value.\<close>

theorem varint_size:
  "VarintSize64 v = length (UnsafeVarint v) \<and> VarintSize32 w = length (UnsafeWriteSize w)"
  by (simp add: VarintSize64_length VarintSize32_length)

end
