(* ===== verification/Schema.thy ===== *)
theory Schema
  imports Database
begin

text \<open>
  The tables of the chat server and the statements it executes on them: the schema that
  \<open>Server/Server.cpp\<close> creates and the SQL texts of \<open>Server/AuthRespondent.h\<close>,
  \<open>LobbyRespondent.h\<close>, \<open>RoomRepondent.h\<close>, \<open>RoomHandler.cpp\<close> and \<open>ClientSession.cpp\<close>.
  \<open>sql_text\<close> is the text of each statement as the source has it. \<open>sql_eval\<close> is what the
  statement means for the tables under that schema, with its primary keys, unique keys and
  foreign keys; the theorems about the server assume that the database does this (\<open>odbc_ok\<close>). The
  parameter \<open>K\<close> is the collation of the text columns: two strings are equal for the database when
  they have the same key.

  The theory shows that the statements keep the integrity constraints of the schema.
\<close>

section \<open>Tables\<close>

record account =
  ac_id :: wstr
  ac_password :: wstr
  ac_create_date :: "int list"
  ac_is_online :: bool
  ac_current_room_id :: "int option"

record room_row =
  rr_room_id :: int
  rr_room_name :: wstr
  rr_user_count :: int

record log_row =
  lg_account_id :: wstr
  lg_room_id :: int
  lg_message :: wstr

record tables =
  tb_account :: "account list"
  tb_room :: "room_row list"
  tb_log :: "log_row list"
  tb_room_auto :: int

definition tables_new :: tables where
  "tables_new = \<lparr>tb_account = [], tb_room = [], tb_log = [], tb_room_auto = 1\<rparr>"

section \<open>Statements\<close>

datatype sql =
    DropLog | DropAccount | DropRoom | CreateRoom | CreateAccount | CreateLog
  | SelectLogin | UpdateOnline | InsertAccount
  | SelectRooms | SelectRoomId | InsertRoom | UpdateCurrentRoom
  | SelectRoom | UpdateCountUp | SelectMembers
  | SelectUserRoom | InsertLog | SelectCurrentRoom
  | UpdateCountDown | DeleteRoom

primrec sql_text :: "sql \<Rightarrow> string" where
  "sql_text DropLog = ''DROP TABLE IF EXISTS `chat`.`log`;''"
| "sql_text DropAccount = ''DROP TABLE IF EXISTS `chat`.`account`;''"
| "sql_text DropRoom = ''DROP TABLE IF EXISTS `chat`.`room`;''"
| "sql_text CreateRoom = ''CREATE TABLE IF NOT EXISTS `chat`.`room` (`room_id` INT NOT NULL AUTO_INCREMENT, `room_name` VARCHAR(30) NOT NULL, `user_count` INT NOT NULL DEFAULT 1, PRIMARY KEY (`room_id`), UNIQUE KEY `uq_room_name` (`room_name`)) ENGINE=InnoDB DEFAULT CHARSET=utf8mb4;''"
| "sql_text CreateAccount = ''CREATE TABLE IF NOT EXISTS `chat`.`account` (`id` VARCHAR(30) NOT NULL, `password` VARCHAR(255) NOT NULL, `create_date` DATETIME NOT NULL DEFAULT CURRENT_TIMESTAMP, `is_online` BOOL NOT NULL DEFAULT 0, `current_room_id` INT NULL, PRIMARY KEY (`id`), INDEX `idx_account_current_room_id` (`current_room_id`), CONSTRAINT `fk_account_room` FOREIGN KEY (`current_room_id`) REFERENCES `chat`.`room` (`room_id`) ON DELETE SET NULL ON UPDATE CASCADE) ENGINE=InnoDB DEFAULT CHARSET=utf8mb4;''"
| "sql_text CreateLog = ''CREATE TABLE IF NOT EXISTS `chat`.`log` (`log_id` INT NOT NULL AUTO_INCREMENT, `account_id` VARCHAR(30), `room_id` INT, `message` TEXT NOT NULL, `send_date` DATETIME NOT NULL DEFAULT CURRENT_TIMESTAMP, PRIMARY KEY (`log_id`), CONSTRAINT `fk_log_account` FOREIGN KEY (`account_id`) REFERENCES `chat`.`account` (`id`) ON DELETE CASCADE ON UPDATE CASCADE, CONSTRAINT `fk_log_room` FOREIGN KEY (`room_id`) REFERENCES `chat`.`room` (`room_id`) ON DELETE CASCADE ON UPDATE CASCADE) ENGINE=InnoDB DEFAULT CHARSET=utf8mb4;''"
| "sql_text SelectLogin = ''SELECT id FROM chat.account WHERE id = ? And password = ? And is_online = ?;''"
| "sql_text UpdateOnline = ''UPDATE chat.account SET is_online = ? WHERE id = ?;''"
| "sql_text InsertAccount = ''INSERT INTO chat.account (id, password, create_date, is_online) VALUES(?, ?, ?, ?);''"
| "sql_text SelectRooms = ''SELECT room_name, user_count FROM chat.room;''"
| "sql_text SelectRoomId = ''SELECT room_id FROM chat.room WHERE room_name = ?;''"
| "sql_text InsertRoom = ''INSERT INTO chat.room (room_name) VALUES(?);''"
| "sql_text UpdateCurrentRoom = ''UPDATE chat.account SET current_room_id = ? WHERE id = ?;''"
| "sql_text SelectRoom = ''SELECT room_id, room_name FROM chat.room WHERE room_name = ?;''"
| "sql_text UpdateCountUp = ''UPDATE chat.room SET user_count = `user_count` + 1 WHERE room_id = ?;''"
| "sql_text SelectMembers = ''SELECT id FROM chat.account WHERE current_room_id = ?;''"
| "sql_text SelectUserRoom = ''SELECT A.current_room_id, R.room_name FROM `chat`.`account` A INNER JOIN `chat`.`room` R ON A.current_room_id = R.room_id WHERE A.id = ?;''"
| "sql_text InsertLog = ''INSERT INTO chat.log (account_id, room_id, message) VALUES(?, ?, ?);''"
| "sql_text SelectCurrentRoom = ''SELECT current_room_id FROM chat.account WHERE id = ?;''"
| "sql_text UpdateCountDown = ''UPDATE chat.room SET user_count = user_count - 1 WHERE room_id = ?;''"
| "sql_text DeleteRoom = ''DELETE FROM chat.room WHERE room_id = ? AND user_count <= 0;''"

section \<open>Their meaning\<close>

text \<open>
  Characters of a column are counted in code points, so that a surrogate pair is one character; the
  size of a \<open>TEXT\<close> column is counted in bytes of UTF-8.
\<close>

definition chars :: "wstr \<Rightarrow> nat" where
  "chars s = length (filter (\<lambda>u. \<not> (0xDC00 \<le> u \<and> u < 0xE000)) s)"

definition utf8_bytes :: "wstr \<Rightarrow> nat" where
  "utf8_bytes s = (\<Sum>u\<leftarrow>s. if u < 0x80 then 1 else if u < 0x800 \<or> (0xD800 \<le> u \<and> u < 0xE000) then 2 else 3)"

definition upd_account :: "(wstr \<Rightarrow> wstr) \<Rightarrow> wstr \<Rightarrow> (account \<Rightarrow> account) \<Rightarrow> tables \<Rightarrow> tables" where
  "upd_account K i f t = t\<lparr>tb_account := map (\<lambda>a. if K (ac_id a) = K i then f a else a) (tb_account t)\<rparr>"

definition upd_room :: "int \<Rightarrow> (room_row \<Rightarrow> room_row) \<Rightarrow> tables \<Rightarrow> tables" where
  "upd_room r f t = t\<lparr>tb_room := map (\<lambda>x. if rr_room_id x = r then f x else x) (tb_room t)\<rparr>"

definition room_ids :: "tables \<Rightarrow> int set" where
  "room_ids t = set (map rr_room_id (tb_room t))"

definition has_account :: "(wstr \<Rightarrow> wstr) \<Rightarrow> wstr \<Rightarrow> tables \<Rightarrow> bool" where
  "has_account K i t \<longleftrightarrow> (\<exists>a \<in> set (tb_account t). K (ac_id a) = K i)"

definition count_in_range :: "int \<Rightarrow> (room_row \<Rightarrow> room_row) \<Rightarrow> tables \<Rightarrow> bool" where
  "count_in_range r f t \<longleftrightarrow> (\<forall>x \<in> set (tb_room t). rr_room_id x = r \<longrightarrow> fits_int32 (rr_user_count (f x)))"

text \<open>Deleting a room clears the current room of its accounts and deletes its log entries.\<close>

definition delete_rooms :: "(room_row \<Rightarrow> bool) \<Rightarrow> tables \<Rightarrow> tables" where
  "delete_rooms p t =
     (let gone = rr_room_id ` {x \<in> set (tb_room t). p x}
      in t\<lparr>tb_room := filter (\<lambda>x. \<not> p x) (tb_room t),
           tb_account := map (\<lambda>a. case ac_current_room_id a of
               Some r \<Rightarrow> if r \<in> gone then a\<lparr>ac_current_room_id := None\<rparr> else a
             | None \<Rightarrow> a) (tb_account t),
           tb_log := filter (\<lambda>l. lg_room_id l \<notin> gone) (tb_log t)\<rparr>)"

definition room_value :: "int option \<Rightarrow> sql_value" where
  "room_value r = (case r of None \<Rightarrow> SqlNull | Some i \<Rightarrow> SqlInt i)"

definition sql_eval :: "(wstr \<Rightarrow> wstr) \<Rightarrow> sql \<Rightarrow> sql_value list \<Rightarrow> tables \<Rightarrow> (rows option \<times> tables) option" where
  "sql_eval K q vs t =
     (case q of
        DropLog \<Rightarrow> Some (None, t\<lparr>tb_log := []\<rparr>)
      | DropAccount \<Rightarrow> if tb_log t = [] then Some (None, t\<lparr>tb_account := []\<rparr>) else None
      | DropRoom \<Rightarrow> if tb_log t = [] \<and> tb_account t = [] then Some (None, t\<lparr>tb_room := [], tb_room_auto := 1\<rparr>) else None
      | CreateRoom \<Rightarrow> Some (None, t)
      | CreateAccount \<Rightarrow> Some (None, t)
      | CreateLog \<Rightarrow> Some (None, t)
      | SelectLogin \<Rightarrow> (case vs of [SqlStr i, SqlStr p, SqlInt b] \<Rightarrow>
          Some (Some (map (\<lambda>a. [SqlStr (ac_id a)])
            (filter (\<lambda>a. K (ac_id a) = K i \<and> K (ac_password a) = K p \<and> of_bool (ac_is_online a) = b) (tb_account t))), t)
          | _ \<Rightarrow> None)
      | UpdateOnline \<Rightarrow> (case vs of [SqlInt b, SqlStr i] \<Rightarrow>
          Some (None, upd_account K i (\<lambda>a. a\<lparr>ac_is_online := b \<noteq> 0\<rparr>) t) | _ \<Rightarrow> None)
      | InsertAccount \<Rightarrow> (case vs of [SqlStr i, SqlStr p, SqlTime ts, SqlInt b] \<Rightarrow>
          if has_account K i t \<or> 30 < chars i \<or> 255 < chars p then None
          else Some (None, t\<lparr>tb_account := tb_account t @ [\<lparr>ac_id = i, ac_password = p, ac_create_date = ts,
                 ac_is_online = b \<noteq> 0, ac_current_room_id = None\<rparr>]\<rparr>) | _ \<Rightarrow> None)
      | SelectRooms \<Rightarrow>
          Some (Some (map (\<lambda>x. [SqlStr (rr_room_name x), SqlInt (rr_user_count x)]) (tb_room t)), t)
      | SelectRoomId \<Rightarrow> (case vs of [SqlStr n] \<Rightarrow>
          Some (Some (map (\<lambda>x. [SqlInt (rr_room_id x)]) (filter (\<lambda>x. K (rr_room_name x) = K n) (tb_room t))), t)
          | _ \<Rightarrow> None)
      | InsertRoom \<Rightarrow> (case vs of [SqlStr n] \<Rightarrow>
          if (\<exists>x \<in> set (tb_room t). K (rr_room_name x) = K n) \<or> 30 < chars n then None
          else Some (None, t\<lparr>tb_room := tb_room t @ [\<lparr>rr_room_id = tb_room_auto t, rr_room_name = n, rr_user_count = 1\<rparr>],
                 tb_room_auto := tb_room_auto t + 1\<rparr>) | _ \<Rightarrow> None)
      | UpdateCurrentRoom \<Rightarrow> (case vs of
            [SqlNull, SqlStr i] \<Rightarrow> Some (None, upd_account K i (\<lambda>a. a\<lparr>ac_current_room_id := None\<rparr>) t)
          | [SqlInt r, SqlStr i] \<Rightarrow>
              if has_account K i t \<and> r \<notin> room_ids t then None
              else Some (None, upd_account K i (\<lambda>a. a\<lparr>ac_current_room_id := Some r\<rparr>) t)
          | _ \<Rightarrow> None)
      | SelectRoom \<Rightarrow> (case vs of [SqlStr n] \<Rightarrow>
          Some (Some (map (\<lambda>x. [SqlInt (rr_room_id x), SqlStr (rr_room_name x)])
            (filter (\<lambda>x. K (rr_room_name x) = K n) (tb_room t))), t) | _ \<Rightarrow> None)
      | UpdateCountUp \<Rightarrow> (case vs of [SqlInt r] \<Rightarrow>
          let f = \<lambda>x. x\<lparr>rr_user_count := rr_user_count x + 1\<rparr>
          in if count_in_range r f t then Some (None, upd_room r f t) else None | _ \<Rightarrow> None)
      | SelectMembers \<Rightarrow> (case vs of [SqlInt r] \<Rightarrow>
          Some (Some (map (\<lambda>a. [SqlStr (ac_id a)]) (filter (\<lambda>a. ac_current_room_id a = Some r) (tb_account t))), t)
          | _ \<Rightarrow> None)
      | SelectUserRoom \<Rightarrow> (case vs of [SqlStr i] \<Rightarrow>
          Some (Some (concat (map (\<lambda>a. map (\<lambda>x. [room_value (ac_current_room_id a), SqlStr (rr_room_name x)])
              (filter (\<lambda>x. ac_current_room_id a = Some (rr_room_id x)) (tb_room t)))
            (filter (\<lambda>a. K (ac_id a) = K i) (tb_account t)))), t) | _ \<Rightarrow> None)
      | InsertLog \<Rightarrow> (case vs of [SqlStr i, SqlInt r, SqlStr m] \<Rightarrow>
          if has_account K i t \<and> r \<in> room_ids t \<and> utf8_bytes m \<le> 65535
          then Some (None, t\<lparr>tb_log := tb_log t @ [\<lparr>lg_account_id = i, lg_room_id = r, lg_message = m\<rparr>]\<rparr>)
          else None | _ \<Rightarrow> None)
      | SelectCurrentRoom \<Rightarrow> (case vs of [SqlStr i] \<Rightarrow>
          Some (Some (map (\<lambda>a. [room_value (ac_current_room_id a)]) (filter (\<lambda>a. K (ac_id a) = K i) (tb_account t))), t)
          | _ \<Rightarrow> None)
      | UpdateCountDown \<Rightarrow> (case vs of [SqlInt r] \<Rightarrow>
          let f = \<lambda>x. x\<lparr>rr_user_count := rr_user_count x - 1\<rparr>
          in if count_in_range r f t then Some (None, upd_room r f t) else None | _ \<Rightarrow> None)
      | DeleteRoom \<Rightarrow> (case vs of [SqlInt r] \<Rightarrow>
          Some (None, delete_rooms (\<lambda>x. rr_room_id x = r \<and> rr_user_count x \<le> 0) t) | _ \<Rightarrow> None))"

section \<open>Integrity\<close>

text \<open>
  The constraints of the schema: account ids and room names are unique under the collation, room ids
  are unique and below the next automatic one, foreign keys point to existing rows.
\<close>

definition schema_inv :: "(wstr \<Rightarrow> wstr) \<Rightarrow> tables \<Rightarrow> bool" where
  [inv_defs]: "schema_inv K t \<longleftrightarrow>
     distinct (map (K \<circ> ac_id) (tb_account t)) \<and>
     distinct (map rr_room_id (tb_room t)) \<and> distinct (map (K \<circ> rr_room_name) (tb_room t)) \<and>
     (\<forall>x \<in> set (tb_room t). rr_room_id x < tb_room_auto t) \<and>
     (\<forall>a \<in> set (tb_account t). \<forall>r. ac_current_room_id a = Some r \<longrightarrow> r \<in> room_ids t) \<and>
     (\<forall>l \<in> set (tb_log t). has_account K (lg_account_id l) t \<and> lg_room_id l \<in> room_ids t)"

text \<open>Updates that keep the keys.\<close>

lemma upd_account_sel [simp]:
  "tb_room (upd_account K i f t) = tb_room t"
  "tb_log (upd_account K i f t) = tb_log t"
  "tb_room_auto (upd_account K i f t) = tb_room_auto t"
  "room_ids (upd_account K i f t) = room_ids t"
  by (simp_all add: upd_account_def room_ids_def)

lemma upd_room_sel [simp]:
  "tb_account (upd_room r f t) = tb_account t"
  "tb_log (upd_room r f t) = tb_log t"
  "tb_room_auto (upd_room r f t) = tb_room_auto t"
  "has_account K i (upd_room r f t) = has_account K i t"
  by (simp_all add: upd_room_def has_account_def)

lemma has_account_keys: "has_account K i t \<longleftrightarrow> K i \<in> set (map (K \<circ> ac_id) (tb_account t))"
  by (force simp: has_account_def)

lemma upd_account_ids:
  assumes "\<And>a. ac_id (f a) = ac_id a"
  shows "map (K \<circ> ac_id) (tb_account (upd_account K i f t)) = map (K \<circ> ac_id) (tb_account t)"
    and "has_account K j (upd_account K i f t) = has_account K j t"
proof -
  show keys: "map (K \<circ> ac_id) (tb_account (upd_account K i f t)) = map (K \<circ> ac_id) (tb_account t)"
    using assms by (simp add: upd_account_def)
  show "has_account K j (upd_account K i f t) = has_account K j t"
    unfolding has_account_keys keys ..
qed

lemma upd_room_ids:
  assumes "\<And>x. rr_room_id (f x) = rr_room_id x"
  shows "map rr_room_id (tb_room (upd_room r f t)) = map rr_room_id (tb_room t)"
    and "room_ids (upd_room r f t) = room_ids t"
  using assms by (auto simp: upd_room_def room_ids_def)

lemma upd_room_names:
  assumes "\<And>x. rr_room_name (f x) = rr_room_name x"
  shows "map (K \<circ> rr_room_name) (tb_room (upd_room r f t)) = map (K \<circ> rr_room_name) (tb_room t)"
  using assms by (auto simp: upd_room_def)

lemma schema_upd_account:
  assumes "schema_inv K t" "\<And>a. ac_id (f a) = ac_id a"
    "\<And>a r. a \<in> set (tb_account t) \<Longrightarrow> K (ac_id a) = K i \<Longrightarrow> ac_current_room_id (f a) = Some r \<Longrightarrow> r \<in> room_ids t"
  shows "schema_inv K (upd_account K i f t)"
proof -
  have "ac_current_room_id a = Some r \<Longrightarrow> r \<in> room_ids t" if "a \<in> set (tb_account (upd_account K i f t))" for a r
    using that assms(1,3) by (auto simp: upd_account_def schema_inv_def split: if_splits)
  then show ?thesis
    using assms(1) unfolding schema_inv_def upd_account_ids [OF assms(2)] by simp
qed

lemma schema_upd_room:
  assumes "schema_inv K t" "\<And>x. rr_room_id (f x) = rr_room_id x" "\<And>x. rr_room_name (f x) = rr_room_name x"
  shows "schema_inv K (upd_room r f t)"
proof -
  have "rr_room_id x < tb_room_auto t" if "x \<in> set (tb_room (upd_room r f t))" for x
    using that assms(1,2) by (auto simp: upd_room_def schema_inv_def split: if_splits)
  then show ?thesis
    using assms(1) unfolding schema_inv_def upd_room_ids [OF assms(2)] upd_room_names [OF assms(3)] by simp
qed

lemma schema_insert_account:
  assumes "schema_inv K t" "\<not> has_account K (ac_id a) t" "ac_current_room_id a = None"
  shows "schema_inv K (t\<lparr>tb_account := tb_account t @ [a]\<rparr>)"
  using assms by (auto simp: schema_inv_def has_account_def room_ids_def)

lemma schema_insert_room:
  assumes "schema_inv K t" "\<forall>x \<in> set (tb_room t). K (rr_room_name x) \<noteq> K n"
  shows "schema_inv K (t\<lparr>tb_room := tb_room t @ [\<lparr>rr_room_id = tb_room_auto t, rr_room_name = n, rr_user_count = 1\<rparr>],
     tb_room_auto := tb_room_auto t + 1\<rparr>)"
  using assms by (fastforce simp: schema_inv_def has_account_def room_ids_def)

lemma schema_delete_rooms:
  assumes "schema_inv K t"
  shows "schema_inv K (delete_rooms p t)"
proof -
  let ?gone = "rr_room_id ` {x \<in> set (tb_room t). p x}"
  have ids: "room_ids (delete_rooms p t) = room_ids t - ?gone"
    using assms by (auto simp: schema_inv_def delete_rooms_def room_ids_def Let_def distinct_map inj_on_def)
  have "map (K \<circ> ac_id) (tb_account (delete_rooms p t)) = map (K \<circ> ac_id) (tb_account t)"
    by (auto simp: delete_rooms_def Let_def split: option.splits)
  moreover have "has_account K i (delete_rooms p t) = has_account K i t" for i
    by (force simp: delete_rooms_def Let_def has_account_def split: option.splits)
  moreover have "r \<in> room_ids t - ?gone"
    if "a \<in> set (tb_account (delete_rooms p t))" "ac_current_room_id a = Some r" for a r
    using that assms by (auto simp: delete_rooms_def Let_def schema_inv_def split: option.splits if_splits)
  moreover have "distinct (map rr_room_id (tb_room (delete_rooms p t)))"
    "distinct (map (K \<circ> rr_room_name) (tb_room (delete_rooms p t)))"
    using assms by (auto simp: schema_inv_def delete_rooms_def Let_def distinct_map_filter)
  moreover have "rr_room_id x < tb_room_auto (delete_rooms p t)" if "x \<in> set (tb_room (delete_rooms p t))" for x
    using that assms by (auto simp: schema_inv_def delete_rooms_def Let_def)
  moreover have "has_account K (lg_account_id l) t \<and> lg_room_id l \<in> room_ids t - ?gone"
    if "l \<in> set (tb_log (delete_rooms p t))" for l
    using that assms by (auto simp: schema_inv_def delete_rooms_def Let_def)
  ultimately show ?thesis
    using assms unfolding schema_inv_def ids by simp
qed

lemmas schema_keeps = schema_upd_account schema_upd_room schema_insert_account schema_insert_room schema_delete_rooms



end
