(* ===== verification/Rooms.thy ===== *)
theory Rooms
  imports Service SendBuffer Protocol Schema "HOL-Library.List_Lexorder"
begin

text \<open>
  The state of the chat server: rooms and their registry (\<open>Server/RoomHandler.h\<close>, \<open>RoomHandler.cpp\<close>)
  and the sessions of its clients (\<open>Server/ClientSession.cpp\<close>). A room object is an address in
  \<open>ch_heap\<close>; the registry \<open>RoomHandler::_rooms\<close> holds the only lasting pointers to rooms, so that a weak
  pointer is expired when its room is not registered. Packets are sent with the value of their bytes;
  the theory \<open>SendBuffer\<close> relates that to the buffers in shared memory.

  Each operation is the whole method, run without interference; the interleaving of joining and
  leaving is the subject of the theory \<open>Room_Race\<close>.
\<close>

section \<open>The world outside\<close>

text \<open>
  What the server calls and does not define: the protocol-buffer library and its parser, Winsock,
  ODBC, the conversion functions of Windows and the local time.
\<close>

record env =
  en_lib :: pb_lib
  en_ParseFromArray :: "u16 \<Rightarrow> byte list \<Rightarrow> packet option"
  en_winsock :: "byte list winsock"
  en_odbc :: "(sql, tables) odbc"
  en_MultiByteToWideChar :: "utf8 \<Rightarrow> wstr"
  en_WideCharToMultiByte :: "wstr \<Rightarrow> utf8"
  en_localtime :: "int \<times> int \<times> int \<times> int \<times> int \<times> int"

text \<open>\<open>ServerCore/StringUtil.cpp\<close> and \<open>ServerCore/TimeUtil.cpp\<close>.\<close>

definition Utf8ToWstring :: "env \<Rightarrow> utf8 \<Rightarrow> wstr" where
  "Utf8ToWstring e utf8str = (if utf8str = [] then [] else en_MultiByteToWideChar e utf8str)"

definition WCHARToUTF8 :: "env \<Rightarrow> wstr \<Rightarrow> utf8" where
  "WCHARToUTF8 e str = en_WideCharToMultiByte e (c_str str)"

definition GetCurrentTimeStamp :: "env \<Rightarrow> int list" where
  "GetCurrentTimeStamp e =
     (case en_localtime e of (tm_year, tm_mon, tm_mday, tm_hour, tm_min, tm_sec) \<Rightarrow>
        [tm_year + 1900, tm_mon + 1, tm_mday, tm_hour, tm_min, tm_sec, 0])"

section \<open>State\<close>

definition Destruction :: int where "Destruction = -1"
definition Empty :: int where "Empty = 0"

record room =
  rm_roomState :: int
  rm_users :: "(utf8 \<times> sid) list"
  rm_roomId :: int

record client =
  cs_room :: "nat option"
  cs_id :: utf8

record chat =
  ch_db :: tables
  ch_pool :: "db_conn list"
  ch_rooms :: "int \<rightharpoonup> nat"
  ch_heap :: "nat \<rightharpoonup> room"
  ch_next :: nat
  ch_clients :: "sid \<Rightarrow> client"

type_synonym chat_world = "(byte list, chat) world"

abbreviation upd_chat :: "(chat \<Rightarrow> chat) \<Rightarrow> chat_world \<Rightarrow> chat_world" where
  "upd_chat f w \<equiv> w\<lparr>w_content := f (w_content w)\<rparr>"

definition client_new :: client where
  "client_new = \<lparr>cs_room = None, cs_id = []\<rparr>"

text \<open>The ordered map from user ids to sessions, as a list sorted by key.\<close>

fun users_set :: "utf8 \<Rightarrow> sid \<Rightarrow> (utf8 \<times> sid) list \<Rightarrow> (utf8 \<times> sid) list" where
  "users_set k v [] = [(k, v)]"
| "users_set k v ((a, b) # us) =
     (if k = a then (a, v) # us else if k < a then (k, v) # (a, b) # us else (a, b) # users_set k v us)"

definition users_erase :: "utf8 \<Rightarrow> (utf8 \<times> sid) list \<Rightarrow> (utf8 \<times> sid) list" where
  "users_erase k us = filter (\<lambda>u. fst u \<noteq> k) us"

section \<open>Database access and sending\<close>

text \<open>A null connection is dereferenced by the first binding constructed on it.\<close>

definition pool_pop :: "chat_world \<Rightarrow> (db_conn \<times> chat_world) res" where
  "pool_pop w =
     (case DBConnectionPool_Pop (ch_pool (w_content w)) of
        (None, _) \<Rightarrow> Inl NullDeref
      | (Some c, cs) \<Rightarrow> Inr (c, upd_chat (\<lambda>ch. ch\<lparr>ch_pool := cs\<rparr>) w))"

definition pool_push :: "db_conn \<Rightarrow> chat_world \<Rightarrow> chat_world" where
  "pool_push c w = upd_chat (\<lambda>ch. ch\<lparr>ch_pool := DBConnectionPool_Push c (ch_pool ch)\<rparr>) w"

definition db_exec ::
  "env \<Rightarrow> nat \<Rightarrow> nat \<Rightarrow> sql \<Rightarrow> host list \<Rightarrow> nat list \<Rightarrow> column list \<Rightarrow> bool \<Rightarrow> db_conn \<Rightarrow> chat_world \<Rightarrow>
     (bool \<times> db_conn \<times> chat_world) res" where
  "db_exec e P C q hs nulls cols doHandleError c w =
     bindR (stmt (en_odbc e) P C q hs nulls cols doHandleError c (ch_db (w_content w))) (\<lambda>(ok, c', d).
       Inr (ok, c', upd_chat (\<lambda>ch. ch\<lparr>ch_db := d\<rparr>) w))"

text \<open>A statement whose execution is asserted to succeed.\<close>

definition db_must ::
  "env \<Rightarrow> nat \<Rightarrow> nat \<Rightarrow> sql \<Rightarrow> host list \<Rightarrow> nat list \<Rightarrow> column list \<Rightarrow> db_conn \<Rightarrow> chat_world \<Rightarrow>
     (db_conn \<times> chat_world) res" where
  "db_must e P C q hs nulls cols c w =
     bindR (db_exec e P C q hs nulls cols True c w) (\<lambda>(ok, c', w'). ASSERT_CRASH ok (Inr (c', w')))"

text \<open>The variables a fetched row was stored into.\<close>

fun str_of :: "sql_value \<Rightarrow> wstr" where
  "str_of (SqlStr s) = s"
| "str_of _ = []"

fun int_of :: "sql_value \<Rightarrow> int" where
  "int_of (SqlInt i) = i"
| "int_of _ = 0"

definition MakeSendBuffer_packet :: "env \<Rightarrow> packet \<Rightarrow> byte list res" where
  "MakeSendBuffer_packet e p = MakePacket (packet_id p) (packet_serialize (en_lib e) p)"

definition send_packet :: "env \<Rightarrow> sid \<Rightarrow> packet \<Rightarrow> chat_world \<Rightarrow> chat_world res" where
  "send_packet e i p w =
     bindR (MakeSendBuffer_packet e p) (\<lambda>sendBuffer. on_session i (Session_Send (en_winsock e) sendBuffer) w)"

section \<open>Client sessions\<close>

definition SetRoom :: "sid \<Rightarrow> nat option \<Rightarrow> chat_world \<Rightarrow> chat_world" where
  "SetRoom i r w = upd_chat (\<lambda>ch. ch\<lparr>ch_clients := (ch_clients ch)(i := (ch_clients ch i)\<lparr>cs_room := r\<rparr>)\<rparr>) w"

definition SetId :: "sid \<Rightarrow> utf8 \<Rightarrow> chat_world \<Rightarrow> chat_world" where
  "SetId i uid w = upd_chat (\<lambda>ch. ch\<lparr>ch_clients := (ch_clients ch)(i := (ch_clients ch i)\<lparr>cs_id := uid\<rparr>)\<rparr>) w"

section \<open>Rooms\<close>

text \<open>Changing the state of a room object; a null or dangling pointer is a fault.\<close>

definition on_room :: "nat \<Rightarrow> (room \<Rightarrow> room) \<Rightarrow> chat_world \<Rightarrow> chat_world res" where
  "on_room r f w =
     (case ch_heap (w_content w) r of None \<Rightarrow> Inl NullDeref
      | Some rm \<Rightarrow> Inr (upd_chat (\<lambda>ch. ch\<lparr>ch_heap := (ch_heap ch)(r \<mapsto> f rm)\<rparr>) w))"

definition Room_new :: "int \<Rightarrow> utf8 \<Rightarrow> sid \<Rightarrow> chat_world \<Rightarrow> nat \<times> chat_world" where
  "Room_new roomId userId user w =
     (let r = ch_next (w_content w);
          rm = \<lparr>rm_roomState = Empty, rm_users = users_set userId user [], rm_roomId = roomId\<rparr>
      in (r, upd_chat (\<lambda>ch. ch\<lparr>ch_next := r + 1, ch_heap := (ch_heap ch)(r \<mapsto> rm)\<rparr>) w))"

definition AddUser :: "nat \<Rightarrow> utf8 \<Rightarrow> sid \<Rightarrow> chat_world \<Rightarrow> (bool \<times> chat_world) res" where
  "AddUser r userId user w =
     (case ch_heap (w_content w) r of None \<Rightarrow> Inl NullDeref
      | Some rm \<Rightarrow>
          if length (rm_users rm) = 0 then Inr (False, w)
          else bindR (on_room r (\<lambda>rm. rm\<lparr>rm_users := users_set userId user (rm_users rm)\<rparr>) w) (\<lambda>w1.
            Inr (True, SetRoom user (Some r) w1)))"

fun broadcast_users :: "env \<Rightarrow> packet \<Rightarrow> sid option \<Rightarrow> (utf8 \<times> sid) list \<Rightarrow> chat_world \<Rightarrow> chat_world res" where
  "broadcast_users e pkt excluUser [] w = Inr w"
| "broadcast_users e pkt excluUser ((_, user) # us) w =
     bindR (case excluUser of
              Some x \<Rightarrow> if x \<noteq> user then send_packet e user pkt w else Inr w
            | None \<Rightarrow> send_packet e user pkt w)
       (broadcast_users e pkt excluUser us)"

definition BroadCast :: "env \<Rightarrow> nat \<Rightarrow> packet \<Rightarrow> sid option \<Rightarrow> chat_world \<Rightarrow> chat_world res" where
  "BroadCast e r pkt excluUser w =
     (case ch_heap (w_content w) r of None \<Rightarrow> Inl NullDeref
      | Some rm \<Rightarrow> broadcast_users e pkt excluUser (rm_users rm) w)"

definition GetUserCount :: "room \<Rightarrow> int" where
  "GetUserCount rm = int (length (rm_users rm))"

section \<open>The registry\<close>

definition GetRoom :: "int \<Rightarrow> chat_world \<Rightarrow> nat option" where
  "GetRoom roomId w = ch_rooms (w_content w) roomId"

definition AddRoom :: "nat \<Rightarrow> chat_world \<Rightarrow> chat_world res" where
  "AddRoom r w =
     (case ch_heap (w_content w) r of None \<Rightarrow> Inl NullDeref
      | Some rm \<Rightarrow> Inr (upd_chat (\<lambda>ch. ch\<lparr>ch_rooms := (ch_rooms ch)(rm_roomId rm \<mapsto> r)\<rparr>) w))"

definition RemoveRoom :: "int \<Rightarrow> chat_world \<Rightarrow> chat_world res" where
  "RemoveRoom roomId w =
     ASSERT_CRASH (ch_rooms (w_content w) roomId \<noteq> None)
       (Inr (upd_chat (\<lambda>ch. ch\<lparr>ch_rooms := (ch_rooms ch)(roomId := None)\<rparr>) w))"

section \<open>Leaving a room\<close>

text \<open>
  \<open>Room::RemoveUser\<close> in its parts: the two updates of the database, the removal from the map of users,
  and what happens to a room that has become empty or not.
\<close>

definition RemoveUser_db :: "env \<Rightarrow> int \<Rightarrow> wstr \<Rightarrow> db_conn \<Rightarrow> chat_world \<Rightarrow> (db_conn \<times> chat_world) res" where
  "RemoveUser_db e roomId wid dbConn w =
     bindR (db_must e 2 0 UpdateCurrentRoom [HInt32 0, HWStr wid] [0] [] dbConn w) (\<lambda>(dbConn, w).
     db_must e 1 0 UpdateCountDown [HInt32 roomId] [] [] dbConn w)"

definition RemoveUser_destroy :: "env \<Rightarrow> int \<Rightarrow> db_conn \<Rightarrow> chat_world \<Rightarrow> (db_conn \<times> chat_world) res" where
  "RemoveUser_destroy e roomId dbConn w =
     bindR (db_must e 1 0 DeleteRoom [HInt32 roomId] [] [] dbConn w) (\<lambda>(dbConn, w).
     bindR (RemoveRoom roomId w) (\<lambda>w. Inr (dbConn, w)))"

definition member_ids :: "env \<Rightarrow> rows \<Rightarrow> utf8 list" where
  "member_ids e rs = map (\<lambda>row. WCHARToUTF8 e (str_of (row ! 0))) rs"

definition RemoveUser_refresh :: "env \<Rightarrow> nat \<Rightarrow> int \<Rightarrow> db_conn \<Rightarrow> chat_world \<Rightarrow> (db_conn \<times> chat_world) res" where
  "RemoveUser_refresh e r roomId dbConn w =
     bindR (db_must e 1 1 SelectMembers [HInt32 roomId] [] [CWStr 14] dbConn w) (\<lambda>(dbConn, w).
     bindR (fetch_all (en_odbc e) dbConn) (\<lambda>(rs, dbConn).
       let multiPktS = fold S_REFRESH_ROOM_add_userids (member_ids e rs) S_REFRESH_ROOM_new in
       bindR (if rs \<noteq> [] then BroadCast e r (Pkt_S_REFRESH_ROOM multiPktS) None w else Inr w) (\<lambda>w.
         Inr (dbConn, w))))"

definition RemoveUser :: "env \<Rightarrow> nat \<Rightarrow> utf8 \<Rightarrow> chat_world \<Rightarrow> chat_world res" where
  "RemoveUser e r userId w =
     (case ch_heap (w_content w) r of None \<Rightarrow> Inl NullDeref
      | Some rm \<Rightarrow>
     bindR (pool_pop w) (\<lambda>(dbConn, w).
     bindR (RemoveUser_db e (rm_roomId rm) (Utf8ToWstring e userId) dbConn w) (\<lambda>(dbConn, w).
     case map_of (rm_users rm) userId of
       None \<Rightarrow> CRASH
     | Some user \<Rightarrow>
         let w = SetRoom user None w;
             state = rm_roomState rm - 1;
             destroyed = (state = Empty)
         in bindR (on_room r (\<lambda>rm. rm\<lparr>rm_users := users_erase userId (rm_users rm),
                rm_roomState := (if destroyed then Destruction else state)\<rparr>) w) (\<lambda>w.
            bindR (if destroyed then RemoveUser_destroy e (rm_roomId rm) dbConn w
                   else RemoveUser_refresh e r (rm_roomId rm) dbConn w) (\<lambda>(dbConn, w).
            Inr (pool_push dbConn w))))))"

section \<open>Callbacks of a client session\<close>

text \<open>A weak pointer is expired when the registry no longer holds the room.\<close>

definition expired :: "chat_world \<Rightarrow> nat \<Rightarrow> bool" where
  "expired w r =
     (case ch_heap (w_content w) r of None \<Rightarrow> True
      | Some rm \<Rightarrow> ch_rooms (w_content w) (rm_roomId rm) \<noteq> Some r)"

definition OnConnected :: "sid \<Rightarrow> chat_world \<Rightarrow> chat_world res" where
  "OnConnected i w = Inr w"

definition OnDisconnected :: "env \<Rightarrow> sid \<Rightarrow> chat_world \<Rightarrow> chat_world res" where
  "OnDisconnected e i w =
     (let cl = ch_clients (w_content w) i in
      bindR (case cs_room cl of
               None \<Rightarrow> Inr w
             | Some r \<Rightarrow> if expired w r then Inr w else RemoveUser e r (cs_id cl) w) (\<lambda>w.
      bindR (pool_pop w) (\<lambda>(dbConn, w).
      bindR (db_must e 2 0 UpdateOnline [HBool False, HWStr (Utf8ToWstring e (cs_id cl))] [] [] dbConn w) (\<lambda>(dbConn, w).
      Inr (pool_push dbConn w)))))"

end
