(* ===== verification/Respond.thy ===== *)
theory Respond
  imports Rooms
begin

text \<open>
  What the server does with a packet: the responses (\<open>Server/AuthRespondent.h\<close>,
  \<open>LobbyRespondent.h\<close>, \<open>RoomRepondent.h\<close>), the handlers that start them
  (\<open>Server/ClientPacketHandler.cpp\<close>) and the table that selects a handler by packet id
  (\<open>Server/ClientPacketHandler.h\<close>). Each \<open>Respond_\<close> function is the body between \<open>RESPONSE_START\<close> and
  \<open>RESPONSE_END\<close>; the theory \<open>JobQueue\<close> shows that it runs exactly once, before the handler returns.
\<close>

section \<open>Accounts\<close>

definition Respond_C_LOGIN :: "env \<Rightarrow> sid \<Rightarrow> C_LOGIN \<Rightarrow> chat_world \<Rightarrow> chat_world res" where
  "Respond_C_LOGIN e session pkt w =
     bindR (pool_pop w) (\<lambda>(dbConn, w).
     let wid = Utf8ToWstring e (C_LOGIN_id pkt);
         pssd = Utf8ToWstring e (C_LOGIN_pssd pkt)
     in
     bindR (db_must e 3 1 SelectLogin [HWStr wid, HWStr pssd, HBool False] [] [CWStr 14] dbConn w) (\<lambda>(dbConn, w).
     bindR (DBConnection_Fetch (en_odbc e) dbConn) (\<lambda>(outId, dbConn).
     let canLogin = (outId \<noteq> None) in
     bindR (if canLogin
            then bindR (db_must e 2 0 UpdateOnline [HBool True, HWStr wid] [] [] dbConn w) (\<lambda>(dbConn, w).
                   Inr (dbConn, SetId session (C_LOGIN_id pkt) w))
            else Inr (dbConn, w)) (\<lambda>(dbConn, w).
     let pktS = S_LOGIN_set_pssd (C_LOGIN_pssd pkt) (S_LOGIN_set_id (C_LOGIN_id pkt)
                  (S_LOGIN_set_issuccess canLogin S_LOGIN_new)) in
     bindR (send_packet e session (Pkt_S_LOGIN pktS) w) (\<lambda>w.
     Inr (pool_push dbConn w))))))"

definition Respond_C_REGISTER :: "env \<Rightarrow> sid \<Rightarrow> C_REGISTER \<Rightarrow> chat_world \<Rightarrow> chat_world res" where
  "Respond_C_REGISTER e session pkt w =
     bindR (pool_pop w) (\<lambda>(dbConn, w).
     let wid = Utf8ToWstring e (C_REGISTER_id pkt);
         pssd = Utf8ToWstring e (C_REGISTER_pssd pkt);
         ts = GetCurrentTimeStamp e;
         pktS = S_REGISTER_set_pssd (C_REGISTER_pssd pkt) (S_REGISTER_set_id (C_REGISTER_id pkt) S_REGISTER_new)
     in
     bindR (db_exec e 4 0 InsertAccount [HWStr wid, HWStr pssd, HTime ts, HBool False] [] [] False dbConn w) (\<lambda>(ok, dbConn, w).
     bindR (send_packet e session (Pkt_S_REGISTER (S_REGISTER_set_issuccess ok pktS)) w) (\<lambda>w.
     Inr (pool_push dbConn w))))"

section \<open>The lobby\<close>

definition lobby_packet :: "env \<Rightarrow> rows \<Rightarrow> S_REFRESH_LOBBY" where
  "lobby_packet e rs =
     fold (\<lambda>row pktS. S_REFRESH_LOBBY_add_usercounts (of_int (int_of (row ! 1)))
            (S_REFRESH_LOBBY_add_roomnames (WCHARToUTF8 e (str_of (row ! 0))) pktS))
       rs (S_REFRESH_LOBBY_set_issuccess True S_REFRESH_LOBBY_new)"

definition Respond_C_REFRESH_LOBBY :: "env \<Rightarrow> sid \<Rightarrow> C_REFRESH_LOBBY \<Rightarrow> chat_world \<Rightarrow> chat_world res" where
  "Respond_C_REFRESH_LOBBY e session pkt w =
     bindR (pool_pop w) (\<lambda>(dbConn, w).
     bindR (db_must e 0 2 SelectRooms [] [] [CWStr 14, CInt64] dbConn w) (\<lambda>(dbConn, w).
     bindR (fetch_all (en_odbc e) dbConn) (\<lambda>(rs, dbConn).
     bindR (send_packet e session (Pkt_S_REFRESH_LOBBY (lobby_packet e rs)) w) (\<lambda>w.
     Inr (pool_push dbConn w)))))"

text \<open>
  The part of \<open>C_CREATE_ROOM\<close> after the room was inserted: its id, the account's current room, and the
  room object.
\<close>

definition create_room :: "env \<Rightarrow> sid \<Rightarrow> utf8 \<Rightarrow> utf8 \<Rightarrow> db_conn \<Rightarrow> chat_world \<Rightarrow> (db_conn \<times> chat_world) res" where
  "create_room e session uid name dbConn w =
     bindR (db_must e 1 1 SelectRoomId [HWStr (Utf8ToWstring e name)] [] [CInt32] dbConn w) (\<lambda>(dbConn, w).
     bindR (DBConnection_Fetch (en_odbc e) dbConn) (\<lambda>(row, dbConn).
     case row of None \<Rightarrow> CRASH
     | Some row \<Rightarrow>
         let outRoomId = int_of (row ! 0) in
         bindR (db_must e 2 0 UpdateCurrentRoom [HInt32 outRoomId, HWStr (Utf8ToWstring e uid)] [] [] dbConn w) (\<lambda>(dbConn, w).
         case Room_new outRoomId uid session w of (room, w) \<Rightarrow>
         bindR (on_room room (\<lambda>rm. rm\<lparr>rm_roomState := rm_roomState rm + 1\<rparr>) w) (\<lambda>w.
         bindR (AddRoom room (SetRoom session (Some room) w)) (\<lambda>w.
         Inr (dbConn, w))))))"

definition Respond_C_CREATE_ROOM :: "env \<Rightarrow> sid \<Rightarrow> C_CREATE_ROOM \<Rightarrow> chat_world \<Rightarrow> chat_world res" where
  "Respond_C_CREATE_ROOM e session pkt w =
     bindR (pool_pop w) (\<lambda>(dbConn, w).
     let roomName = Utf8ToWstring e (C_CREATE_ROOM_roomname pkt) in
     bindR (db_must e 1 1 SelectRoomId [HWStr roomName] [] [CInt32] dbConn w) (\<lambda>(dbConn, w).
     bindR (DBConnection_Fetch (en_odbc e) dbConn) (\<lambda>(row, dbConn).
     let canCreate = (row = None);
         pktS = S_CREATE_ROOM_set_issuccess canCreate
                  (S_CREATE_ROOM_set_roomname (C_CREATE_ROOM_roomname pkt) S_CREATE_ROOM_new)
     in
     bindR (if canCreate
            then bindR (db_must e 1 0 InsertRoom [HWStr roomName] [] [] dbConn w) (\<lambda>(dbConn, w).
                   create_room e session (C_CREATE_ROOM_id pkt) (C_CREATE_ROOM_roomname pkt) dbConn w)
            else Inr (dbConn, w)) (\<lambda>(dbConn, w).
     bindR (send_packet e session (Pkt_S_CREATE_ROOM pktS) w) (\<lambda>w.
     Inr (pool_push dbConn w))))))"

text \<open>
  Reserving a place in a room: the loop that increments \<open>roomState\<close> unless the room is being destroyed.
  Without interference its first compare-and-exchange succeeds.
\<close>

definition reserve :: "nat option \<Rightarrow> chat_world \<Rightarrow> (bool \<times> chat_world) res" where
  "reserve room w =
     (case room of None \<Rightarrow> Inr (False, w)
      | Some r \<Rightarrow>
          (case ch_heap (w_content w) r of None \<Rightarrow> Inl NullDeref
           | Some rm \<Rightarrow>
               if rm_roomState rm = Destruction then Inr (False, w)
               else bindR (on_room r (\<lambda>rm. rm\<lparr>rm_roomState := rm_roomState rm + 1\<rparr>) w) (\<lambda>w. Inr (True, w))))"

text \<open>The part of \<open>C_JOIN_ROOM\<close> for a user who may join; it answers with the ids of the room's users.\<close>

definition join_room ::
  "env \<Rightarrow> sid \<Rightarrow> utf8 \<Rightarrow> int \<Rightarrow> nat option \<Rightarrow> db_conn \<Rightarrow> chat_world \<Rightarrow> (utf8 list \<times> db_conn \<times> chat_world) res" where
  "join_room e session uid outRoomId room dbConn w =
     bindR (db_must e 2 0 UpdateCurrentRoom [HInt32 outRoomId, HWStr (Utf8ToWstring e uid)] [] [] dbConn w) (\<lambda>(dbConn, w).
     bindR (db_must e 1 0 UpdateCountUp [HInt32 outRoomId] [] [] dbConn w) (\<lambda>(dbConn, w).
     bindR (db_must e 1 1 SelectMembers [HInt32 outRoomId] [] [CWStr 14] dbConn w) (\<lambda>(dbConn, w).
     bindR (fetch_all (en_odbc e) dbConn) (\<lambda>(rs, dbConn).
     let ids = member_ids e rs;
         multiPktS = fold S_REFRESH_ROOM_add_userids ids S_REFRESH_ROOM_new
     in
     case room of None \<Rightarrow> CRASH
     | Some r \<Rightarrow>
         bindR (AddUser r uid session w) (\<lambda>(_, w).
         bindR (BroadCast e r (Pkt_S_REFRESH_ROOM multiPktS) (Some session) w) (\<lambda>w.
         Inr (ids, dbConn, w)))))))"

definition Respond_C_JOIN_ROOM :: "env \<Rightarrow> sid \<Rightarrow> C_JOIN_ROOM \<Rightarrow> chat_world \<Rightarrow> chat_world res" where
  "Respond_C_JOIN_ROOM e session pkt w =
     bindR (pool_pop w) (\<lambda>(dbConn, w).
     let roomName = Utf8ToWstring e (C_JOIN_ROOM_roomname pkt) in
     bindR (db_must e 1 2 SelectRoom [HWStr roomName] [] [CInt32, CWStr 14] dbConn w) (\<lambda>(dbConn, w).
     bindR (DBConnection_Fetch (en_odbc e) dbConn) (\<lambda>(row, dbConn).
     let pktS = S_JOIN_ROOM_set_roomname (C_JOIN_ROOM_roomname pkt) S_JOIN_ROOM_new;
         outRoomId = (case row of None \<Rightarrow> 0 | Some row \<Rightarrow> int_of (row ! 0));
         room = (case row of None \<Rightarrow> None | Some _ \<Rightarrow> GetRoom outRoomId w)
     in
     bindR (reserve room w) (\<lambda>(canJoin, w).
     bindR (if canJoin then join_room e session (C_JOIN_ROOM_id pkt) outRoomId room dbConn w
            else Inr ([], dbConn, w)) (\<lambda>(ids, dbConn, w).
     let pktS = S_JOIN_ROOM_set_issuccess canJoin (fold S_JOIN_ROOM_add_userids ids pktS) in
     bindR (send_packet e session (Pkt_S_JOIN_ROOM pktS) w) (\<lambda>w.
     Inr (pool_push dbConn w)))))))"

section \<open>Rooms\<close>

definition Respond_C_CHAT_LOG :: "env \<Rightarrow> sid \<Rightarrow> C_CHAT_LOG \<Rightarrow> chat_world \<Rightarrow> chat_world res" where
  "Respond_C_CHAT_LOG e session pkt w =
     bindR (pool_pop w) (\<lambda>(dbConn, w).
     let wid = Utf8ToWstring e (C_CHAT_LOG_id pkt) in
     bindR (db_must e 1 2 SelectUserRoom [HWStr wid] [] [CInt32, CWStr 14] dbConn w) (\<lambda>(dbConn, w).
     bindR (DBConnection_Fetch (en_odbc e) dbConn) (\<lambda>(row, dbConn).
     case row of None \<Rightarrow> CRASH
     | Some row \<Rightarrow>
         let outRoomId = int_of (row ! 0);
             log = Utf8ToWstring e (C_CHAT_LOG_log pkt)
         in
         bindR (db_must e 3 0 InsertLog [HWStr wid, HInt32 outRoomId, HWStr log] [] [] dbConn w) (\<lambda>(dbConn, w).
         let pktS = S_CHAT_LOG_set_log (C_CHAT_LOG_log pkt) (S_CHAT_LOG_set_id (C_CHAT_LOG_id pkt) S_CHAT_LOG_new) in
         case GetRoom outRoomId w of None \<Rightarrow> Inl NullDeref
         | Some room \<Rightarrow>
             bindR (BroadCast e room (Pkt_S_CHAT_LOG pktS) None w) (\<lambda>w.
             Inr (pool_push dbConn w))))))"

definition Respond_C_ROOM_OUT :: "env \<Rightarrow> sid \<Rightarrow> C_ROOM_OUT \<Rightarrow> chat_world \<Rightarrow> chat_world res" where
  "Respond_C_ROOM_OUT e session pkt w =
     bindR (pool_pop w) (\<lambda>(dbConn, w).
     let wid = Utf8ToWstring e (C_ROOM_OUT_id pkt) in
     bindR (db_must e 1 1 SelectCurrentRoom [HWStr wid] [] [CInt32] dbConn w) (\<lambda>(dbConn, w).
     bindR (DBConnection_Fetch (en_odbc e) dbConn) (\<lambda>(row, dbConn).
     case row of None \<Rightarrow> CRASH
     | Some row \<Rightarrow>
         ASSERT_CRASH (\<not> IsColNull 0 row)
           (case GetRoom (int_of (row ! 0)) w of None \<Rightarrow> Inl NullDeref
            | Some room \<Rightarrow>
                bindR (RemoveUser e room (C_ROOM_OUT_id pkt) w) (\<lambda>w.
                bindR (send_packet e session (Pkt_S_ROOM_OUT S_ROOM_OUT_new) w) (\<lambda>w.
                Inr (pool_push dbConn w)))))))"

section \<open>Handlers\<close>

text \<open>
  The response of a packet. The handlers \<open>Handle_C_*\<close> construct the respondent of their packet and
  return the flag it sets, which is true whenever the respondent returns.
\<close>

fun respond :: "env \<Rightarrow> sid \<times> packet \<Rightarrow> chat_world \<Rightarrow> chat_world res" where
  "respond e (i, Pkt_C_LOGIN pkt) = Respond_C_LOGIN e i pkt"
| "respond e (i, Pkt_C_REGISTER pkt) = Respond_C_REGISTER e i pkt"
| "respond e (i, Pkt_C_REFRESH_LOBBY pkt) = Respond_C_REFRESH_LOBBY e i pkt"
| "respond e (i, Pkt_C_CREATE_ROOM pkt) = Respond_C_CREATE_ROOM e i pkt"
| "respond e (i, Pkt_C_JOIN_ROOM pkt) = Respond_C_JOIN_ROOM e i pkt"
| "respond e (i, Pkt_C_CHAT_LOG pkt) = Respond_C_CHAT_LOG e i pkt"
| "respond e (i, Pkt_C_ROOM_OUT pkt) = Respond_C_ROOM_OUT e i pkt"
| "respond e (i, _) = (\<lambda>w. Inl BadCall)"

text \<open>What an entry of the table \<open>GPacketHandler\<close> holds; \<open>None\<close> is an empty function.\<close>

datatype packet_handler = Handle_INVALD | Handle u16

definition UINT16_MAX :: nat where "UINT16_MAX = 65535"

text \<open>
  \<open>ClientPacketHandler::Init\<close>. The loop over all ids assigns the entry 0 each time; every other id that
  is not a client packet keeps an empty function.
\<close>

definition ClientPacketHandler_Init :: "(nat \<rightharpoonup> packet_handler) \<Rightarrow> (nat \<rightharpoonup> packet_handler)" where
  "ClientPacketHandler_Init g =
     (fold (\<lambda>i g. g(0 \<mapsto> Handle_INVALD)) [0..<UINT16_MAX] g)
       (unat PKT_C_LOGIN \<mapsto> Handle PKT_C_LOGIN, unat PKT_C_REGISTER \<mapsto> Handle PKT_C_REGISTER,
        unat PKT_C_REFRESH_LOBBY \<mapsto> Handle PKT_C_REFRESH_LOBBY, unat PKT_C_CREATE_ROOM \<mapsto> Handle PKT_C_CREATE_ROOM,
        unat PKT_C_JOIN_ROOM \<mapsto> Handle PKT_C_JOIN_ROOM, unat PKT_C_CHAT_LOG \<mapsto> Handle PKT_C_CHAT_LOG,
        unat PKT_C_ROOM_OUT \<mapsto> Handle PKT_C_ROOM_OUT)"

text \<open>
  The template \<open>HandlePacket\<close>: parsing the payload and calling the handler. A length below the size of
  the header gives the parser a negative size.
\<close>

definition HandlePacket_as ::
  "env \<Rightarrow> u16 \<Rightarrow> sid \<Rightarrow> byte list \<Rightarrow> int \<Rightarrow> chat_world \<Rightarrow> (bool \<times> chat_world) res" where
  "HandlePacket_as e pktId session buffer len w =
     (if len < 4 then Inl OutOfBounds
      else case en_ParseFromArray e pktId (bslice 4 (nat (len - 4)) buffer) of
        None \<Rightarrow> Inr (False, w)
      | Some pkt \<Rightarrow> bindR (respond e (session, pkt) w) (\<lambda>w'. Inr (True, w')))"

text \<open>The table has \<open>UINT16_MAX\<close> entries, so that the id 65535 is outside.\<close>

definition ClientPacketHandler_HandlePacket ::
  "env \<Rightarrow> (nat \<rightharpoonup> packet_handler) \<Rightarrow> sid \<Rightarrow> byte list \<Rightarrow> int \<Rightarrow> chat_world \<Rightarrow> (bool \<times> chat_world) res" where
  "ClientPacketHandler_HandlePacket e GPacketHandler session buffer len w =
     (let header = PacketHeader_at buffer in
      if unat (ph_id header) \<ge> UINT16_MAX then Inl OutOfBounds
      else case GPacketHandler (unat (ph_id header)) of
        None \<Rightarrow> Inl BadCall
      | Some Handle_INVALD \<Rightarrow> Inr (False, w)
      | Some (Handle pktId) \<Rightarrow> HandlePacket_as e pktId session buffer len w)"

definition OnRecvPacket ::
  "env \<Rightarrow> (nat \<rightharpoonup> packet_handler) \<Rightarrow> sid \<Rightarrow> chat_world packet_fun" where
  "OnRecvPacket e GPacketHandler session buffer len w =
     bindR (ClientPacketHandler_HandlePacket e GPacketHandler session buffer len w) (\<lambda>(_, w'). Inr w')"

end
