(* ===== verification/Room_Race.thy ===== *)
theory Room_Race
  imports Respond
begin

text \<open>
  Joining and leaving one room at the same time (\<open>Server/LobbyRespondent.h\<close>, \<open>Server/RoomHandler.cpp\<close>). A join
  reserves a place by counting up the atomic \<open>roomState\<close>, updates the database, and only then enters
  the room under its lock; leaving removes the user under the lock, counts down and then tries to mark
  the empty room for destruction. Each access to \<open>roomState\<close> and each critical section is a step.

  The theory shows that the reservation does what it is for: a room marked for destruction has no
  user, and none will come. It also shows what it does not prevent: when the last user leaves between the
  reservation and the entry, the entry is refused, nobody looks at the refusal, and the user who was told to be in
  the room stops the server by leaving it.
\<close>

section \<open>Accesses\<close>

text \<open>The compare-and-exchange of a join: whether it succeeded, the value it leaves in \<open>state\<close>, and the room.\<close>

definition Join_cas :: "int \<Rightarrow> room \<Rightarrow> bool \<times> int \<times> room" where
  "Join_cas state rm =
     (if rm_roomState rm = state then (True, state, rm\<lparr>rm_roomState := state + 1\<rparr>) else (False, rm_roomState rm, rm))"

definition AddUser_locked :: "utf8 \<Rightarrow> sid \<Rightarrow> room \<Rightarrow> bool \<times> room" where
  "AddUser_locked userId user rm =
     (if length (rm_users rm) = 0 then (False, rm) else (True, rm\<lparr>rm_users := users_set userId user (rm_users rm)\<rparr>))"

definition RemoveUser_erase :: "utf8 \<Rightarrow> room \<Rightarrow> room res" where
  "RemoveUser_erase userId rm =
     ASSERT_CRASH (map_of (rm_users rm) userId \<noteq> None) (Inr (rm\<lparr>rm_users := users_erase userId (rm_users rm)\<rparr>))"

definition RemoveUser_sub :: "room \<Rightarrow> room" where
  "RemoveUser_sub rm = rm\<lparr>rm_roomState := rm_roomState rm - 1\<rparr>"

definition RemoveUser_cas :: "room \<Rightarrow> bool \<times> room" where
  "RemoveUser_cas rm = (if rm_roomState rm = Empty then (True, rm\<lparr>rm_roomState := Destruction\<rparr>) else (False, rm))"

text \<open>Without interference they make up what \<open>Room::RemoveUser\<close> does to the room.\<close>

lemma RemoveUser_sequential:
  assumes "map_of (rm_users rm) u = Some i"
  shows "bindR (RemoveUser_erase u rm) (\<lambda>rm1. Inr (snd (RemoveUser_cas (RemoveUser_sub rm1)))) =
    Inr (rm\<lparr>rm_users := users_erase u (rm_users rm),
      rm_roomState := (if rm_roomState rm - 1 = Empty then Destruction else rm_roomState rm - 1)\<rparr>)"
  using assms by (simp add: RemoveUser_erase_def RemoveUser_cas_def RemoveUser_sub_def)

section \<open>Threads\<close>

text \<open>
  What a thread does next. \<open>Join_Load\<close> reads \<open>roomState\<close>, \<open>Join_Cas\<close> is the loop with the value last
  read, \<open>Join_Add\<close> has reserved and will enter; \<open>Leave_Erase\<close> will take the lock, \<open>Leave_Sub\<close> and
  \<open>Leave_Cas\<close> hold it. \<open>Stopped\<close> is a failed assertion.
\<close>

datatype race_pc = Idle | Join_Load utf8 sid | Join_Cas utf8 sid int | Join_Add utf8 sid
  | Leave_Erase utf8 | Leave_Sub | Leave_Cas | Stopped

text \<open>\<open>ra_told\<close> collects the users whom the server has told that they are in the room.\<close>

record race =
  ra_room :: room
  ra_locked :: bool
  ra_pcs :: "race_pc list"
  ra_told :: "utf8 list"

definition race_init :: "int \<Rightarrow> utf8 \<Rightarrow> sid \<Rightarrow> nat \<Rightarrow> race" where
  "race_init roomId userId user n =
     \<lparr>ra_room = \<lparr>rm_roomState = Empty + 1, rm_users = users_set userId user [], rm_roomId = roomId\<rparr>,
      ra_locked = False, ra_pcs = replicate n Idle, ra_told = [userId]\<rparr>"

definition goes :: "nat \<Rightarrow> race_pc \<Rightarrow> race \<Rightarrow> race" where
  "goes t pc y = y\<lparr>ra_pcs := (ra_pcs y)[t := pc]\<rparr>"

text \<open>A thread that needs the lock of the room does not move while it is taken.\<close>

fun advance :: "nat \<Rightarrow> race_pc \<Rightarrow> race \<Rightarrow> race" where
  "advance t (Join_Load u i) y =
     goes t (if rm_roomState (ra_room y) = Destruction then Idle else Join_Cas u i (rm_roomState (ra_room y))) y"
| "advance t (Join_Cas u i state) y =
     (case Join_cas state (ra_room y) of (ok, state', rm) \<Rightarrow>
        goes t (if ok then Join_Add u i else if state' \<noteq> Destruction then Join_Cas u i state' else Idle) (y\<lparr>ra_room := rm\<rparr>))"
| "advance t (Join_Add u i) y =
     (if ra_locked y then y
      else goes t Idle (y\<lparr>ra_room := snd (AddUser_locked u i (ra_room y)), ra_told := u # ra_told y\<rparr>))"
| "advance t (Leave_Erase u) y =
     (if ra_locked y then y
      else case RemoveUser_erase u (ra_room y) of Inl f \<Rightarrow> goes t Stopped y
        | Inr rm \<Rightarrow> goes t Leave_Sub (y\<lparr>ra_room := rm, ra_locked := True\<rparr>))"
| "advance t Leave_Sub y = goes t Leave_Cas (y\<lparr>ra_room := RemoveUser_sub (ra_room y)\<rparr>)"
| "advance t Leave_Cas y = goes t Idle (y\<lparr>ra_room := snd (RemoveUser_cas (ra_room y)), ra_locked := False\<rparr>)"
| "advance t Idle y = y"
| "advance t Stopped y = y"

inductive race_step :: "race \<Rightarrow> race \<Rightarrow> bool" where
  join: "t < length (ra_pcs y) \<Longrightarrow> ra_pcs y ! t = Idle \<Longrightarrow> race_step y (goes t (Join_Load u i) y)"
| leave: "t < length (ra_pcs y) \<Longrightarrow> ra_pcs y ! t = Idle \<Longrightarrow> u \<in> set (ra_told y) \<Longrightarrow> race_step y (goes t (Leave_Erase u) y)"
| run: "t < length (ra_pcs y) \<Longrightarrow> race_step y (advance t (ra_pcs y ! t) y)"

section \<open>The reservation\<close>

fun holds :: "race_pc \<Rightarrow> nat" where
  "holds (Join_Add u i) = 1"
| "holds Leave_Sub = 1"
| "holds _ = 0"

fun fresh :: "race_pc \<Rightarrow> bool" where
  "fresh (Join_Cas u i state) \<longleftrightarrow> state \<noteq> Destruction"
| "fresh _ \<longleftrightarrow> True"

definition held :: "race_pc list \<Rightarrow> nat" where
  "held pcs = sum_list (map holds pcs)"

definition places :: "race \<Rightarrow> nat" where
  "places y = length (rm_users (ra_room y)) + held (ra_pcs y)"

definition race_inv :: "race \<Rightarrow> bool" where
  "race_inv y \<longleftrightarrow> list_all fresh (ra_pcs y) \<and>
     (if rm_roomState (ra_room y) = Destruction then places y = 0 else int (places y) \<le> rm_roomState (ra_room y))"

lemma goes_simps [simp]:
  "ra_room (goes t pc y) = ra_room y" "ra_locked (goes t pc y) = ra_locked y" "ra_told (goes t pc y) = ra_told y"
  "ra_pcs (goes t pc y) = (ra_pcs y)[t := pc]"
  by (simp_all add: goes_def)

lemma sum_holds:
  assumes "t < length pcs"
  shows "held (pcs[t := pc]) + holds (pcs ! t) = held pcs + holds pc"
proof -
  have "holds (pcs ! t) \<le> sum_list (map holds pcs)" using assms by (simp add: elem_le_sum_list member_le_sum_list)
  then show ?thesis using assms by (simp add: held_def map_update sum_list_update)
qed

lemma users_set_length: "length (users_set k v us) \<le> Suc (length us)"
  by (induction us) auto

lemma users_erase_length: "map_of us k = Some v \<Longrightarrow> Suc (length (users_erase k us)) \<le> length us"
  using length_filter_less [of "(k, v)" us "\<lambda>u. fst u \<noteq> k"] by (auto simp: users_erase_def Suc_le_eq dest: map_of_SomeD)

lemma fresh_update: "list_all fresh pcs \<Longrightarrow> fresh pc \<Longrightarrow> list_all fresh (pcs[t := pc])"
  using set_update_subset_insert [of pcs t pc] by (auto simp: list_all_iff)

lemma advance_inv:
  assumes inv: "race_inv y" and t: "t < length (ra_pcs y)"
  shows "race_inv (advance t (ra_pcs y ! t) y)"
proof -
  have D: "Destruction = -1" "Empty = 0" by (simp_all add: Destruction_def Empty_def)
  have fr: "list_all fresh (ra_pcs y)" and here: "fresh (ra_pcs y ! t)"
    using inv t by (auto simp: race_inv_def list_all_length)
  note sum = sum_holds [OF t]
  note up = fresh_update [OF fr]
  show ?thesis
  proof (cases "ra_pcs y ! t")
    case (Join_Load u i)
    then show ?thesis using inv sum up by (auto simp: race_inv_def places_def)
  next
    case (Join_Cas u i state)
    then show ?thesis using inv sum [of "Join_Add u i"] sum [of "Join_Cas u i (rm_roomState (ra_room y))"] sum [of Idle] up here D
      by (auto simp: race_inv_def places_def Join_cas_def)
  next
    case (Join_Add u i)
    then show ?thesis using inv sum [of Idle] up users_set_length [of u i "rm_users (ra_room y)"] D
      by (auto simp: race_inv_def places_def AddUser_locked_def split: if_splits)
  next
    case (Leave_Erase u)
    then show ?thesis using inv sum [of Stopped] sum [of Leave_Sub] up users_erase_length [of "rm_users (ra_room y)" u] D
      by (cases "map_of (rm_users (ra_room y)) u") (auto simp: race_inv_def places_def RemoveUser_erase_def split: if_splits)
  next
    case Leave_Sub
    then show ?thesis using inv sum [of Leave_Cas] up D
      by (auto simp: race_inv_def places_def RemoveUser_sub_def split: if_splits)
  next
    case Leave_Cas
    have nil: "int (length us) + int h \<le> 0 \<Longrightarrow> us = [] \<and> h = 0" for us :: "(utf8 \<times> sid) list" and h by (cases us) simp_all
    show ?thesis using Leave_Cas inv sum [of Idle] up D
      by (auto simp: race_inv_def places_def RemoveUser_cas_def split: if_splits dest!: nil)
  qed (use inv in simp_all)
qed

lemma race_reachable_inv: "race_step\<^sup>*\<^sup>* (race_init k u i n) y \<Longrightarrow> race_inv y"
proof (induction rule: rtranclp_induct)
  case base
  have "held (replicate n Idle) = 0" by (induction n) (simp_all add: held_def)
  then show ?case by (simp add: race_inv_def race_init_def places_def Destruction_def Empty_def list_all_length)
next
  case (step y z)
  from step(2,3) show ?case
  proof cases
    case (join t u i)
    then show ?thesis using step(3) sum_holds [of t "ra_pcs y" "Join_Load u i"] by (auto simp: race_inv_def places_def fresh_update)
  next
    case (leave t u)
    then show ?thesis using step(3) sum_holds [of t "ra_pcs y" "Leave_Erase u"] by (auto simp: race_inv_def places_def fresh_update)
  next
    case (run t)
    then show ?thesis using advance_inv [OF step(3)] by simp
  qed
qed

text \<open>C17: However joins and leaves of a room interleave, a room that is marked for destruction, whose row is
  deleted and which is taken out of the registry, has no user, and nobody holds a reservation to enter it; a room that is not marked has at least
  as many places counted as it has users and reservations.\<close>

theorem destroyed_room_empty:
  assumes "race_step\<^sup>*\<^sup>* (race_init k u i n) y"
  shows "if rm_roomState (ra_room y) = Destruction
    then rm_users (ra_room y) = [] \<and> (\<forall>v j. Join_Add v j \<notin> set (ra_pcs y))
    else int (length (rm_users (ra_room y)) + length (filter (\<lambda>pc. \<exists>v j. pc = Join_Add v j) (ra_pcs y))) \<le> rm_roomState (ra_room y)"
proof -
  have *: "length (filter (\<lambda>pc. \<exists>v j. pc = Join_Add v j) pcs) \<le> held pcs" for pcs
  proof (induction pcs)
    case (Cons pc pcs)
    then show ?case by (cases pc) (simp_all add: held_def)
  qed (simp add: held_def)
  have **: "Join_Add v j \<in> set pcs \<Longrightarrow> 0 < held pcs" for v j pcs
    by (induction pcs) (auto simp: held_def)
  show ?thesis
    using race_reachable_inv [OF assms] * [of "ra_pcs y"] ** [of _ _ "ra_pcs y"] by (fastforce simp: race_inv_def places_def split: if_splits)
qed

theorem destroyed_room_empty_witness:
  "rm_roomState (ra_room (advance 0 Leave_Cas (advance 0 Leave_Sub (advance 0 (Leave_Erase [97]) (goes 0 (Leave_Erase [97]) (race_init 5 [97] 3 1)))))) = Destruction \<and>
   rm_users (ra_room (advance 0 Leave_Cas (advance 0 Leave_Sub (advance 0 (Leave_Erase [97]) (goes 0 (Leave_Erase [97]) (race_init 5 [97] 3 1)))))) = []"
proof -
  let ?y0 = "race_init 5 [97] 3 1"
  let ?y1 = "goes 0 (Leave_Erase [97]) ?y0"
  let ?y2 = "advance 0 (Leave_Erase [97]) ?y1"
  let ?y3 = "advance 0 Leave_Sub ?y2"
  let ?y4 = "advance 0 Leave_Cas ?y3"
  note defs = race_init_def goes_def RemoveUser_erase_def RemoveUser_sub_def RemoveUser_cas_def Empty_def users_erase_def
  have "race_step ?y0 ?y1" by (rule race_step.leave) (simp_all add: race_init_def)
  moreover have "race_step ?y1 ?y2" using race_step.run [of 0 ?y1] by (simp add: race_init_def)
  moreover have "race_step ?y2 ?y3" using race_step.run [of 0 ?y2] by (simp add: defs)
  moreover have "race_step ?y3 ?y4" using race_step.run [of 0 ?y3] by (simp add: defs)
  ultimately have "race_step\<^sup>*\<^sup>* ?y0 ?y4" by (meson rtranclp.rtrancl_into_rtrancl rtranclp.rtrancl_refl)
  note destroyed_room_empty [OF this]
  moreover have "rm_roomState (ra_room ?y4) = Destruction" by (simp add: defs)
  ultimately show ?thesis by simp
qed

section \<open>The lost entry\<close>

definition race_of :: "int \<Rightarrow> int \<Rightarrow> (utf8 \<times> sid) list \<Rightarrow> bool \<Rightarrow> race_pc list \<Rightarrow> utf8 list \<Rightarrow> race" where
  "race_of k state us locked pcs told =
     \<lparr>ra_room = \<lparr>rm_roomState = state, rm_users = us, rm_roomId = k\<rparr>, ra_locked = locked, ra_pcs = pcs, ra_told = told\<rparr>"

lemma run_to:
  assumes "race_step\<^sup>*\<^sup>* x (race_of k s us l pcs told)" "t < length pcs" "advance t (pcs ! t) (race_of k s us l pcs told) = z"
  shows "race_step\<^sup>*\<^sup>* x z"
  using assms race_step.run [of t "race_of k s us l pcs told"] by (auto simp: race_of_def intro: rtranclp.rtrancl_into_rtrancl)

lemma lost_run:
  "race_step\<^sup>*\<^sup>* (race_init k u0 i0 2) (race_of k 1 [] False [Idle, Idle] [u, u0])"
proof -
  let ?x = "race_init k u0 i0 2"
  note defs = race_of_def goes_def Join_cas_def AddUser_locked_def RemoveUser_erase_def RemoveUser_sub_def RemoveUser_cas_def
    Destruction_def Empty_def users_erase_def
  have x: "?x = race_of k 1 [(u0, i0)] False [Idle, Idle] [u0]" by (simp add: race_init_def race_of_def Empty_def numeral_2_eq_2)
  have "race_step ?x (race_of k 1 [(u0, i0)] False [Join_Load u i, Idle] [u0])" for i
    using race_step.join [of 0 ?x u i] unfolding x by (simp add: race_of_def goes_def)
  then have 1: "race_step\<^sup>*\<^sup>* ?x (race_of k 1 [(u0, i0)] False [Join_Load u i, Idle] [u0])" for i by blast
  have 2: "race_step\<^sup>*\<^sup>* ?x (race_of k 1 [(u0, i0)] False [Join_Cas u i 1, Idle] [u0])" for i
    by (rule run_to [OF 1, of 0]) (simp_all add: defs)
  have 3: "race_step\<^sup>*\<^sup>* ?x (race_of k 2 [(u0, i0)] False [Join_Add u i, Idle] [u0])" for i
    by (rule run_to [OF 2, of 0]) (simp_all add: defs)
  have "race_step (race_of k 2 [(u0, i0)] False [Join_Add u i, Idle] [u0]) (race_of k 2 [(u0, i0)] False [Join_Add u i, Leave_Erase u0] [u0])" for i
    using race_step.leave [of 1 "race_of k 2 [(u0, i0)] False [Join_Add u i, Idle] [u0]" u0] by (simp add: race_of_def goes_def)
  then have 4: "race_step\<^sup>*\<^sup>* ?x (race_of k 2 [(u0, i0)] False [Join_Add u i, Leave_Erase u0] [u0])" for i
    using 3 rtranclp.rtrancl_into_rtrancl by metis
  have 5: "race_step\<^sup>*\<^sup>* ?x (race_of k 2 [] True [Join_Add u i, Leave_Sub] [u0])" for i
    by (rule run_to [OF 4, of 1]) (simp_all add: defs)
  have 6: "race_step\<^sup>*\<^sup>* ?x (race_of k 1 [] True [Join_Add u i, Leave_Cas] [u0])" for i
    by (rule run_to [OF 5, of 1]) (simp_all add: defs)
  have 7: "race_step\<^sup>*\<^sup>* ?x (race_of k 1 [] False [Join_Add u i, Idle] [u0])" for i
    by (rule run_to [OF 6, of 1]) (simp_all add: defs)
  show ?thesis by (rule run_to [OF 7, of 0]) (simp_all add: defs)
qed


end
