(* ===== verification/Generator.thy ===== *)
theory Generator
  imports Protocol
begin

text \<open>
  The packet generator (\<open>Tools/PacketGenerator/ProtoParser.py\<close>), which numbers the messages of a protocol file and
  sorts them into those a program receives and those it sends. The headers \<open>ClientPacketHandler.h\<close> of the server
  and \<open>ServerPacketHandler.h\<close> of the client come from two runs of it with the prefixes exchanged. A line is a string of ASCII
  characters; an index error is a fault.

  The theory shows that both runs give every message the same number.
\<close>

section \<open>Strings\<close>

definition startswith :: "string \<Rightarrow> string \<Rightarrow> bool" where
  "startswith s p \<longleftrightarrow> take (length p) s = p"

definition is_space :: "char \<Rightarrow> bool" where
  "is_space c \<longleftrightarrow> (let n = of_char c :: nat in 9 \<le> n \<and> n \<le> 13 \<or> 28 \<le> n \<and> n \<le> 32)"

definition upper :: "char \<Rightarrow> char" where
  "upper c = (let n = of_char c :: nat in if 97 \<le> n \<and> n \<le> 122 then char_of (n - 32) else c)"

text \<open>\<open>str.split()\<close> without arguments.\<close>

function py_split :: "string \<Rightarrow> string list" where
  "py_split s =
     (case dropWhile is_space s of
        [] \<Rightarrow> []
      | c # cs \<Rightarrow> takeWhile (\<lambda>c. \<not> is_space c) (c # cs) # py_split (dropWhile (\<lambda>c. \<not> is_space c) cs))"
  by pat_completeness auto

termination
proof (relation "measure length")
  fix s c cs assume "dropWhile is_space s = c # cs"
  then have "Suc (length cs) \<le> length s" using length_dropWhile_le [of is_space s] by simp
  moreover have "length (dropWhile (\<lambda>c. \<not> is_space c) cs) \<le> length cs" by (rule length_dropWhile_le)
  ultimately show "(dropWhile (\<lambda>c. \<not> is_space c) cs, s) \<in> measure length" by simp
qed simp

declare py_split.simps [simp del]

section \<open>The parser\<close>

record gen_packet =
  gp_name :: string
  gp_id :: int

record proto_parser =
  pp_recv_pkt :: "gen_packet list"
  pp_send_pkt :: "gen_packet list"
  pp_total_pkt :: "gen_packet list"
  pp_start_id :: int
  pp_id :: int
  pp_recv_prefix :: string
  pp_send_prefix :: string

definition ProtoParser_new :: "int \<Rightarrow> string \<Rightarrow> string \<Rightarrow> proto_parser" where
  "ProtoParser_new start_id recv_prefix send_prefix =
     \<lparr>pp_recv_pkt = [], pp_send_pkt = [], pp_total_pkt = [], pp_start_id = start_id, pp_id = start_id,
      pp_recv_prefix = recv_prefix, pp_send_prefix = send_prefix\<rparr>"

definition parse_line :: "string \<Rightarrow> proto_parser \<Rightarrow> proto_parser res" where
  "parse_line line p =
     (if \<not> startswith line ''message'' then Inr p
      else case py_split line of
        _ # w # _ \<Rightarrow>
          let pkt_name = map upper w;
              pkt = \<lparr>gp_name = pkt_name, gp_id = pp_id p\<rparr>;
              counted = (\<lambda>p. p\<lparr>pp_total_pkt := pp_total_pkt p @ [pkt], pp_id := pp_id p + 1\<rparr>)
          in if startswith pkt_name (pp_recv_prefix p) then Inr (counted (p\<lparr>pp_recv_pkt := pp_recv_pkt p @ [pkt]\<rparr>))
             else if startswith pkt_name (pp_send_prefix p) then Inr (counted (p\<lparr>pp_send_pkt := pp_send_pkt p @ [pkt]\<rparr>))
             else Inr p
      | _ \<Rightarrow> Inl OutOfBounds)"

fun parse_proto :: "string list \<Rightarrow> proto_parser \<Rightarrow> proto_parser res" where
  "parse_proto [] p = Inr p"
| "parse_proto (line # lines) p = bindR (parse_line line p) (parse_proto lines)"

section \<open>Two runs\<close>

lemma startswith_comparable:
  assumes "startswith s p" "startswith s q"
  shows "startswith p q \<or> startswith q p"
  using assms unfolding startswith_def by (metis append_take_drop_id linear take_all_iff take_take min_def)

text \<open>The same state seen from the other side.\<close>

definition turned :: "proto_parser \<Rightarrow> proto_parser" where
  "turned p = p\<lparr>pp_recv_pkt := pp_send_pkt p, pp_send_pkt := pp_recv_pkt p, pp_recv_prefix := pp_send_prefix p,
     pp_send_prefix := pp_recv_prefix p\<rparr>"

definition apart :: "string \<Rightarrow> string \<Rightarrow> bool" where
  "apart r s \<longleftrightarrow> \<not> startswith r s \<and> \<not> startswith s r"

lemma parse_line_turned:
  assumes "apart (pp_recv_prefix p) (pp_send_prefix p)"
  shows "parse_line line (turned p) = map_sum id turned (parse_line line p)"
proof -
  have "\<not> (startswith n (pp_recv_prefix p) \<and> startswith n (pp_send_prefix p))" for n
    using startswith_comparable assms unfolding apart_def by blast
  then show ?thesis by (auto simp: parse_line_def turned_def Let_def split: list.split)
qed

lemma parse_line_keeps:
  assumes "parse_line line p = Inr q"
  shows "pp_recv_prefix q = pp_recv_prefix p" "pp_send_prefix q = pp_send_prefix p"
  using assms by (auto simp: parse_line_def Let_def split: if_splits list.splits)

lemma parse_proto_turned:
  "apart (pp_recv_prefix p) (pp_send_prefix p) \<Longrightarrow> parse_proto lines (turned p) = map_sum id turned (parse_proto lines p)"
proof (induction lines arbitrary: p)
  case (Cons line lines)
  then show ?case using parse_line_turned [of p line] parse_line_keeps [of line p] by (cases "parse_line line p") simp_all
qed simp

lemma new_turned: "ProtoParser_new start s r = turned (ProtoParser_new start r s)"
  by (simp add: ProtoParser_new_def turned_def)

section \<open>The numbers\<close>

definition numbered :: "proto_parser \<Rightarrow> bool" where
  "numbered p \<longleftrightarrow> map gp_id (pp_total_pkt p) = map (\<lambda>k. pp_start_id p + int k) [0..<length (pp_total_pkt p)] \<and>
     pp_id p = pp_start_id p + int (length (pp_total_pkt p)) \<and>
     pp_recv_pkt p = filter (\<lambda>k. startswith (gp_name k) (pp_recv_prefix p)) (pp_total_pkt p) \<and>
     pp_send_pkt p = filter (\<lambda>k. \<not> startswith (gp_name k) (pp_recv_prefix p)) (pp_total_pkt p)"

lemma parse_line_numbered:
  assumes "numbered p" "parse_line line p = Inr q"
  shows "numbered q \<and> pp_start_id q = pp_start_id p"
  using assms by (auto simp: numbered_def parse_line_def Let_def split: if_splits list.splits)

lemma parse_proto_numbered:
  "numbered p \<Longrightarrow> parse_proto lines p = Inr q \<Longrightarrow> numbered q \<and> pp_start_id q = pp_start_id p \<and> pp_recv_prefix q = pp_recv_prefix p"
proof (induction lines arbitrary: p)
  case (Cons line lines)
  then obtain p1 where "parse_line line p = Inr p1" "parse_proto lines p1 = Inr q" by (auto simp: bindR_Inr_iff)
  then show ?case using Cons parse_line_numbered [of p line p1] parse_line_keeps [of line p p1] by auto
qed simp

text \<open>C23: The two generated headers agree. Run with exchanged prefixes on the same lines, the generator fails in both runs or in
  none; both number the same messages, consecutively from the first id, and what one side receives is what the
  other side sends.\<close>

theorem generator_agrees:
  assumes "apart r s"
  shows "case parse_proto lines (ProtoParser_new start r s) of
      Inl f \<Rightarrow> parse_proto lines (ProtoParser_new start s r) = Inl f
    | Inr p \<Rightarrow> map gp_id (pp_total_pkt p) = map (\<lambda>k. start + int k) [0..<length (pp_total_pkt p)] \<and>
        pp_recv_pkt p = filter (\<lambda>k. startswith (gp_name k) r) (pp_total_pkt p) \<and>
        (\<exists>q. parse_proto lines (ProtoParser_new start s r) = Inr q \<and> pp_total_pkt q = pp_total_pkt p \<and>
          pp_recv_pkt q = pp_send_pkt p \<and> pp_send_pkt q = pp_recv_pkt p)"
proof -
  have turn: "parse_proto lines (ProtoParser_new start s r) = map_sum id turned (parse_proto lines (ProtoParser_new start r s))"
    unfolding new_turned [of start s r] by (rule parse_proto_turned) (simp add: ProtoParser_new_def assms)
  have "numbered (ProtoParser_new start r s)" by (simp add: numbered_def ProtoParser_new_def)
  note num = parse_proto_numbered [OF this]
  show ?thesis
  proof (cases "parse_proto lines (ProtoParser_new start r s)")
    case (Inl f)
    then show ?thesis using turn by simp
  next
    case (Inr p)
    have "pp_start_id p = start" "pp_recv_prefix p = r" using num [OF Inr] by (simp_all add: ProtoParser_new_def)
    then show ?thesis using Inr turn num [OF Inr] by (simp add: numbered_def turned_def)
  qed
qed

text \<open>The messages of the chat protocol, and the ids they have in both headers.\<close>

definition protocol_lines :: "string list" where
  "protocol_lines = [''package Protocol;'',
     ''message C_LOGIN'', ''message S_LOGIN'', ''message C_REGISTER'', ''message S_REGISTER'', ''message C_REFRESH_LOBBY'',
     ''message S_REFRESH_LOBBY'', ''message C_CREATE_ROOM'', ''message S_CREATE_ROOM'', ''message C_JOIN_ROOM'', ''message S_JOIN_ROOM'',
     ''message S_REFRESH_ROOM'', ''message C_CHAT_LOG'', ''message S_CHAT_LOG'', ''message C_ROOM_OUT'', ''message S_ROOM_OUT'']"

definition protocol_ids :: "u16 list" where
  "protocol_ids = [PKT_C_LOGIN, PKT_S_LOGIN, PKT_C_REGISTER, PKT_S_REGISTER, PKT_C_REFRESH_LOBBY,
      PKT_S_REFRESH_LOBBY, PKT_C_CREATE_ROOM, PKT_S_CREATE_ROOM, PKT_C_JOIN_ROOM, PKT_S_JOIN_ROOM,
      PKT_S_REFRESH_ROOM, PKT_C_CHAT_LOG, PKT_S_CHAT_LOG, PKT_C_ROOM_OUT, PKT_S_ROOM_OUT]"

lemma protocol_run:
  "case parse_proto protocol_lines (ProtoParser_new 1000 ''C_'' ''S_'') of
     Inl f \<Rightarrow> False | Inr p \<Rightarrow> map gp_id (pp_total_pkt p) = map uint protocol_ids"
  by code_simp

theorem generator_agrees_witness:
  "\<exists>p q. parse_proto protocol_lines (ProtoParser_new 1000 ''C_'' ''S_'') = Inr p \<and>
    parse_proto protocol_lines (ProtoParser_new 1000 ''S_'' ''C_'') = Inr q \<and>
    map gp_id (pp_total_pkt q) = map uint protocol_ids \<and> pp_recv_pkt q = pp_send_pkt p"
proof -
  have "apart ''C_'' ''S_''" by code_simp
  from generator_agrees [OF this, of protocol_lines 1000] protocol_run show ?thesis
    by (cases "parse_proto protocol_lines (ProtoParser_new 1000 ''C_'' ''S_'')") auto
qed

end
