(* ===== verification/Client_State.thy ===== *)
theory Client_State
  imports LockQueue Session SendBuffer Protocol Database
begin

text \<open>
  The state of the chat client: the response queues of \<open>Client/Model.h\<close>, the pending callbacks of
  \<open>ContentsService.h\<close>, the three pages, and the messages posted to the main dialog. A callback always
  posts one event to the main dialog, so that it is modelled by this event. The user interface toolkit is
  represented by what the code stores in its controls and reads from them.
\<close>

section \<open>Events and data\<close>

datatype ui_event = UI_None
  | LoginClicked_Login | LoginCompleted_Login | LoginCompleted_Lobby
  | RegisterClicked_Register | RegisterCompleted_Register | RegisterCompleted_Lobby
  | CreateRoomClicked_Lobby | CreateRoomCompleted_Lobby | CreateRoomCompleted_Room
  | JoinRoomClicked_Lobby | JoinRoomCompleted_Lobby | JoinRoomCompleted_Room
  | RefreshClicked_Lobby | RefreshCompleted_Lobby
  | SendChatClicked_Room | SendChatCompleted_Room
  | LeaveRoomClicked_Room | LeaveRoomCompleted_Room | LeaveRoomCompleted_Lobby
  | RefreshRoomCompleted

record auth_data =
  au_isSuccess :: bool
  au_id :: wstr
  au_pasd :: wstr

record create_room_data =
  cr_isSuccess :: bool
  cr_roomName :: wstr

record join_room_data =
  jr_isSuccess :: bool
  jr_roomName :: wstr
  jr_userIds :: "wstr list"

record refresh_lobby_data =
  rl_isSuccess :: bool
  rl_roomNames :: "wstr list"
  rl_userCounts :: "int list"

record refresh_room_data =
  rf_userIds :: "wstr list"

record chat_log_data =
  cl_id :: wstr
  cl_log :: wstr

text \<open>The values \<open>T()\<close> that an empty queue returns.\<close>

definition auth_default :: auth_data where
  "auth_default = \<lparr>au_isSuccess = False, au_id = [], au_pasd = []\<rparr>"

definition create_default :: create_room_data where
  "create_default = \<lparr>cr_isSuccess = False, cr_roomName = []\<rparr>"

definition join_default :: join_room_data where
  "join_default = \<lparr>jr_isSuccess = False, jr_roomName = [], jr_userIds = []\<rparr>"

definition lobby_default :: refresh_lobby_data where
  "lobby_default = \<lparr>rl_isSuccess = False, rl_roomNames = [], rl_userCounts = []\<rparr>"

definition room_default :: refresh_room_data where
  "room_default = \<lparr>rf_userIds = []\<rparr>"

definition chat_default :: chat_log_data where
  "chat_default = \<lparr>cl_id = [], cl_log = []\<rparr>"

section \<open>Pages\<close>

text \<open>The fields named \<open>edit\<close> are the texts in the edit controls.\<close>

record page_login =
  pl_visible :: bool
  pl_editId :: wstr
  pl_editPw :: wstr
  pl_id :: wstr
  pl_pw :: wstr

text \<open>A row of the room list has the name and the text for the number of users; \<open>pb_selected\<close> are the selected rows.\<close>

record page_lobby =
  pb_visible :: bool
  pb_editRoomName :: wstr
  pb_me :: wstr
  pb_rooms :: "(wstr \<times> int \<times> int) list"
  pb_selected :: "nat list"
  pb_roomName :: wstr
  pb_selectedRoomName :: wstr

text \<open>The list of users sorts itself, the list of messages does not.\<close>

record page_room =
  pr_visible :: bool
  pr_editChat :: wstr
  pr_chatLog :: "wstr list"
  pr_users :: "wstr multiset"
  pr_chatText :: wstr
  pr_roomName :: wstr

datatype message_box = Box_LoginFailed | Box_RegisterFailed | Box_RegisterDone | Box_CreateFailed | Box_JoinFailed

section \<open>The client\<close>

record client_env =
  ce_lib :: pb_lib
  ce_ParseFromArray :: "u16 \<Rightarrow> byte list \<Rightarrow> packet option"
  ce_winsock :: "byte list winsock"
  ce_MultiByteToWideChar :: "utf8 \<Rightarrow> wstr"
  ce_WideCharToMultiByte :: "wstr \<Rightarrow> utf8"

record client_app =
  ca_auth :: "auth_data lock_queue"
  ca_create :: "create_room_data lock_queue"
  ca_join :: "join_room_data lock_queue"
  ca_lobby :: "refresh_lobby_data lock_queue"
  ca_room :: "refresh_room_data lock_queue"
  ca_chat :: "chat_log_data lock_queue"
  ca_out :: "unit lock_queue"
  cb_auth :: "ui_event option"
  cb_create :: "ui_event option"
  cb_join :: "ui_event option"
  cb_lobby :: "ui_event option"
  cb_room :: "ui_event option"
  cb_chat :: "ui_event option"
  cb_out :: "ui_event option"
  ca_posted :: "ui_event list"
  ca_session :: "byte list session option"
  ca_login :: page_login
  ca_lobbyPg :: page_lobby
  ca_roomPg :: page_room
  ca_boxes :: "message_box list"

text \<open>\<open>PostMessageW\<close> to the main dialog.\<close>

definition PostMessageW :: "ui_event \<Rightarrow> client_app \<Rightarrow> client_app" where
  "PostMessageW ev c = c\<lparr>ca_posted := ca_posted c @ [ev]\<rparr>"

definition AfxMessageBox :: "message_box \<Rightarrow> client_app \<Rightarrow> client_app" where
  "AfxMessageBox b c = c\<lparr>ca_boxes := ca_boxes c @ [b]\<rparr>"

text \<open>The conversions \<open>CT2A\<close> and \<open>CA2W\<close>, both of null-terminated strings.\<close>

definition CT2A :: "client_env \<Rightarrow> wstr \<Rightarrow> utf8" where
  "CT2A e s = ce_WideCharToMultiByte e (c_str s)"

definition CA2W :: "client_env \<Rightarrow> utf8 \<Rightarrow> wstr" where
  "CA2W e s = c_str (ce_MultiByteToWideChar e (takeWhile (\<lambda>b. b \<noteq> 0) s))"

section \<open>Requests\<close>

text \<open>
  The constructor of \<open>RequestService\<close> with a packet, after it has stored its callback: making the send
  buffer and sending it on the server session.
\<close>

definition request :: "client_env \<Rightarrow> packet \<Rightarrow> client_app \<Rightarrow> client_app res" where
  "request e p c =
     bindR (MakePacket (packet_id p) (packet_serialize (ce_lib e) p)) (\<lambda>sendBuffer.
       case ca_session c of
         None \<Rightarrow> Inl NullDeref
       | Some s \<Rightarrow> Inr (c\<lparr>ca_session := Some (Session_Send (ce_winsock e) sendBuffer s)\<rparr>))"

text \<open>\<open>RequestService::Execute\<close>: the callback, if any, posts its event; it is then cleared unless told otherwise.\<close>

definition run_callback :: "ui_event option \<Rightarrow> client_app \<Rightarrow> client_app" where
  "run_callback cb c = (case cb of None \<Rightarrow> c | Some ev \<Rightarrow> PostMessageW ev c)"

definition Execute_auth :: "auth_data \<Rightarrow> client_app \<Rightarrow> client_app" where
  "Execute_auth data c =
     (run_callback (cb_auth c) (c\<lparr>ca_auth := LockQueue_Push data (ca_auth c)\<rparr>))\<lparr>cb_auth := None\<rparr>"

definition Execute_create :: "create_room_data \<Rightarrow> client_app \<Rightarrow> client_app" where
  "Execute_create data c =
     (run_callback (cb_create c) (c\<lparr>ca_create := LockQueue_Push data (ca_create c)\<rparr>))\<lparr>cb_create := None\<rparr>"

definition Execute_join :: "join_room_data \<Rightarrow> client_app \<Rightarrow> client_app" where
  "Execute_join data c =
     (run_callback (cb_join c) (c\<lparr>ca_join := LockQueue_Push data (ca_join c)\<rparr>))\<lparr>cb_join := None\<rparr>"

definition Execute_lobby :: "refresh_lobby_data \<Rightarrow> client_app \<Rightarrow> client_app" where
  "Execute_lobby data c =
     (run_callback (cb_lobby c) (c\<lparr>ca_lobby := LockQueue_Push data (ca_lobby c)\<rparr>))\<lparr>cb_lobby := None\<rparr>"

definition Execute_out :: "client_app \<Rightarrow> client_app" where
  "Execute_out c =
     (run_callback (cb_out c) (c\<lparr>ca_out := LockQueue_Push () (ca_out c)\<rparr>))\<lparr>cb_out := None\<rparr>"

text \<open>Chat messages and the users of the room may arrive at any time; their callbacks stay.\<close>

definition Execute_chat :: "chat_log_data \<Rightarrow> client_app \<Rightarrow> client_app" where
  "Execute_chat data c = run_callback (cb_chat c) (c\<lparr>ca_chat := LockQueue_Push data (ca_chat c)\<rparr>)"

definition Execute_room :: "refresh_room_data \<Rightarrow> client_app \<Rightarrow> client_app" where
  "Execute_room data c = run_callback (cb_room c) (c\<lparr>ca_room := LockQueue_Push data (ca_room c)\<rparr>)"

section \<open>Operations of the pages\<close>

definition ShowLogin :: "bool \<Rightarrow> client_app \<Rightarrow> client_app" where
  "ShowLogin b c = c\<lparr>ca_login := (ca_login c)\<lparr>pl_visible := b\<rparr>\<rparr>"

definition upd_lobby :: "(page_lobby \<Rightarrow> page_lobby) \<Rightarrow> client_app \<Rightarrow> client_app" where
  "upd_lobby f c = c\<lparr>ca_lobbyPg := f (ca_lobbyPg c)\<rparr>"

definition upd_roomPg :: "(page_room \<Rightarrow> page_room) \<Rightarrow> client_app \<Rightarrow> client_app" where
  "upd_roomPg f c = c\<lparr>ca_roomPg := f (ca_roomPg c)\<rparr>"

definition CPageLobby_SetMeText :: "wstr \<Rightarrow> page_lobby \<Rightarrow> page_lobby" where
  "CPageLobby_SetMeText name p = p\<lparr>pb_me := name\<rparr>"

text \<open>\<open>OnInitDialog\<close>: the label reads \<open>Me : (none)\<close>.\<close>

definition CPageLobby_OnInitDialog :: "page_lobby \<Rightarrow> page_lobby" where
  "CPageLobby_OnInitDialog p = CPageLobby_SetMeText [77, 101, 32, 58, 32, 40, 110, 111, 110, 101, 41] p"

definition CPageLobby_GetMeText :: "page_lobby \<Rightarrow> wstr" where
  "CPageLobby_GetMeText p = pb_me p"

definition CPageLobby_SetRoomName :: "wstr \<Rightarrow> page_lobby \<Rightarrow> page_lobby" where
  "CPageLobby_SetRoomName n p = p\<lparr>pb_roomName := n\<rparr>"

definition CPageLobby_ClearRooms :: "page_lobby \<Rightarrow> page_lobby" where
  "CPageLobby_ClearRooms p = p\<lparr>pb_rooms := [], pb_selected := []\<rparr>"

definition CPageLobby_AddRoomRow :: "wstr \<Rightarrow> int \<Rightarrow> int \<Rightarrow> page_lobby \<Rightarrow> page_lobby" where
  "CPageLobby_AddRoomRow roomName cur most p = p\<lparr>pb_rooms := pb_rooms p @ [(roomName, cur, most)]\<rparr>"

definition CPageLobby_GetSelectedRoomIndex :: "page_lobby \<Rightarrow> int" where
  "CPageLobby_GetSelectedRoomIndex p = (case pb_selected p of [] \<Rightarrow> -1 | i # _ \<Rightarrow> int i)"

definition CPageRoom_AddCharLine :: "wstr \<Rightarrow> page_room \<Rightarrow> page_room" where
  "CPageRoom_AddCharLine line p = p\<lparr>pr_chatLog := pr_chatLog p @ [line]\<rparr>"

definition CPageRoom_ClearChatLines :: "page_room \<Rightarrow> page_room" where
  "CPageRoom_ClearChatLines p = p\<lparr>pr_chatLog := []\<rparr>"

definition CPageRoom_ClearUsers :: "page_room \<Rightarrow> page_room" where
  "CPageRoom_ClearUsers p = p\<lparr>pr_users := {#}\<rparr>"

definition CPageRoom_AddUser :: "wstr \<Rightarrow> page_room \<Rightarrow> page_room" where
  "CPageRoom_AddUser name p = p\<lparr>pr_users := add_mset name (pr_users p)\<rparr>"

definition CPageRoom_SetRoomName :: "wstr \<Rightarrow> page_room \<Rightarrow> page_room" where
  "CPageRoom_SetRoomName name p = p\<lparr>pr_roomName := name\<rparr>"

section \<open>Buttons\<close>

text \<open>Each button first copies the edit controls into the members, then posts its event.\<close>

definition CPageLogin_UpdateData :: "page_login \<Rightarrow> page_login" where
  "CPageLogin_UpdateData p = p\<lparr>pl_id := pl_editId p, pl_pw := pl_editPw p\<rparr>"

definition login_button :: "ui_event \<Rightarrow> client_app \<Rightarrow> client_app" where
  "login_button ev c =
     (let p = CPageLogin_UpdateData (ca_login c); c = c\<lparr>ca_login := p\<rparr> in
      if pl_id p = [] \<or> pl_pw p = [] then c else PostMessageW ev c)"

definition OnBnClickedLogin :: "client_app \<Rightarrow> client_app" where
  "OnBnClickedLogin c = login_button LoginClicked_Login c"

definition OnBnClickedLegister :: "client_app \<Rightarrow> client_app" where
  "OnBnClickedLegister c = login_button RegisterClicked_Register c"

definition OnBnClickedCreateRoom :: "client_app \<Rightarrow> client_app" where
  "OnBnClickedCreateRoom c =
     (let p = (ca_lobbyPg c)\<lparr>pb_roomName := pb_editRoomName (ca_lobbyPg c)\<rparr>; c = c\<lparr>ca_lobbyPg := p\<rparr> in
      if pb_roomName p = [] then c else PostMessageW CreateRoomClicked_Lobby c)"

text \<open>A selected row outside the list gives an empty text.\<close>

definition OnBnClickedJoinRoom :: "client_app \<Rightarrow> client_app" where
  "OnBnClickedJoinRoom c =
     (let p = ca_lobbyPg c; index = CPageLobby_GetSelectedRoomIndex p in
      if index < 0 then c
      else let name = (if nat index < length (pb_rooms p) then fst (pb_rooms p ! nat index) else [])
        in PostMessageW JoinRoomClicked_Lobby (c\<lparr>ca_lobbyPg := p\<lparr>pb_selectedRoomName := name\<rparr>\<rparr>))"

definition OnBnClickedRefresh :: "client_app \<Rightarrow> client_app" where
  "OnBnClickedRefresh c = PostMessageW RefreshClicked_Lobby c"

definition OnBnClickedSend :: "client_app \<Rightarrow> client_app" where
  "OnBnClickedSend c =
     (let p = (ca_roomPg c)\<lparr>pr_chatText := pr_editChat (ca_roomPg c)\<rparr>; c = c\<lparr>ca_roomPg := p\<rparr> in
      if pr_chatText p = [] then c else PostMessageW SendChatClicked_Room c)"

definition OnBnClickedLeave :: "client_app \<Rightarrow> client_app" where
  "OnBnClickedLeave c = PostMessageW LeaveRoomClicked_Room c"

end
