(* ===== verification/Client_Handlers.thy ===== *)
theory Client_Handlers
  imports Client_State
begin

text \<open>
  The handlers of the client: \<open>LoginHandler\<close>, \<open>LobbyHandler\<close>, \<open>RoomHandler\<close>, the table of \<open>EventMapper\<close>, the
  message function of the main dialog, and the handlers of the packets from the server.
\<close>

section \<open>Login\<close>

definition Login_OnClickedLogin :: "client_env \<Rightarrow> client_app \<Rightarrow> client_app res" where
  "Login_OnClickedLogin e c =
     (let pkt = C_LOGIN_set_pssd (CT2A e (pl_pw (ca_login c))) (C_LOGIN_set_id (CT2A e (pl_id (ca_login c))) C_LOGIN_new)
      in request e (Pkt_C_LOGIN pkt) (c\<lparr>cb_auth := Some LoginCompleted_Login\<rparr>))"

definition Login_OnLoginCompleted :: "client_app \<Rightarrow> client_app res" where
  "Login_OnLoginCompleted c =
     (case LockQueue_Front auth_default (ca_auth c) of (data, isEmpty) \<Rightarrow>
        ASSERT_CRASH (\<not> isEmpty)
          (if \<not> au_isSuccess data
           then Inr ((AfxMessageBox Box_LoginFailed c)\<lparr>ca_auth := snd (LockQueue_PopOut auth_default (ca_auth c))\<rparr>)
           else Inr (PostMessageW LoginCompleted_Lobby (ShowLogin False c))))"

definition Login_OnClickedRegister :: "client_env \<Rightarrow> client_app \<Rightarrow> client_app res" where
  "Login_OnClickedRegister e c =
     (let pkt = C_REGISTER_set_pssd (CT2A e (pl_pw (ca_login c))) (C_REGISTER_set_id (CT2A e (pl_id (ca_login c))) C_REGISTER_new)
      in request e (Pkt_C_REGISTER pkt) (c\<lparr>cb_auth := Some RegisterCompleted_Register\<rparr>))"

definition Login_OnRegisterCompleted :: "client_app \<Rightarrow> client_app res" where
  "Login_OnRegisterCompleted c =
     (case LockQueue_Front auth_default (ca_auth c) of (data, isEmpty) \<Rightarrow>
        ASSERT_CRASH (\<not> isEmpty)
          (let c' = c\<lparr>ca_auth := snd (LockQueue_PopOut auth_default (ca_auth c))\<rparr> in
           if \<not> au_isSuccess data then Inr (AfxMessageBox Box_RegisterFailed c')
           else Inr (AfxMessageBox Box_RegisterDone c')))"

datatype page = LoginPage | LobbyPage | RoomPage

fun LoginHandler_Execute :: "client_env \<Rightarrow> ui_event \<Rightarrow> page \<Rightarrow> client_app \<Rightarrow> client_app res" where
  "LoginHandler_Execute e ev pg c =
     (if pg \<noteq> LoginPage then Inr c
      else case ev of
        LoginClicked_Login \<Rightarrow> Login_OnClickedLogin e c
      | LoginCompleted_Login \<Rightarrow> Login_OnLoginCompleted c
      | RegisterClicked_Register \<Rightarrow> Login_OnClickedRegister e c
      | RegisterCompleted_Register \<Rightarrow> Login_OnRegisterCompleted c
      | _ \<Rightarrow> CRASH)"

section \<open>Lobby\<close>

definition refresh_request :: "client_env \<Rightarrow> client_app \<Rightarrow> client_app res" where
  "refresh_request e c = request e (Pkt_C_REFRESH_LOBBY C_REFRESH_LOBBY_new) (c\<lparr>cb_lobby := Some RefreshCompleted_Lobby\<rparr>)"

definition Lobby_OnLoginCompleted :: "client_env \<Rightarrow> client_app \<Rightarrow> client_app res" where
  "Lobby_OnLoginCompleted e c =
     (let c = upd_lobby (\<lambda>p. p\<lparr>pb_visible := True\<rparr>) c in
      case LockQueue_Front auth_default (ca_auth c) of (data, isEmpty) \<Rightarrow>
        refresh_request e
          (if \<not> isEmpty then upd_lobby (\<lambda>p. CPageLobby_ClearRooms (CPageLobby_SetMeText (au_id data) p)) c else c))"

definition Lobby_OnRefreshClicked :: "client_env \<Rightarrow> client_app \<Rightarrow> client_app res" where
  "Lobby_OnRefreshClicked e c = refresh_request e c"

text \<open>The loop of \<open>OnRefreshCompleted\<close>; taking the front of an empty queue is a fault.\<close>

fun add_rows :: "wstr list \<Rightarrow> int list \<Rightarrow> page_lobby \<Rightarrow> page_lobby res" where
  "add_rows [] counts p = Inr p"
| "add_rows (r # rs) [] p = Inl OutOfBounds"
| "add_rows (r # rs) (n # ns) p = add_rows rs ns (CPageLobby_AddRoomRow r n 100 p)"

definition Lobby_OnRefreshCompleted :: "client_app \<Rightarrow> client_app res" where
  "Lobby_OnRefreshCompleted c =
     (case LockQueue_PopOut lobby_default (ca_lobby c) of ((data, isEmpty), q) \<Rightarrow>
        ASSERT_CRASH (\<not> isEmpty)
          (let c = c\<lparr>ca_lobby := q\<rparr> in
           if rl_isSuccess data
           then bindR (add_rows (rl_roomNames data) (rl_userCounts data) (CPageLobby_ClearRooms (ca_lobbyPg c)))
             (\<lambda>p. Inr (c\<lparr>ca_lobbyPg := p\<rparr>))
           else Inr c))"

definition Lobby_OnCreateRoomClicked :: "client_env \<Rightarrow> client_app \<Rightarrow> client_app res" where
  "Lobby_OnCreateRoomClicked e c =
     (let pkt = C_CREATE_ROOM_set_id (CT2A e (CPageLobby_GetMeText (ca_lobbyPg c)))
          (C_CREATE_ROOM_set_roomname (CT2A e (pb_roomName (ca_lobbyPg c))) C_CREATE_ROOM_new)
      in request e (Pkt_C_CREATE_ROOM pkt) (c\<lparr>cb_create := Some CreateRoomCompleted_Lobby\<rparr>))"

definition Lobby_OnCreateRoomCompleted :: "client_app \<Rightarrow> client_app res" where
  "Lobby_OnCreateRoomCompleted c =
     (case LockQueue_Front create_default (ca_create c) of (data, isEmpty) \<Rightarrow>
        ASSERT_CRASH (\<not> isEmpty)
          (if \<not> cr_isSuccess data
           then Inr ((AfxMessageBox Box_CreateFailed c)\<lparr>ca_create := snd (LockQueue_PopOut create_default (ca_create c))\<rparr>)
           else Inr (PostMessageW CreateRoomCompleted_Room
             (upd_lobby (\<lambda>p. (CPageLobby_SetRoomName (cr_roomName data) p)\<lparr>pb_visible := False\<rparr>) c))))"

definition Lobby_OnJoinRoomClicked :: "client_env \<Rightarrow> client_app \<Rightarrow> client_app res" where
  "Lobby_OnJoinRoomClicked e c =
     (let pkt = C_JOIN_ROOM_set_id (CT2A e (CPageLobby_GetMeText (ca_lobbyPg c)))
          (C_JOIN_ROOM_set_roomname (CT2A e (pb_selectedRoomName (ca_lobbyPg c))) C_JOIN_ROOM_new)
      in request e (Pkt_C_JOIN_ROOM pkt) (c\<lparr>cb_join := Some JoinRoomCompleted_Lobby\<rparr>))"

definition Lobby_OnJoinRoomCompleted :: "client_app \<Rightarrow> client_app res" where
  "Lobby_OnJoinRoomCompleted c =
     (case LockQueue_Front join_default (ca_join c) of (data, isEmpty) \<Rightarrow>
        ASSERT_CRASH (\<not> isEmpty)
          (if \<not> jr_isSuccess data
           then Inr ((AfxMessageBox Box_JoinFailed c)\<lparr>ca_join := snd (LockQueue_PopOut join_default (ca_join c))\<rparr>)
           else Inr (PostMessageW JoinRoomCompleted_Room (upd_lobby (\<lambda>p. p\<lparr>pb_visible := False\<rparr>) c))))"

definition Lobby_OnLeaveRoomCompleted :: "client_env \<Rightarrow> client_app \<Rightarrow> client_app res" where
  "Lobby_OnLeaveRoomCompleted e c =
     (let c = upd_lobby (\<lambda>p. CPageLobby_ClearRooms (p\<lparr>pb_visible := True\<rparr>)) c in
      case LockQueue_Front auth_default (ca_auth c) of (data, isEmpty) \<Rightarrow>
        ASSERT_CRASH (\<not> isEmpty)
          (refresh_request e (upd_lobby (CPageLobby_SetMeText (au_id data)) c)))"

fun LobbyHandler_Execute :: "client_env \<Rightarrow> ui_event \<Rightarrow> page \<Rightarrow> client_app \<Rightarrow> client_app res" where
  "LobbyHandler_Execute e ev pg c =
     (if pg \<noteq> LobbyPage then Inr c
      else case ev of
        LoginCompleted_Lobby \<Rightarrow> Lobby_OnLoginCompleted e c
      | RefreshClicked_Lobby \<Rightarrow> Lobby_OnRefreshClicked e c
      | RefreshCompleted_Lobby \<Rightarrow> Lobby_OnRefreshCompleted c
      | CreateRoomClicked_Lobby \<Rightarrow> Lobby_OnCreateRoomClicked e c
      | CreateRoomCompleted_Lobby \<Rightarrow> Lobby_OnCreateRoomCompleted c
      | JoinRoomClicked_Lobby \<Rightarrow> Lobby_OnJoinRoomClicked e c
      | JoinRoomCompleted_Lobby \<Rightarrow> Lobby_OnJoinRoomCompleted c
      | LeaveRoomCompleted_Lobby \<Rightarrow> Lobby_OnLeaveRoomCompleted e c
      | _ \<Rightarrow> CRASH)"

section \<open>Room\<close>

definition show_room :: "page_room \<Rightarrow> page_room" where
  "show_room p = CPageRoom_ClearChatLines (CPageRoom_ClearUsers (p\<lparr>pr_visible := True\<rparr>))"

definition Room_OnCreateRoomCompleted :: "client_app \<Rightarrow> client_app res" where
  "Room_OnCreateRoomCompleted c =
     (case LockQueue_PopOut create_default (ca_create c) of ((data, isEmpty), q) \<Rightarrow>
      let c = upd_roomPg (\<lambda>p. show_room (CPageRoom_SetRoomName (cr_roomName data) p)) (c\<lparr>ca_create := q\<rparr>) in
      case LockQueue_Front auth_default (ca_auth c) of (authData, isEmpty) \<Rightarrow>
        ASSERT_CRASH (\<not> isEmpty) (Inr (upd_roomPg (CPageRoom_AddUser (au_id authData)) c)))"

definition add_users :: "wstr list \<Rightarrow> page_room \<Rightarrow> page_room" where
  "add_users ids p = fold CPageRoom_AddUser ids p"

definition Room_OnJoinRoomCompleted :: "client_app \<Rightarrow> client_app res" where
  "Room_OnJoinRoomCompleted c =
     (case LockQueue_PopOut join_default (ca_join c) of ((data, isEmpty), q) \<Rightarrow>
        Inr (upd_roomPg (\<lambda>p. add_users (jr_userIds data) (show_room p)) (c\<lparr>ca_join := q\<rparr>)))"

definition Room_OnSendChatClicked :: "client_env \<Rightarrow> client_app \<Rightarrow> client_app res" where
  "Room_OnSendChatClicked e c =
     (case LockQueue_Front auth_default (ca_auth c) of (data, isEmpty) \<Rightarrow>
        ASSERT_CRASH (\<not> isEmpty)
          (let pkt = C_CHAT_LOG_set_log (CT2A e (pr_chatText (ca_roomPg c))) (C_CHAT_LOG_set_id (CT2A e (au_id data)) C_CHAT_LOG_new)
           in request e (Pkt_C_CHAT_LOG pkt) (c\<lparr>cb_chat := Some SendChatCompleted_Room\<rparr>)))"

text \<open>The line of a message: the id, a colon between spaces, and the text.\<close>

definition chat_line :: "chat_log_data \<Rightarrow> wstr" where
  "chat_line data = cl_id data @ [32, 58, 32] @ cl_log data"

definition Room_OnSendChatCompleted :: "client_app \<Rightarrow> client_app res" where
  "Room_OnSendChatCompleted c =
     (case LockQueue_PopOut chat_default (ca_chat c) of ((data, isEmpty), q) \<Rightarrow>
        ASSERT_CRASH (\<not> isEmpty) (Inr (upd_roomPg (CPageRoom_AddCharLine (chat_line data)) (c\<lparr>ca_chat := q\<rparr>))))"

definition Room_OnRefreshCompleted :: "client_app \<Rightarrow> client_app res" where
  "Room_OnRefreshCompleted c =
     (case LockQueue_PopOut room_default (ca_room c) of ((data, isEmpty), q) \<Rightarrow>
        Inr (upd_roomPg (\<lambda>p. add_users (rf_userIds data) (CPageRoom_ClearUsers p)) (c\<lparr>ca_room := q\<rparr>)))"

definition Room_OnLeaveRoomClicked :: "client_env \<Rightarrow> client_app \<Rightarrow> client_app res" where
  "Room_OnLeaveRoomClicked e c =
     (case LockQueue_Front auth_default (ca_auth c) of (data, isEmpty) \<Rightarrow>
        ASSERT_CRASH (\<not> isEmpty)
          (let pkt = C_ROOM_OUT_set_roomname (CT2A e (pr_roomName (ca_roomPg c))) (C_ROOM_OUT_set_id (CT2A e (au_id data)) C_ROOM_OUT_new)
           in request e (Pkt_C_ROOM_OUT pkt) (c\<lparr>cb_out := Some LeaveRoomCompleted_Room\<rparr>)))"

definition Room_OnLeaveRoomCompleted :: "client_app \<Rightarrow> client_app res" where
  "Room_OnLeaveRoomCompleted c =
     Inr (PostMessageW LeaveRoomCompleted_Lobby
       (upd_roomPg (\<lambda>p. (CPageRoom_ClearUsers (CPageRoom_ClearChatLines p))\<lparr>pr_visible := False\<rparr>) c))"

fun RoomHandler_Execute :: "client_env \<Rightarrow> ui_event \<Rightarrow> page \<Rightarrow> client_app \<Rightarrow> client_app res" where
  "RoomHandler_Execute e ev pg c =
     (if pg \<noteq> RoomPage then Inr c
      else case ev of
        CreateRoomCompleted_Room \<Rightarrow> Room_OnCreateRoomCompleted c
      | JoinRoomCompleted_Room \<Rightarrow> Room_OnJoinRoomCompleted c
      | SendChatClicked_Room \<Rightarrow> Room_OnSendChatClicked e c
      | SendChatCompleted_Room \<Rightarrow> Room_OnSendChatCompleted c
      | RefreshRoomCompleted \<Rightarrow> Room_OnRefreshCompleted c
      | LeaveRoomClicked_Room \<Rightarrow> Room_OnLeaveRoomClicked e c
      | LeaveRoomCompleted_Room \<Rightarrow> Room_OnLeaveRoomCompleted c
      | _ \<Rightarrow> CRASH)"

section \<open>The event table\<close>

datatype handler = Login_Handler | Lobby_Handler | Room_Handler

text \<open>\<open>EventMapper::Mapping\<close>: the table, the visible page, and the two subscriptions.\<close>

definition event_map :: "ui_event \<rightharpoonup> page \<times> handler" where
  "event_map = map_of
    [(LoginClicked_Login, LoginPage, Login_Handler), (LoginCompleted_Login, LoginPage, Login_Handler),
     (LoginCompleted_Lobby, LobbyPage, Lobby_Handler),
     (RegisterClicked_Register, LoginPage, Login_Handler), (RegisterCompleted_Register, LoginPage, Login_Handler),
     (CreateRoomClicked_Lobby, LobbyPage, Lobby_Handler), (CreateRoomCompleted_Lobby, LobbyPage, Lobby_Handler),
     (CreateRoomCompleted_Room, RoomPage, Room_Handler),
     (JoinRoomClicked_Lobby, LobbyPage, Lobby_Handler), (JoinRoomCompleted_Lobby, LobbyPage, Lobby_Handler),
     (JoinRoomCompleted_Room, RoomPage, Room_Handler),
     (RefreshClicked_Lobby, LobbyPage, Lobby_Handler), (RefreshCompleted_Lobby, LobbyPage, Lobby_Handler),
     (SendChatClicked_Room, RoomPage, Room_Handler), (SendChatCompleted_Room, RoomPage, Room_Handler),
     (RefreshRoomCompleted, RoomPage, Room_Handler),
     (LeaveRoomClicked_Room, RoomPage, Room_Handler), (LeaveRoomCompleted_Room, RoomPage, Room_Handler),
     (LeaveRoomCompleted_Lobby, LobbyPage, Lobby_Handler)]"

definition Mapping :: "client_app \<Rightarrow> client_app" where
  "Mapping c =
     (upd_roomPg (\<lambda>p. p\<lparr>pr_visible := False\<rparr>) (upd_lobby (\<lambda>p. (CPageLobby_OnInitDialog p)\<lparr>pb_visible := False\<rparr>) (ShowLogin True c)))
       \<lparr>cb_chat := Some SendChatCompleted_Room, cb_room := Some RefreshRoomCompleted\<rparr>"

fun handler_Execute :: "handler \<Rightarrow> client_env \<Rightarrow> ui_event \<Rightarrow> page \<Rightarrow> client_app \<Rightarrow> client_app res" where
  "handler_Execute Login_Handler = LoginHandler_Execute"
| "handler_Execute Lobby_Handler = LobbyHandler_Execute"
| "handler_Execute Room_Handler = RoomHandler_Execute"

text \<open>\<open>CMainDialog::OnUIEvent\<close>; an event that is not in the table is ignored.\<close>

definition OnUIEvent :: "client_env \<Rightarrow> ui_event \<Rightarrow> client_app \<Rightarrow> client_app res" where
  "OnUIEvent e ev c =
     (case event_map ev of None \<Rightarrow> Inr c | Some (sender, h) \<Rightarrow> handler_Execute h e ev sender c)"

section \<open>Packets from the server\<close>

definition Handle_S_LOGIN :: "client_env \<Rightarrow> S_LOGIN \<Rightarrow> client_app \<Rightarrow> client_app res" where
  "Handle_S_LOGIN e pkt c =
     Inr (Execute_auth \<lparr>au_isSuccess = S_LOGIN_issuccess pkt, au_id = CA2W e (S_LOGIN_id pkt), au_pasd = CA2W e (S_LOGIN_pssd pkt)\<rparr> c)"

definition Handle_S_REGISTER :: "client_env \<Rightarrow> S_REGISTER \<Rightarrow> client_app \<Rightarrow> client_app res" where
  "Handle_S_REGISTER e pkt c =
     Inr (Execute_auth \<lparr>au_isSuccess = S_REGISTER_issuccess pkt, au_id = CA2W e (S_REGISTER_id pkt), au_pasd = CA2W e (S_REGISTER_pssd pkt)\<rparr> c)"

text \<open>The loop takes the count at the index of every name; a missing count is a fault. An \<open>int\<close> holds the count.\<close>

fun lobby_rows :: "client_env \<Rightarrow> utf8 list \<Rightarrow> u64 list \<Rightarrow> refresh_lobby_data \<Rightarrow> refresh_lobby_data res" where
  "lobby_rows e [] counts data = Inr data"
| "lobby_rows e (r # rs) [] data = Inl OutOfBounds"
| "lobby_rows e (r # rs) (n # ns) data =
     lobby_rows e rs ns (data\<lparr>rl_roomNames := rl_roomNames data @ [CA2W e r],
       rl_userCounts := rl_userCounts data @ [sint (ucast n :: u32)]\<rparr>)"

definition Handle_S_REFRESH_LOBBY :: "client_env \<Rightarrow> S_REFRESH_LOBBY \<Rightarrow> client_app \<Rightarrow> client_app res" where
  "Handle_S_REFRESH_LOBBY e pkt c =
     bindR (lobby_rows e (S_REFRESH_LOBBY_roomnames pkt) (S_REFRESH_LOBBY_usercounts pkt)
         (lobby_default\<lparr>rl_isSuccess := S_REFRESH_LOBBY_issuccess pkt\<rparr>))
       (\<lambda>data. Inr (Execute_lobby data c))"

definition Handle_S_CREATE_ROOM :: "client_env \<Rightarrow> S_CREATE_ROOM \<Rightarrow> client_app \<Rightarrow> client_app res" where
  "Handle_S_CREATE_ROOM e pkt c =
     Inr (Execute_create \<lparr>cr_isSuccess = S_CREATE_ROOM_issuccess pkt, cr_roomName = CA2W e (S_CREATE_ROOM_roomname pkt)\<rparr> c)"

definition Handle_S_JOIN_ROOM :: "client_env \<Rightarrow> S_JOIN_ROOM \<Rightarrow> client_app \<Rightarrow> client_app res" where
  "Handle_S_JOIN_ROOM e pkt c =
     Inr (Execute_join \<lparr>jr_isSuccess = S_JOIN_ROOM_issuccess pkt, jr_roomName = CA2W e (S_JOIN_ROOM_roomname pkt),
       jr_userIds = map (CA2W e) (S_JOIN_ROOM_userids pkt)\<rparr> c)"

definition Handle_S_REFRESH_ROOM :: "client_env \<Rightarrow> S_REFRESH_ROOM \<Rightarrow> client_app \<Rightarrow> client_app res" where
  "Handle_S_REFRESH_ROOM e pkt c = Inr (Execute_room \<lparr>rf_userIds = map (CA2W e) (S_REFRESH_ROOM_userids pkt)\<rparr> c)"

definition Handle_S_CHAT_LOG :: "client_env \<Rightarrow> S_CHAT_LOG \<Rightarrow> client_app \<Rightarrow> client_app res" where
  "Handle_S_CHAT_LOG e pkt c = Inr (Execute_chat \<lparr>cl_id = CA2W e (S_CHAT_LOG_id pkt), cl_log = CA2W e (S_CHAT_LOG_log pkt)\<rparr> c)"

definition Handle_S_ROOM_OUT :: "S_ROOM_OUT \<Rightarrow> client_app \<Rightarrow> client_app res" where
  "Handle_S_ROOM_OUT pkt c = Inr (Execute_out c)"

fun client_handle :: "client_env \<Rightarrow> packet \<Rightarrow> client_app \<Rightarrow> client_app res" where
  "client_handle e (Pkt_S_LOGIN pkt) = Handle_S_LOGIN e pkt"
| "client_handle e (Pkt_S_REGISTER pkt) = Handle_S_REGISTER e pkt"
| "client_handle e (Pkt_S_REFRESH_LOBBY pkt) = Handle_S_REFRESH_LOBBY e pkt"
| "client_handle e (Pkt_S_CREATE_ROOM pkt) = Handle_S_CREATE_ROOM e pkt"
| "client_handle e (Pkt_S_JOIN_ROOM pkt) = Handle_S_JOIN_ROOM e pkt"
| "client_handle e (Pkt_S_REFRESH_ROOM pkt) = Handle_S_REFRESH_ROOM e pkt"
| "client_handle e (Pkt_S_CHAT_LOG pkt) = Handle_S_CHAT_LOG e pkt"
| "client_handle e (Pkt_S_ROOM_OUT pkt) = Handle_S_ROOM_OUT pkt"
| "client_handle e _ = (\<lambda>c. Inl BadCall)"

text \<open>The packet table of the client; \<open>None\<close> is an empty function.\<close>

datatype client_packet_handler = Client_INVALD | Client_Handle u16

definition ServerPacketHandler_Init :: "(nat \<rightharpoonup> client_packet_handler) \<Rightarrow> (nat \<rightharpoonup> client_packet_handler)" where
  "ServerPacketHandler_Init g =
     (fold (\<lambda>i g. g(0 \<mapsto> Client_INVALD)) [0..<65535] g)
       (unat PKT_S_LOGIN \<mapsto> Client_Handle PKT_S_LOGIN, unat PKT_S_REGISTER \<mapsto> Client_Handle PKT_S_REGISTER,
        unat PKT_S_REFRESH_LOBBY \<mapsto> Client_Handle PKT_S_REFRESH_LOBBY, unat PKT_S_CREATE_ROOM \<mapsto> Client_Handle PKT_S_CREATE_ROOM,
        unat PKT_S_JOIN_ROOM \<mapsto> Client_Handle PKT_S_JOIN_ROOM, unat PKT_S_REFRESH_ROOM \<mapsto> Client_Handle PKT_S_REFRESH_ROOM,
        unat PKT_S_CHAT_LOG \<mapsto> Client_Handle PKT_S_CHAT_LOG, unat PKT_S_ROOM_OUT \<mapsto> Client_Handle PKT_S_ROOM_OUT)"

definition client_HandlePacket_as ::
  "client_env \<Rightarrow> u16 \<Rightarrow> byte list \<Rightarrow> int \<Rightarrow> client_app \<Rightarrow> (bool \<times> client_app) res" where
  "client_HandlePacket_as e pktId buffer len c =
     (if len < 4 then Inl OutOfBounds
      else case ce_ParseFromArray e pktId (bslice 4 (nat (len - 4)) buffer) of
        None \<Rightarrow> Inr (False, c)
      | Some pkt \<Rightarrow> bindR (client_handle e pkt c) (\<lambda>c'. Inr (True, c')))"

definition ServerPacketHandler_HandlePacket ::
  "client_env \<Rightarrow> (nat \<rightharpoonup> client_packet_handler) \<Rightarrow> byte list \<Rightarrow> int \<Rightarrow> client_app \<Rightarrow> (bool \<times> client_app) res" where
  "ServerPacketHandler_HandlePacket e GPacketHandler buffer len c =
     (let header = PacketHeader_at buffer in
      if unat (ph_id header) \<ge> 65535 then Inl OutOfBounds
      else case GPacketHandler (unat (ph_id header)) of
        None \<Rightarrow> Inl BadCall
      | Some Client_INVALD \<Rightarrow> Inr (False, c)
      | Some (Client_Handle pktId) \<Rightarrow> client_HandlePacket_as e pktId buffer len c)"

definition ServerSession_OnRecvPacket ::
  "client_env \<Rightarrow> (nat \<rightharpoonup> client_packet_handler) \<Rightarrow> client_app packet_fun" where
  "ServerSession_OnRecvPacket e GPacketHandler buffer len c =
     bindR (ServerPacketHandler_HandlePacket e GPacketHandler buffer len c) (\<lambda>(_, c'). Inr c')"

text \<open>\<open>ServerSession::OnConnected\<close>: the first session that connects becomes the server session.\<close>

definition ServerSession_OnConnected :: "byte list session \<Rightarrow> client_app \<Rightarrow> client_app" where
  "ServerSession_OnConnected s c = (if ca_session c = None then c\<lparr>ca_session := Some s\<rparr> else c)"

section \<open>The application\<close>

definition client_start :: client_app where
  "client_start = \<lparr>ca_auth = LockQueue_new, ca_create = LockQueue_new, ca_join = LockQueue_new, ca_lobby = LockQueue_new,
     ca_room = LockQueue_new, ca_chat = LockQueue_new, ca_out = LockQueue_new,
     cb_auth = None, cb_create = None, cb_join = None, cb_lobby = None, cb_room = None, cb_chat = None, cb_out = None,
     ca_posted = [], ca_session = None,
     ca_login = \<lparr>pl_visible = False, pl_editId = [], pl_editPw = [], pl_id = [], pl_pw = []\<rparr>,
     ca_lobbyPg = \<lparr>pb_visible = False, pb_editRoomName = [], pb_me = [], pb_rooms = [], pb_selected = [], pb_roomName = [],
       pb_selectedRoomName = []\<rparr>,
     ca_roomPg = \<lparr>pr_visible = False, pr_editChat = [], pr_chatLog = [], pr_users = {#}, pr_chatText = [], pr_roomName = []\<rparr>,
     ca_boxes = []\<rparr>"

end
