(* ===== verification/Client_Theorems.thy ===== *)
theory Client_Theorems
  imports Client_Handlers
begin

text \<open>
  The client as a whole. Its life is a sequence of events: a button is pressed, a text is typed, a packet
  arrives, the main dialog takes the next posted message. The network threads and the user interface
  thread interleave at the level of these events.
\<close>

section \<open>Events\<close>

datatype client_event = Press_Login | Press_Register | Press_Create | Press_Join | Press_Refresh | Press_Send | Press_Leave
  | Type_Login wstr wstr | Type_RoomName wstr | Type_Chat wstr | Select "nat list" | Packet packet | Message

fun client_run :: "client_env \<Rightarrow> client_event \<Rightarrow> client_app \<Rightarrow> client_app res" where
  "client_run e Press_Login c = Inr (OnBnClickedLogin c)"
| "client_run e Press_Register c = Inr (OnBnClickedLegister c)"
| "client_run e Press_Create c = Inr (OnBnClickedCreateRoom c)"
| "client_run e Press_Join c = Inr (OnBnClickedJoinRoom c)"
| "client_run e Press_Refresh c = Inr (OnBnClickedRefresh c)"
| "client_run e Press_Send c = Inr (OnBnClickedSend c)"
| "client_run e Press_Leave c = Inr (OnBnClickedLeave c)"
| "client_run e (Type_Login i p) c = Inr (c\<lparr>ca_login := (ca_login c)\<lparr>pl_editId := i, pl_editPw := p\<rparr>\<rparr>)"
| "client_run e (Type_RoomName r) c = Inr (upd_lobby (\<lambda>p. p\<lparr>pb_editRoomName := r\<rparr>) c)"
| "client_run e (Type_Chat t) c = Inr (upd_roomPg (\<lambda>p. p\<lparr>pr_editChat := t\<rparr>) c)"
| "client_run e (Select is) c = Inr (upd_lobby (\<lambda>p. p\<lparr>pb_selected := is\<rparr>) c)"
| "client_run e (Packet p) c = client_handle e p c"
| "client_run e Message c =
     (case ca_posted c of [] \<Rightarrow> Inr c | ev # evs \<Rightarrow> OnUIEvent e ev (c\<lparr>ca_posted := evs\<rparr>))"

definition sendable :: "client_env \<Rightarrow> packet \<Rightarrow> bool" where
  "sendable e p \<longleftrightarrow> length (packet_serialize (ce_lib e) p) + 4 \<le> 6000"

text \<open>The packet that the handler of a posted event sends.\<close>

fun event_packet :: "client_env \<Rightarrow> ui_event \<Rightarrow> client_app \<Rightarrow> packet option" where
  "event_packet e LoginClicked_Login c = Some (Pkt_C_LOGIN
     (C_LOGIN_set_pssd (CT2A e (pl_pw (ca_login c))) (C_LOGIN_set_id (CT2A e (pl_id (ca_login c))) C_LOGIN_new)))"
| "event_packet e RegisterClicked_Register c = Some (Pkt_C_REGISTER
     (C_REGISTER_set_pssd (CT2A e (pl_pw (ca_login c))) (C_REGISTER_set_id (CT2A e (pl_id (ca_login c))) C_REGISTER_new)))"
| "event_packet e CreateRoomClicked_Lobby c = Some (Pkt_C_CREATE_ROOM
     (C_CREATE_ROOM_set_id (CT2A e (pb_me (ca_lobbyPg c)))
       (C_CREATE_ROOM_set_roomname (CT2A e (pb_roomName (ca_lobbyPg c))) C_CREATE_ROOM_new)))"
| "event_packet e JoinRoomClicked_Lobby c = Some (Pkt_C_JOIN_ROOM
     (C_JOIN_ROOM_set_id (CT2A e (pb_me (ca_lobbyPg c)))
       (C_JOIN_ROOM_set_roomname (CT2A e (pb_selectedRoomName (ca_lobbyPg c))) C_JOIN_ROOM_new)))"
| "event_packet e SendChatClicked_Room c = Some (Pkt_C_CHAT_LOG
     (C_CHAT_LOG_set_log (CT2A e (pr_chatText (ca_roomPg c)))
       (C_CHAT_LOG_set_id (CT2A e (au_id (fst (LockQueue_Front auth_default (ca_auth c))))) C_CHAT_LOG_new)))"
| "event_packet e LeaveRoomClicked_Room c = Some (Pkt_C_ROOM_OUT
     (C_ROOM_OUT_set_roomname (CT2A e (pr_roomName (ca_roomPg c)))
       (C_ROOM_OUT_set_id (CT2A e (au_id (fst (LockQueue_Front auth_default (ca_auth c))))) C_ROOM_OUT_new)))"
| "event_packet e _ c = None"

text \<open>
  What can happen: buttons of visible pages are pressed; packets are server packets, and a list of rooms
  has a count for every name; the texts typed fit into a packet.
\<close>

fun server_packet :: "packet \<Rightarrow> bool" where
  "server_packet (Pkt_S_REFRESH_LOBBY m) \<longleftrightarrow> length (S_REFRESH_LOBBY_roomnames m) \<le> length (S_REFRESH_LOBBY_usercounts m)"
| "server_packet (Pkt_S_LOGIN m) \<longleftrightarrow> True"
| "server_packet (Pkt_S_REGISTER m) \<longleftrightarrow> True"
| "server_packet (Pkt_S_CREATE_ROOM m) \<longleftrightarrow> True"
| "server_packet (Pkt_S_JOIN_ROOM m) \<longleftrightarrow> True"
| "server_packet (Pkt_S_REFRESH_ROOM m) \<longleftrightarrow> True"
| "server_packet (Pkt_S_CHAT_LOG m) \<longleftrightarrow> True"
| "server_packet (Pkt_S_ROOM_OUT m) \<longleftrightarrow> True"
| "server_packet _ \<longleftrightarrow> False"

fun possible :: "client_env \<Rightarrow> client_event \<Rightarrow> client_app \<Rightarrow> bool" where
  "possible e Press_Login c \<longleftrightarrow> pl_visible (ca_login c)"
| "possible e Press_Register c \<longleftrightarrow> pl_visible (ca_login c)"
| "possible e Press_Create c \<longleftrightarrow> pb_visible (ca_lobbyPg c)"
| "possible e Press_Join c \<longleftrightarrow> pb_visible (ca_lobbyPg c)"
| "possible e Press_Refresh c \<longleftrightarrow> pb_visible (ca_lobbyPg c)"
| "possible e Press_Send c \<longleftrightarrow> pr_visible (ca_roomPg c)"
| "possible e Press_Leave c \<longleftrightarrow> pr_visible (ca_roomPg c)"
| "possible e (Packet p) c \<longleftrightarrow> server_packet p"
| "possible e Message c \<longleftrightarrow>
     (case ca_posted c of [] \<Rightarrow> True
      | ev # _ \<Rightarrow> (case event_packet e ev c of None \<Rightarrow> True | Some p \<Rightarrow> sendable e p))"
| "possible e _ c \<longleftrightarrow> True"

fun client_runs :: "client_env \<Rightarrow> client_event list \<Rightarrow> client_app \<Rightarrow> client_app res" where
  "client_runs e [] c = Inr c"
| "client_runs e (ev # evs) c = bindR (client_run e ev c) (client_runs e evs)"

fun possible_run :: "client_env \<Rightarrow> client_event list \<Rightarrow> client_app \<Rightarrow> bool" where
  "possible_run e [] c \<longleftrightarrow> True"
| "possible_run e (ev # evs) c \<longleftrightarrow> possible e ev c \<and>
     (case client_run e ev c of Inl f \<Rightarrow> True | Inr c' \<Rightarrow> possible_run e evs c')"

section \<open>The invariant\<close>

text \<open>The events whose handlers take an answer from each of the queues, and those of the login page.\<close>

definition auth_events :: "ui_event \<Rightarrow> bool" where
  "auth_events ev \<longleftrightarrow> ev = LoginCompleted_Login \<or> ev = RegisterCompleted_Register"

definition create_events :: "ui_event \<Rightarrow> bool" where
  "create_events ev \<longleftrightarrow> ev = CreateRoomCompleted_Lobby \<or> ev = CreateRoomCompleted_Room"

definition join_events :: "ui_event \<Rightarrow> bool" where
  "join_events ev \<longleftrightarrow> ev = JoinRoomCompleted_Lobby \<or> ev = JoinRoomCompleted_Room"

definition lobby_events :: "ui_event \<Rightarrow> bool" where
  "lobby_events ev \<longleftrightarrow> ev = RefreshCompleted_Lobby"

definition chat_events :: "ui_event \<Rightarrow> bool" where
  "chat_events ev \<longleftrightarrow> ev = SendChatCompleted_Room"

definition room_events :: "ui_event \<Rightarrow> bool" where
  "room_events ev \<longleftrightarrow> ev = RefreshRoomCompleted"

definition login_events :: "ui_event \<Rightarrow> bool" where
  "login_events ev \<longleftrightarrow> ev = LoginClicked_Login \<or> ev = RegisterClicked_Register \<or> ev = LoginCompleted_Login \<or>
     ev = RegisterCompleted_Register \<or> ev = SendChatCompleted_Room \<or> ev = RefreshRoomCompleted"

lemmas event_class_defs = auth_events_def create_events_def join_events_def lobby_events_def chat_events_def room_events_def

definition pending :: "(ui_event \<Rightarrow> bool) \<Rightarrow> client_app \<Rightarrow> nat" where
  "pending E c = length (filter E (ca_posted c))"

text \<open>Every pending event finds its answer; once the login page is gone, the answer to the login stays.\<close>

definition auth_inv :: "client_app \<Rightarrow> bool" where
  "auth_inv c \<longleftrightarrow> pending auth_events c + (if pl_visible (ca_login c) then 0 else 1) \<le> length (lq_items (ca_auth c))"

definition queues_inv :: "client_app \<Rightarrow> bool" where
  "queues_inv c \<longleftrightarrow>
     pending lobby_events c \<le> length (lq_items (ca_lobby c)) \<and> pending create_events c \<le> length (lq_items (ca_create c)) \<and>
     pending join_events c \<le> length (lq_items (ca_join c)) \<and> pending chat_events c \<le> length (lq_items (ca_chat c)) \<and>
     pending room_events c \<le> length (lq_items (ca_room c))"

definition rows_inv :: "client_app \<Rightarrow> bool" where
  "rows_inv c \<longleftrightarrow> (\<forall>d \<in> set (lq_items (ca_lobby c)). length (rl_roomNames d) \<le> length (rl_userCounts d))"

definition callbacks_inv :: "client_app \<Rightarrow> bool" where
  "callbacks_inv c \<longleftrightarrow>
     (\<forall>ev. cb_auth c = Some ev \<longrightarrow> auth_events ev) \<and> (\<forall>ev. cb_create c = Some ev \<longrightarrow> ev = CreateRoomCompleted_Lobby) \<and>
     (\<forall>ev. cb_join c = Some ev \<longrightarrow> ev = JoinRoomCompleted_Lobby) \<and> (\<forall>ev. cb_lobby c = Some ev \<longrightarrow> ev = RefreshCompleted_Lobby) \<and>
     (\<forall>ev. cb_out c = Some ev \<longrightarrow> ev = LeaveRoomCompleted_Room) \<and>
     cb_chat c = Some SendChatCompleted_Room \<and> cb_room c = Some RefreshRoomCompleted"

definition phase_inv :: "client_app \<Rightarrow> bool" where
  "phase_inv c \<longleftrightarrow> (pl_visible (ca_login c) \<longrightarrow>
     \<not> pb_visible (ca_lobbyPg c) \<and> \<not> pr_visible (ca_roomPg c) \<and> list_all login_events (ca_posted c) \<and>
     cb_create c = None \<and> cb_join c = None \<and> cb_lobby c = None \<and> cb_out c = None)"

definition client_inv :: "client_app \<Rightarrow> bool" where
  "client_inv c \<longleftrightarrow> (\<exists>s. ca_session c = Some s) \<and> auth_inv c \<and> queues_inv c \<and> rows_inv c \<and> callbacks_inv c \<and> phase_inv c"

lemma client_invI:
  assumes "ca_session c = Some s" "auth_inv c" "queues_inv c" "rows_inv c" "callbacks_inv c" "phase_inv c"
  shows "client_inv c"
  using assms by (auto simp: client_inv_def)

lemma client_invE:
  assumes "client_inv c"
  obtains s where "ca_session c = Some s" "auth_inv c" "queues_inv c" "rows_inv c" "callbacks_inv c" "phase_inv c"
  using assms by (auto simp: client_inv_def)

lemmas client_ops = AfxMessageBox_def ShowLogin_def upd_lobby_def upd_roomPg_def
  CPageLobby_SetMeText_def CPageLobby_SetRoomName_def CPageLobby_ClearRooms_def CPageRoom_AddCharLine_def
  CPageRoom_ClearChatLines_def CPageRoom_ClearUsers_def CPageRoom_AddUser_def CPageRoom_SetRoomName_def

section \<open>Steps\<close>

lemma same_inv:
  assumes "client_inv c" "ca_session c' \<noteq> None" "ca_posted c' = ca_posted c"
    and "ca_auth c' = ca_auth c" "ca_create c' = ca_create c" "ca_join c' = ca_join c" "ca_lobby c' = ca_lobby c"
      "ca_room c' = ca_room c" "ca_chat c' = ca_chat c"
    and "cb_auth c' = cb_auth c" "cb_create c' = cb_create c" "cb_join c' = cb_join c" "cb_lobby c' = cb_lobby c"
      "cb_room c' = cb_room c" "cb_chat c' = cb_chat c" "cb_out c' = cb_out c"
    and "pl_visible (ca_login c') = pl_visible (ca_login c)" "pb_visible (ca_lobbyPg c') = pb_visible (ca_lobbyPg c)"
      "pr_visible (ca_roomPg c') = pr_visible (ca_roomPg c)"
  shows "client_inv c'"
  using assms by (simp add: client_inv_def auth_inv_def queues_inv_def rows_inv_def callbacks_inv_def phase_inv_def pending_def)

text \<open>Posting an event that takes no answer.\<close>

definition quiet :: "ui_event \<Rightarrow> bool" where
  "quiet ev \<longleftrightarrow> \<not> auth_events ev \<and> \<not> create_events ev \<and> \<not> join_events ev \<and> \<not> lobby_events ev \<and> \<not> chat_events ev \<and> \<not> room_events ev"

lemma post_inv:
  assumes "client_inv c" "quiet ev" "pl_visible (ca_login c) \<longrightarrow> login_events ev"
  shows "client_inv (PostMessageW ev c)"
  using assms
  by (simp add: client_inv_def auth_inv_def queues_inv_def rows_inv_def callbacks_inv_def phase_inv_def pending_def PostMessageW_def quiet_def)

lemma request_ok:
  assumes "sendable e p" "ca_session c = Some s"
  shows "request e p c = Inr (c\<lparr>ca_session := Some (Session_Send (ce_winsock e) (packet_bytes (packet_id p) (packet_serialize (ce_lib e) p)) s)\<rparr>)"
  using assms by (simp add: request_def MakePacket_def sendable_def)

lemma request_inv:
  assumes "client_inv c" "sendable e p"
  shows "\<exists>c'. request e p c = Inr c' \<and> client_inv c'"
proof -
  obtain s where "ca_session c = Some s" using assms(1) by (rule client_invE)
  then show ?thesis using request_ok [OF assms(2)] same_inv [OF assms(1)] by simp
qed

lemma refresh_sendable: "pb_ok (ce_lib e) \<Longrightarrow> sendable e (Pkt_C_REFRESH_LOBBY C_REFRESH_LOBBY_new)"
  by (simp add: sendable_def C_REFRESH_LOBBY_InternalSerialize_def C_REFRESH_LOBBY_new_def pb_ok_def)

lemma login_button_inv:
  assumes "client_inv c" "quiet ev" "login_events ev"
  shows "client_inv (login_button ev c)"
  using post_inv [OF same_inv [OF assms(1)] assms(2)] same_inv [OF assms(1)] assms(1,3)
  by (auto simp: login_button_def CPageLogin_UpdateData_def Let_def client_inv_def)

lemma quiet_clicks [simp]:
  "quiet LoginClicked_Login" "quiet RegisterClicked_Register" "quiet CreateRoomClicked_Lobby" "quiet JoinRoomClicked_Lobby"
  "quiet RefreshClicked_Lobby" "quiet SendChatClicked_Room" "quiet LeaveRoomClicked_Room" "quiet LeaveRoomCompleted_Room"
  "quiet LeaveRoomCompleted_Lobby" "quiet LoginCompleted_Lobby"
  by (simp_all add: quiet_def event_class_defs)

lemma page_inv:
  assumes "client_inv c" "pb_visible p = pb_visible (ca_lobbyPg c)" "pr_visible q = pr_visible (ca_roomPg c)"
  shows "client_inv (c\<lparr>ca_lobbyPg := p\<rparr>)" "client_inv (c\<lparr>ca_roomPg := q\<rparr>)"
proof -
  have "ca_session c \<noteq> None" using assms(1) by (auto simp: client_inv_def)
  then show "client_inv (c\<lparr>ca_lobbyPg := p\<rparr>)" "client_inv (c\<lparr>ca_roomPg := q\<rparr>)"
    by (simp_all add: same_inv [OF assms(1)] assms(2,3))
qed

lemma hidden_login:
  assumes "client_inv c" "pb_visible (ca_lobbyPg c) \<or> pr_visible (ca_roomPg c)"
  shows "\<not> pl_visible (ca_login c)"
  using assms by (auto simp: client_inv_def phase_inv_def)

lemma press_inv:
  assumes inv: "client_inv c" and pos: "possible e ev c"
    and ev: "ev \<in> {Press_Login, Press_Register, Press_Create, Press_Join, Press_Refresh, Press_Send, Press_Leave}"
  shows "\<exists>c'. client_run e ev c = Inr c' \<and> client_inv c'"
proof -
  have log: "login_events LoginClicked_Login" "login_events RegisterClicked_Register" by (simp_all add: login_events_def)
  have post: "client_inv (PostMessageW k (c\<lparr>ca_lobbyPg := p\<rparr>))" "client_inv (PostMessageW k (c\<lparr>ca_roomPg := q\<rparr>))"
      "client_inv (PostMessageW k c)"
    if "quiet k" "pb_visible p = pb_visible (ca_lobbyPg c)" "pr_visible q = pr_visible (ca_roomPg c)"
      "pb_visible (ca_lobbyPg c) \<or> pr_visible (ca_roomPg c)" for k p q
    using post_inv [OF page_inv(1) [OF inv that(2,3)] that(1)] post_inv [OF page_inv(2) [OF inv that(2,3)] that(1)]
      post_inv [OF inv that(1)] hidden_login [OF inv that(4)] by simp_all
  note login_button_inv [OF inv _ log(1)] login_button_inv [OF inv _ log(2)]
  then show ?thesis
    using ev pos inv
    by (auto simp: OnBnClickedLogin_def OnBnClickedLegister_def OnBnClickedCreateRoom_def OnBnClickedJoinRoom_def OnBnClickedRefresh_def
        OnBnClickedSend_def OnBnClickedLeave_def Let_def intro!: post page_inv)
qed

lemma type_inv:
  assumes "client_inv c"
  shows "\<exists>c'. client_run e (Type_Login i p) c = Inr c' \<and> client_inv c'" "\<exists>c'. client_run e (Type_RoomName r) c = Inr c' \<and> client_inv c'"
    "\<exists>c'. client_run e (Type_Chat t) c = Inr c' \<and> client_inv c'" "\<exists>c'. client_run e (Select is) c = Inr c' \<and> client_inv c'"
proof -
  have "client_inv (c\<lparr>ca_login := (ca_login c)\<lparr>pl_editId := i, pl_editPw := p\<rparr>\<rparr>)"
    by (rule same_inv [OF assms]) (use assms in \<open>auto simp: client_inv_def\<close>)
  then show "\<exists>c'. client_run e (Type_Login i p) c = Inr c' \<and> client_inv c'" by simp
qed (use page_inv [OF assms] in \<open>simp_all add: upd_lobby_def upd_roomPg_def\<close>)

section \<open>Packets\<close>

lemma execute_inv:
  assumes inv: "client_inv c"
  shows "client_inv (Execute_auth a c)" "client_inv (Execute_create d c)" "client_inv (Execute_join j c)"
    "length (rl_roomNames l) \<le> length (rl_userCounts l) \<Longrightarrow> client_inv (Execute_lobby l c)"
    "client_inv (Execute_out c)" "client_inv (Execute_chat h c)" "client_inv (Execute_room r c)"
proof -
  note defs = client_inv_def auth_inv_def queues_inv_def rows_inv_def phase_inv_def pending_def run_callback_def PostMessageW_def
  have cb: "callbacks_inv c" using inv by (simp add: client_inv_def)
  show "client_inv (Execute_auth a c)"
    using inv cb by (cases "cb_auth c")
      (auto simp: defs Execute_auth_def callbacks_inv_def auth_events_def create_events_def join_events_def lobby_events_def
        chat_events_def room_events_def login_events_def)
  show "client_inv (Execute_create d c)"
    using inv cb by (cases "cb_create c") (auto simp: defs Execute_create_def callbacks_inv_def event_class_defs)
  show "client_inv (Execute_join j c)"
    using inv cb by (cases "cb_join c") (auto simp: defs Execute_join_def callbacks_inv_def event_class_defs)
  show "client_inv (Execute_lobby l c)" if "length (rl_roomNames l) \<le> length (rl_userCounts l)"
    using inv cb that by (cases "cb_lobby c") (auto simp: defs Execute_lobby_def callbacks_inv_def event_class_defs)
  show "client_inv (Execute_out c)"
    using inv cb by (cases "cb_out c") (auto simp: defs Execute_out_def callbacks_inv_def event_class_defs)
  show "client_inv (Execute_chat h c)"
    using inv cb by (auto simp: defs Execute_chat_def callbacks_inv_def event_class_defs login_events_def)
  show "client_inv (Execute_room r c)"
    using inv cb by (auto simp: defs Execute_room_def callbacks_inv_def event_class_defs login_events_def)
qed

lemma lobby_rows_ok:
  "length rs \<le> length ns \<Longrightarrow> length (rl_roomNames d) \<le> length (rl_userCounts d) \<Longrightarrow>
    \<exists>d'. lobby_rows e rs ns d = Inr d' \<and> length (rl_roomNames d') \<le> length (rl_userCounts d')"
  by (induction e rs ns d rule: lobby_rows.induct) auto

lemma packet_inv:
  assumes "client_inv c" "server_packet p"
  shows "\<exists>c'. client_handle e p c = Inr c' \<and> client_inv c'"
proof (cases p)
  case (Pkt_S_REFRESH_LOBBY m)
  then obtain d where "lobby_rows e (S_REFRESH_LOBBY_roomnames m) (S_REFRESH_LOBBY_usercounts m)
      (lobby_default\<lparr>rl_isSuccess := S_REFRESH_LOBBY_issuccess m\<rparr>) = Inr d" "length (rl_roomNames d) \<le> length (rl_userCounts d)"
    using lobby_rows_ok [of "S_REFRESH_LOBBY_roomnames m" "S_REFRESH_LOBBY_usercounts m"
        "lobby_default\<lparr>rl_isSuccess := S_REFRESH_LOBBY_issuccess m\<rparr>" e] assms(2) by (auto simp: lobby_default_def)
  then show ?thesis using Pkt_S_REFRESH_LOBBY execute_inv(4) [OF assms(1)] by (simp add: Handle_S_REFRESH_LOBBY_def)
qed (use assms execute_inv [OF assms(1)] in \<open>simp_all add: Handle_S_LOGIN_def Handle_S_REGISTER_def Handle_S_CREATE_ROOM_def
    Handle_S_JOIN_ROOM_def Handle_S_REFRESH_ROOM_def Handle_S_CHAT_LOG_def Handle_S_ROOM_OUT_def\<close>)

section \<open>Messages\<close>

text \<open>Taking an event that takes no answer, and the handlers of the clicks.\<close>

lemma take_quiet:
  assumes "client_inv c" "ca_posted c = ev # evs" "quiet ev"
  shows "client_inv (c\<lparr>ca_posted := evs\<rparr>)"
  using assms
  by (simp add: client_inv_def auth_inv_def queues_inv_def rows_inv_def callbacks_inv_def phase_inv_def pending_def quiet_def)

lemma set_callback_inv:
  assumes "client_inv c"
  shows "auth_events ev \<Longrightarrow> client_inv (c\<lparr>cb_auth := Some ev\<rparr>)"
    "client_inv (c\<lparr>cb_chat := Some SendChatCompleted_Room\<rparr>)"
    "\<not> pl_visible (ca_login c) \<Longrightarrow> client_inv (c\<lparr>cb_create := Some CreateRoomCompleted_Lobby\<rparr>)"
    "\<not> pl_visible (ca_login c) \<Longrightarrow> client_inv (c\<lparr>cb_join := Some JoinRoomCompleted_Lobby\<rparr>)"
    "\<not> pl_visible (ca_login c) \<Longrightarrow> client_inv (c\<lparr>cb_lobby := Some RefreshCompleted_Lobby\<rparr>)"
    "\<not> pl_visible (ca_login c) \<Longrightarrow> client_inv (c\<lparr>cb_out := Some LeaveRoomCompleted_Room\<rparr>)"
  using assms
  by (auto simp: client_inv_def auth_inv_def queues_inv_def rows_inv_def callbacks_inv_def phase_inv_def pending_def)

lemma logged_in:
  assumes "client_inv c" "ca_posted c = ev # evs" "\<not> login_events ev"
  shows "\<not> pl_visible (ca_login c)" "\<exists>d ds. lq_items (ca_auth c) = d # ds"
proof -
  show h: "\<not> pl_visible (ca_login c)" using assms by (auto simp: client_inv_def phase_inv_def)
  show "\<exists>d ds. lq_items (ca_auth c) = d # ds"
    using assms(1) h by (cases "lq_items (ca_auth c)") (auto simp: client_inv_def auth_inv_def)
qed

lemma click_message:
  assumes inv: "client_inv c" and post: "ca_posted c = ev # evs"
    and pkt: "event_packet e ev c = Some p" "sendable e p"
  shows "\<exists>c'. OnUIEvent e ev (c\<lparr>ca_posted := evs\<rparr>) = Inr c' \<and> client_inv c'"
proof -
  let ?c = "c\<lparr>ca_posted := evs\<rparr>"
  have q: "quiet ev" using pkt(1) by (cases ev) simp_all
  note tk = take_quiet [OF inv post q] and log = logged_in [OF inv post]
  have ask: "\<exists>c'. request e p c2 = Inr c' \<and> client_inv c'" if "client_inv c2" for c2 using request_inv [OF that pkt(2)] .
  have cb: "client_inv (?c\<lparr>cb_auth := Some LoginCompleted_Login\<rparr>)" "client_inv (?c\<lparr>cb_auth := Some RegisterCompleted_Register\<rparr>)"
      "client_inv (?c\<lparr>cb_chat := Some SendChatCompleted_Room\<rparr>)"
    using set_callback_inv(1,2) [OF tk] by (simp_all add: auth_events_def)
  have cb': "client_inv (?c\<lparr>cb_create := Some CreateRoomCompleted_Lobby\<rparr>)" "client_inv (?c\<lparr>cb_join := Some JoinRoomCompleted_Lobby\<rparr>)"
      "client_inv (?c\<lparr>cb_out := Some LeaveRoomCompleted_Room\<rparr>)" if "\<not> login_events ev"
    using set_callback_inv(3,4,6) [OF tk] log(1) [OF that] by simp_all
  show ?thesis
    using pkt(1) ask [OF cb(1)] ask [OF cb(2)] ask [OF cb(3)] ask [OF cb'(1)] ask [OF cb'(2)] ask [OF cb'(3)] log(2)
    by (cases ev)
      (auto simp: OnUIEvent_def event_map_def Login_OnClickedLogin_def Login_OnClickedRegister_def Lobby_OnCreateRoomClicked_def
        Lobby_OnJoinRoomClicked_def Room_OnSendChatClicked_def Room_OnLeaveRoomClicked_def CPageLobby_GetMeText_def LockQueue_Front_def
        login_events_def)
qed

lemmas inv_parts = client_inv_def auth_inv_def queues_inv_def rows_inv_def callbacks_inv_def phase_inv_def pending_def

lemma auth_message:
  assumes "client_inv c" "ca_posted c = ev # evs" "auth_events ev"
  shows "\<exists>c'. OnUIEvent e ev (c\<lparr>ca_posted := evs\<rparr>) = Inr c' \<and> client_inv c'"
proof -
  have q: "\<not> create_events ev \<and> \<not> join_events ev \<and> \<not> lobby_events ev \<and> \<not> chat_events ev \<and> \<not> room_events ev"
    using assms(3) by (auto simp: event_class_defs)
  obtain d ds where d: "lq_items (ca_auth c) = d # ds"
    using assms by (cases "lq_items (ca_auth c)") (auto simp: client_inv_def auth_inv_def pending_def)
  have failed: "client_inv (c\<lparr>ca_posted := evs, ca_boxes := b, ca_auth := (ca_auth c)\<lparr>lq_items := ds\<rparr>\<rparr>)" for b
    using assms q d by (auto simp: inv_parts)
  have popped: "client_inv (c\<lparr>ca_posted := evs, ca_auth := (ca_auth c)\<lparr>lq_items := ds\<rparr>, ca_boxes := b\<rparr>)" for b
    using assms q d by (auto simp: inv_parts)
  have shown: "client_inv (PostMessageW LoginCompleted_Lobby (ShowLogin False (c\<lparr>ca_posted := evs\<rparr>)))"
    using assms q d by (auto simp: inv_parts PostMessageW_def ShowLogin_def event_class_defs)
  show ?thesis
    using assms(3) d failed popped shown
    by (auto simp: auth_events_def OnUIEvent_def event_map_def Login_OnLoginCompleted_def Login_OnRegisterCompleted_def
        LockQueue_Front_def LockQueue_PopOut_def AfxMessageBox_def)
qed

lemma create_message:
  assumes "client_inv c" "ca_posted c = ev # evs" "create_events ev"
  shows "\<exists>c'. OnUIEvent e ev (c\<lparr>ca_posted := evs\<rparr>) = Inr c' \<and> client_inv c'"
proof -
  have q: "\<not> auth_events ev \<and> \<not> join_events ev \<and> \<not> lobby_events ev \<and> \<not> chat_events ev \<and> \<not> room_events ev" "\<not> login_events ev"
    using assms(3) by (auto simp: event_class_defs login_events_def)
  note log = logged_in [OF assms(1,2) q(2)]
  obtain d ds where d: "lq_items (ca_create c) = d # ds"
    using assms by (cases "lq_items (ca_create c)") (auto simp: client_inv_def queues_inv_def pending_def)
  obtain u us where u: "lq_items (ca_auth c) = u # us" using log(2) by blast
  have failed: "client_inv (c\<lparr>ca_posted := evs, ca_boxes := b, ca_create := (ca_create c)\<lparr>lq_items := ds\<rparr>\<rparr>)" for b
    using assms q log(1) d by (auto simp: inv_parts)
  have popped: "client_inv (c\<lparr>ca_posted := evs, ca_create := (ca_create c)\<lparr>lq_items := ds\<rparr>, ca_roomPg := p\<rparr>)" for p
    using assms q log(1) d by (auto simp: inv_parts)
  have shown: "client_inv (PostMessageW CreateRoomCompleted_Room (c\<lparr>ca_posted := evs, ca_lobbyPg := p\<rparr>))" for p
    using assms q log(1) d by (auto simp: inv_parts PostMessageW_def event_class_defs)
  show ?thesis
    using assms(3) d u failed popped shown
    by (auto simp: create_events_def OnUIEvent_def event_map_def Lobby_OnCreateRoomCompleted_def Room_OnCreateRoomCompleted_def
        LockQueue_Front_def LockQueue_PopOut_def AfxMessageBox_def upd_lobby_def upd_roomPg_def Let_def)
qed

lemma join_message:
  assumes "client_inv c" "ca_posted c = ev # evs" "join_events ev"
  shows "\<exists>c'. OnUIEvent e ev (c\<lparr>ca_posted := evs\<rparr>) = Inr c' \<and> client_inv c'"
proof -
  have q: "\<not> auth_events ev \<and> \<not> create_events ev \<and> \<not> lobby_events ev \<and> \<not> chat_events ev \<and> \<not> room_events ev" "\<not> login_events ev"
    using assms(3) by (auto simp: event_class_defs login_events_def)
  note log = logged_in [OF assms(1,2) q(2)]
  obtain d ds where d: "lq_items (ca_join c) = d # ds"
    using assms by (cases "lq_items (ca_join c)") (auto simp: client_inv_def queues_inv_def pending_def)
  have failed: "client_inv (c\<lparr>ca_posted := evs, ca_boxes := b, ca_join := (ca_join c)\<lparr>lq_items := ds\<rparr>\<rparr>)" for b
    using assms q log(1) d by (auto simp: inv_parts)
  have popped: "client_inv (c\<lparr>ca_posted := evs, ca_join := (ca_join c)\<lparr>lq_items := ds\<rparr>, ca_roomPg := p\<rparr>)" for p
    using assms q log(1) d by (auto simp: inv_parts)
  have shown: "client_inv (PostMessageW JoinRoomCompleted_Room (c\<lparr>ca_posted := evs, ca_lobbyPg := p\<rparr>))" for p
    using assms q log(1) d by (auto simp: inv_parts PostMessageW_def event_class_defs)
  show ?thesis
    using assms(3) d failed popped shown
    by (auto simp: join_events_def OnUIEvent_def event_map_def Lobby_OnJoinRoomCompleted_def Room_OnJoinRoomCompleted_def
        LockQueue_Front_def LockQueue_PopOut_def AfxMessageBox_def upd_lobby_def upd_roomPg_def Let_def)
qed

lemma add_rows_ok:
  "length rs \<le> length ns \<Longrightarrow> \<exists>p'. add_rows rs ns p = Inr p' \<and> pb_visible p' = pb_visible p"
  by (induction rs ns p rule: add_rows.induct) (auto simp: CPageLobby_AddRoomRow_def)

lemma lobby_message:
  assumes "client_inv c" "ca_posted c = RefreshCompleted_Lobby # evs"
  shows "\<exists>c'. OnUIEvent e RefreshCompleted_Lobby (c\<lparr>ca_posted := evs\<rparr>) = Inr c' \<and> client_inv c'"
proof -
  obtain d ds where d: "lq_items (ca_lobby c) = d # ds"
    using assms by (cases "lq_items (ca_lobby c)") (auto simp: client_inv_def queues_inv_def pending_def lobby_events_def)
  have popped: "client_inv (c\<lparr>ca_posted := evs, ca_lobby := (ca_lobby c)\<lparr>lq_items := ds\<rparr>\<rparr>)"
    using assms d by (auto simp: inv_parts event_class_defs)
  have "length (rl_roomNames d) \<le> length (rl_userCounts d)" using assms(1) d by (simp add: client_inv_def rows_inv_def)
  then obtain p' where p': "add_rows (rl_roomNames d) (rl_userCounts d) (CPageLobby_ClearRooms (ca_lobbyPg c)) = Inr p'"
      "pb_visible p' = pb_visible (ca_lobbyPg c)"
    using add_rows_ok by (fastforce simp: CPageLobby_ClearRooms_def)
  show ?thesis
    using d p'(1) popped page_inv(1) [OF popped, of p'] p'(2)
    by (auto simp: OnUIEvent_def event_map_def Lobby_OnRefreshCompleted_def LockQueue_PopOut_def Let_def)
qed

lemma show_message:
  assumes "client_inv c" "ca_posted c = ev # evs" "chat_events ev \<or> room_events ev"
  shows "\<exists>c'. OnUIEvent e ev (c\<lparr>ca_posted := evs\<rparr>) = Inr c' \<and> client_inv c'"
  using assms(3)
proof
  assume ev: "chat_events ev"
  obtain d ds where d: "lq_items (ca_chat c) = d # ds"
    using assms ev by (cases "lq_items (ca_chat c)") (auto simp: client_inv_def queues_inv_def pending_def)
  have popped: "client_inv (c\<lparr>ca_posted := evs, ca_chat := (ca_chat c)\<lparr>lq_items := ds\<rparr>\<rparr>)"
    using assms ev d by (auto simp: inv_parts event_class_defs)
  show ?thesis
    using ev d page_inv(2) [OF popped]
    by (auto simp: chat_events_def OnUIEvent_def event_map_def Room_OnSendChatCompleted_def LockQueue_PopOut_def upd_roomPg_def
        CPageRoom_AddCharLine_def)
next
  assume ev: "room_events ev"
  obtain d ds where d: "lq_items (ca_room c) = d # ds"
    using assms ev by (cases "lq_items (ca_room c)") (auto simp: client_inv_def queues_inv_def pending_def)
  have popped: "client_inv (c\<lparr>ca_posted := evs, ca_room := (ca_room c)\<lparr>lq_items := ds\<rparr>\<rparr>)"
    using assms ev d by (auto simp: inv_parts event_class_defs)
  have "pr_visible (add_users ids p) = pr_visible p" for ids p
    by (induction ids arbitrary: p) (simp_all add: add_users_def CPageRoom_AddUser_def)
  then show ?thesis
    using ev d page_inv(2) [OF popped, of "ca_lobbyPg c"]
    by (auto simp: room_events_def OnUIEvent_def event_map_def Room_OnRefreshCompleted_def LockQueue_PopOut_def upd_roomPg_def
        CPageRoom_ClearUsers_def)
qed

lemma quiet_message:
  assumes lib: "pb_ok (ce_lib e)" and inv: "client_inv c" and post: "ca_posted c = ev # evs"
    and ev: "quiet ev" "event_packet e ev c = None"
  shows "\<exists>c'. OnUIEvent e ev (c\<lparr>ca_posted := evs\<rparr>) = Inr c' \<and> client_inv c'"
proof -
  let ?c = "c\<lparr>ca_posted := evs\<rparr>"
  note tk = take_quiet [OF inv post ev(1)] and log = logged_in [OF inv post]
  have ask: "\<exists>c'. refresh_request e c2 = Inr c' \<and> client_inv c'" if "client_inv c2" "\<not> pl_visible (ca_login c2)" for c2
    using request_inv [OF set_callback_inv(5) [OF that] refresh_sendable [OF lib]] by (simp add: refresh_request_def)
  have pages: "client_inv (?c\<lparr>ca_lobbyPg := p\<rparr>)" "client_inv (PostMessageW LeaveRoomCompleted_Lobby (?c\<lparr>ca_roomPg := q\<rparr>))"
    if "\<not> login_events ev" for p q
    using tk log(1) [OF that] by (auto simp: inv_parts PostMessageW_def event_class_defs)
  consider "event_map ev = None" | "ev = LoginCompleted_Lobby" | "ev = RefreshClicked_Lobby" | "ev = LeaveRoomCompleted_Room"
    | "ev = LeaveRoomCompleted_Lobby"
    using ev by (cases ev) (simp_all add: event_map_def quiet_def event_class_defs)
  then show ?thesis
  proof cases
    case 1 then show ?thesis using tk by (simp add: OnUIEvent_def)
  next
    case 2
    then have l: "\<not> login_events ev" by (simp add: login_events_def)
    show ?thesis
      using 2 log [OF l] ask [OF pages(1) [OF l]]
      by (auto simp: OnUIEvent_def event_map_def Lobby_OnLoginCompleted_def LockQueue_Front_def upd_lobby_def)
  next
    case 3
    then have l: "\<not> login_events ev" by (simp add: login_events_def)
    show ?thesis using 3 log(1) [OF l] ask [OF tk] by (simp add: OnUIEvent_def event_map_def Lobby_OnRefreshClicked_def)
  next
    case 4
    then have l: "\<not> login_events ev" by (simp add: login_events_def)
    show ?thesis
      using 4 pages(2) [OF l] by (simp add: OnUIEvent_def event_map_def Room_OnLeaveRoomCompleted_def upd_roomPg_def)
  next
    case 5
    then have l: "\<not> login_events ev" by (simp add: login_events_def)
    show ?thesis
      using 5 log [OF l] ask [OF pages(1) [OF l]]
      by (auto simp: OnUIEvent_def event_map_def Lobby_OnLeaveRoomCompleted_def LockQueue_Front_def upd_lobby_def)
  qed
qed

lemma message_inv:
  assumes "pb_ok (ce_lib e)" "client_inv c" "possible e Message c"
  shows "\<exists>c'. client_run e Message c = Inr c' \<and> client_inv c'"
proof (cases "ca_posted c")
  case Nil
  then show ?thesis using assms(2) by simp
next
  case (Cons ev evs)
  show ?thesis
  proof (cases "event_packet e ev c")
    case None
    then show ?thesis
      using Cons quiet_message [OF assms(1,2) Cons] auth_message [OF assms(2) Cons, of e] create_message [OF assms(2) Cons, of e]
        join_message [OF assms(2) Cons, of e] show_message [OF assms(2) Cons, of e] lobby_message [OF assms(2), of evs e]
      by (auto simp: quiet_def lobby_events_def)
  next
    case (Some p)
    then show ?thesis using Cons assms(3) click_message [OF assms(2) Cons Some] by simp
  qed
qed

lemma client_run_inv:
  assumes "pb_ok (ce_lib e)" "client_inv c" "possible e ev c"
  shows "\<exists>c'. client_run e ev c = Inr c' \<and> client_inv c'"
  using press_inv [OF assms(2,3)] type_inv [OF assms(2)] message_inv [OF assms(1,2)] packet_inv [OF assms(2)] assms(3)
  by (cases ev) (simp_all del: client_run.simps add: client_run.simps(12))

lemma client_runs_inv:
  assumes "pb_ok (ce_lib e)" "client_inv c" "possible_run e evs c"
  shows "\<exists>c'. client_runs e evs c = Inr c' \<and> client_inv c'"
  using assms(2,3)
proof (induction evs arbitrary: c)
  case (Cons ev evs)
  then obtain c1 where "client_run e ev c = Inr c1" "client_inv c1" using client_run_inv [OF assms(1)] by force
  then show ?case using Cons by simp
qed simp

text \<open>The client after \<open>InitInstance\<close>: the session has connected and the main dialog is set up.\<close>

definition client_ready :: "byte list session \<Rightarrow> client_app" where
  "client_ready s = Mapping (ServerSession_OnConnected s client_start)"

lemma client_ready_inv: "client_inv (client_ready s)"
  by (simp add: client_ready_def Mapping_def ServerSession_OnConnected_def client_start_def inv_parts client_ops LockQueue_new_def)

end
