(* ===== verification/Server_Inv.thy ===== *)
theory Server_Inv
  imports Respond
begin

text \<open>
  The invariant of the chat server, and that every response and every disconnect keeps it and never
  faults, as long as the clients behave as the client program does: they act under the id they logged
  in with, create or join a room only when they are in none, and chat in or leave a room only when they
  are in one.

  The invariant ties together the four places that know who is in which room: the account table, the
  user count of the room table, the room objects, and the sessions.
\<close>

section \<open>What the server relies on\<close>

definition env_ok :: "env \<Rightarrow> (wstr \<Rightarrow> wstr) \<Rightarrow> bool" where
  "env_ok e K \<longleftrightarrow> pb_ok (en_lib e) \<and> odbc_ok (en_odbc e) (sql_eval K)"

text \<open>A packet that fits into a send buffer.\<close>

definition fits :: "env \<Rightarrow> packet \<Rightarrow> bool" where
  "fits e p \<longleftrightarrow> length (packet_serialize (en_lib e) p) + 4 \<le> 6000"

section \<open>Sending\<close>

definition sent :: "env \<Rightarrow> sid \<Rightarrow> packet \<Rightarrow> chat_world \<Rightarrow> chat_world" where
  "sent e i p w =
     w\<lparr>w_sessions := (w_sessions w)(i \<mapsto>
        Session_Send (en_winsock e) (packet_bytes (packet_id p) (packet_serialize (en_lib e) p)) (the (w_sessions w i)))\<rparr>"

definition sent_all :: "env \<Rightarrow> packet \<Rightarrow> sid option \<Rightarrow> (utf8 \<times> sid) list \<Rightarrow> chat_world \<Rightarrow> chat_world" where
  "sent_all e p ex us = fold (\<lambda>u w. if ex = Some (snd u) then w else sent e (snd u) p w) us"

lemma sent_sel [simp]:
  "w_content (sent e i p w) = w_content w"
  "w_service (sent e i p w) = w_service w"
  "w_next (sent e i p w) = w_next w"
  "i \<in> dom (w_sessions w) \<Longrightarrow> dom (w_sessions (sent e i p w)) = dom (w_sessions w)"
  by (auto simp: sent_def)

lemma send_packet_ok:
  assumes "fits e p" "i \<in> dom (w_sessions w)"
  shows "send_packet e i p w = Inr (sent e i p w)"
  using assms
  by (auto simp: send_packet_def MakeSendBuffer_packet_def MakePacket_def fits_def on_session_def sent_def)

lemma sent_all_sel [simp]:
  "w_content (sent_all e p ex us w) = w_content w"
  "w_service (sent_all e p ex us w) = w_service w"
  "w_next (sent_all e p ex us w) = w_next w"
  "snd ` set us \<subseteq> dom (w_sessions w) \<Longrightarrow> dom (w_sessions (sent_all e p ex us w)) = dom (w_sessions w)"
  by (induction us arbitrary: w) (auto simp: sent_all_def)

lemma pool_push_sent: "pool_push c (sent e i p w) = sent e i p (pool_push c w)"
  by (simp add: pool_push_def sent_def)

lemma pool_push_sent_all: "pool_push c (sent_all e p ex us w) = sent_all e p ex us (pool_push c w)"
  by (induction us arbitrary: w) (simp_all add: sent_all_def pool_push_sent)

lemma broadcast_users_ok:
  assumes "fits e p" "snd ` set us \<subseteq> dom (w_sessions w)"
  shows "broadcast_users e p ex us w = Inr (sent_all e p ex us w)"
  using assms(2)
proof (induction us arbitrary: w)
  case Nil
  then show ?case by (simp add: sent_all_def)
next
  case (Cons u us)
  obtain k i where u: "u = (k, i)" by force
  have i: "i \<in> dom (w_sessions w)" "snd ` set us \<subseteq> dom (w_sessions w)" using Cons.prems u by auto
  show ?case
    using Cons.IH [of w] Cons.IH [of "sent e i p w"] i send_packet_ok [OF assms(1) i(1)] u
    by (cases ex) (auto simp: sent_all_def)
qed

section \<open>Database access\<close>

lemma pool_pop_ok:
  assumes "ch_pool (w_content w) \<noteq> []"
  shows "pool_pop w = Inr (last (ch_pool (w_content w)), upd_chat (\<lambda>ch. ch\<lparr>ch_pool := butlast (ch_pool ch)\<rparr>) w)"
  using assms by (simp add: pool_pop_def pool_pop_push(1))

lemma db_exec_eq:
  assumes "env_ok e K" "length hs = P" "length cols = C" "P \<le> 31" "C \<le> 31" "set nulls \<subseteq> {..<P}"
  shows "db_exec e P C q hs nulls cols h c w =
    (case sql_eval K q (arg_values hs nulls) (ch_db (w_content w)) of
       Some (rs, t) \<Rightarrow> Inr (True, conn_after hs cols rs, upd_chat (\<lambda>ch. ch\<lparr>ch_db := t\<rparr>) w)
     | None \<Rightarrow> if h then Inl Hang else Inr (False, conn_after hs cols None, w))"
  using stmt_eq [of "en_odbc e" "sql_eval K" hs P cols C nulls q h c "ch_db (w_content w)"] assms
  by (cases "sql_eval K q (arg_values hs nulls) (ch_db (w_content w))")
    (auto simp: db_exec_def env_ok_def)

lemma db_must_eq:
  assumes "env_ok e K" "length hs = P" "length cols = C" "P \<le> 31" "C \<le> 31" "set nulls \<subseteq> {..<P}"
  shows "db_must e P C q hs nulls cols c w =
    (case sql_eval K q (arg_values hs nulls) (ch_db (w_content w)) of
       Some (rs, t) \<Rightarrow> Inr (conn_after hs cols rs, upd_chat (\<lambda>ch. ch\<lparr>ch_db := t\<rparr>) w)
     | None \<Rightarrow> Inl Hang)"
  using db_exec_eq [OF assms, of q True c w]
  by (cases "sql_eval K q (arg_values hs nulls) (ch_db (w_content w))") (auto simp: db_must_def)

lemma arg_values_simps [simp]:
  "arg_values [] nulls = []"
  "arg_values [a] [] = [host_value a]"
  "arg_values [a, b] [] = [host_value a, host_value b]"
  "arg_values [a, b] [0] = [SqlNull, host_value b]"
  "arg_values [a, b, c] [] = [host_value a, host_value b, host_value c]"
  "arg_values [a, b, c, d] [] = [host_value a, host_value b, host_value c, host_value d]"
  by (simp_all add: arg_values_def upt_rec)

section \<open>The invariant\<close>

text \<open>The string the database sees for a user id, and its key under the collation.\<close>

abbreviation wname :: "env \<Rightarrow> utf8 \<Rightarrow> wstr" where
  "wname e u \<equiv> c_str (Utf8ToWstring e u)"

definition key :: "env \<Rightarrow> (wstr \<Rightarrow> wstr) \<Rightarrow> utf8 \<Rightarrow> wstr" where
  "key e K u = K (wname e u)"

definition members :: "tables \<Rightarrow> int \<Rightarrow> account list" where
  "members t r = filter (\<lambda>a. ac_current_room_id a = Some r) (tb_account t)"

text \<open>The ids of a room's members as the server sends them, cut to 13 characters by its buffer.\<close>

definition shown_ids :: "env \<Rightarrow> tables \<Rightarrow> int \<Rightarrow> utf8 list" where
  "shown_ids e t r = map (\<lambda>a. WCHARToUTF8 e (take 13 (ac_id a))) (members t r)"

definition refresh_packet :: "utf8 list \<Rightarrow> packet" where
  "refresh_packet ids = Pkt_S_REFRESH_ROOM (fold S_REFRESH_ROOM_add_userids ids S_REFRESH_ROOM_new)"

text \<open>
  A registered room: its state is the number of its users, which is also the count in the table;
  its users are live sessions that know the room, and they are the users of the accounts whose current
  room it is.
\<close>

definition room_ok :: "env \<Rightarrow> (wstr \<Rightarrow> wstr) \<Rightarrow> chat \<Rightarrow> sid set \<Rightarrow> int \<Rightarrow> nat \<Rightarrow> room \<Rightarrow> bool" where
  "room_ok e K ch L n r rm \<longleftrightarrow>
     rm_roomId rm = n \<and> rm_users rm \<noteq> [] \<and> rm_roomState rm = int (length (rm_users rm)) \<and>
     sorted_wrt (<) (map fst (rm_users rm)) \<and>
     (\<exists>x \<in> set (tb_room (ch_db ch)). rr_room_id x = n \<and> rr_user_count x = int (length (rm_users rm))) \<and>
     (\<forall>u i. (u, i) \<in> set (rm_users rm) \<longrightarrow> i \<in> L \<and> ch_clients ch i = \<lparr>cs_room = Some r, cs_id = u\<rparr>) \<and>
     (\<forall>a \<in> set (tb_account (ch_db ch)). ac_current_room_id a = Some n \<longleftrightarrow>
        K (ac_id a) \<in> key e K ` fst ` set (rm_users rm)) \<and>
     fits e (refresh_packet (shown_ids e (ch_db ch) n))"

definition rooms_inv :: "env \<Rightarrow> (wstr \<Rightarrow> wstr) \<Rightarrow> chat \<Rightarrow> sid set \<Rightarrow> bool" where
  "rooms_inv e K ch L \<longleftrightarrow>
     dom (ch_rooms ch) = room_ids (ch_db ch) \<and>
     (\<forall>r \<ge> ch_next ch. ch_heap ch r = None) \<and>
     (\<forall>n r. ch_rooms ch n = Some r \<longrightarrow> (\<exists>rm. ch_heap ch r = Some rm \<and> room_ok e K ch L n r rm))"

text \<open>A live client that is in a room is among the users of a registered room.\<close>

definition clients_inv :: "chat \<Rightarrow> sid set \<Rightarrow> bool" where
  "clients_inv ch L \<longleftrightarrow>
     (\<forall>i \<in> L. \<forall>r. cs_room (ch_clients ch i) = Some r \<longrightarrow>
        (\<exists>n rm. ch_rooms ch n = Some r \<and> ch_heap ch r = Some rm \<and> (cs_id (ch_clients ch i), i) \<in> set (rm_users rm)))"

text \<open>Logged-in clients have distinct accounts, which are online; only they are in rooms.\<close>

definition logged :: "chat \<Rightarrow> sid \<Rightarrow> bool" where
  "logged ch i \<longleftrightarrow> cs_id (ch_clients ch i) \<noteq> []"

definition login_inv :: "env \<Rightarrow> (wstr \<Rightarrow> wstr) \<Rightarrow> chat \<Rightarrow> sid set \<Rightarrow> bool" where
  "login_inv e K ch L \<longleftrightarrow>
     (\<forall>i \<in> L. logged ch i \<longrightarrow> key e K (cs_id (ch_clients ch i)) \<noteq> K [] \<and>
        (\<exists>a \<in> set (tb_account (ch_db ch)). K (ac_id a) = key e K (cs_id (ch_clients ch i)) \<and> ac_is_online a)) \<and>
     (\<forall>i \<in> L. \<forall>j \<in> L. logged ch i \<and> logged ch j \<and>
        key e K (cs_id (ch_clients ch i)) = key e K (cs_id (ch_clients ch j)) \<longrightarrow> i = j) \<and>
     (\<forall>i \<in> L. cs_room (ch_clients ch i) \<noteq> None \<longrightarrow> logged ch i)"

definition chat_inv :: "env \<Rightarrow> (wstr \<Rightarrow> wstr) \<Rightarrow> chat \<Rightarrow> sid set \<Rightarrow> bool" where
  "chat_inv e K ch L \<longleftrightarrow>
     schema_inv K (ch_db ch) \<and> 2 \<le> length (ch_pool ch) \<and>
     rooms_inv e K ch L \<and> clients_inv ch L \<and> login_inv e K ch L"

lemma chat_invI:
  assumes "schema_inv K (ch_db ch)" "2 \<le> length (ch_pool ch)"
    "rooms_inv e K ch L" "clients_inv ch L" "login_inv e K ch L"
  shows "chat_inv e K ch L"
  using assms by (simp add: chat_inv_def)

lemma chat_invD:
  assumes "chat_inv e K ch L"
  shows "schema_inv K (ch_db ch)" "2 \<le> length (ch_pool ch)" "ch_pool ch \<noteq> []"
    "rooms_inv e K ch L" "clients_inv ch L" "login_inv e K ch L"
  using assms by (auto simp: chat_inv_def)

lemma room_okI:
  assumes "rm_roomId rm = n" "rm_users rm \<noteq> []" "rm_roomState rm = int (length (rm_users rm))"
    "sorted_wrt (<) (map fst (rm_users rm))"
    "\<exists>x \<in> set (tb_room (ch_db ch)). rr_room_id x = n \<and> rr_user_count x = int (length (rm_users rm))"
    "\<And>u i. (u, i) \<in> set (rm_users rm) \<Longrightarrow> i \<in> L \<and> ch_clients ch i = \<lparr>cs_room = Some r, cs_id = u\<rparr>"
    "\<And>a. a \<in> set (tb_account (ch_db ch)) \<Longrightarrow> ac_current_room_id a = Some n \<longleftrightarrow>
        K (ac_id a) \<in> key e K ` fst ` set (rm_users rm)"
    "fits e (refresh_packet (shown_ids e (ch_db ch) n))"
  shows "room_ok e K ch L n r rm"
  using assms by (simp add: room_ok_def)

lemma room_okD:
  assumes "room_ok e K ch L n r rm"
  shows "rm_roomId rm = n" "rm_users rm \<noteq> []" "rm_roomState rm = int (length (rm_users rm))"
    "sorted_wrt (<) (map fst (rm_users rm))"
    "\<exists>x \<in> set (tb_room (ch_db ch)). rr_room_id x = n \<and> rr_user_count x = int (length (rm_users rm))"
    "\<And>u i. (u, i) \<in> set (rm_users rm) \<Longrightarrow> i \<in> L"
    "\<And>u i. (u, i) \<in> set (rm_users rm) \<Longrightarrow> ch_clients ch i = \<lparr>cs_room = Some r, cs_id = u\<rparr>"
    "\<And>a. a \<in> set (tb_account (ch_db ch)) \<Longrightarrow> ac_current_room_id a = Some n \<longleftrightarrow>
        K (ac_id a) \<in> key e K ` fst ` set (rm_users rm)"
    "fits e (refresh_packet (shown_ids e (ch_db ch) n))"
  using assms by (simp_all add: room_ok_def)

lemma pool_irrelevant [simp]:
  "rooms_inv e K (ch\<lparr>ch_pool := p\<rparr>) L = rooms_inv e K ch L"
  "clients_inv (ch\<lparr>ch_pool := p\<rparr>) L = clients_inv ch L"
  "login_inv e K (ch\<lparr>ch_pool := p\<rparr>) L = login_inv e K ch L"
  by (simp_all add: rooms_inv_def room_ok_def clients_inv_def login_inv_def logged_def)

lemma chat_inv_pool: "chat_inv e K ch L \<Longrightarrow> 2 \<le> length p \<Longrightarrow> chat_inv e K (ch\<lparr>ch_pool := p\<rparr>) L"
  by (simp add: chat_inv_def)

text \<open>The account of a key is unique.\<close>

lemma account_unique:
  assumes "schema_inv K t" "a \<in> set (tb_account t)"
  shows "filter (\<lambda>b. K (ac_id b) = K (ac_id a)) (tb_account t) = [a]"
  using filter_unique [of "K \<circ> ac_id" "tb_account t" a] assms by (simp add: schema_inv_def)

lemma account_eq:
  assumes "schema_inv K t" "a \<in> set (tb_account t)" "b \<in> set (tb_account t)" "K (ac_id b) = K (ac_id a)"
  shows "b = a"
proof -
  have "b \<in> set (filter (\<lambda>b. K (ac_id b) = K (ac_id a)) (tb_account t))" using assms(3,4) by simp
  then show ?thesis using account_unique [OF assms(1,2)] by simp
qed

lemma room_row_unique:
  assumes "schema_inv K t" "x \<in> set (tb_room t)"
  shows "filter (\<lambda>y. rr_room_id y = rr_room_id x) (tb_room t) = [x]"
    and "filter (\<lambda>y. K (rr_room_name y) = K (rr_room_name x)) (tb_room t) = [x]"
  using filter_unique [of rr_room_id "tb_room t" x] filter_unique [of "K \<circ> rr_room_name" "tb_room t" x] assms
  by (simp_all add: schema_inv_def)

section \<open>Logging in and registering\<close>

definition login_reply :: "C_LOGIN \<Rightarrow> bool \<Rightarrow> packet" where
  "login_reply m ok = Pkt_S_LOGIN (S_LOGIN_set_pssd (C_LOGIN_pssd m) (S_LOGIN_set_id (C_LOGIN_id m)
     (S_LOGIN_set_issuccess ok S_LOGIN_new)))"

definition can_login :: "env \<Rightarrow> (wstr \<Rightarrow> wstr) \<Rightarrow> C_LOGIN \<Rightarrow> tables \<Rightarrow> bool" where
  "can_login e K m t \<longleftrightarrow>
     (\<exists>a \<in> set (tb_account t). K (ac_id a) = key e K (C_LOGIN_id m) \<and> K (ac_password a) = key e K (C_LOGIN_pssd m) \<and>
        \<not> ac_is_online a)"

definition logged_in :: "env \<Rightarrow> (wstr \<Rightarrow> wstr) \<Rightarrow> sid \<Rightarrow> utf8 \<Rightarrow> chat \<Rightarrow> chat" where
  "logged_in e K i u ch =
     ch\<lparr>ch_db := upd_account K (wname e u) (\<lambda>a. a\<lparr>ac_is_online := True\<rparr>) (ch_db ch),
        ch_clients := (ch_clients ch)(i := (ch_clients ch i)\<lparr>cs_id := u\<rparr>)\<rparr>"

lemma login_result:
  assumes e: "env_ok e K" and w: "ch_pool (w_content w) \<noteq> []" "i \<in> dom (w_sessions w)"
    and f: "fits e (login_reply m (can_login e K m (ch_db (w_content w))))"
  shows "\<exists>w' c. Respond_C_LOGIN e i m w = Inr w' \<and> dom (w_sessions w') = dom (w_sessions w) \<and> w_service w' = w_service w \<and> w_next w' = w_next w \<and>
    w_content w' = (if can_login e K m (ch_db (w_content w)) then logged_in e K i (C_LOGIN_id m) (w_content w)
       else w_content w)\<lparr>ch_pool := butlast (ch_pool (w_content w)) @ [c]\<rparr>"
proof -
  let ?ch = "w_content w" and ?id = "wname e (C_LOGIN_id m)" and ?pw = "wname e (C_LOGIN_pssd m)"
  let ?hit = "filter (\<lambda>a. K (ac_id a) = K ?id \<and> K (ac_password a) = K ?pw \<and> \<not> ac_is_online a) (tb_account (ch_db ?ch))"
  have od: "odbc_ok (en_odbc e) (sql_eval K)" using e by (simp add: env_ok_def)
  have can: "can_login e K m (ch_db ?ch) \<longleftrightarrow> ?hit \<noteq> []"
    by (auto simp: can_login_def key_def filter_empty_conv)
  show ?thesis
  proof (cases ?hit)
    case Nil
    then show ?thesis
      using w f can
      by (simp add: Respond_C_LOGIN_def pool_pop_ok db_must_eq [OF e] sql_eval_def Let_def Fetch_None [OF od]
          send_packet_ok login_reply_def [symmetric] pool_push_def DBConnectionPool_Push_def) (rule exI, rule refl)
  next
    case (Cons a as)
    then show ?thesis
      using w f can
      by (simp add: Respond_C_LOGIN_def pool_pop_ok db_must_eq [OF e] sql_eval_def Let_def Fetch_Some [OF od]
          send_packet_ok login_reply_def [symmetric] pool_push_def DBConnectionPool_Push_def SetId_def logged_in_def) (rule exI, rule refl)
  qed
qed

lemma upd_account_mem:
  "x \<in> set (tb_account t) \<Longrightarrow> (if K (ac_id x) = K i then f x else x) \<in> set (tb_account (upd_account K i f t))"
  by (simp add: upd_account_def)

text \<open>Changes of accounts that keep ids and rooms do not disturb the rooms.\<close>

lemma members_upd_account:
  assumes "\<And>a. ac_current_room_id (f a) = ac_current_room_id a" "\<And>a. ac_id (f a) = ac_id a"
  shows "map ac_id (members (upd_account K i f t) r) = map ac_id (members t r)"
proof -
  have "map ac_id (filter (\<lambda>a. ac_current_room_id a = Some r)
      (map (\<lambda>a. if K (ac_id a) = K i then f a else a) xs)) = map ac_id (filter (\<lambda>a. ac_current_room_id a = Some r) xs)" for xs
    by (induction xs) (simp_all add: assms)
  then show ?thesis by (simp add: members_def upd_account_def)
qed

lemma shown_ids_cong: "map ac_id (members t r) = map ac_id (members t' r) \<Longrightarrow> shown_ids e t r = shown_ids e t' r"
  unfolding shown_ids_def by (metis (mono_tags, lifting) list.map_comp comp_apply map_eq_conv)

text \<open>A room is not disturbed by changes that keep its row, the rooms of the accounts, and its clients.\<close>

lemma room_ok_cong:
  assumes "room_ok e K ch L n r rm"
    and "\<And>x. x \<in> set (tb_room (ch_db ch)) \<Longrightarrow> rr_room_id x = n \<Longrightarrow> x \<in> set (tb_room (ch_db ch'))"
    and "\<And>u i. (u, i) \<in> set (rm_users rm) \<Longrightarrow> i \<in> L' \<and> ch_clients ch' i = ch_clients ch i"
    and "\<And>a. a \<in> set (tb_account (ch_db ch')) \<Longrightarrow>
      \<exists>b \<in> set (tb_account (ch_db ch)). K (ac_id b) = K (ac_id a) \<and> (ac_current_room_id b = Some n \<longleftrightarrow> ac_current_room_id a = Some n)"
    and "shown_ids e (ch_db ch') n = shown_ids e (ch_db ch) n"
  shows "room_ok e K ch' L' n r rm"
proof (rule room_okI)
  show "ac_current_room_id a = Some n \<longleftrightarrow> K (ac_id a) \<in> key e K ` fst ` set (rm_users rm)"
    if "a \<in> set (tb_account (ch_db ch'))" for a
    using assms(4) [OF that] room_okD(8) [OF assms(1)] by metis
  show "\<exists>x \<in> set (tb_room (ch_db ch')). rr_room_id x = n \<and> rr_user_count x = int (length (rm_users rm))"
    using assms(2) room_okD(5) [OF assms(1)] by blast
  show "i \<in> L' \<and> ch_clients ch' i = \<lparr>cs_room = Some r, cs_id = u\<rparr>" if "(u, i) \<in> set (rm_users rm)" for u i
    using assms(3) [OF that] room_okD(7) [OF assms(1) that] by simp
qed (use room_okD(1-4,9) [OF assms(1)] assms(5) in simp_all)

lemma rooms_invD:
  assumes "rooms_inv e K ch L"
  shows "dom (ch_rooms ch) = room_ids (ch_db ch)"
    and "ch_next ch \<le> r \<Longrightarrow> ch_heap ch r = None"
    and "ch_rooms ch n = Some r \<Longrightarrow> \<exists>rm. ch_heap ch r = Some rm \<and> room_ok e K ch L n r rm"
  using assms by (auto simp: rooms_inv_def)

lemma login_invD:
  assumes "login_inv e K ch L" "i \<in> L"
  shows "logged ch i \<Longrightarrow> key e K (cs_id (ch_clients ch i)) \<noteq> K []"
    and "logged ch i \<Longrightarrow> \<exists>a \<in> set (tb_account (ch_db ch)). K (ac_id a) = key e K (cs_id (ch_clients ch i)) \<and> ac_is_online a"
    and "j \<in> L \<Longrightarrow> logged ch i \<Longrightarrow> logged ch j \<Longrightarrow>
      key e K (cs_id (ch_clients ch i)) = key e K (cs_id (ch_clients ch j)) \<Longrightarrow> i = j"
    and "cs_room (ch_clients ch i) = Some r \<Longrightarrow> logged ch i"
  using assms by (auto simp: login_inv_def)

lemma login_invI:
  assumes "\<And>i. i \<in> L \<Longrightarrow> logged ch i \<Longrightarrow> key e K (cs_id (ch_clients ch i)) \<noteq> K []"
    and "\<And>i. i \<in> L \<Longrightarrow> logged ch i \<Longrightarrow>
      \<exists>a \<in> set (tb_account (ch_db ch)). K (ac_id a) = key e K (cs_id (ch_clients ch i)) \<and> ac_is_online a"
    and "\<And>i j. i \<in> L \<Longrightarrow> j \<in> L \<Longrightarrow> logged ch i \<Longrightarrow> logged ch j \<Longrightarrow>
      key e K (cs_id (ch_clients ch i)) = key e K (cs_id (ch_clients ch j)) \<Longrightarrow> i = j"
    and "\<And>i r. i \<in> L \<Longrightarrow> cs_room (ch_clients ch i) = Some r \<Longrightarrow> logged ch i"
  shows "login_inv e K ch L"
  using assms unfolding login_inv_def by blast

lemma clients_invD:
  assumes "clients_inv ch L" "i \<in> L" "cs_room (ch_clients ch i) = Some r"
  shows "\<exists>n rm. ch_rooms ch n = Some r \<and> ch_heap ch r = Some rm \<and> (cs_id (ch_clients ch i), i) \<in> set (rm_users rm)"
  using assms unfolding clients_inv_def by blast

lemma users_live: "room_ok e K ch L n r rm \<Longrightarrow> L \<subseteq> D \<Longrightarrow> snd ` set (rm_users rm) \<subseteq> D"
  by (auto dest!: room_okD(6))

text \<open>A client without a login is in no room.\<close>

lemma not_in_room:
  assumes "chat_inv e K ch L" "\<not> logged ch i" "ch_rooms ch n = Some r" "ch_heap ch r = Some rm"
  shows "(u, i) \<notin> set (rm_users rm)"
proof
  assume u: "(u, i) \<in> set (rm_users rm)"
  have "room_ok e K ch L n r rm" using rooms_invD(3) [OF chat_invD(4) [OF assms(1)] assms(3)] assms(4) by auto
  then have "i \<in> L" "ch_clients ch i = \<lparr>cs_room = Some r, cs_id = u\<rparr>" using room_okD(6,7) u by blast+
  then show False using chat_invD(6) [OF assms(1)] assms(2) by (auto simp: login_inv_def)
qed

lemma logged_in_rooms_inv:
  assumes inv: "chat_inv e K ch L" and i: "\<not> logged ch i"
  shows "rooms_inv e K (logged_in e K i u ch) L" (is "rooms_inv e K ?ch L")
  unfolding rooms_inv_def
proof (intro conjI allI impI)
  note ri = rooms_invD [OF chat_invD(4) [OF inv]]
  have old: "\<exists>b \<in> set (tb_account (ch_db ch)). K (ac_id b) = K (ac_id x) \<and> ac_current_room_id b = ac_current_room_id x"
    if "x \<in> set (tb_account (ch_db ?ch))" for x
    using that by (auto simp: logged_in_def upd_account_def)
  show "dom (ch_rooms ?ch) = room_ids (ch_db ?ch)" using ri(1) by (simp add: logged_in_def)
  show "ch_heap ?ch r = None" if "ch_next ?ch \<le> r" for r using ri(2) [of r] that by (simp add: logged_in_def)
  fix n r assume "ch_rooms ?ch n = Some r"
  then have n: "ch_rooms ch n = Some r" by (simp add: logged_in_def)
  then obtain rm where rm: "ch_heap ch r = Some rm" "room_ok e K ch L n r rm" using ri(3) by blast
  have "room_ok e K ?ch L n r rm"
  proof (rule room_ok_cong [OF rm(2)])
    show "j \<in> L \<and> ch_clients ?ch j = ch_clients ch j" if "(v, j) \<in> set (rm_users rm)" for v j
      using not_in_room [OF inv i n rm(1)] that room_okD(6) [OF rm(2) that] by (auto simp: logged_in_def)
    show "\<exists>b \<in> set (tb_account (ch_db ch)). K (ac_id b) = K (ac_id x) \<and> (ac_current_room_id b = Some n \<longleftrightarrow> ac_current_room_id x = Some n)"
      if "x \<in> set (tb_account (ch_db ?ch))" for x
      using old [OF that] by auto
    show "shown_ids e (ch_db ?ch) n = shown_ids e (ch_db ch) n"
      by (rule shown_ids_cong) (simp add: logged_in_def members_upd_account)
  qed (simp add: logged_in_def)
  then show "\<exists>rm. ch_heap ?ch r = Some rm \<and> room_ok e K ?ch L n r rm" using rm(1) by (simp add: logged_in_def)
qed

lemma upd_online:
  assumes "x \<in> set (tb_account t)" "K (ac_id x) = k" "ac_is_online x \<or> k = key e K u"
  shows "\<exists>x \<in> set (tb_account (upd_account K (wname e u) (\<lambda>a. a\<lparr>ac_is_online := True\<rparr>) t)). K (ac_id x) = k \<and> ac_is_online x"
  by (rule bexI [OF _ upd_account_mem [OF assms(1)]]) (use assms(2,3) in \<open>auto simp: key_def\<close>)

lemma offline_fresh:
  assumes inv: "chat_inv e K ch L" and a: "a \<in> set (tb_account (ch_db ch))" "K (ac_id a) = key e K u" "\<not> ac_is_online a"
    and j: "j \<in> L" "logged ch j"
  shows "key e K (cs_id (ch_clients ch j)) \<noteq> key e K u"
proof
  assume "key e K (cs_id (ch_clients ch j)) = key e K u"
  then obtain b where "b \<in> set (tb_account (ch_db ch))" "K (ac_id b) = K (ac_id a)" "ac_is_online b"
    using login_invD(2) [OF chat_invD(6) [OF inv] j] a(2) by auto
  then show False using account_eq [OF chat_invD(1) [OF inv] a(1)] a(3) by blast
qed

lemma logged_in_login_inv:
  assumes inv: "chat_inv e K ch L" and u: "u \<noteq> []" "key e K u \<noteq> K []"
    and a: "a \<in> set (tb_account (ch_db ch))" "K (ac_id a) = key e K u" "\<not> ac_is_online a"
  shows "login_inv e K (logged_in e K i u ch) L" (is "login_inv e K ?ch L")
proof (rule login_invI)
  note li = login_invD [OF chat_invD(6) [OF inv]] and fresh = offline_fresh [OF inv a]
  let ?t = "upd_account K (wname e u) (\<lambda>a. a\<lparr>ac_is_online := True\<rparr>) (ch_db ch)"
  have cl: "cs_id (ch_clients ?ch j) = (if j = i then u else cs_id (ch_clients ch j))" "cs_room (ch_clients ?ch j) = cs_room (ch_clients ch j)"
    "logged ?ch j \<longleftrightarrow> j = i \<or> logged ch j" "ch_db ?ch = ?t" for j
    using u(1) by (simp_all add: logged_in_def logged_def)
  show "key e K (cs_id (ch_clients ?ch j)) \<noteq> K []" if "j \<in> L" "logged ?ch j" for j
    using that u(2) li(1) [of j] cl by auto
  show "\<exists>a \<in> set (tb_account (ch_db ?ch)). K (ac_id a) = key e K (cs_id (ch_clients ?ch j)) \<and> ac_is_online a"
    if j: "j \<in> L" "logged ?ch j" for j
  proof (cases "j = i")
    case True
    then show ?thesis using upd_online [of a "ch_db ch" K "key e K u" e u] a(1,2) unfolding cl by simp
  next
    case False
    then obtain x where "x \<in> set (tb_account (ch_db ch))" "K (ac_id x) = key e K (cs_id (ch_clients ch j))" "ac_is_online x"
      using li(2) [of j] j cl by auto
    then show ?thesis using upd_online [of x "ch_db ch" K "key e K (cs_id (ch_clients ch j))" e u] False unfolding cl by simp
  qed
  show "j = k" if "j \<in> L" "k \<in> L" "logged ?ch j" "logged ?ch k"
    "key e K (cs_id (ch_clients ?ch j)) = key e K (cs_id (ch_clients ?ch k))" for j k
    using that li(3) [of j k] fresh [of j] fresh [of k] cl by (auto split: if_splits)
  show "logged ?ch j" if "j \<in> L" "cs_room (ch_clients ?ch j) = Some r" for j r
    using that li(4) [of j r] cl by auto
qed

lemma logged_in_inv:
  assumes inv: "chat_inv e K ch L" and i: "i \<in> L" "\<not> logged ch i"
    and u: "u \<noteq> []" "key e K u \<noteq> K []"
    and a: "a \<in> set (tb_account (ch_db ch))" "K (ac_id a) = key e K u" "\<not> ac_is_online a"
  shows "chat_inv e K (logged_in e K i u ch) L"
proof -
  have "schema_inv K (upd_account K (wname e u) (\<lambda>a. a\<lparr>ac_is_online := True\<rparr>) (ch_db ch))"
    by (rule schema_upd_account) (use chat_invD(1) [OF inv] in \<open>auto simp: schema_inv_def\<close>)
  moreover have "clients_inv (logged_in e K i u ch) L"
    using chat_invD(5,6) [OF inv] i unfolding clients_inv_def login_inv_def by (auto simp: logged_in_def)
  ultimately show ?thesis
    using chat_invD(2) [OF inv] logged_in_rooms_inv [OF inv i(2), of u] logged_in_login_inv [OF inv u a, of i]
    by (simp add: chat_inv_def logged_in_def)
qed

definition register_reply :: "C_REGISTER \<Rightarrow> bool \<Rightarrow> packet" where
  "register_reply m ok = Pkt_S_REGISTER (S_REGISTER_set_issuccess ok
     (S_REGISTER_set_pssd (C_REGISTER_pssd m) (S_REGISTER_set_id (C_REGISTER_id m) S_REGISTER_new)))"

definition can_register :: "env \<Rightarrow> (wstr \<Rightarrow> wstr) \<Rightarrow> C_REGISTER \<Rightarrow> tables \<Rightarrow> bool" where
  "can_register e K m t \<longleftrightarrow> \<not> has_account K (wname e (C_REGISTER_id m)) t \<and>
     chars (wname e (C_REGISTER_id m)) \<le> 30 \<and> chars (wname e (C_REGISTER_pssd m)) \<le> 255"

definition registered :: "env \<Rightarrow> C_REGISTER \<Rightarrow> chat \<Rightarrow> chat" where
  "registered e m ch =
     ch\<lparr>ch_db := (ch_db ch)\<lparr>tb_account := tb_account (ch_db ch) @
        [\<lparr>ac_id = wname e (C_REGISTER_id m), ac_password = wname e (C_REGISTER_pssd m),
          ac_create_date = GetCurrentTimeStamp e, ac_is_online = False, ac_current_room_id = None\<rparr>]\<rparr>\<rparr>"

lemma register_result:
  assumes e: "env_ok e K" and w: "ch_pool (w_content w) \<noteq> []" "i \<in> dom (w_sessions w)"
    and f: "fits e (register_reply m (can_register e K m (ch_db (w_content w))))"
  shows "\<exists>w' c. Respond_C_REGISTER e i m w = Inr w' \<and> dom (w_sessions w') = dom (w_sessions w) \<and> w_service w' = w_service w \<and> w_next w' = w_next w \<and>
    w_content w' = (if can_register e K m (ch_db (w_content w)) then registered e m (w_content w)
       else w_content w)\<lparr>ch_pool := butlast (ch_pool (w_content w)) @ [c]\<rparr>"
proof (cases "can_register e K m (ch_db (w_content w))")
  case True
  then have eval: "sql_eval K InsertAccount [SqlStr (wname e (C_REGISTER_id m)), SqlStr (wname e (C_REGISTER_pssd m)),
      SqlTime (GetCurrentTimeStamp e), SqlInt 0] (ch_db (w_content w)) = Some (None, ch_db (registered e m (w_content w)))"
    by (auto simp: sql_eval_def can_register_def registered_def)
  show ?thesis
    using w f True
    by (simp add: Respond_C_REGISTER_def pool_pop_ok db_exec_eq [OF e] eval Let_def
        send_packet_ok register_reply_def [symmetric] pool_push_def DBConnectionPool_Push_def)
      (simp add: registered_def, rule exI, rule refl)
next
  case False
  then have eval: "sql_eval K InsertAccount [SqlStr (wname e (C_REGISTER_id m)), SqlStr (wname e (C_REGISTER_pssd m)),
      SqlTime (GetCurrentTimeStamp e), SqlInt 0] (ch_db (w_content w)) = None"
    by (auto simp: sql_eval_def can_register_def not_le)
  show ?thesis
    using w f False
    by (simp add: Respond_C_REGISTER_def pool_pop_ok db_exec_eq [OF e] eval Let_def
        send_packet_ok register_reply_def [symmetric] pool_push_def DBConnectionPool_Push_def)
      (rule exI, rule refl)
qed

text \<open>Only the tables of a state change, in a way that disturbs no room and no login.\<close>

lemma chat_inv_db:
  assumes inv: "chat_inv e K ch L" and t: "schema_inv K t" "tb_room t = tb_room (ch_db ch)"
    and old: "\<And>a. a \<in> set (tb_account (ch_db ch)) \<Longrightarrow> a \<in> set (tb_account t)"
    and new: "\<And>a. a \<in> set (tb_account t) \<Longrightarrow> a \<notin> set (tb_account (ch_db ch)) \<Longrightarrow>
      ac_current_room_id a = None \<and> \<not> has_account K (ac_id a) (ch_db ch)"
    and mem: "\<And>n. members t n = members (ch_db ch) n"
  shows "chat_inv e K (ch\<lparr>ch_db := t\<rparr>) L"
proof -
  have acc: "K (ac_id a) \<noteq> key e K u" if "room_ok e K ch L n r rm" "(u, i) \<in> set (rm_users rm)"
    "\<not> has_account K (ac_id a) (ch_db ch)" for n r rm u i a
  proof -
    have "logged ch i" "i \<in> L" "cs_id (ch_clients ch i) = u"
      using room_okD(6,7) [OF that(1,2)] login_invD(4) [OF chat_invD(6) [OF inv]] by auto
    then show ?thesis
      using login_invD(2) [OF chat_invD(6) [OF inv], of i] that(3) by (auto simp: has_account_def)
  qed
  have "room_ok e K (ch\<lparr>ch_db := t\<rparr>) L n r rm" if ok: "room_ok e K ch L n r rm" for n r rm
  proof (rule room_okI)
    show "ac_current_room_id a = Some n \<longleftrightarrow> K (ac_id a) \<in> key e K ` fst ` set (rm_users rm)"
      if "a \<in> set (tb_account (ch_db (ch\<lparr>ch_db := t\<rparr>)))" for a
    proof (cases "a \<in> set (tb_account (ch_db ch))")
      case True
      then show ?thesis by (rule room_okD(8) [OF ok])
    next
      case False
      then have n: "ac_current_room_id a = None" "\<not> has_account K (ac_id a) (ch_db ch)" using new [of a] that by auto
      then have "K (ac_id a) \<notin> key e K ` fst ` set (rm_users rm)" using acc [OF ok _ n(2)] by force
      then show ?thesis using n(1) by simp
    qed
    show "i \<in> L \<and> ch_clients (ch\<lparr>ch_db := t\<rparr>) i = \<lparr>cs_room = Some r, cs_id = u\<rparr>" if "(u, i) \<in> set (rm_users rm)" for u i
      using room_okD(6,7) [OF ok that] by simp
  qed (use room_okD(1-5,9) [OF ok] t(2) mem in \<open>simp_all add: shown_ids_def\<close>)
  then have "rooms_inv e K (ch\<lparr>ch_db := t\<rparr>) L"
    using chat_invD(4) [OF inv] t(2) unfolding rooms_inv_def room_ids_def by simp blast
  moreover have "login_inv e K (ch\<lparr>ch_db := t\<rparr>) L"
    using chat_invD(6) [OF inv] old unfolding login_inv_def logged_def by simp blast
  ultimately show ?thesis
    using inv t(1) by (simp add: chat_inv_def clients_inv_def)
qed

lemma registered_inv:
  assumes inv: "chat_inv e K ch L" and can: "can_register e K m (ch_db ch)"
  shows "chat_inv e K (registered e m ch) L"
  unfolding registered_def
proof (rule chat_inv_db [OF inv])
  let ?t = "(ch_db ch)\<lparr>tb_account := tb_account (ch_db ch) @
        [\<lparr>ac_id = wname e (C_REGISTER_id m), ac_password = wname e (C_REGISTER_pssd m),
          ac_create_date = GetCurrentTimeStamp e, ac_is_online = False, ac_current_room_id = None\<rparr>]\<rparr>"
  show "schema_inv K ?t"
    using schema_insert_account [OF chat_invD(1) [OF inv]] can by (simp add: can_register_def)
  show "members ?t n = members (ch_db ch) n" for n by (simp add: members_def)
qed (use can in \<open>auto simp: can_register_def\<close>)

section \<open>The lobby\<close>

definition lobby_reply :: "env \<Rightarrow> tables \<Rightarrow> packet" where
  "lobby_reply e t = Pkt_S_REFRESH_LOBBY (lobby_packet e
     (map (\<lambda>x. [SqlStr (take 13 (rr_room_name x)), SqlInt (rr_user_count x)]) (tb_room t)))"

lemma lobby_result:
  assumes e: "env_ok e K" and w: "ch_pool (w_content w) \<noteq> []" "i \<in> dom (w_sessions w)"
    and f: "fits e (lobby_reply e (ch_db (w_content w)))"
  shows "\<exists>w' c. Respond_C_REFRESH_LOBBY e i m w = Inr w' \<and> dom (w_sessions w') = dom (w_sessions w) \<and> w_service w' = w_service w \<and> w_next w' = w_next w \<and>
    w_content w' = (w_content w)\<lparr>ch_pool := butlast (ch_pool (w_content w)) @ [c]\<rparr>"
proof -
  have od: "odbc_ok (en_odbc e) (sql_eval K)" using e by (simp add: env_ok_def)
  show ?thesis
    using w f
    by (simp add: Respond_C_REFRESH_LOBBY_def pool_pop_ok db_must_eq [OF e] sql_eval_def fetch_all_eq [OF od] comp_def
        column_value_simps [OF od] lobby_reply_def [symmetric] send_packet_ok pool_push_def DBConnectionPool_Push_def)
      (rule exI, rule refl)
qed

section \<open>Chatting\<close>

definition chat_packet :: "C_CHAT_LOG \<Rightarrow> packet" where
  "chat_packet m = Pkt_S_CHAT_LOG (S_CHAT_LOG_set_log (C_CHAT_LOG_log m) (S_CHAT_LOG_set_id (C_CHAT_LOG_id m) S_CHAT_LOG_new))"

definition chatted :: "env \<Rightarrow> int \<Rightarrow> C_CHAT_LOG \<Rightarrow> chat \<Rightarrow> chat" where
  "chatted e n m ch = ch\<lparr>ch_db := (ch_db ch)\<lparr>tb_log := tb_log (ch_db ch) @
     [\<lparr>lg_account_id = wname e (C_CHAT_LOG_id m), lg_room_id = n, lg_message = wname e (C_CHAT_LOG_log m)\<rparr>]\<rparr>\<rparr>"

text \<open>The room of a client that is in one, with its account.\<close>

lemma client_room:
  assumes inv: "chat_inv e K ch L" and i: "i \<in> L" "cs_room (ch_clients ch i) = Some r"
  obtains n rm a x where "ch_rooms ch n = Some r" "ch_heap ch r = Some rm" "room_ok e K ch L n r rm"
    "(cs_id (ch_clients ch i), i) \<in> set (rm_users rm)"
    "a \<in> set (tb_account (ch_db ch))" "K (ac_id a) = key e K (cs_id (ch_clients ch i))" "ac_current_room_id a = Some n"
    "x \<in> set (tb_room (ch_db ch))" "rr_room_id x = n" "rr_user_count x = int (length (rm_users rm))"
proof -
  obtain n rm where n: "ch_rooms ch n = Some r" "ch_heap ch r = Some rm" "(cs_id (ch_clients ch i), i) \<in> set (rm_users rm)"
    using clients_invD [OF chat_invD(5) [OF inv] i] by blast
  then have ok: "room_ok e K ch L n r rm" using rooms_invD(3) [OF chat_invD(4) [OF inv] n(1)] by auto
  have "logged ch i" using login_invD(4) [OF chat_invD(6) [OF inv] i] .
  then obtain a where a: "a \<in> set (tb_account (ch_db ch))" "K (ac_id a) = key e K (cs_id (ch_clients ch i))"
    using login_invD(2) [OF chat_invD(6) [OF inv] i(1)] by blast
  moreover have "ac_current_room_id a = Some n"
    using room_okD(8) [OF ok a(1)] a(2) n(3) by force
  moreover obtain x where "x \<in> set (tb_room (ch_db ch))" "rr_room_id x = n" "rr_user_count x = int (length (rm_users rm))"
    using room_okD(5) [OF ok] by blast
  ultimately show thesis using that n ok by blast
qed

lemma chat_result:
  assumes e: "env_ok e K" and inv: "chat_inv e K (w_content w) L" and L: "L \<subseteq> dom (w_sessions w)"
    and i: "i \<in> L" "cs_room (ch_clients (w_content w) i) = Some r" "C_CHAT_LOG_id m = cs_id (ch_clients (w_content w) i)"
    and f: "fits e (chat_packet m)" "utf8_bytes (wname e (C_CHAT_LOG_log m)) \<le> 65535"
  shows "\<exists>n rm c. ch_rooms (w_content w) n = Some r \<and> ch_heap (w_content w) r = Some rm \<and>
    Respond_C_CHAT_LOG e i m w = Inr (sent_all e (chat_packet m) None (rm_users rm)
      (upd_chat (\<lambda>ch. (chatted e n m ch)\<lparr>ch_pool := butlast (ch_pool ch) @ [c]\<rparr>) w))"
proof -
  have od: "odbc_ok (en_odbc e) (sql_eval K)" using e by (simp add: env_ok_def)
  obtain n rm a x where n: "ch_rooms (w_content w) n = Some r" "ch_heap (w_content w) r = Some rm"
      "room_ok e K (w_content w) L n r rm"
    and a: "a \<in> set (tb_account (ch_db (w_content w)))" "K (ac_id a) = key e K (C_CHAT_LOG_id m)" "ac_current_room_id a = Some n"
    and x: "x \<in> set (tb_room (ch_db (w_content w)))" "rr_room_id x = n"
    using client_room [OF inv i(1,2)] i(3) by metis
  let ?t = "ch_db (w_content w)"
  have acc: "filter (\<lambda>b. K (ac_id b) = K (wname e (C_CHAT_LOG_id m))) (tb_account ?t) = [a]"
    using account_unique [OF chat_invD(1) [OF inv] a(1)] a(2) by (simp add: key_def)
  have row: "filter (\<lambda>y. n = rr_room_id y) (tb_room ?t) = [x]"
    using room_row_unique(1) [OF chat_invD(1) [OF inv] x(1)] x(2) by (simp add: eq_commute)
  have s1: "sql_eval K SelectUserRoom [SqlStr (wname e (C_CHAT_LOG_id m))] ?t =
      Some (Some [[SqlInt n, SqlStr (rr_room_name x)]], ?t)"
    by (simp add: sql_eval_def acc a(3) row room_value_def)
  have "has_account K (wname e (C_CHAT_LOG_id m)) ?t" "n \<in> room_ids ?t"
    using a x by (auto simp: has_account_def key_def room_ids_def)
  then have s2: "sql_eval K InsertLog [SqlStr (wname e (C_CHAT_LOG_id m)), SqlInt n, SqlStr (wname e (C_CHAT_LOG_log m))] ?t =
      Some (None, ch_db (chatted e n m (w_content w)))"
    using f(2) by (simp add: sql_eval_def chatted_def)
  note us = users_live [OF n(3) L]
  show ?thesis
    using n(1,2) chat_invD(3) [OF inv] us f(1)
    by (simp add: Respond_C_CHAT_LOG_def pool_pop_ok db_must_eq [OF e] s1 s2 Fetch_Some [OF od] Let_def
        column_value_simps [OF od] GetRoom_def BroadCast_def broadcast_users_ok chat_packet_def [symmetric]
        pool_push_sent_all)
      (rule exI [of _ n], simp add: pool_push_def DBConnectionPool_Push_def chatted_def, rule exI, rule refl)
qed

lemma chatted_inv:
  assumes inv: "chat_inv e K ch L" and i: "i \<in> L" "cs_room (ch_clients ch i) = Some r" "C_CHAT_LOG_id m = cs_id (ch_clients ch i)"
    and n: "ch_rooms ch n = Some r"
  shows "chat_inv e K (chatted e n m ch) L"
  unfolding chatted_def
proof (rule chat_inv_db [OF inv])
  have "n \<in> room_ids (ch_db ch)" using rooms_invD(1) [OF chat_invD(4) [OF inv]] n by blast
  moreover obtain a where "a \<in> set (tb_account (ch_db ch))" "K (ac_id a) = key e K (C_CHAT_LOG_id m)"
    using client_room [OF inv i(1,2)] i(3) by metis
  ultimately show "schema_inv K ((ch_db ch)\<lparr>tb_log := tb_log (ch_db ch) @
      [\<lparr>lg_account_id = wname e (C_CHAT_LOG_id m), lg_room_id = n, lg_message = wname e (C_CHAT_LOG_log m)\<rparr>]\<rparr>)"
    using chat_invD(1) [OF inv] by (auto simp: schema_inv_def has_account_def room_ids_def key_def)
qed (simp_all add: members_def)

section \<open>Creating a room\<close>

text \<open>The account of a logged-in client that is in no room has no current room.\<close>

lemma account_free:
  assumes inv: "chat_inv e K ch L" and i: "i \<in> L" "logged ch i" "cs_room (ch_clients ch i) = None"
    and a: "a \<in> set (tb_account (ch_db ch))" "K (ac_id a) = key e K (cs_id (ch_clients ch i))"
  shows "ac_current_room_id a = None"
proof (rule ccontr)
  assume "ac_current_room_id a \<noteq> None"
  then obtain n where n: "ac_current_room_id a = Some n" by auto
  then have "n \<in> room_ids (ch_db ch)" using chat_invD(1) [OF inv] a(1) by (auto simp: schema_inv_def)
  then obtain r where r: "ch_rooms ch n = Some r" using rooms_invD(1) [OF chat_invD(4) [OF inv]] by blast
  then obtain rm where ok: "room_ok e K ch L n r rm" using rooms_invD(3) [OF chat_invD(4) [OF inv]] by blast
  then obtain u j where u: "(u, j) \<in> set (rm_users rm)" "K (ac_id a) = key e K u"
    using room_okD(8) [OF ok a(1)] n by force
  have j: "j \<in> L" "ch_clients ch j = \<lparr>cs_room = Some r, cs_id = u\<rparr>" using room_okD(6,7) [OF ok u(1)] .
  then have "logged ch j" using login_invD(4) [OF chat_invD(6) [OF inv]] by simp
  then have "i = j" using login_invD(3) [OF chat_invD(6) [OF inv] i(1) j(1) i(2)] u(2) a(2) j(2) by simp
  then show False using i(3) j(2) by simp
qed

text \<open>Moving an account into or out of a room.\<close>

definition move_account :: "env \<Rightarrow> (wstr \<Rightarrow> wstr) \<Rightarrow> utf8 \<Rightarrow> int option \<Rightarrow> tables \<Rightarrow> tables" where
  "move_account e K u r t = upd_account K (wname e u) (\<lambda>a. a\<lparr>ac_current_room_id := r\<rparr>) t"

lemma move_account_mem:
  assumes "a \<in> set (tb_account (move_account e K u r t))"
  obtains b where "b \<in> set (tb_account t)" "ac_id a = ac_id b" "ac_is_online a = ac_is_online b"
    "ac_current_room_id a = (if K (ac_id b) = key e K u then r else ac_current_room_id b)"
  using assms by (auto simp: move_account_def upd_account_def key_def split: if_splits)

lemma move_account_online:
  assumes "\<exists>a \<in> set (tb_account t). K (ac_id a) = k \<and> ac_is_online a"
  shows "\<exists>a \<in> set (tb_account (move_account e K u r t)). K (ac_id a) = k \<and> ac_is_online a"
proof -
  obtain a where a: "a \<in> set (tb_account t)" "K (ac_id a) = k" "ac_is_online a" using assms by blast
  show ?thesis
    unfolding move_account_def by (rule bexI [OF _ upd_account_mem [OF a(1)]]) (use a(2,3) in auto)
qed

lemma members_move_other:
  assumes "r \<noteq> Some n" "\<And>a. a \<in> set (tb_account t) \<Longrightarrow> K (ac_id a) = key e K u \<Longrightarrow> ac_current_room_id a \<noteq> Some n"
  shows "members (move_account e K u r t) n = members t n"
proof -
  have "filter (\<lambda>a. ac_current_room_id a = Some n) (map (\<lambda>a. if K (ac_id a) = K (wname e u) then a\<lparr>ac_current_room_id := r\<rparr> else a) xs)
      = filter (\<lambda>a. ac_current_room_id a = Some n) xs" if "set xs \<subseteq> set (tb_account t)" for xs
    using that assms by (induction xs) (auto simp: key_def)
  then show ?thesis by (simp add: members_def move_account_def upd_account_def)
qed

definition create_reply :: "C_CREATE_ROOM \<Rightarrow> bool \<Rightarrow> packet" where
  "create_reply m ok = Pkt_S_CREATE_ROOM (S_CREATE_ROOM_set_issuccess ok
     (S_CREATE_ROOM_set_roomname (C_CREATE_ROOM_roomname m) S_CREATE_ROOM_new))"

definition can_create :: "env \<Rightarrow> (wstr \<Rightarrow> wstr) \<Rightarrow> utf8 \<Rightarrow> tables \<Rightarrow> bool" where
  "can_create e K name t \<longleftrightarrow> (\<forall>x \<in> set (tb_room t). K (rr_room_name x) \<noteq> key e K name)"

definition room_added :: "wstr \<Rightarrow> tables \<Rightarrow> tables" where
  "room_added name t = t\<lparr>tb_room := tb_room t @ [\<lparr>rr_room_id = tb_room_auto t, rr_room_name = name, rr_user_count = 1\<rparr>],
     tb_room_auto := tb_room_auto t + 1\<rparr>"

definition created_db :: "env \<Rightarrow> (wstr \<Rightarrow> wstr) \<Rightarrow> utf8 \<Rightarrow> utf8 \<Rightarrow> tables \<Rightarrow> tables" where
  "created_db e K u name t = move_account e K u (Some (tb_room_auto t)) (room_added (wname e name) t)"

definition created :: "env \<Rightarrow> (wstr \<Rightarrow> wstr) \<Rightarrow> sid \<Rightarrow> utf8 \<Rightarrow> utf8 \<Rightarrow> chat \<Rightarrow> chat" where
  "created e K i u name ch =
     (let n = tb_room_auto (ch_db ch); r = ch_next ch in
      ch\<lparr>ch_db := created_db e K u name (ch_db ch), ch_next := r + 1,
         ch_heap := (ch_heap ch)(r \<mapsto> \<lparr>rm_roomState = 1, rm_users = [(u, i)], rm_roomId = n\<rparr>),
         ch_clients := (ch_clients ch)(i := (ch_clients ch i)\<lparr>cs_room := Some r\<rparr>),
         ch_rooms := (ch_rooms ch)(n \<mapsto> r)\<rparr>)"

lemma create_result:
  assumes e: "env_ok e K" and w: "ch_pool (w_content w) \<noteq> []" "i \<in> dom (w_sessions w)"
    and f: "fits e (create_reply m (can_create e K (C_CREATE_ROOM_roomname m) (ch_db (w_content w))))"
      "chars (wname e (C_CREATE_ROOM_roomname m)) \<le> 30"
  shows "\<exists>w' c. Respond_C_CREATE_ROOM e i m w = Inr w' \<and> dom (w_sessions w') = dom (w_sessions w) \<and> w_service w' = w_service w \<and> w_next w' = w_next w \<and>
    w_content w' = (if can_create e K (C_CREATE_ROOM_roomname m) (ch_db (w_content w))
       then created e K i (C_CREATE_ROOM_id m) (C_CREATE_ROOM_roomname m) (w_content w)
       else w_content w)\<lparr>ch_pool := butlast (ch_pool (w_content w)) @ [c]\<rparr>"
proof -
  let ?t = "ch_db (w_content w)" and ?name = "wname e (C_CREATE_ROOM_roomname m)" and ?id = "wname e (C_CREATE_ROOM_id m)"
  let ?hit = "filter (\<lambda>x. K (rr_room_name x) = K ?name) (tb_room ?t)"
  have od: "odbc_ok (en_odbc e) (sql_eval K)" using e by (simp add: env_ok_def)
  have can: "can_create e K (C_CREATE_ROOM_roomname m) ?t \<longleftrightarrow> ?hit = []"
    by (auto simp: can_create_def key_def filter_empty_conv)
  have s1: "sql_eval K SelectRoomId [SqlStr ?name] t =
      Some (Some (map (\<lambda>x. [SqlInt (rr_room_id x)]) (filter (\<lambda>x. K (rr_room_name x) = K ?name) (tb_room t))), t)" for t
    by (simp add: sql_eval_def)
  show ?thesis
  proof (cases ?hit)
    case Nil
    then have s2: "sql_eval K InsertRoom [SqlStr ?name] ?t = Some (None, room_added ?name ?t)"
      using f(2) by (auto simp: sql_eval_def room_added_def filter_empty_conv)
    have s3: "sql_eval K UpdateCurrentRoom [SqlInt (tb_room_auto ?t), SqlStr ?id] (room_added ?name ?t) =
        Some (None, created_db e K (C_CREATE_ROOM_id m) (C_CREATE_ROOM_roomname m) ?t)"
      by (simp add: sql_eval_def room_added_def room_ids_def created_db_def move_account_def)
    have new: "filter (\<lambda>x. K (rr_room_name x) = K ?name) (tb_room (room_added ?name ?t)) =
        [\<lparr>rr_room_id = tb_room_auto ?t, rr_room_name = ?name, rr_user_count = 1\<rparr>]"
      using Nil by (simp add: room_added_def)
    show ?thesis
      using w f(1) can Nil
      by (simp add: Respond_C_CREATE_ROOM_def create_room_def pool_pop_ok db_must_eq [OF e] s1 s2 s3 new Let_def
          Fetch_None [OF od] Fetch_Some [OF od] column_value_simps [OF od] Room_new_def on_room_def SetRoom_def AddRoom_def
          send_packet_ok create_reply_def [symmetric] pool_push_def DBConnectionPool_Push_def created_def Empty_def)
        (rule exI, rule refl)
  next
    case (Cons x xs)
    then show ?thesis
      using w f(1) can
      by (simp add: Respond_C_CREATE_ROOM_def pool_pop_ok db_must_eq [OF e] s1 Let_def Fetch_Some [OF od] column_value_simps [OF od]
          send_packet_ok create_reply_def [symmetric] pool_push_def DBConnectionPool_Push_def)
        (rule exI, rule refl)
  qed
qed

end
