(* ===== verification/Server_Rooms.thy ===== *)
theory Server_Rooms
  imports Server_Inv
begin

text \<open>
  Creating, joining and leaving a room, and disconnecting, keep the invariant of the chat server.
\<close>

section \<open>A created room\<close>

lemma created_schema:
  assumes inv: "schema_inv K t" and can: "can_create e K name t"
  shows "schema_inv K (created_db e K u name t)"
proof -
  have "schema_inv K (room_added (wname e name) t)"
    using schema_insert_room [OF inv, of "wname e name"] can by (simp add: room_added_def can_create_def key_def)
  then show ?thesis
    unfolding created_db_def move_account_def
    by (rule schema_upd_account) (auto simp: room_added_def room_ids_def)
qed

lemma room_added_sel [simp]:
  "tb_account (room_added name t) = tb_account t"
  "members (room_added name t) n = members t n"
  "tb_room (move_account e K u r t) = tb_room t"
  "room_ids (move_account e K u r t) = room_ids t"
  "room_ids (room_added name t) = insert (tb_room_auto t) (room_ids t)"
  by (simp_all add: room_added_def members_def move_account_def room_ids_def)

text \<open>The logins are not disturbed by changes that keep the ids of the clients and the online accounts.\<close>

lemma login_inv_cong:
  assumes "login_inv e K ch L" "L' \<subseteq> L"
    and "\<And>j. j \<in> L' \<Longrightarrow> cs_id (ch_clients ch' j) = cs_id (ch_clients ch j)"
    and "\<And>j. j \<in> L' \<Longrightarrow> logged ch j \<Longrightarrow>
      \<exists>a \<in> set (tb_account (ch_db ch')). K (ac_id a) = key e K (cs_id (ch_clients ch j)) \<and> ac_is_online a"
    and "\<And>j r. j \<in> L' \<Longrightarrow> cs_room (ch_clients ch' j) = Some r \<Longrightarrow> logged ch j"
  shows "login_inv e K ch' L'"
proof (rule login_invI)
  have log: "logged ch' j \<longleftrightarrow> logged ch j" if "j \<in> L'" for j using assms(3) [OF that] by (simp add: logged_def)
  note li = login_invD [OF assms(1) subsetD [OF assms(2)]]
  show "key e K (cs_id (ch_clients ch' j)) \<noteq> K []" if "j \<in> L'" "logged ch' j" for j
    using that li(1) [of j] log assms(3) by auto
  show "\<exists>a \<in> set (tb_account (ch_db ch')). K (ac_id a) = key e K (cs_id (ch_clients ch' j)) \<and> ac_is_online a"
    if "j \<in> L'" "logged ch' j" for j
    using that assms(4) [of j] log assms(3) by auto
  show "j = k" if "j \<in> L'" "k \<in> L'" "logged ch' j" "logged ch' k"
    "key e K (cs_id (ch_clients ch' j)) = key e K (cs_id (ch_clients ch' k))" for j k
    using that li(3) [of j k] log assms(2,3) by auto
  show "logged ch' j" if "j \<in> L'" "cs_room (ch_clients ch' j) = Some r" for j r
    using that assms(5) [of j r] log by auto
qed

lemma client_set_room: "cs_id c = u \<Longrightarrow> c\<lparr>cs_room := x\<rparr> = \<lparr>cs_room = x, cs_id = u\<rparr>"
  by (cases c) simp

lemma created_sel:
  "ch_db (created e K i u name ch) = created_db e K u name (ch_db ch)" "ch_next (created e K i u name ch) = ch_next ch + 1"
  "ch_heap (created e K i u name ch) =
    (ch_heap ch)(ch_next ch \<mapsto> \<lparr>rm_roomState = 1, rm_users = [(u, i)], rm_roomId = tb_room_auto (ch_db ch)\<rparr>)"
  "ch_clients (created e K i u name ch) = (ch_clients ch)(i := (ch_clients ch i)\<lparr>cs_room := Some (ch_next ch)\<rparr>)"
  "ch_rooms (created e K i u name ch) = (ch_rooms ch)(tb_room_auto (ch_db ch) \<mapsto> ch_next ch)"
  "ch_pool (created e K i u name ch) = ch_pool ch"
  by (simp_all add: created_def Let_def)

lemma created_fresh:
  assumes "chat_inv e K ch L"
  shows "tb_room_auto (ch_db ch) \<notin> room_ids (ch_db ch)" "ch_heap ch (ch_next ch) = None"
  using chat_invD(1) [OF assms] rooms_invD(2) [OF chat_invD(4) [OF assms]] by (auto simp: schema_inv_def room_ids_def)

lemma created_account:
  assumes "a \<in> set (tb_account (created_db e K u name t))"
  obtains b where "b \<in> set (tb_account t)" "ac_id a = ac_id b"
    "ac_current_room_id a = (if K (ac_id b) = key e K u then Some (tb_room_auto t) else ac_current_room_id b)"
proof -
  have "\<exists>b \<in> set (tb_account t). ac_id a = ac_id b \<and>
      ac_current_room_id a = (if K (ac_id b) = key e K u then Some (tb_room_auto t) else ac_current_room_id b)"
    using assms unfolding created_db_def by (rule move_account_mem) (use room_added_sel(1) in auto)
  then show thesis using that by blast
qed

text \<open>The new room, and what creating it leaves of the others.\<close>

lemma created_room_new:
  assumes inv: "chat_inv e K ch L" and i: "i \<in> L" "cs_id (ch_clients ch i) = u"
    and f: "fits e (refresh_packet (shown_ids e (created_db e K u name (ch_db ch)) (tb_room_auto (ch_db ch))))"
  shows "room_ok e K (created e K i u name ch) L (tb_room_auto (ch_db ch)) (ch_next ch)
    \<lparr>rm_roomState = 1, rm_users = [(u, i)], rm_roomId = tb_room_auto (ch_db ch)\<rparr>"
    (is "room_ok e K ?ch L ?n ?r ?rm")
proof (rule room_okI)
  show "ac_current_room_id a = Some ?n \<longleftrightarrow> K (ac_id a) \<in> key e K ` fst ` set (rm_users ?rm)"
    if a: "a \<in> set (tb_account (ch_db ?ch))" for a
  proof -
    obtain b where b: "b \<in> set (tb_account (ch_db ch))" "ac_id a = ac_id b"
      "ac_current_room_id a = (if K (ac_id b) = key e K u then Some ?n else ac_current_room_id b)"
      using created_account a unfolding created_sel by blast
    have "ac_current_room_id b \<noteq> Some ?n"
      using chat_invD(1) [OF inv] b(1) created_fresh(1) [OF inv] by (auto simp: schema_inv_def)
    then show ?thesis using b(2,3) by auto
  qed
  show "\<exists>x \<in> set (tb_room (ch_db ?ch)). rr_room_id x = ?n \<and> rr_user_count x = int (length (rm_users ?rm))"
    by (simp add: created_sel created_db_def) (simp add: room_added_def)
  show "fits e (refresh_packet (shown_ids e (ch_db ?ch) ?n))" using f by (simp add: created_sel)
  show "j \<in> L \<and> ch_clients ?ch j = \<lparr>cs_room = Some ?r, cs_id = v\<rparr>" if "(v, j) \<in> set (rm_users ?rm)" for v j
    using that i(1) client_set_room [OF i(2)] by (simp add: created_sel)
qed simp_all

lemma created_room_old:
  assumes inv: "chat_inv e K ch L" and i: "i \<in> L" "logged ch i" "cs_room (ch_clients ch i) = None" "cs_id (ch_clients ch i) = u"
    and rm: "room_ok e K ch L n r rm" and n: "n \<noteq> tb_room_auto (ch_db ch)"
  shows "room_ok e K (created e K i u name ch) L n r rm" (is "room_ok e K ?ch L n r rm")
proof (rule room_ok_cong [OF rm])
  have free: "ac_current_room_id a = None" if "a \<in> set (tb_account (ch_db ch))" "K (ac_id a) = key e K u" for a
    using account_free [OF inv i(1,2,3)] that i(4) by simp
  show "x \<in> set (tb_room (ch_db ?ch))" if "x \<in> set (tb_room (ch_db ch))" "rr_room_id x = n" for x
    using that by (simp add: created_sel created_db_def) (simp add: room_added_def)
  show "j \<in> L \<and> ch_clients ?ch j = ch_clients ch j" if "(v, j) \<in> set (rm_users rm)" for v j
    using room_okD(6,7) [OF rm that] i(3) by (auto simp: created_sel)
  show "\<exists>b \<in> set (tb_account (ch_db ch)). K (ac_id b) = K (ac_id a) \<and> (ac_current_room_id b = Some n \<longleftrightarrow> ac_current_room_id a = Some n)"
    if a: "a \<in> set (tb_account (ch_db ?ch))" for a
  proof -
    obtain b where "b \<in> set (tb_account (ch_db ch))" "ac_id a = ac_id b"
      "ac_current_room_id a = (if K (ac_id b) = key e K u then Some (tb_room_auto (ch_db ch)) else ac_current_room_id b)"
      using created_account a unfolding created_sel by blast
    then show ?thesis using free n by (intro bexI [of _ b]) auto
  qed
  show "shown_ids e (ch_db ?ch) n = shown_ids e (ch_db ch) n"
    using members_move_other [of "Some (tb_room_auto (ch_db ch))" n "room_added (wname e name) (ch_db ch)" K e u] free n
    by (simp add: shown_ids_def created_sel created_db_def)
qed

lemma created_rooms_inv:
  assumes inv: "chat_inv e K ch L" and i: "i \<in> L" "logged ch i" "cs_room (ch_clients ch i) = None" "cs_id (ch_clients ch i) = u"
    and f: "fits e (refresh_packet (shown_ids e (created_db e K u name (ch_db ch)) (tb_room_auto (ch_db ch))))"
  shows "rooms_inv e K (created e K i u name ch) L" (is "rooms_inv e K ?ch L")
  unfolding rooms_inv_def
proof (intro conjI allI impI)
  note ri = rooms_invD [OF chat_invD(4) [OF inv]]
  show "dom (ch_rooms ?ch) = room_ids (ch_db ?ch)" using ri(1) by (simp add: created_sel created_db_def)
  show "ch_heap ?ch r = None" if "ch_next ?ch \<le> r" for r using ri(2) [of r] that by (simp add: created_sel)
  fix n r assume n: "ch_rooms ?ch n = Some r"
  show "\<exists>rm. ch_heap ?ch r = Some rm \<and> room_ok e K ?ch L n r rm"
  proof (cases "n = tb_room_auto (ch_db ch)")
    case True
    then have "r = ch_next ch" using n by (simp add: created_sel)
    then show ?thesis using created_room_new [OF inv i(1,4) f] True by (simp add: created_sel(3))
  next
    case False
    then have "ch_rooms ch n = Some r" using n by (simp add: created_sel)
    then obtain rm where rm: "ch_heap ch r = Some rm" "room_ok e K ch L n r rm" using ri(3) by blast
    have "r \<noteq> ch_next ch" using rm(1) created_fresh(2) [OF inv] by auto
    then show ?thesis using rm(1) created_room_old [OF inv i rm(2) False] by (simp add: created_sel(3))
  qed
qed

lemma created_clients_inv:
  assumes inv: "chat_inv e K ch L" and i: "cs_id (ch_clients ch i) = u"
  shows "clients_inv (created e K i u name ch) L" (is "clients_inv ?ch L")
  unfolding clients_inv_def
proof (intro ballI allI impI)
  fix j r assume j: "j \<in> L" "cs_room (ch_clients ?ch j) = Some r"
  show "\<exists>n rm. ch_rooms ?ch n = Some r \<and> ch_heap ?ch r = Some rm \<and> (cs_id (ch_clients ?ch j), j) \<in> set (rm_users rm)"
  proof (cases "j = i")
    case True
    then show ?thesis using j i by (auto simp: created_sel)
  next
    case False
    then obtain n rm where n: "ch_rooms ch n = Some r" "ch_heap ch r = Some rm" "(cs_id (ch_clients ch j), j) \<in> set (rm_users rm)"
      using clients_invD [OF chat_invD(5) [OF inv] j(1)] j(2) by (auto simp: created_sel)
    have "n \<noteq> tb_room_auto (ch_db ch)" using n(1) created_fresh(1) [OF inv] rooms_invD(1) [OF chat_invD(4) [OF inv]] by blast
    moreover have "r \<noteq> ch_next ch" using n(2) created_fresh(2) [OF inv] by auto
    ultimately show ?thesis using n False by (auto simp: created_sel)
  qed
qed

lemma created_inv:
  assumes inv: "chat_inv e K ch L" and i: "i \<in> L" "logged ch i" "cs_room (ch_clients ch i) = None" "cs_id (ch_clients ch i) = u"
    and can: "can_create e K name (ch_db ch)"
    and f: "fits e (refresh_packet (shown_ids e (created_db e K u name (ch_db ch)) (tb_room_auto (ch_db ch))))"
  shows "chat_inv e K (created e K i u name ch) L" (is "chat_inv e K ?ch L")
proof -
  note li = chat_invD(6) [OF inv]
  have "login_inv e K ?ch L"
  proof (rule login_inv_cong [OF li subset_refl])
    show "\<exists>a \<in> set (tb_account (ch_db ?ch)). K (ac_id a) = key e K (cs_id (ch_clients ch j)) \<and> ac_is_online a"
      if "j \<in> L" "logged ch j" for j
      unfolding created_sel(1) created_db_def
      by (rule move_account_online) (use login_invD(2) [OF li that] in simp)
    show "logged ch j" if "j \<in> L" "cs_room (ch_clients ?ch j) = Some r" for j r
      using that login_invD(4) [OF li, of j r] i(2) by (auto simp: created_sel split: if_splits)
  qed (simp add: created_sel)
  then show ?thesis
    using created_schema [OF chat_invD(1) [OF inv] can] chat_invD(2) [OF inv] created_rooms_inv [OF inv i f] created_clients_inv [OF inv i(4)]
    by (simp add: chat_inv_def created_sel)
qed

section \<open>The users of a room\<close>

lemma users_set_new:
  assumes "u \<notin> fst ` set us"
  shows "set (users_set u i us) = insert (u, i) (set us)" "length (users_set u i us) = Suc (length us)"
  using assms by (induction us) (auto split: if_splits)

lemma users_set_sorted:
  assumes "u \<notin> fst ` set us" "sorted_wrt (<) (map fst us)"
  shows "sorted_wrt (<) (map fst (users_set u i us))"
  using assms
proof (induction us)
  case (Cons x us)
  obtain a b where x: "x = (a, b)" by force
  have keys: "fst ` set (users_set u i us) = insert u (fst ` set us)"
    using users_set_new(1) [of u us i] Cons.prems(1) by auto
  have us: "sorted_wrt (<) (map fst us)" "\<forall>k \<in> fst ` set us. a < k" "u \<noteq> a" "u \<notin> fst ` set us"
    using Cons.prems x by auto
  then have "sorted_wrt (<) (map fst (users_set u i us))" using Cons.IH by simp
  then show ?case
    using us keys x by (cases "u < a") (auto simp: image_image dest: order.strict_trans)
qed simp

section \<open>Joining a room\<close>

definition join_reply :: "C_JOIN_ROOM \<Rightarrow> bool \<Rightarrow> utf8 list \<Rightarrow> packet" where
  "join_reply m ok ids = Pkt_S_JOIN_ROOM (S_JOIN_ROOM_set_issuccess ok (fold S_JOIN_ROOM_add_userids ids
     (S_JOIN_ROOM_set_roomname (C_JOIN_ROOM_roomname m) S_JOIN_ROOM_new)))"

definition joined_db :: "env \<Rightarrow> (wstr \<Rightarrow> wstr) \<Rightarrow> utf8 \<Rightarrow> int \<Rightarrow> tables \<Rightarrow> tables" where
  "joined_db e K u n t = upd_room n (\<lambda>x. x\<lparr>rr_user_count := rr_user_count x + 1\<rparr>) (move_account e K u (Some n) t)"

definition joined :: "env \<Rightarrow> (wstr \<Rightarrow> wstr) \<Rightarrow> sid \<Rightarrow> utf8 \<Rightarrow> int \<Rightarrow> nat \<Rightarrow> room \<Rightarrow> chat \<Rightarrow> chat" where
  "joined e K i u n r rm ch =
     ch\<lparr>ch_db := joined_db e K u n (ch_db ch),
        ch_heap := (ch_heap ch)(r \<mapsto> rm\<lparr>rm_roomState := rm_roomState rm + 1, rm_users := users_set u i (rm_users rm)\<rparr>),
        ch_clients := (ch_clients ch)(i := (ch_clients ch i)\<lparr>cs_room := Some r\<rparr>)\<rparr>"

lemma member_ids_eq:
  assumes "odbc_ok od (sql_eval K)"
  shows "member_ids e (map (map2 (column_value od) [CWStr 14]) (map (\<lambda>a. [SqlStr (ac_id a)]) (members t n))) = shown_ids e t n"
  using column_value_simps [OF assms] by (simp add: member_ids_def shown_ids_def comp_def)

lemma join_refused:
  assumes e: "env_ok e K" and w: "ch_pool (w_content w) \<noteq> []" "i \<in> dom (w_sessions w)"
    and f: "fits e (join_reply m False [])" and no: "can_create e K (C_JOIN_ROOM_roomname m) (ch_db (w_content w))"
  shows "\<exists>w' c. Respond_C_JOIN_ROOM e i m w = Inr w' \<and> dom (w_sessions w') = dom (w_sessions w) \<and> w_service w' = w_service w \<and> w_next w' = w_next w \<and>
    w_content w' = (w_content w)\<lparr>ch_pool := butlast (ch_pool (w_content w)) @ [c]\<rparr>"
proof -
  have od: "odbc_ok (en_odbc e) (sql_eval K)" using e by (simp add: env_ok_def)
  have "filter (\<lambda>x. K (rr_room_name x) = K (wname e (C_JOIN_ROOM_roomname m))) (tb_room (ch_db (w_content w))) = []"
    using no by (auto simp: can_create_def key_def filter_empty_conv)
  then have s: "sql_eval K SelectRoom [SqlStr (wname e (C_JOIN_ROOM_roomname m))] (ch_db (w_content w)) = Some (Some [], ch_db (w_content w))"
    by (simp add: sql_eval_def)
  show ?thesis
    using w f
    by (simp add: Respond_C_JOIN_ROOM_def pool_pop_ok db_must_eq [OF e] s Let_def Fetch_None [OF od] reserve_def
        send_packet_ok join_reply_def pool_push_def DBConnectionPool_Push_def)
      (rule exI, rule refl)
qed

lemma join_accepted:
  assumes e: "env_ok e K" and inv: "chat_inv e K (w_content w) L" and L: "L \<subseteq> dom (w_sessions w)" and i: "i \<in> L"
    and x: "x \<in> set (tb_room (ch_db (w_content w)))" "K (rr_room_name x) = key e K (C_JOIN_ROOM_roomname m)" "rr_room_id x = n"
    and r: "ch_rooms (w_content w) n = Some r" "ch_heap (w_content w) r = Some rm"
    and u: "C_JOIN_ROOM_id m = u" "u \<notin> fst ` set (rm_users rm)"
    and ids: "ids = shown_ids e (joined_db e K u n (ch_db (w_content w))) n"
    and f: "fits e (join_reply m True ids)" "fits e (refresh_packet ids)" "fits_int32 (rr_user_count x + 1)"
  shows "\<exists>c. Respond_C_JOIN_ROOM e i m w =
    Inr (sent e i (join_reply m True ids) (sent_all e (refresh_packet ids) (Some i) (users_set u i (rm_users rm))
      (upd_chat (\<lambda>ch. (joined e K i u n r rm ch)\<lparr>ch_pool := butlast (ch_pool ch) @ [c]\<rparr>) w)))"
proof -
  let ?t = "ch_db (w_content w)"
  have od: "odbc_ok (en_odbc e) (sql_eval K)" using e by (simp add: env_ok_def)
  have ok: "room_ok e K (w_content w) L n r rm"
    using rooms_invD(3) [OF chat_invD(4) [OF inv] r(1)] r(2) by auto
  have "filter (\<lambda>y. K (rr_room_name y) = K (wname e (C_JOIN_ROOM_roomname m))) (tb_room ?t) = [x]"
    using room_row_unique(2) [OF chat_invD(1) [OF inv] x(1)] x(2) by (simp add: key_def)
  then have s1: "sql_eval K SelectRoom [SqlStr (wname e (C_JOIN_ROOM_roomname m))] ?t =
      Some (Some [[SqlInt n, SqlStr (rr_room_name x)]], ?t)"
    using x(3) by (simp add: sql_eval_def)
  have "n \<in> room_ids ?t" using x by (auto simp: room_ids_def)
  then have s2: "sql_eval K UpdateCurrentRoom [SqlInt n, SqlStr (wname e u)] ?t = Some (None, move_account e K u (Some n) ?t)"
    by (simp add: sql_eval_def move_account_def)
  have "y = x" if "y \<in> set (tb_room ?t)" "rr_room_id y = n" for y
  proof -
    have "y \<in> set (filter (\<lambda>y. rr_room_id y = rr_room_id x) (tb_room ?t))" using that x(3) by simp
    then show ?thesis using room_row_unique(1) [OF chat_invD(1) [OF inv] x(1)] by simp
  qed
  then have s3: "sql_eval K UpdateCountUp [SqlInt n] (move_account e K u (Some n) ?t) = Some (None, joined_db e K u n ?t)"
    using f(3) by (auto simp: sql_eval_def count_in_range_def joined_db_def)
  have s4: "sql_eval K SelectMembers [SqlInt n] (joined_db e K u n ?t) =
      Some (Some (map (\<lambda>a. [SqlStr (ac_id a)]) (members (joined_db e K u n ?t) n)), joined_db e K u n ?t)"
    by (simp add: sql_eval_def members_def)
  have state: "rm_roomState rm \<noteq> Destruction" using room_okD(3) [OF ok] by (simp add: Destruction_def)
  have us: "snd ` set (users_set u i (rm_users rm)) \<subseteq> dom (w_sessions w)"
    using users_set_new(1) [OF u(2)] users_live [OF ok L] i L by auto
  have i': "i \<in> dom (w_sessions w)" using i L by blast
  have mem: "member_ids e (map (\<lambda>a. [SqlStr (take 13 (ac_id a))]) (members (joined_db e K u n ?t) n)) = ids"
    unfolding ids by (simp add: member_ids_def shown_ids_def comp_def)
  show ?thesis
    using r chat_invD(3) [OF inv] us i' f(1,2) state u(1) room_okD(2) [OF ok]
    by (simp add: Respond_C_JOIN_ROOM_def join_room_def pool_pop_ok db_must_eq [OF e] s1 s2 s3 s4 Fetch_Some [OF od] Let_def
        column_value_simps [OF od] fetch_all_eq [OF od] comp_def mem GetRoom_def reserve_def on_room_def AddUser_def SetRoom_def
        BroadCast_def broadcast_users_ok refresh_packet_def [symmetric] send_packet_ok join_reply_def [symmetric]
        pool_push_sent pool_push_sent_all)
      (simp add: pool_push_def DBConnectionPool_Push_def joined_def, rule exI, rule refl)
qed

text \<open>A room that is not involved when the account of \<open>u\<close> is moved.\<close>

lemma room_ok_other:
  assumes ok: "room_ok e K ch L n r rm"
    and acc: "tb_account (ch_db ch') = tb_account (move_account e K u R (ch_db ch))" "R \<noteq> Some n"
      "\<And>a. a \<in> set (tb_account (ch_db ch)) \<Longrightarrow> K (ac_id a) = key e K u \<Longrightarrow> ac_current_room_id a \<noteq> Some n"
    and row: "\<And>x. x \<in> set (tb_room (ch_db ch)) \<Longrightarrow> rr_room_id x = n \<Longrightarrow> x \<in> set (tb_room (ch_db ch'))"
    and cl: "\<And>v j. (v, j) \<in> set (rm_users rm) \<Longrightarrow> j \<in> L' \<and> ch_clients ch' j = ch_clients ch j"
  shows "room_ok e K ch' L' n r rm"
proof (rule room_ok_cong [OF ok row cl])
  show "\<exists>b \<in> set (tb_account (ch_db ch)). K (ac_id b) = K (ac_id a) \<and> (ac_current_room_id b = Some n \<longleftrightarrow> ac_current_room_id a = Some n)"
    if a: "a \<in> set (tb_account (ch_db ch'))" for a
  proof -
    obtain b where "b \<in> set (tb_account (ch_db ch))" "ac_id a = ac_id b"
      "ac_current_room_id a = (if K (ac_id b) = key e K u then R else ac_current_room_id b)"
      using a unfolding acc(1) by (rule move_account_mem)
    then show ?thesis using acc(2,3) by (intro bexI [of _ b]) auto
  qed
  have "members (ch_db ch') n = members (move_account e K u R (ch_db ch)) n" using acc(1) by (simp add: members_def)
  also have "\<dots> = members (ch_db ch) n" by (rule members_move_other) (use acc(2,3) in auto)
  finally show "shown_ids e (ch_db ch') n = shown_ids e (ch_db ch) n" by (simp add: shown_ids_def)
qed

text \<open>The registry after a change of one room.\<close>

lemma rooms_inv_one:
  assumes inv: "rooms_inv e K ch L" and r: "ch_rooms ch n = Some r"
    and same: "ch_next ch' = ch_next ch" "\<And>q. q \<noteq> r \<Longrightarrow> ch_heap ch' q = ch_heap ch q"
      "\<And>k. k \<noteq> n \<Longrightarrow> ch_rooms ch' k = ch_rooms ch k"
    and dom: "dom (ch_rooms ch') = room_ids (ch_db ch')"
    and one: "\<And>q. ch_rooms ch' n = Some q \<Longrightarrow> \<exists>rm. ch_heap ch' q = Some rm \<and> room_ok e K ch' L' n q rm"
    and other: "\<And>k q rm. k \<noteq> n \<Longrightarrow> ch_rooms ch k = Some q \<Longrightarrow> ch_heap ch q = Some rm \<Longrightarrow> room_ok e K ch L k q rm \<Longrightarrow>
      room_ok e K ch' L' k q rm"
  shows "rooms_inv e K ch' L'"
  unfolding rooms_inv_def
proof (intro conjI allI impI)
  obtain rm where rm: "ch_heap ch r = Some rm" "room_ok e K ch L n r rm" using rooms_invD(3) [OF inv r] by blast
  then have "r < ch_next ch" using rooms_invD(2) [OF inv, of r] by (cases "ch_next ch \<le> r") auto
  then show "ch_heap ch' q = None" if "ch_next ch' \<le> q" for q
    using that same(1) same(2) [of q] rooms_invD(2) [OF inv, of q] by simp
  show "\<exists>rm. ch_heap ch' q = Some rm \<and> room_ok e K ch' L' k q rm" if k: "ch_rooms ch' k = Some q" for k q
  proof (cases "k = n")
    case False
    then have "ch_rooms ch k = Some q" using k same(3) by simp
    then obtain rm' where rm': "ch_heap ch q = Some rm'" "room_ok e K ch L k q rm'" using rooms_invD(3) [OF inv] by blast
    have "q \<noteq> r" using rm rm' room_okD(1) [OF rm(2)] room_okD(1) [OF rm'(2)] False by auto
    then show ?thesis using same(2) rm' other [OF False \<open>ch_rooms ch k = Some q\<close>] by auto
  qed (use one k in auto)
qed (rule dom)

text \<open>A logged-in client that is in no room has no namesake in any room.\<close>

lemma no_namesake:
  assumes inv: "chat_inv e K ch L" and i: "i \<in> L" "logged ch i" "cs_room (ch_clients ch i) = None"
    and r: "room_ok e K ch L n r rm"
  shows "key e K (cs_id (ch_clients ch i)) \<notin> key e K ` fst ` set (rm_users rm)"
proof
  assume "key e K (cs_id (ch_clients ch i)) \<in> key e K ` fst ` set (rm_users rm)"
  then obtain v j where v: "(v, j) \<in> set (rm_users rm)" "key e K (cs_id (ch_clients ch i)) = key e K v" by auto
  have j: "j \<in> L" "ch_clients ch j = \<lparr>cs_room = Some r, cs_id = v\<rparr>" using room_okD(6,7) [OF r v(1)] .
  then have "logged ch j" using login_invD(4) [OF chat_invD(6) [OF inv]] by simp
  then have "i = j" using login_invD(3) [OF chat_invD(6) [OF inv] i(1) j(1) i(2)] v(2) j(2) by simp
  then show False using i(3) j(2) by simp
qed

lemma joined_room_ok:
  assumes inv: "chat_inv e K ch L" and i: "i \<in> L" "logged ch i" "cs_room (ch_clients ch i) = None" "cs_id (ch_clients ch i) = u"
    and ok: "room_ok e K ch L n r rm"
    and f: "fits e (refresh_packet (shown_ids e (joined_db e K u n (ch_db ch)) n))"
  shows "room_ok e K (joined e K i u n r rm ch) L n r
    (rm\<lparr>rm_roomState := rm_roomState rm + 1, rm_users := users_set u i (rm_users rm)\<rparr>)"
    (is "room_ok e K ?ch L n r ?rm")
proof (rule room_okI)
  have new: "key e K u \<notin> key e K ` fst ` set (rm_users rm)" using no_namesake [OF inv i(1-3) ok] i(4) by simp
  then have u: "u \<notin> fst ` set (rm_users rm)" by blast
  note us = users_set_new [OF u, of i]
  show "rm_roomState ?rm = int (length (rm_users ?rm))" using room_okD(3) [OF ok] us(2) by simp
  show "rm_users ?rm \<noteq> []" using us(2) by auto
  show "sorted_wrt (<) (map fst (rm_users ?rm))" using users_set_sorted [OF u room_okD(4) [OF ok]] by simp
  obtain x where x: "x \<in> set (tb_room (ch_db ch))" "rr_room_id x = n" "rr_user_count x = int (length (rm_users rm))"
    using room_okD(5) [OF ok] by blast
  show "\<exists>x \<in> set (tb_room (ch_db ?ch)). rr_room_id x = n \<and> rr_user_count x = int (length (rm_users ?rm))"
    by (rule bexI [of _ "x\<lparr>rr_user_count := rr_user_count x + 1\<rparr>"])
      (use x us(2) in \<open>auto simp: joined_def joined_db_def upd_room_def image_iff intro!: bexI [of _ x]\<close>)
  show "j \<in> L \<and> ch_clients ?ch j = \<lparr>cs_room = Some r, cs_id = v\<rparr>" if "(v, j) \<in> set (rm_users ?rm)" for v j
    using that us(1) i(1,3) client_set_room [OF i(4)] room_okD(6,7) [OF ok, of v j] by (auto simp: joined_def)
  show "ac_current_room_id a = Some n \<longleftrightarrow> K (ac_id a) \<in> key e K ` fst ` set (rm_users ?rm)"
    if a: "a \<in> set (tb_account (ch_db ?ch))" for a
  proof -
    have "a \<in> set (tb_account (move_account e K u (Some n) (ch_db ch)))" using a by (simp add: joined_def joined_db_def)
    then obtain b where "b \<in> set (tb_account (ch_db ch))" "ac_id a = ac_id b"
      "ac_current_room_id a = (if K (ac_id b) = key e K u then Some n else ac_current_room_id b)"
      by (rule move_account_mem)
    then show ?thesis using room_okD(8) [OF ok, of b] us(1) by auto
  qed
  show "fits e (refresh_packet (shown_ids e (ch_db ?ch) n))" using f by (simp add: joined_def)
qed (use room_okD(1) [OF ok] in simp)

text \<open>Clients stay among the users of their rooms when one room changes.\<close>

lemma clients_inv_one:
  assumes inv: "clients_inv ch L" and L: "L' \<subseteq> L"
    and j: "\<And>j. j \<in> L' \<Longrightarrow> j \<noteq> i \<Longrightarrow> ch_clients ch' j = ch_clients ch j"
    and i: "i \<in> L' \<Longrightarrow> cs_room (ch_clients ch' i) = Some q \<Longrightarrow>
      \<exists>n rm. ch_rooms ch' n = Some q \<and> ch_heap ch' q = Some rm \<and> (cs_id (ch_clients ch' i), i) \<in> set (rm_users rm)"
    and other: "\<And>n q rm u j. ch_rooms ch n = Some q \<Longrightarrow> ch_heap ch q = Some rm \<Longrightarrow> (u, j) \<in> set (rm_users rm) \<Longrightarrow> j \<noteq> i \<Longrightarrow>
      \<exists>rm'. ch_rooms ch' n = Some q \<and> ch_heap ch' q = Some rm' \<and> (u, j) \<in> set (rm_users rm')"
    and q: "\<And>x. cs_room (ch_clients ch' i) = Some x \<Longrightarrow> x = q"
  shows "clients_inv ch' L'"
  unfolding clients_inv_def
proof (intro ballI allI impI)
  fix k x assume k: "k \<in> L'" "cs_room (ch_clients ch' k) = Some x"
  show "\<exists>n rm. ch_rooms ch' n = Some x \<and> ch_heap ch' x = Some rm \<and> (cs_id (ch_clients ch' k), k) \<in> set (rm_users rm)"
  proof (cases "k = i")
    case True
    then show ?thesis using i k q by blast
  next
    case False
    then have "ch_clients ch' k = ch_clients ch k" using j k(1) by blast
    then show ?thesis
      using clients_invD [OF inv, of k x] k L other [of _ x _ "cs_id (ch_clients ch k)" k] False by fastforce
  qed
qed

lemma joined_schema:
  assumes "schema_inv K t" "n \<in> room_ids t"
  shows "schema_inv K (joined_db e K u n t)"
  unfolding joined_db_def move_account_def
  by (rule schema_upd_room, rule schema_upd_account) (use assms in auto)

lemma joined_inv:
  assumes inv: "chat_inv e K ch L" and i: "i \<in> L" "logged ch i" "cs_room (ch_clients ch i) = None" "cs_id (ch_clients ch i) = u"
    and r: "ch_rooms ch n = Some r" "ch_heap ch r = Some rm"
    and f: "fits e (refresh_packet (shown_ids e (joined_db e K u n (ch_db ch)) n))"
  shows "chat_inv e K (joined e K i u n r rm ch) L"
proof (rule chat_invI)
  let ?ch = "joined e K i u n r rm ch"
  let ?rm = "rm\<lparr>rm_roomState := rm_roomState rm + 1, rm_users := users_set u i (rm_users rm)\<rparr>"
  have sel: "ch_db ?ch = joined_db e K u n (ch_db ch)" "ch_rooms ?ch = ch_rooms ch" "ch_next ?ch = ch_next ch"
    "ch_heap ?ch = (ch_heap ch)(r \<mapsto> ?rm)" "ch_clients ?ch = (ch_clients ch)(i := (ch_clients ch i)\<lparr>cs_room := Some r\<rparr>)"
    "tb_account (joined_db e K u n (ch_db ch)) = tb_account (move_account e K u (Some n) (ch_db ch))"
    "room_ids (joined_db e K u n (ch_db ch)) = room_ids (ch_db ch)"
    by (simp_all add: joined_def joined_db_def upd_room_ids)
  have ok: "room_ok e K ch L n r rm" using rooms_invD(3) [OF chat_invD(4) [OF inv] r(1)] r(2) by auto
  have u: "u \<notin> fst ` set (rm_users rm)" using no_namesake [OF inv i(1-3) ok] i(4) by blast
  have free: "ac_current_room_id a = None" if "a \<in> set (tb_account (ch_db ch))" "K (ac_id a) = key e K u" for a
    using account_free [OF inv i(1-3)] that i(4) by simp
  show "schema_inv K (ch_db ?ch)"
    unfolding sel(1) by (rule joined_schema [OF chat_invD(1) [OF inv]]) (use rooms_invD(1) [OF chat_invD(4) [OF inv]] r(1) in blast)
  show "2 \<le> length (ch_pool ?ch)" using chat_invD(2) [OF inv] by (simp add: joined_def)
  show "rooms_inv e K ?ch L"
  proof (rule rooms_inv_one [OF chat_invD(4) [OF inv] r(1)])
    show "\<exists>rm. ch_heap ?ch q = Some rm \<and> room_ok e K ?ch L n q rm" if "ch_rooms ?ch n = Some q" for q
    proof -
      have "q = r" using that r(1) by (simp add: sel)
      then show ?thesis using joined_room_ok [OF inv i ok f] by (simp add: sel)
    qed
    show "room_ok e K ?ch L k q rm'" if "k \<noteq> n" "room_ok e K ch L k q rm'" for k q rm'
      by (rule room_ok_other [OF that(2), of ?ch u "Some n"])
        (use that(1) i(3) free room_okD(6,7) [OF that(2)] in \<open>auto simp: sel joined_db_def upd_room_def\<close>)
  qed (use rooms_invD(1) [OF chat_invD(4) [OF inv]] in \<open>simp_all add: sel\<close>)
  show "clients_inv ?ch L"
  proof (rule clients_inv_one [OF chat_invD(5) [OF inv] subset_refl, of i _ r])
    show "\<exists>k rm. ch_rooms ?ch k = Some r \<and> ch_heap ?ch r = Some rm \<and> (cs_id (ch_clients ?ch i), i) \<in> set (rm_users rm)"
      using r(1) users_set_new(1) [OF u] i(4) by (auto simp: sel)
    show "\<exists>rm'. ch_rooms ?ch k = Some q \<and> ch_heap ?ch q = Some rm' \<and> (v, j) \<in> set (rm_users rm')"
      if "ch_rooms ch k = Some q" "ch_heap ch q = Some rm'" "(v, j) \<in> set (rm_users rm')" for k q rm' v j
      unfolding sel(2,4) using that r(2) users_set_new(1) [OF u] by (cases "q = r") auto
  qed (simp_all add: sel)
  show "login_inv e K ?ch L"
  proof (rule login_inv_cong [OF chat_invD(6) [OF inv] subset_refl])
    show "\<exists>a \<in> set (tb_account (ch_db ?ch)). K (ac_id a) = key e K (cs_id (ch_clients ch j)) \<and> ac_is_online a"
      if "j \<in> L" "logged ch j" for j
      unfolding sel(1,6) by (rule move_account_online [OF login_invD(2) [OF chat_invD(6) [OF inv] that]])
    show "logged ch j" if "j \<in> L" "cs_room (ch_clients ?ch j) = Some r" for j r
      using that login_invD(4) [OF chat_invD(6) [OF inv], of j r] i(2) by (auto simp: sel split: if_splits)
  qed (simp add: sel)
qed

end
