(* ===== verification/Server_Leave.thy ===== *)
theory Server_Leave
  imports Server_Rooms
begin

text \<open>
  Leaving a room, by request or by disconnecting: what \<open>Room::RemoveUser\<close>, the response to
  \<open>C_ROOM_OUT\<close> and \<open>ClientSession::OnDisconnected\<close> do to the state, and that they keep the invariant of
  the chat server.
\<close>

section \<open>The size of the list of users\<close>

lemma refresh_fields:
  "S_REFRESH_ROOM_userids (fold S_REFRESH_ROOM_add_userids ids m) = S_REFRESH_ROOM_userids m @ ids"
  "S_REFRESH_ROOM_unknown (fold S_REFRESH_ROOM_add_userids ids m) = S_REFRESH_ROOM_unknown m"
  "CheckHasBit (S_REFRESH_ROOM_has_bits (fold S_REFRESH_ROOM_add_userids ids m)) 1 \<longleftrightarrow>
     ids \<noteq> [] \<or> CheckHasBit (S_REFRESH_ROOM_has_bits m) 1"
  by (induction ids arbitrary: m) (auto simp: S_REFRESH_ROOM_add_userids_def)

lemma refresh_length:
  "length (packet_serialize lib (refresh_packet ids)) = (\<Sum>s\<leftarrow>ids. length (WriteString lib 1 s))"
  by (auto simp: refresh_packet_def S_REFRESH_ROOM_InternalSerialize_def refresh_fields Let_def length_concat comp_def)
    (simp_all add: S_REFRESH_ROOM_new_def)

text \<open>A shorter list of users takes no more space.\<close>

lemma fits_filter:
  assumes "fits e (refresh_packet (map f xs))"
  shows "fits e (refresh_packet (map f (filter p xs)))"
proof -
  have "(\<Sum>s\<leftarrow>map f (filter p xs). length (WriteString (en_lib e) 1 s)) \<le> (\<Sum>s\<leftarrow>map f xs. length (WriteString (en_lib e) 1 s))"
    by (induction xs) auto
  then show ?thesis using assms by (simp add: fits_def refresh_length)
qed

section \<open>The state after leaving\<close>

definition left_db :: "env \<Rightarrow> (wstr \<Rightarrow> wstr) \<Rightarrow> utf8 \<Rightarrow> int \<Rightarrow> tables \<Rightarrow> tables" where
  "left_db e K u n t = upd_room n (\<lambda>x. x\<lparr>rr_user_count := rr_user_count x - 1\<rparr>) (move_account e K u None t)"

definition deserted :: "int \<Rightarrow> room_row \<Rightarrow> bool" where
  "deserted n x \<longleftrightarrow> rr_room_id x = n \<and> rr_user_count x \<le> 0"

definition left :: "env \<Rightarrow> (wstr \<Rightarrow> wstr) \<Rightarrow> sid \<Rightarrow> utf8 \<Rightarrow> int \<Rightarrow> nat \<Rightarrow> room \<Rightarrow> chat \<Rightarrow> chat" where
  "left e K i u n r rm ch =
     (let final = (rm_roomState rm = 1); t = left_db e K u n (ch_db ch) in
      ch\<lparr>ch_db := (if final then delete_rooms (deserted n) t else t),
         ch_heap := (ch_heap ch)(r \<mapsto> rm\<lparr>rm_users := users_erase u (rm_users rm),
           rm_roomState := (if final then Destruction else rm_roomState rm - 1)\<rparr>),
         ch_clients := (ch_clients ch)(i := (ch_clients ch i)\<lparr>cs_room := None\<rparr>),
         ch_rooms := (if final then (ch_rooms ch)(n := None) else ch_rooms ch)\<rparr>)"

text \<open>The users of a room have different ids, so that looking one up finds its session.\<close>

lemma users_lookup:
  fixes u :: utf8
  assumes "sorted_wrt (<) (map fst us)" "(u, i) \<in> set us"
  shows "map_of us u = Some i"
proof -
  have "distinct (map fst us)" using assms(1) strict_sorted_iff by blast
  then show ?thesis using assms(2) by simp
qed

lemma users_erase_props:
  assumes "sorted_wrt (<) (map fst us)" "(u, i) \<in> set us"
  shows "length (users_erase u us) = length us - 1" "sorted_wrt (<) (map fst (users_erase u us))"
    "set (users_erase u us) = set us - {(u, i)}"
proof -
  have d: "distinct (map fst us)" using assms(1) strict_sorted_iff by blast
  have "filter (\<lambda>x. fst x = u) us = [(u, i)]" using filter_unique [OF d assms(2)] by simp
  then show "length (users_erase u us) = length us - 1"
    using sum_length_filter_compl [of "\<lambda>x. fst x = u" us] by (simp add: users_erase_def)
  show "sorted_wrt (<) (map fst (users_erase u us))"
    using assms(1) unfolding users_erase_def by (simp add: sorted_wrt_map sorted_wrt_filter)
  show "set (users_erase u us) = set us - {(u, i)}"
    using d assms(2) eq_key_imp_eq_value [OF d] by (auto simp: users_erase_def)
qed

lemma members_left:
  "members (left_db e K u n t) n = filter (\<lambda>a. K (ac_id a) \<noteq> key e K u) (members t n)"
proof -
  have "filter (\<lambda>a. ac_current_room_id a = Some n) (map (\<lambda>a. if K (ac_id a) = K (wname e u) then a\<lparr>ac_current_room_id := None\<rparr> else a) xs)
      = filter (\<lambda>a. K (ac_id a) \<noteq> key e K u) (filter (\<lambda>a. ac_current_room_id a = Some n) xs)" for xs
    by (induction xs) (auto simp: key_def)
  then show ?thesis by (simp add: members_def left_db_def move_account_def upd_account_def)
qed

lemma shown_left:
  assumes "fits e (refresh_packet (shown_ids e t n))"
  shows "fits e (refresh_packet (shown_ids e (left_db e K u n t) n))"
  using fits_filter [OF assms [unfolded shown_ids_def]] by (simp add: shown_ids_def members_left)

text \<open>A second user of the room remains a member after the first has left.\<close>

lemma members_remain:
  assumes inv: "chat_inv e K ch L" and r: "room_ok e K ch L n r rm"
    and u: "(u, i) \<in> set (rm_users rm)" "rm_roomState rm \<noteq> 1"
  shows "members (left_db e K u n (ch_db ch)) n \<noteq> []"
proof -
  have d: "distinct (map fst (rm_users rm))" using room_okD(4) [OF r] strict_sorted_iff by blast
  have "length (users_erase u (rm_users rm)) \<noteq> 0"
    using users_erase_props(1) [OF room_okD(4) [OF r] u(1)] u room_okD(2,3) [OF r] by (cases "rm_users rm") auto
  then obtain v j where v: "(v, j) \<in> set (rm_users rm)" "v \<noteq> u"
    by (auto simp: users_erase_def filter_empty_conv)
  have j: "j \<in> L" "cs_id (ch_clients ch j) = v" "logged ch j"
    using room_okD(6,7) [OF r v(1)] login_invD(4) [OF chat_invD(6) [OF inv]] by auto
  have i: "i \<in> L" "cs_id (ch_clients ch i) = u" "logged ch i"
    using room_okD(6,7) [OF r u(1)] login_invD(4) [OF chat_invD(6) [OF inv]] by auto
  obtain a where a: "a \<in> set (tb_account (ch_db ch))" "K (ac_id a) = key e K v"
    using login_invD(2) [OF chat_invD(6) [OF inv] j(1,3)] j(2) by blast
  have "key e K v \<noteq> key e K u"
    using login_invD(3) [OF chat_invD(6) [OF inv] i(1) j(1) i(3) j(3)] i(2) j(2) v(2) by auto
  moreover have "ac_current_room_id a = Some n" using room_okD(8) [OF r a(1)] a(2) v(1) by force
  ultimately have "a \<in> set (members (left_db e K u n (ch_db ch)) n)" using a unfolding members_left by (simp add: members_def)
  then show ?thesis by auto
qed

text \<open>A room has no more users than the refresh packet has bytes.\<close>

lemma WriteString_length:
  assumes "pb_ok lib"
  shows "1 \<le> length (WriteString lib 1 s)"
  using pb_ok_string_size [OF assms, of 1] by simp

lemma room_keys:
  assumes inv: "chat_inv e K ch L" and r: "room_ok e K ch L n r rm"
  shows "inj_on (key e K) (fst ` set (rm_users rm))"
    and "key e K ` fst ` set (rm_users rm) = (K \<circ> ac_id) ` set (members (ch_db ch) n)"
proof -
  let ?us = "rm_users rm"
  have log: "j \<in> L \<and> cs_id (ch_clients ch j) = v \<and> logged ch j" if "(v, j) \<in> set ?us" for v j
    using room_okD(6,7) [OF r that] login_invD(4) [OF chat_invD(6) [OF inv]] by auto
  have "v = v'" if "(v, j) \<in> set ?us" "(v', j') \<in> set ?us" "key e K v = key e K v'" for v j v' j'
    using login_invD(3) [OF chat_invD(6) [OF inv], of j j'] log [OF that(1)] log [OF that(2)] that(3) by auto
  then show "inj_on (key e K) (fst ` set ?us)" by (auto intro!: inj_onI)
  have "k \<in> (K \<circ> ac_id) ` set (members (ch_db ch) n)" if k: "k \<in> key e K ` fst ` set ?us" for k
  proof -
    obtain v j where v: "(v, j) \<in> set ?us" "k = key e K v" using k by auto
    obtain a where a: "a \<in> set (tb_account (ch_db ch))" "K (ac_id a) = k"
      using login_invD(2) [OF chat_invD(6) [OF inv], of j] log [OF v(1)] v(2) by auto
    then have "ac_current_room_id a = Some n" using room_okD(8) [OF r a(1)] v by force
    then show ?thesis using a by (auto simp: members_def)
  qed
  moreover have "(K \<circ> ac_id) a \<in> key e K ` fst ` set ?us" if "a \<in> set (members (ch_db ch) n)" for a
    using room_okD(8) [OF r, of a] that by (simp add: members_def)
  ultimately show "key e K ` fst ` set ?us = (K \<circ> ac_id) ` set (members (ch_db ch) n)" by blast
qed

text \<open>A room has as many users as accounts have it as their current room.\<close>

lemma room_members:
  assumes inv: "chat_inv e K ch L" and r: "room_ok e K ch L n r rm"
  shows "length (rm_users rm) = length (members (ch_db ch) n)"
proof -
  let ?us = "rm_users rm" and ?ms = "members (ch_db ch) n"
  have d: "distinct (map fst ?us)" using room_okD(4) [OF r] strict_sorted_iff by blast
  have "distinct (map (K \<circ> ac_id) ?ms)"
    using chat_invD(1) [OF inv] by (simp add: schema_inv_def members_def distinct_map_filter)
  then have "length ?ms = card ((K \<circ> ac_id) ` set ?ms)" using distinct_card by fastforce
  then show ?thesis
    using room_keys [OF inv r] distinct_card [OF d] card_image [OF room_keys(1) [OF inv r]] by simp
qed

lemma room_small:
  assumes e: "env_ok e K" and inv: "chat_inv e K ch L" and r: "room_ok e K ch L n r rm"
  shows "length (rm_users rm) \<le> 6000"
proof -
  have "length (members (ch_db ch) n) \<le> (\<Sum>s\<leftarrow>shown_ids e (ch_db ch) n. length (WriteString (en_lib e) 1 s))"
    using sum_list_mono [of "members (ch_db ch) n" "\<lambda>_. 1"
        "\<lambda>a. length (WriteString (en_lib e) 1 (WCHARToUTF8 e (take 13 (ac_id a))))"]
      WriteString_length e by (simp add: shown_ids_def comp_def env_ok_def sum_list_triv)
  also have "\<dots> \<le> 6000" using room_okD(9) [OF r] by (simp add: fits_def refresh_length)
  finally show ?thesis using room_members [OF inv r] by simp
qed

text \<open>The sessions that point to a room are its users.\<close>

lemma room_sessions:
  assumes inv: "chat_inv e K ch L" and r: "ch_rooms ch n = Some r" "ch_heap ch r = Some rm"
  shows "{i \<in> L. cs_room (ch_clients ch i) = Some r} = snd ` set (rm_users rm)"
    and "card (snd ` set (rm_users rm)) = length (rm_users rm)" "distinct (map snd (rm_users rm))"
proof -
  have ok: "room_ok e K ch L n r rm" using rooms_invD(3) [OF chat_invD(4) [OF inv] r(1)] r(2) by auto
  show "{i \<in> L. cs_room (ch_clients ch i) = Some r} = snd ` set (rm_users rm)"
  proof (intro equalityI subsetI)
    show "i \<in> snd ` set (rm_users rm)" if "i \<in> {i \<in> L. cs_room (ch_clients ch i) = Some r}" for i
      using clients_invD [OF chat_invD(5) [OF inv], of i r] that r(2) by force
    show "i \<in> {i \<in> L. cs_room (ch_clients ch i) = Some r}" if "i \<in> snd ` set (rm_users rm)" for i
      using that room_okD(6,7) [OF ok] by auto
  qed
  have d: "distinct (rm_users rm)" using room_okD(4) [OF ok] strict_sorted_iff distinct_map by blast
  have "v = v'" if "(v, j) \<in> set (rm_users rm)" "(v', j) \<in> set (rm_users rm)" for v v' j
    using room_okD(7) [OF ok that(1)] room_okD(7) [OF ok that(2)] by simp
  then have inj: "inj_on snd (set (rm_users rm))" by (auto intro!: inj_onI)
  then show "distinct (map snd (rm_users rm))" using d by (simp add: distinct_map)
  show "card (snd ` set (rm_users rm)) = length (rm_users rm)" using card_image [OF inj] distinct_card [OF d] by simp
qed

lemma remove_result:
  assumes e: "env_ok e K" and inv: "chat_inv e K ((w_content w)\<lparr>ch_pool := q\<rparr>) L" and L: "L \<subseteq> dom (w_sessions w)"
    and pool: "ch_pool (w_content w) \<noteq> []"
    and r: "ch_rooms (w_content w) n = Some r" "ch_heap (w_content w) r = Some rm" "(u, i) \<in> set (rm_users rm)"
    and ids: "ids = shown_ids e (left_db e K u n (ch_db (w_content w))) n"
  shows "\<exists>c. RemoveUser e r u w = Inr (sent_all e (refresh_packet ids) None (users_erase u (rm_users rm))
      (upd_chat (\<lambda>ch. (left e K i u n r rm ch)\<lparr>ch_pool := butlast (ch_pool ch) @ [c]\<rparr>) w))"
proof -
  let ?ch = "w_content w" and ?t = "ch_db (w_content w)"
  have od: "odbc_ok (en_odbc e) (sql_eval K)" using e by (simp add: env_ok_def)
  have ok: "room_ok e K (?ch\<lparr>ch_pool := q\<rparr>) L n r rm"
    using rooms_invD(3) [OF chat_invD(4) [OF inv], of n r] r by auto
  have look: "map_of (rm_users rm) u = Some i" by (rule users_lookup [OF room_okD(4) [OF ok] r(3)])
  have s1: "sql_eval K UpdateCurrentRoom [SqlNull, SqlStr (wname e u)] ?t = Some (None, move_account e K u None ?t)"
    by (simp add: sql_eval_def move_account_def)
  obtain x where x: "x \<in> set (tb_room ?t)" "rr_room_id x = n" "rr_user_count x = int (length (rm_users rm))"
    using room_okD(5) [OF ok] by auto
  have schema: "schema_inv K ?t" using chat_invD(1) [OF inv] by simp
  have "y = x" if "y \<in> set (tb_room ?t)" "rr_room_id y = n" for y
  proof -
    have "y \<in> set (filter (\<lambda>y. rr_room_id y = rr_room_id x) (tb_room ?t))" using that x(2) by simp
    then show ?thesis using room_row_unique(1) [OF schema x(1)] by simp
  qed
  moreover have "fits_int32 (rr_user_count x - 1)"
    using room_small [OF e inv ok] x(3) by (simp add: fits_int32_def INT32_MAX_def INT32_MIN_def)
  ultimately have s2: "sql_eval K UpdateCountDown [SqlInt n] (move_account e K u None ?t) = Some (None, left_db e K u n ?t)"
    by (auto simp: sql_eval_def count_in_range_def left_db_def)
  have s3: "sql_eval K DeleteRoom [SqlInt n] (left_db e K u n ?t) = Some (None, delete_rooms (deserted n) (left_db e K u n ?t))"
    by (simp add: sql_eval_def deserted_def [abs_def])
  have s4: "sql_eval K SelectMembers [SqlInt n] (left_db e K u n ?t) =
      Some (Some (map (\<lambda>a. [SqlStr (ac_id a)]) (members (left_db e K u n ?t) n)), left_db e K u n ?t)"
    by (simp add: sql_eval_def members_def)
  have f: "fits e (refresh_packet ids)" unfolding ids using shown_left room_okD(9) [OF ok] by simp
  have us: "snd ` set (users_erase u (rm_users rm)) \<subseteq> dom (w_sessions w)"
    using users_live [OF ok L] by (auto simp: users_erase_def)
  have mem: "member_ids e (map (\<lambda>a. [SqlStr (take 13 (ac_id a))]) (members (left_db e K u n ?t) n)) = ids"
    unfolding ids by (simp add: member_ids_def shown_ids_def comp_def)
  note step = RemoveUser_def RemoveUser_db_def pool_pop_ok db_must_eq [OF e] s1 s2 Let_def SetRoom_def on_room_def Empty_def
  show ?thesis
  proof (cases "rm_roomState rm = 1")
    case True
    then have "users_erase u (rm_users rm) = []"
      using users_erase_props(1) [OF room_okD(4) [OF ok] r(3)] room_okD(3) [OF ok] by simp
    then show ?thesis
      using r look pool True room_okD(1) [OF ok]
      by (simp add: step RemoveUser_destroy_def s3 RemoveRoom_def sent_all_def pool_push_def DBConnectionPool_Push_def left_def)
        (rule exI [of _ "conn_after [HInt32 n] [] None"], cases "w_content w", simp)
  next
    case False
    have "members (left_db e K u n ?t) n \<noteq> []"
      using members_remain [OF inv ok r(3) False] by simp
    then show ?thesis
      using r look pool False room_okD(1) [OF ok] f us
      by (simp add: step RemoveUser_refresh_def s4 fetch_all_eq [OF od] column_value_simps [OF od] comp_def mem BroadCast_def
          broadcast_users_ok refresh_packet_def [symmetric] pool_push_sent_all)
        (rule exI [of _ "conn_after [HInt32 n] [CWStr 14] (Some [])"], cases "w_content w",
          simp add: pool_push_def DBConnectionPool_Push_def left_def)
  qed
qed

section \<open>Leaving keeps the invariant\<close>

lemma left_schema:
  assumes "schema_inv K t"
  shows "schema_inv K (left_db e K u n t)"
  unfolding left_db_def move_account_def
  by (rule schema_upd_room, rule schema_upd_account) (use assms in auto)

lemma left_db_sel [simp]:
  "tb_account (left_db e K u n t) = tb_account (move_account e K u None t)"
  "room_ids (left_db e K u n t) = room_ids t"
  by (simp_all add: left_db_def upd_room_ids)

text \<open>When the last user leaves, no account is left in the room, and the deletion touches only its row.\<close>

lemma delete_deserted:
  assumes "\<And>a. a \<in> set (tb_account t) \<Longrightarrow> ac_current_room_id a \<noteq> Some n"
  shows "tb_account (delete_rooms (deserted n) t) = tb_account t"
proof -
  have "(case ac_current_room_id a of None \<Rightarrow> a
      | Some q \<Rightarrow> if q \<in> rr_room_id ` {x \<in> set (tb_room t). deserted n x} then a\<lparr>ac_current_room_id := None\<rparr> else a) = a"
    if "a \<in> set (tb_account t)" for a
    using assms [OF that] by (auto simp: deserted_def split: option.splits)
  then show ?thesis unfolding delete_rooms_def Let_def by (simp add: map_idI)
qed

lemma left_row_count:
  assumes "schema_inv K t" "x \<in> set (tb_room t)" "rr_room_id x = n" "y \<in> set (tb_room (left_db e K u n t))" "rr_room_id y = n"
  shows "y = x\<lparr>rr_user_count := rr_user_count x - 1\<rparr>"
proof -
  obtain z where z: "z \<in> set (tb_room t)" "y = (if rr_room_id z = n then z\<lparr>rr_user_count := rr_user_count z - 1\<rparr> else z)"
    using assms(4) by (auto simp: left_db_def upd_room_def)
  then have "z \<in> set (filter (\<lambda>y. rr_room_id y = rr_room_id x) (tb_room t))"
    using assms(3,5) by (auto split: if_splits)
  then have "z = x" using room_row_unique(1) [OF assms(1,2)] by simp
  then show ?thesis using z(2) assms(3) by simp
qed

lemma left_room_ok:
  assumes inv: "chat_inv e K ch L" and ok: "room_ok e K ch L n r rm" and u: "(u, i) \<in> set (rm_users rm)"
    and more: "rm_roomState rm \<noteq> 1" and L: "L - {i} \<subseteq> L'"
  shows "room_ok e K (left e K i u n r rm ch) L' n r
    (rm\<lparr>rm_users := users_erase u (rm_users rm), rm_roomState := rm_roomState rm - 1\<rparr>)"
    (is "room_ok e K ?ch L' n r ?rm")
proof (rule room_okI)
  note us = users_erase_props [OF room_okD(4) [OF ok] u]
  have len: "length (rm_users rm) = Suc (length (users_erase u (rm_users rm)))" using us(1) u by (cases "rm_users rm") auto
  show "rm_roomState ?rm = int (length (rm_users ?rm))" using room_okD(3) [OF ok] len by simp
  then show "rm_users ?rm \<noteq> []" using more by auto
  show "sorted_wrt (<) (map fst (rm_users ?rm))" using us(2) by simp
  obtain x where x: "x \<in> set (tb_room (ch_db ch))" "rr_room_id x = n" "rr_user_count x = int (length (rm_users rm))"
    using room_okD(5) [OF ok] by blast
  have db: "ch_db ?ch = left_db e K u n (ch_db ch)" using more by (simp add: left_def Let_def)
  show "\<exists>x \<in> set (tb_room (ch_db ?ch)). rr_room_id x = n \<and> rr_user_count x = int (length (rm_users ?rm))"
    unfolding db
    by (rule bexI [of _ "x\<lparr>rr_user_count := rr_user_count x - 1\<rparr>"])
      (use x len in \<open>auto simp: left_db_def upd_room_def image_iff intro!: bexI [of _ x]\<close>)
  have mine: "v = u" if "(v, i) \<in> set (rm_users rm)" for v
    using room_okD(7) [OF ok that] room_okD(7) [OF ok u] by simp
  show "j \<in> L' \<and> ch_clients ?ch j = \<lparr>cs_room = Some r, cs_id = v\<rparr>" if "(v, j) \<in> set (rm_users ?rm)" for v j
  proof -
    have v: "(v, j) \<in> set (rm_users rm)" "(v, j) \<noteq> (u, i)" using that us(3) by auto
    then have "j \<noteq> i" using mine by auto
    then show ?thesis using room_okD(6,7) [OF ok v(1)] L by (auto simp: left_def Let_def)
  qed
  have log: "j \<in> L \<and> cs_id (ch_clients ch j) = v \<and> logged ch j" if "(v, j) \<in> set (rm_users rm)" for v j
    using room_okD(6,7) [OF ok that] login_invD(4) [OF chat_invD(6) [OF inv]] by auto
  have keys: "key e K v \<noteq> key e K u" if "(v, j) \<in> set (rm_users ?rm)" for v j
  proof
    assume k: "key e K v = key e K u"
    have v: "(v, j) \<in> set (rm_users rm)" "(v, j) \<noteq> (u, i)" using that us(3) by auto
    have "j = i" using login_invD(3) [OF chat_invD(6) [OF inv], of j i] log [OF v(1)] log [OF u] k by auto
    then show False using v mine by auto
  qed
  show "ac_current_room_id a = Some n \<longleftrightarrow> K (ac_id a) \<in> key e K ` fst ` set (rm_users ?rm)"
    if a: "a \<in> set (tb_account (ch_db ?ch))" for a
  proof -
    have "a \<in> set (tb_account (move_account e K u None (ch_db ch)))" using a by (simp add: db)
    then obtain b where b: "b \<in> set (tb_account (ch_db ch))" "ac_id a = ac_id b"
      "ac_current_room_id a = (if K (ac_id b) = key e K u then None else ac_current_room_id b)"
      by (rule move_account_mem)
    show ?thesis
    proof (cases "K (ac_id b) = key e K u")
      case True
      then show ?thesis using keys b(2,3) by force
    next
      case False
      then have "K (ac_id b) \<in> key e K ` fst ` set (rm_users rm) \<longleftrightarrow> K (ac_id b) \<in> key e K ` fst ` set (rm_users ?rm)"
        using us(3) by force
      then show ?thesis using room_okD(8) [OF ok b(1)] b(2,3) False by simp
    qed
  qed
  show "fits e (refresh_packet (shown_ids e (ch_db ?ch) n))"
    unfolding db by (rule shown_left [OF room_okD(9) [OF ok]])
qed (use room_okD(1) [OF ok] in simp)

lemma left_sel:
  fixes e K i u n r rm ch
  defines "ch' \<equiv> left e K i u n r rm ch" and "final \<equiv> rm_roomState rm = 1"
  shows "ch_next ch' = ch_next ch" "ch_pool ch' = ch_pool ch"
    "ch_heap ch' = (ch_heap ch)(r \<mapsto> rm\<lparr>rm_users := users_erase u (rm_users rm),
       rm_roomState := (if final then Destruction else rm_roomState rm - 1)\<rparr>)"
    "ch_clients ch' = (ch_clients ch)(i := (ch_clients ch i)\<lparr>cs_room := None\<rparr>)"
    "ch_rooms ch' = (if final then (ch_rooms ch)(n := None) else ch_rooms ch)"
    "ch_db ch' = (if final then delete_rooms (deserted n) (left_db e K u n (ch_db ch)) else left_db e K u n (ch_db ch))"
  by (simp_all add: left_def Let_def ch'_def final_def)

lemma sole_user:
  assumes "room_ok e K ch L n r rm" "(u, i) \<in> set (rm_users rm)" "rm_roomState rm = 1"
  shows "rm_users rm = [(u, i)]"
  using room_okD(3) [OF assms(1)] assms(2,3) by (cases "rm_users rm") auto

lemma left_accounts:
  assumes ok: "room_ok e K ch L n r rm" and u: "(u, i) \<in> set (rm_users rm)"
  shows "tb_account (ch_db (left e K i u n r rm ch)) = tb_account (move_account e K u None (ch_db ch))"
proof (cases "rm_roomState rm = 1")
  case True
  have "ac_current_room_id a \<noteq> Some n" if "a \<in> set (tb_account (left_db e K u n (ch_db ch)))" for a
  proof -
    have "a \<in> set (tb_account (move_account e K u None (ch_db ch)))" using that by simp
    then obtain b where "b \<in> set (tb_account (ch_db ch))"
        "ac_current_room_id a = (if K (ac_id b) = key e K u then None else ac_current_room_id b)"
      by (rule move_account_mem)
    then show ?thesis using room_okD(8) [OF ok, of b] sole_user [OF ok u True] by auto
  qed
  then show ?thesis using delete_deserted [of "left_db e K u n (ch_db ch)" n] True by (simp add: left_sel)
qed (simp add: left_sel)

text \<open>The row of the room is deleted exactly when its last user leaves; the other rows stay.\<close>

lemma left_ids:
  assumes inv: "schema_inv K (ch_db ch)" and ok: "room_ok e K ch L n r rm" and u: "(u, i) \<in> set (rm_users rm)"
  shows "room_ids (ch_db (left e K i u n r rm ch)) = (if rm_roomState rm = 1 then room_ids (ch_db ch) - {n} else room_ids (ch_db ch))"
proof (cases "rm_roomState rm = 1")
  case True
  let ?t = "left_db e K u n (ch_db ch)"
  obtain x where x: "x \<in> set (tb_room (ch_db ch))" "rr_room_id x = n" "rr_user_count x = int (length (rm_users rm))"
    using room_okD(5) [OF ok] by blast
  have "deserted n y \<longleftrightarrow> rr_room_id y = n" if "y \<in> set (tb_room ?t)" for y
    using left_row_count [OF inv x(1,2) that] x(3) sole_user [OF ok u True] by (auto simp: deserted_def)
  then have "room_ids (delete_rooms (deserted n) ?t) = room_ids ?t - {n}"
    by (auto simp: delete_rooms_def room_ids_def Let_def)
  then show ?thesis using True by (simp add: left_sel)
qed (simp add: left_sel)

lemma left_rows:
  assumes "x \<in> set (tb_room (ch_db ch))" "rr_room_id x \<noteq> n"
  shows "x \<in> set (tb_room (ch_db (left e K i u n r rm ch)))"
proof -
  have "x \<in> set (tb_room (left_db e K u n (ch_db ch)))"
    using assms by (force simp: left_db_def upd_room_def)
  then show ?thesis using assms(2) by (auto simp: left_sel delete_rooms_def Let_def deserted_def)
qed

lemma left_rooms_inv:
  assumes inv: "chat_inv e K ch L" and L: "L - {i} \<subseteq> L'"
    and r: "ch_rooms ch n = Some r" "ch_heap ch r = Some rm" "(u, i) \<in> set (rm_users rm)"
  shows "rooms_inv e K (left e K i u n r rm ch) L'" (is "rooms_inv e K ?ch L'")
proof (rule rooms_inv_one [OF chat_invD(4) [OF inv] r(1)])
  have ok: "room_ok e K ch L n r rm" using rooms_invD(3) [OF chat_invD(4) [OF inv] r(1)] r(2) by auto
  have cl: "ch_clients ch i = \<lparr>cs_room = Some r, cs_id = u\<rparr>" "i \<in> L" using room_okD(6,7) [OF ok r(3)] by auto
  show "dom (ch_rooms ?ch) = room_ids (ch_db ?ch)"
    using rooms_invD(1) [OF chat_invD(4) [OF inv]] left_ids [OF chat_invD(1) [OF inv] ok r(3)] by (auto simp: left_sel)
  show "\<exists>rm'. ch_heap ?ch q = Some rm' \<and> room_ok e K ?ch L' n q rm'" if "ch_rooms ?ch n = Some q" for q
  proof -
    have "q = r" "rm_roomState rm \<noteq> 1" using that r(1) by (auto simp: left_sel split: if_splits)
    then show ?thesis using left_room_ok [OF inv ok r(3) _ L] by (simp add: left_sel)
  qed
  show "room_ok e K ?ch L' k q rm'"
    if k: "k \<noteq> n" "ch_rooms ch k = Some q" "ch_heap ch q = Some rm'" "room_ok e K ch L k q rm'" for k q rm'
  proof (rule room_ok_other [OF k(4) left_accounts [OF ok r(3)]])
    show "ac_current_room_id a \<noteq> Some k" if "a \<in> set (tb_account (ch_db ch))" "K (ac_id a) = key e K u" for a
      using room_okD(8) [OF ok that(1)] that(2) r(3) k(1) by force
    show "x \<in> set (tb_room (ch_db ?ch))" if "x \<in> set (tb_room (ch_db ch))" "rr_room_id x = k" for x
      by (rule left_rows) (use that k(1) in auto)
    have "q \<noteq> r" using r(2) k(3) room_okD(1) [OF ok] room_okD(1) [OF k(4)] k(1) by auto
    then show "j \<in> L' \<and> ch_clients ?ch j = ch_clients ch j" if "(v, j) \<in> set (rm_users rm')" for v j
      using room_okD(6,7) [OF k(4) that] cl(1) L by (auto simp: left_sel)
  qed simp
qed (simp_all add: left_sel)

lemma left_clients_inv:
  assumes inv: "chat_inv e K ch L" and L: "L' \<subseteq> L"
    and r: "ch_rooms ch n = Some r" "ch_heap ch r = Some rm" "(u, i) \<in> set (rm_users rm)"
  shows "clients_inv (left e K i u n r rm ch) L'" (is "clients_inv ?ch L'")
proof (rule clients_inv_one [OF chat_invD(5) [OF inv] L, of i _ r])
  have ok: "room_ok e K ch L n r rm" using rooms_invD(3) [OF chat_invD(4) [OF inv] r(1)] r(2) by auto
  show "\<exists>rm'. ch_rooms ?ch k = Some q \<and> ch_heap ?ch q = Some rm' \<and> (v, j) \<in> set (rm_users rm')"
    if k: "ch_rooms ch k = Some q" "ch_heap ch q = Some rm'" "(v, j) \<in> set (rm_users rm')" "j \<noteq> i" for k q rm' v j
  proof (cases "q = r")
    case True
    have rm: "rm' = rm" using True k(2) r(2) by simp
    have "k = n" using rooms_invD(3) [OF chat_invD(4) [OF inv] k(1)] True r(2) room_okD(1) [OF ok] room_okD(1) by fastforce
    moreover have "rm_roomState rm \<noteq> 1" using sole_user [OF ok r(3)] k(3,4) rm by auto
    moreover have "(v, j) \<in> set (users_erase u (rm_users rm))"
      using users_erase_props(3) [OF room_okD(4) [OF ok] r(3)] k(3,4) rm by simp
    ultimately show ?thesis using r(1) True by (simp add: left_sel)
  next
    case False
    then have "k \<noteq> n" using k(1) r(1) by auto
    then show ?thesis using k False by (simp add: left_sel)
  qed
qed (simp_all add: left_sel)

lemma left_inv:
  assumes inv: "chat_inv e K ch L" and L: "L - {i} \<subseteq> L'" "L' \<subseteq> L"
    and r: "ch_rooms ch n = Some r" "ch_heap ch r = Some rm" "(u, i) \<in> set (rm_users rm)"
  shows "chat_inv e K (left e K i u n r rm ch) L'"
proof (rule chat_invI)
  let ?ch = "left e K i u n r rm ch"
  have ok: "room_ok e K ch L n r rm" using rooms_invD(3) [OF chat_invD(4) [OF inv] r(1)] r(2) by auto
  show "schema_inv K (ch_db ?ch)"
    unfolding left_sel using left_schema [OF chat_invD(1) [OF inv]] schema_delete_rooms by auto
  show "2 \<le> length (ch_pool ?ch)" using chat_invD(2) [OF inv] by (simp add: left_sel)
  show "login_inv e K ?ch L'"
  proof (rule login_inv_cong [OF chat_invD(6) [OF inv] L(2)])
    show "\<exists>a \<in> set (tb_account (ch_db ?ch)). K (ac_id a) = key e K (cs_id (ch_clients ch j)) \<and> ac_is_online a"
      if "j \<in> L'" "logged ch j" for j
      unfolding left_accounts [OF ok r(3)]
      by (rule move_account_online [OF login_invD(2) [OF chat_invD(6) [OF inv]]]) (use that L in auto)
    show "logged ch j" if "j \<in> L'" "cs_room (ch_clients ?ch j) = Some q" for j q
      using that login_invD(4) [OF chat_invD(6) [OF inv], of j q] L by (auto simp: left_sel split: if_splits)
  qed (simp add: left_sel)
qed (rule left_rooms_inv [OF inv L(1) r], rule left_clients_inv [OF inv L(2) r])

section \<open>The response to a request to leave\<close>

definition room_out_reply :: packet where
  "room_out_reply = Pkt_S_ROOM_OUT S_ROOM_OUT_new"

lemma room_out_fits: "env_ok e K \<Longrightarrow> fits e room_out_reply"
  by (simp add: fits_def room_out_reply_def S_ROOM_OUT_InternalSerialize_def S_ROOM_OUT_new_def env_ok_def pb_ok_def)

lemma out_result:
  assumes e: "env_ok e K" and inv: "chat_inv e K (w_content w) L" and L: "L \<subseteq> dom (w_sessions w)"
    and i: "i \<in> L" "cs_room (ch_clients (w_content w) i) = Some r" "C_ROOM_OUT_id m = cs_id (ch_clients (w_content w) i)"
  shows "\<exists>n rm p. ch_rooms (w_content w) n = Some r \<and> ch_heap (w_content w) r = Some rm \<and>
    (C_ROOM_OUT_id m, i) \<in> set (rm_users rm) \<and> length p = length (ch_pool (w_content w)) \<and>
    Respond_C_ROOM_OUT e i m w = Inr (sent e i room_out_reply
      (sent_all e (refresh_packet (shown_ids e (left_db e K (C_ROOM_OUT_id m) n (ch_db (w_content w))) n)) None
        (users_erase (C_ROOM_OUT_id m) (rm_users rm))
        (upd_chat (\<lambda>ch. (left e K i (C_ROOM_OUT_id m) n r rm ch)\<lparr>ch_pool := p\<rparr>) w)))"
proof -
  have od: "odbc_ok (en_odbc e) (sql_eval K)" using e by (simp add: env_ok_def)
  let ?ch = "w_content w" and ?u = "C_ROOM_OUT_id m"
  obtain n rm a where n: "ch_rooms ?ch n = Some r" "ch_heap ?ch r = Some rm" "room_ok e K ?ch L n r rm" "(?u, i) \<in> set (rm_users rm)"
    and a: "a \<in> set (tb_account (ch_db ?ch))" "K (ac_id a) = key e K ?u" "ac_current_room_id a = Some n"
    using client_room [OF inv i(1,2)] i(3) by metis
  have "filter (\<lambda>b. K (ac_id b) = K (wname e ?u)) (tb_account (ch_db ?ch)) = [a]"
    using account_unique [OF chat_invD(1) [OF inv] a(1)] a(2) by (simp add: key_def)
  then have s1: "sql_eval K SelectCurrentRoom [SqlStr (wname e ?u)] (ch_db ?ch) = Some (Some [[SqlInt n]], ch_db ?ch)"
    by (simp add: sql_eval_def a(3) room_value_def)
  let ?w1 = "w\<lparr>w_content := ?ch\<lparr>ch_pool := butlast (ch_pool ?ch)\<rparr>\<rparr>"
  have pool: "butlast (ch_pool ?ch) \<noteq> []" using chat_invD(2) [OF inv] by (cases "ch_pool ?ch") auto
  have "\<exists>c. RemoveUser e r ?u ?w1 = Inr (sent_all e (refresh_packet (shown_ids e (left_db e K ?u n (ch_db ?ch)) n)) None
      (users_erase ?u (rm_users rm)) (upd_chat (\<lambda>ch. (left e K i ?u n r rm ch)\<lparr>ch_pool := butlast (ch_pool ch) @ [c]\<rparr>) ?w1))"
    by (rule remove_result [OF e, where q = "ch_pool ?ch" and L = L]) (use inv L pool n in \<open>simp_all\<close>)
  then obtain c where c: "RemoveUser e r ?u ?w1 = Inr (sent_all e (refresh_packet (shown_ids e (left_db e K ?u n (ch_db ?ch)) n)) None
      (users_erase ?u (rm_users rm)) (upd_chat (\<lambda>ch. (left e K i ?u n r rm ch)\<lparr>ch_pool := butlast (ch_pool ch) @ [c]\<rparr>) ?w1))"
    by blast
  have us: "snd ` set (users_erase ?u (rm_users rm)) \<subseteq> dom (w_sessions w)"
    using users_live [OF n(3) L] by (auto simp: users_erase_def)
  have i': "i \<in> dom (w_sessions w)" using i(1) L by blast
  let ?p = "butlast (butlast (ch_pool ?ch)) @ [c, conn_after [HWStr (Utf8ToWstring e ?u)] [CInt32] (Some [])]"
  have "Respond_C_ROOM_OUT e i m w = Inr (sent e i room_out_reply
      (sent_all e (refresh_packet (shown_ids e (left_db e K ?u n (ch_db ?ch)) n)) None (users_erase ?u (rm_users rm))
        (upd_chat (\<lambda>ch. (left e K i ?u n r rm ch)\<lparr>ch_pool := ?p\<rparr>) w)))"
    using n(1) chat_invD(3) [OF inv] c us i' room_out_fits [OF e]
    by (simp add: Respond_C_ROOM_OUT_def pool_pop_ok db_must_eq [OF e] s1 Fetch_Some [OF od] Let_def column_value_simps [OF od]
        IsColNull_def GetRoom_def send_packet_ok room_out_reply_def [symmetric] pool_push_sent pool_push_sent_all)
      (cases "w_content w", simp add: pool_push_def DBConnectionPool_Push_def left_def Let_def)
  moreover have "length ?p = length (ch_pool ?ch)" using chat_invD(2) [OF inv] by simp
  ultimately show ?thesis using n(1,2,4) by blast
qed

section \<open>Disconnecting\<close>

definition offline :: "env \<Rightarrow> (wstr \<Rightarrow> wstr) \<Rightarrow> utf8 \<Rightarrow> chat \<Rightarrow> chat" where
  "offline e K u ch = ch\<lparr>ch_db := upd_account K (wname e u) (\<lambda>a. a\<lparr>ac_is_online := False\<rparr>) (ch_db ch)\<rparr>"

definition disconnected :: "env \<Rightarrow> (wstr \<Rightarrow> wstr) \<Rightarrow> sid \<Rightarrow> chat \<Rightarrow> chat" where
  "disconnected e K i ch =
     (let u = cs_id (ch_clients ch i) in
      offline e K u (case cs_room (ch_clients ch i) of None \<Rightarrow> ch
        | Some r \<Rightarrow> (case ch_heap ch r of None \<Rightarrow> ch | Some rm \<Rightarrow> left e K i u (rm_roomId rm) r rm ch)))"

lemma offline_pool: "offline e K u (ch\<lparr>ch_pool := p\<rparr>) = (offline e K u ch)\<lparr>ch_pool := p\<rparr>"
  by (cases ch) (simp add: offline_def)

lemma offline_step:
  assumes e: "env_ok e K" and pool: "ch_pool (w_content w) \<noteq> []"
  shows "\<exists>c. bindR (pool_pop w) (\<lambda>(dbConn, w).
      bindR (db_must e 2 0 UpdateOnline [HBool False, HWStr (Utf8ToWstring e u)] [] [] dbConn w) (\<lambda>(dbConn, w).
      Inr (pool_push dbConn w))) =
    Inr (upd_chat (\<lambda>ch. (offline e K u ch)\<lparr>ch_pool := butlast (ch_pool ch) @ [c]\<rparr>) w)"
  using pool
  by (simp add: pool_pop_ok db_must_eq [OF e] sql_eval_def pool_push_def DBConnectionPool_Push_def offline_def)
    (rule exI, rule refl)

lemma disconnect_result:
  assumes e: "env_ok e K" and inv: "chat_inv e K (w_content w) L" and L: "L \<subseteq> dom (w_sessions w)" and i: "i \<in> L"
  shows "\<exists>w' p. OnDisconnected e i w = Inr w' \<and> dom (w_sessions w') = dom (w_sessions w) \<and> w_service w' = w_service w \<and> w_next w' = w_next w \<and>
    length p = length (ch_pool (w_content w)) \<and> w_content w' = (disconnected e K i (w_content w))\<lparr>ch_pool := p\<rparr>"
proof (cases "cs_room (ch_clients (w_content w) i)")
  case None
  let ?u = "cs_id (ch_clients (w_content w) i)"
  obtain c where "bindR (pool_pop w) (\<lambda>(dbConn, w).
      bindR (db_must e 2 0 UpdateOnline [HBool False, HWStr (Utf8ToWstring e ?u)] [] [] dbConn w) (\<lambda>(dbConn, w).
      Inr (pool_push dbConn w))) = Inr (upd_chat (\<lambda>ch. (offline e K ?u ch)\<lparr>ch_pool := butlast (ch_pool ch) @ [c]\<rparr>) w)"
    using offline_step [OF e chat_invD(3) [OF inv]] by blast
  then have "OnDisconnected e i w = Inr (upd_chat (\<lambda>ch. (offline e K ?u ch)\<lparr>ch_pool := butlast (ch_pool ch) @ [c]\<rparr>) w)"
    using None by (simp add: OnDisconnected_def Let_def)
  moreover have "length (butlast (ch_pool (w_content w)) @ [c]) = length (ch_pool (w_content w))" using chat_invD(2) [OF inv] by simp
  ultimately show ?thesis
    using None by (intro exI conjI) (assumption, simp_all add: disconnected_def Let_def)
next
  case (Some r)
  let ?ch = "w_content w" and ?u = "cs_id (ch_clients (w_content w) i)"
  obtain n rm where n: "ch_rooms ?ch n = Some r" "ch_heap ?ch r = Some rm" "room_ok e K ?ch L n r rm" "(?u, i) \<in> set (rm_users rm)"
    using client_room [OF inv i Some] by metis
  have id: "rm_roomId rm = n" using room_okD(1) [OF n(3)] .
  obtain c where c: "RemoveUser e r ?u w = Inr (sent_all e (refresh_packet (shown_ids e (left_db e K ?u n (ch_db ?ch)) n)) None
      (users_erase ?u (rm_users rm)) (upd_chat (\<lambda>ch. (left e K i ?u n r rm ch)\<lparr>ch_pool := butlast (ch_pool ch) @ [c]\<rparr>) w))"
    using remove_result [OF e _ L chat_invD(3) [OF inv] n(1,2,4) refl, of "ch_pool ?ch"] inv by auto
  let ?w1 = "sent_all e (refresh_packet (shown_ids e (left_db e K ?u n (ch_db ?ch)) n)) None
      (users_erase ?u (rm_users rm)) (upd_chat (\<lambda>ch. (left e K i ?u n r rm ch)\<lparr>ch_pool := butlast (ch_pool ch) @ [c]\<rparr>) w)"
  have us: "snd ` set (users_erase ?u (rm_users rm)) \<subseteq> dom (w_sessions w)"
    using users_live [OF n(3) L] by (auto simp: users_erase_def)
  have "ch_pool (w_content ?w1) \<noteq> []" by simp
  then obtain c' where c': "bindR (pool_pop ?w1) (\<lambda>(dbConn, w).
      bindR (db_must e 2 0 UpdateOnline [HBool False, HWStr (Utf8ToWstring e ?u)] [] [] dbConn w) (\<lambda>(dbConn, w).
      Inr (pool_push dbConn w))) = Inr (upd_chat (\<lambda>ch. (offline e K ?u ch)\<lparr>ch_pool := butlast (ch_pool ch) @ [c']\<rparr>) ?w1)"
    using offline_step [OF e] by blast
  let ?w2 = "upd_chat (\<lambda>ch. (offline e K ?u ch)\<lparr>ch_pool := butlast (ch_pool ch) @ [c']\<rparr>) ?w1"
  have "\<not> expired w r" using n(1,2) id by (simp add: expired_def)
  then have run: "OnDisconnected e i w = Inr ?w2" using Some c c' by (simp add: OnDisconnected_def Let_def)
  show ?thesis
  proof (rule exI [of _ ?w2], rule exI [of _ "butlast (ch_pool ?ch) @ [c']"], intro conjI)
    show "OnDisconnected e i w = Inr ?w2" by (rule run)
    show "dom (w_sessions ?w2) = dom (w_sessions w)" using us by simp
    show "length (butlast (ch_pool ?ch) @ [c']) = length (ch_pool ?ch)" using chat_invD(2) [OF inv] by simp
    show "w_content ?w2 = (disconnected e K i ?ch)\<lparr>ch_pool := butlast (ch_pool ?ch) @ [c']\<rparr>"
      using Some n(2) id by (simp add: disconnected_def Let_def offline_pool)
  qed simp_all
qed

text \<open>A client in no room can be dropped from the live sessions.\<close>

lemma chat_inv_drop:
  assumes inv: "chat_inv e K ch L" and i: "cs_room (ch_clients ch i) = None"
  shows "chat_inv e K ch (L - {i})"
proof (rule chat_invI)
  show "rooms_inv e K ch (L - {i})"
    unfolding rooms_inv_def
  proof (intro conjI allI impI)
    show "\<exists>rm. ch_heap ch r = Some rm \<and> room_ok e K ch (L - {i}) n r rm" if n: "ch_rooms ch n = Some r" for n r
    proof -
      obtain rm where rm: "ch_heap ch r = Some rm" "room_ok e K ch L n r rm"
        using rooms_invD(3) [OF chat_invD(4) [OF inv] n] by blast
      have "room_ok e K ch (L - {i}) n r rm"
        by (rule room_ok_cong [OF rm(2)]) (use room_okD(6,7) [OF rm(2)] i in auto)
      then show ?thesis using rm(1) by blast
    qed
  qed (use rooms_invD(1,2) [OF chat_invD(4) [OF inv]] in auto)
  show "clients_inv ch (L - {i})" using chat_invD(5) [OF inv] unfolding clients_inv_def by blast
  show "login_inv e K ch (L - {i})"
    by (rule login_inv_cong [OF chat_invD(6) [OF inv]])
      (use login_invD(2,4) [OF chat_invD(6) [OF inv]] in auto)
qed (use chat_invD(1,2) [OF inv] in auto)

text \<open>An account that no live client has logged in with may go offline.\<close>

lemma offline_inv:
  assumes inv: "chat_inv e K ch L" and u: "\<And>j. j \<in> L \<Longrightarrow> logged ch j \<Longrightarrow> key e K (cs_id (ch_clients ch j)) \<noteq> key e K u"
  shows "chat_inv e K (offline e K u ch) L"
proof (rule chat_invI)
  let ?ch = "offline e K u ch"
  let ?f = "\<lambda>a. a\<lparr>ac_is_online := False\<rparr>"
  have sel: "ch_rooms ?ch = ch_rooms ch" "ch_heap ?ch = ch_heap ch" "ch_next ?ch = ch_next ch" "ch_clients ?ch = ch_clients ch"
    "ch_pool ?ch = ch_pool ch" "ch_db ?ch = upd_account K (wname e u) ?f (ch_db ch)"
    by (simp_all add: offline_def)
  show "schema_inv K (ch_db ?ch)"
    unfolding sel by (rule schema_upd_account) (use chat_invD(1) [OF inv] in \<open>auto simp: schema_inv_def\<close>)
  show "rooms_inv e K ?ch L"
    unfolding rooms_inv_def
  proof (intro conjI allI impI)
    show "\<exists>rm. ch_heap ?ch r = Some rm \<and> room_ok e K ?ch L n r rm" if n: "ch_rooms ?ch n = Some r" for n r
    proof -
      obtain rm where rm: "ch_heap ch r = Some rm" "room_ok e K ch L n r rm"
        using rooms_invD(3) [OF chat_invD(4) [OF inv] n [unfolded sel]] by blast
      have "room_ok e K ?ch L n r rm"
      proof (rule room_ok_cong [OF rm(2)])
        show "\<exists>b \<in> set (tb_account (ch_db ch)). K (ac_id b) = K (ac_id a) \<and> (ac_current_room_id b = Some n \<longleftrightarrow> ac_current_room_id a = Some n)"
          if "a \<in> set (tb_account (ch_db ?ch))" for a
          using that by (auto simp: sel upd_account_def)
        show "shown_ids e (ch_db ?ch) n = shown_ids e (ch_db ch) n"
          by (rule shown_ids_cong) (simp add: sel members_upd_account)
      qed (use room_okD(6) [OF rm(2)] in \<open>auto simp: sel\<close>)
      then show ?thesis using rm(1) by (simp add: sel)
    qed
  qed (use rooms_invD(1,2) [OF chat_invD(4) [OF inv]] in \<open>simp_all add: sel\<close>)
  show "login_inv e K ?ch L"
  proof (rule login_inv_cong [OF chat_invD(6) [OF inv] subset_refl])
    show "\<exists>a \<in> set (tb_account (ch_db ?ch)). K (ac_id a) = key e K (cs_id (ch_clients ch j)) \<and> ac_is_online a"
      if j: "j \<in> L" "logged ch j" for j
    proof -
      obtain a where a: "a \<in> set (tb_account (ch_db ch))" "K (ac_id a) = key e K (cs_id (ch_clients ch j))" "ac_is_online a"
        using login_invD(2) [OF chat_invD(6) [OF inv] j] by blast
      show ?thesis
        unfolding sel by (rule bexI [OF _ upd_account_mem [OF a(1)]]) (use a u [OF j] in \<open>auto simp: key_def\<close>)
    qed
  qed (use login_invD(4) [OF chat_invD(6) [OF inv]] in \<open>auto simp: sel\<close>)
qed (use chat_invD(2,5) [OF inv] in \<open>simp_all add: offline_def clients_inv_def\<close>)

lemma disconnected_inv:
  assumes inv: "chat_inv e K ch L" and i: "i \<in> L"
  shows "chat_inv e K (disconnected e K i ch) (L - {i})"
proof -
  let ?u = "cs_id (ch_clients ch i)"
  have other: "key e K (cs_id (ch_clients ch j)) \<noteq> key e K ?u" if j: "j \<in> L - {i}" "logged ch j" for j
  proof (cases "logged ch i")
    case True
    then show ?thesis using login_invD(3) [OF chat_invD(6) [OF inv], of j i] j i by auto
  next
    case False
    then have "key e K ?u = K []" by (simp add: logged_def key_def Utf8ToWstring_def c_str_def)
    then show ?thesis using login_invD(1) [OF chat_invD(6) [OF inv], of j] j by auto
  qed
  show ?thesis
  proof (cases "cs_room (ch_clients ch i)")
    case None
    then show ?thesis
      using offline_inv [OF chat_inv_drop [OF inv None], of ?u] other by (simp add: disconnected_def Let_def)
  next
    case (Some r)
    obtain n rm where n: "ch_rooms ch n = Some r" "ch_heap ch r = Some rm" "room_ok e K ch L n r rm" "(?u, i) \<in> set (rm_users rm)"
      using client_room [OF inv i Some] by metis
    have "chat_inv e K (offline e K ?u (left e K i ?u n r rm ch)) (L - {i})"
    proof (rule offline_inv [OF left_inv [OF inv _ _ n(1,2,4)]])
      show "key e K (cs_id (ch_clients (left e K i ?u n r rm ch) j)) \<noteq> key e K ?u"
        if "j \<in> L - {i}" "logged (left e K i ?u n r rm ch) j" for j
        using that other [of j] by (auto simp: left_sel logged_def)
    qed auto
    then show ?thesis using Some n(2) room_okD(1) [OF n(3)] by (simp add: disconnected_def Let_def)
  qed
qed

end
