(* ===== verification/Server_Main.thy ===== *)
theory Server_Main
  imports Server_Leave
begin

text \<open>
  The server program: its start (\<open>Server/Server.cpp\<close>) and its life as a sequence of events, each the
  whole handler the code runs for it. The invariant of the chat server holds after \<open>main\<close> has set up
  the tables and the pool, every event of a well-behaved client keeps it, and no handler faults.

  The live sessions of the invariant are the set \<open>_sessions\<close> of the service.
\<close>

section \<open>Starting\<close>

text \<open>\<open>main\<close>: the six statements it executes without bindings, each asserted to succeed.\<close>

definition main_statements :: "sql list" where
  "main_statements = [DropLog, DropAccount, DropRoom, CreateRoom, CreateAccount, CreateLog]"

fun execute_all :: "env \<Rightarrow> sql list \<Rightarrow> db_conn \<Rightarrow> tables \<Rightarrow> (db_conn \<times> tables) res" where
  "execute_all e [] dbConn d = Inr (dbConn, d)"
| "execute_all e (query # qs) dbConn d =
     bindR (DBConnection_Execute (en_odbc e) query True [] dbConn d) (\<lambda>(ok, dbConn, d).
       ASSERT_CRASH ok (execute_all e qs dbConn d))"

definition chat_start :: "tables \<Rightarrow> db_conn list \<Rightarrow> chat" where
  "chat_start t cs = \<lparr>ch_db = t, ch_pool = cs, ch_rooms = Map.empty, ch_heap = Map.empty, ch_next = 0,
     ch_clients = (\<lambda>_. client_new)\<rparr>"

text \<open>
  The part of \<open>main\<close> before \<open>service->Start\<close>: \<open>answers\<close> are what ODBC answers to each of the connections
  the pool opens, \<open>d\<close> is the database as the server finds it.
\<close>

definition Server_main ::
  "env \<Rightarrow> int \<Rightarrow> int \<Rightarrow> (int \<times> int \<times> int) list \<Rightarrow> tables \<Rightarrow> (chat_world \<times> (nat \<rightharpoonup> packet_handler)) res" where
  "Server_main e allocEnv setAttr answers d =
     (case DBConnectionPool_Connect allocEnv setAttr answers [] of (isConnected, pool) \<Rightarrow>
        ASSERT_CRASH isConnected
          (case DBConnectionPool_Pop pool of
             (None, _) \<Rightarrow> Inl NullDeref
           | (Some dbConn, pool) \<Rightarrow>
               bindR (execute_all e main_statements dbConn d) (\<lambda>(dbConn, d).
                 Inr (world_new (Service_new ServerType True 100) (chat_start d (DBConnectionPool_Push dbConn pool)),
                      ClientPacketHandler_Init Map.empty))))"

lemma execute_step:
  assumes e: "env_ok e K" and c: "dc_cursor dbConn = None" and q: "sql_eval K query [] d = Some (None, d')"
  shows "execute_all e (query # qs) dbConn d = execute_all e qs dbConn d'"
proof -
  obtain ret where ret: "sql_ok ret" "SQLExecDirect (en_odbc e) query [] False d = (ret, None, d')"
    using odbc_ok_exec [of "en_odbc e" "sql_eval K" query "[]" d] e q by (auto simp: env_ok_def)
  have upd: "dbConn\<lparr>dc_cursor := None\<rparr> = dbConn" using c by (cases dbConn) simp
  show ?thesis using ret c by (simp add: DBConnection_Execute_def sql_ok_def upd)
qed

lemma main_tables:
  assumes e: "env_ok e K" and c: "dc_cursor dbConn = None"
  shows "execute_all e main_statements dbConn d = Inr (dbConn, d\<lparr>tb_log := [], tb_account := [], tb_room := [], tb_room_auto := 1\<rparr>)"
  unfolding main_statements_def
  by (simp add: execute_step [OF e c] sql_eval_def del: execute_all.simps(2))

lemma connect_all_new: "connect_all as cs = (True, cs') \<Longrightarrow> cs' = cs @ replicate (length as) DBConnection_new"
proof (induction as arbitrary: cs)
  case (Cons a as)
  then show ?case by (auto split: if_splits dest!: Cons.IH)
qed simp

section \<open>The invariant of the server\<close>

definition live :: "chat_world \<Rightarrow> sid set" where
  "live w = sv_sessions (w_service w)"

definition server_inv :: "env \<Rightarrow> (wstr \<Rightarrow> wstr) \<Rightarrow> chat_world \<Rightarrow> bool" where
  "server_inv e K w \<longleftrightarrow>
     chat_inv e K (w_content w) (live w) \<and> live w \<subseteq> dom (w_sessions w) \<and>
     dom (w_sessions w) \<subseteq> {..<w_next w} \<and> (\<forall>j \<ge> w_next w. ch_clients (w_content w) j = client_new)"

lemma chat_start_inv:
  assumes "2 \<le> length cs"
  shows "chat_inv e K (chat_start \<lparr>tb_account = [], tb_room = [], tb_log = [], tb_room_auto = 1\<rparr> cs) {}"
  using assms
  by (simp add: chat_inv_def chat_start_def schema_inv_def rooms_inv_def clients_inv_def login_inv_def room_ids_def)

lemma main_inv:
  assumes e: "env_ok e K" and n: "2 \<le> length answers" "\<forall>a \<in> set answers. DBConnection_Connect a"
  shows "\<exists>w. Server_main e SQL_SUCCESS SQL_SUCCESS answers d = Inr (w, ClientPacketHandler_Init Map.empty) \<and>
    server_inv e K w \<and> length (ch_pool (w_content w)) = length answers"
proof -
  have "connect_all answers cs = (True, cs @ replicate (length answers) DBConnection_new)" for cs
    using n(2) by (induction answers arbitrary: cs) (auto simp: replicate_append_same [symmetric])
  then have pool: "DBConnectionPool_Connect SQL_SUCCESS SQL_SUCCESS answers [] = (True, replicate (length answers) DBConnection_new)"
    by (simp add: DBConnectionPool_Connect_def)
  obtain k where k: "length answers = Suc (Suc k)" using n(1) by (metis Suc_1 add_2_eq_Suc le_Suc_ex)
  have "replicate (length answers) DBConnection_new = replicate (Suc k) DBConnection_new @ [DBConnection_new]"
    unfolding k by (simp add: replicate_append_same)
  then have pop: "DBConnectionPool_Pop (replicate (length answers) DBConnection_new) =
      (Some DBConnection_new, replicate (Suc k) DBConnection_new)"
    by (simp add: DBConnectionPool_Pop_def)
  have new: "dc_cursor DBConnection_new = None" by (simp add: DBConnection_new_def)
  let ?t = "d\<lparr>tb_log := [], tb_account := [], tb_room := [], tb_room_auto := 1\<rparr>"
  have t: "?t = \<lparr>tb_account = [], tb_room = [], tb_log = [], tb_room_auto = 1\<rparr>" by (cases d) simp
  let ?w = "world_new (Service_new ServerType True 100) (chat_start ?t (replicate (Suc k) DBConnection_new @ [DBConnection_new]))"
  have "Server_main e SQL_SUCCESS SQL_SUCCESS answers d = Inr (?w, ClientPacketHandler_Init Map.empty)"
    by (simp add: Server_main_def pool pop DBConnectionPool_Push_def main_tables [OF e new] del: replicate.simps)
  moreover have "server_inv e K ?w"
    using chat_start_inv [of "replicate (Suc k) DBConnection_new @ [DBConnection_new]" e K]
    unfolding t by (simp add: server_inv_def live_def world_new_def Service_new_def del: replicate.simps) (simp add: chat_start_def)
  moreover have "length (ch_pool (w_content ?w)) = length answers" by (simp add: world_new_def chat_start_def k)
  ultimately show ?thesis by blast
qed

section \<open>Events\<close>

text \<open>
  What happens to the server: a session is made for the next connection, a connection is established,
  a packet arrives and is answered, a send completes, a session is disconnected.
\<close>

datatype event = EMake | EAccept sid recv_half | EPacket sid packet | ESent sid int | EDrop sid

fun run_event :: "env \<Rightarrow> event \<Rightarrow> chat_world \<Rightarrow> chat_world res" where
  "run_event e EMake w = Inr (snd (CreateSession True w))"
| "run_event e (EAccept i r) w = bindR (ProcessConnect (en_winsock e) OnConnected i r w) (\<lambda>(_, w'). Inr w')"
| "run_event e (EPacket i p) w = respond e (i, p) w"
| "run_event e (ESent i n) w = ProcessSend_world (en_winsock e) i n w"
| "run_event e (EDrop i) w = ProcessDisconnect (OnDisconnected e) i w"

text \<open>
  A well-behaved client. It logs in once, with an id that is not the empty one for the database; it
  creates or joins a room under its own id and only when it is in none; it chats in and leaves a room
  only when it is in one. The answers fit into a send buffer, a room name into its column, and a message
  into its column.
\<close>

definition own :: "chat_world \<Rightarrow> sid \<Rightarrow> utf8 \<Rightarrow> bool" where
  "own w i u \<longleftrightarrow> u = cs_id (ch_clients (w_content w) i)"

definition lobby_user :: "chat_world \<Rightarrow> sid \<Rightarrow> bool" where
  "lobby_user w i \<longleftrightarrow> logged (w_content w) i \<and> cs_room (ch_clients (w_content w) i) = None"

definition room_user :: "chat_world \<Rightarrow> sid \<Rightarrow> bool" where
  "room_user w i \<longleftrightarrow> cs_room (ch_clients (w_content w) i) \<noteq> None"

definition join_fits :: "env \<Rightarrow> (wstr \<Rightarrow> wstr) \<Rightarrow> C_JOIN_ROOM \<Rightarrow> tables \<Rightarrow> bool" where
  "join_fits e K m t \<longleftrightarrow> fits e (join_reply m False []) \<and>
     (\<forall>x \<in> set (tb_room t). K (rr_room_name x) = key e K (C_JOIN_ROOM_roomname m) \<longrightarrow>
        (let ids = shown_ids e (joined_db e K (C_JOIN_ROOM_id m) (rr_room_id x) t) (rr_room_id x)
         in fits e (join_reply m True ids) \<and> fits e (refresh_packet ids)))"

fun honest_packet :: "env \<Rightarrow> (wstr \<Rightarrow> wstr) \<Rightarrow> sid \<Rightarrow> packet \<Rightarrow> chat_world \<Rightarrow> bool" where
  "honest_packet e K i (Pkt_C_LOGIN m) w \<longleftrightarrow>
     \<not> logged (w_content w) i \<and> C_LOGIN_id m \<noteq> [] \<and> key e K (C_LOGIN_id m) \<noteq> K [] \<and>
     fits e (login_reply m (can_login e K m (ch_db (w_content w))))"
| "honest_packet e K i (Pkt_C_REGISTER m) w \<longleftrightarrow>
     fits e (register_reply m (can_register e K m (ch_db (w_content w))))"
| "honest_packet e K i (Pkt_C_REFRESH_LOBBY m) w \<longleftrightarrow> fits e (lobby_reply e (ch_db (w_content w)))"
| "honest_packet e K i (Pkt_C_CREATE_ROOM m) w \<longleftrightarrow>
     lobby_user w i \<and> own w i (C_CREATE_ROOM_id m) \<and> chars (wname e (C_CREATE_ROOM_roomname m)) \<le> 30 \<and>
     fits e (create_reply m (can_create e K (C_CREATE_ROOM_roomname m) (ch_db (w_content w)))) \<and>
     fits e (refresh_packet (shown_ids e (created_db e K (C_CREATE_ROOM_id m) (C_CREATE_ROOM_roomname m) (ch_db (w_content w)))
       (tb_room_auto (ch_db (w_content w)))))"
| "honest_packet e K i (Pkt_C_JOIN_ROOM m) w \<longleftrightarrow>
     lobby_user w i \<and> own w i (C_JOIN_ROOM_id m) \<and> join_fits e K m (ch_db (w_content w))"
| "honest_packet e K i (Pkt_C_CHAT_LOG m) w \<longleftrightarrow>
     room_user w i \<and> own w i (C_CHAT_LOG_id m) \<and> fits e (chat_packet m) \<and> utf8_bytes (wname e (C_CHAT_LOG_log m)) \<le> 65535"
| "honest_packet e K i (Pkt_C_ROOM_OUT m) w \<longleftrightarrow> room_user w i \<and> own w i (C_ROOM_OUT_id m)"
| "honest_packet e K i _ w \<longleftrightarrow> False"

fun honest :: "env \<Rightarrow> (wstr \<Rightarrow> wstr) \<Rightarrow> event \<Rightarrow> chat_world \<Rightarrow> bool" where
  "honest e K EMake w \<longleftrightarrow> True"
| "honest e K (EAccept i r) w \<longleftrightarrow> i \<in> dom (w_sessions w) - live w \<and> ch_clients (w_content w) i = client_new"
| "honest e K (EPacket i p) w \<longleftrightarrow> i \<in> live w \<and> honest_packet e K i p w"
| "honest e K (ESent i n) w \<longleftrightarrow> i \<in> dom (w_sessions w)"
| "honest e K (EDrop i) w \<longleftrightarrow> i \<in> live w"

section \<open>Every event keeps the invariant\<close>

lemma server_invD:
  assumes "server_inv e K w"
  shows "chat_inv e K (w_content w) (live w)" "live w \<subseteq> dom (w_sessions w)" "dom (w_sessions w) \<subseteq> {..<w_next w}"
    "w_next w \<le> j \<Longrightarrow> ch_clients (w_content w) j = client_new" "ch_pool (w_content w) \<noteq> []" "2 \<le> length (ch_pool (w_content w))"
  using assms chat_invD(2,3) by (auto simp: server_inv_def)

lemma server_step:
  assumes inv: "server_inv e K w" and i: "i \<in> live w"
    and x: "chat_inv e K x (live w)" "\<And>j. j \<noteq> i \<Longrightarrow> ch_clients x j = ch_clients (w_content w) j"
    and p: "length p = length (ch_pool (w_content w))" "w_content w' = x\<lparr>ch_pool := p\<rparr>"
    and frame: "dom (w_sessions w') = dom (w_sessions w)" "w_service w' = w_service w" "w_next w' = w_next w"
  shows "server_inv e K w'"
proof -
  have "live w' = live w" using frame by (simp add: live_def)
  moreover have "i < w_next w" using i server_invD(2,3) [OF inv] by blast
  ultimately show ?thesis
    using server_invD [OF inv] chat_inv_pool [OF x(1), of p] x(2) p frame by (auto simp: server_inv_def)
qed

text \<open>For a response that ends with its connection back in the pool.\<close>

lemma event_step:
  assumes inv: "server_inv e K w" and i: "i \<in> live w"
    and x: "chat_inv e K x (live w)" "\<And>j. j \<noteq> i \<Longrightarrow> ch_clients x j = ch_clients (w_content w) j"
    and res: "\<exists>w' c. R = Inr w' \<and> dom (w_sessions w') = dom (w_sessions w) \<and> w_service w' = w_service w \<and> w_next w' = w_next w \<and>
      w_content w' = x\<lparr>ch_pool := butlast (ch_pool (w_content w)) @ [c]\<rparr>"
  shows "\<exists>w'. R = Inr w' \<and> server_inv e K w'"
proof -
  obtain w' c where w': "R = Inr w'" "dom (w_sessions w') = dom (w_sessions w)" "w_service w' = w_service w"
      "w_next w' = w_next w" "w_content w' = x\<lparr>ch_pool := butlast (ch_pool (w_content w)) @ [c]\<rparr>"
    using res by blast
  have "server_inv e K w'"
    by (rule server_step [OF inv i x(1) _ _ w'(5) w'(2-4)]) (use server_invD(6) [OF inv] x(2) in auto)
  then show ?thesis using w'(1) by blast
qed

lemma login_event:
  assumes e: "env_ok e K" and inv: "server_inv e K w" and h: "i \<in> live w" "honest_packet e K i (Pkt_C_LOGIN m) w"
  shows "\<exists>w'. Respond_C_LOGIN e i m w = Inr w' \<and> server_inv e K w'"
proof (rule event_step [OF inv h(1) _ _ login_result [OF e server_invD(5) [OF inv]]])
  show "chat_inv e K (if can_login e K m (ch_db (w_content w)) then logged_in e K i (C_LOGIN_id m) (w_content w) else w_content w) (live w)"
    using logged_in_inv [OF server_invD(1) [OF inv] h(1)] h(2) server_invD(1) [OF inv] by (auto simp: can_login_def)
qed (use h server_invD(2) [OF inv] in \<open>auto simp: logged_in_def\<close>)

lemma register_event:
  assumes e: "env_ok e K" and inv: "server_inv e K w" and h: "i \<in> live w" "honest_packet e K i (Pkt_C_REGISTER m) w"
  shows "\<exists>w'. Respond_C_REGISTER e i m w = Inr w' \<and> server_inv e K w'"
proof (rule event_step [OF inv h(1) _ _ register_result [OF e server_invD(5) [OF inv]]])
  show "chat_inv e K (if can_register e K m (ch_db (w_content w)) then registered e m (w_content w) else w_content w) (live w)"
    using registered_inv [OF server_invD(1) [OF inv]] server_invD(1) [OF inv] by auto
qed (use h server_invD(2) [OF inv] in \<open>auto simp: registered_def\<close>)

lemma lobby_event:
  assumes e: "env_ok e K" and inv: "server_inv e K w" and h: "i \<in> live w" "honest_packet e K i (Pkt_C_REFRESH_LOBBY m) w"
  shows "\<exists>w'. Respond_C_REFRESH_LOBBY e i m w = Inr w' \<and> server_inv e K w'"
  by (rule event_step [OF inv h(1) server_invD(1) [OF inv] _ lobby_result [OF e server_invD(5) [OF inv]]])
    (use h server_invD(2) [OF inv] in auto)

lemma create_event:
  assumes e: "env_ok e K" and inv: "server_inv e K w" and h: "i \<in> live w" "honest_packet e K i (Pkt_C_CREATE_ROOM m) w"
  shows "\<exists>w'. Respond_C_CREATE_ROOM e i m w = Inr w' \<and> server_inv e K w'"
proof (rule event_step [OF inv h(1) _ _ create_result [OF e server_invD(5) [OF inv]]])
  show "chat_inv e K (if can_create e K (C_CREATE_ROOM_roomname m) (ch_db (w_content w))
       then created e K i (C_CREATE_ROOM_id m) (C_CREATE_ROOM_roomname m) (w_content w) else w_content w) (live w)"
    using created_inv [OF server_invD(1) [OF inv] h(1)] h(2) server_invD(1) [OF inv] by (auto simp: lobby_user_def own_def)
qed (use h server_invD(2) [OF inv] in \<open>auto simp: created_def Let_def\<close>)

lemma join_event:
  assumes e: "env_ok e K" and inv: "server_inv e K w" and h: "i \<in> live w" "honest_packet e K i (Pkt_C_JOIN_ROOM m) w"
  shows "\<exists>w'. Respond_C_JOIN_ROOM e i m w = Inr w' \<and> server_inv e K w'"
proof (cases "can_create e K (C_JOIN_ROOM_roomname m) (ch_db (w_content w))")
  case True
  show ?thesis
    by (rule event_step [OF inv h(1) server_invD(1) [OF inv] _ join_refused [OF e server_invD(5) [OF inv]]])
      (use True h server_invD(2) [OF inv] in \<open>auto simp: join_fits_def\<close>)
next
  case False
  let ?ch = "w_content w" and ?u = "C_JOIN_ROOM_id m"
  obtain x where x: "x \<in> set (tb_room (ch_db ?ch))" "K (rr_room_name x) = key e K (C_JOIN_ROOM_roomname m)"
    using False by (auto simp: can_create_def)
  let ?n = "rr_room_id x" and ?ids = "shown_ids e (joined_db e K ?u (rr_room_id x) (ch_db ?ch)) (rr_room_id x)"
  have f: "fits e (join_reply m True ?ids)" "fits e (refresh_packet ?ids)"
    using h(2) x by (auto simp: join_fits_def Let_def)
  have u: "logged ?ch i" "cs_room (ch_clients ?ch i) = None" "cs_id (ch_clients ?ch i) = ?u"
    using h(2) by (auto simp: lobby_user_def own_def)
  have "?n \<in> room_ids (ch_db ?ch)" using x(1) by (simp add: room_ids_def)
  then obtain r where r: "ch_rooms ?ch ?n = Some r"
    using rooms_invD(1) [OF chat_invD(4) [OF server_invD(1) [OF inv]]] by blast
  then obtain rm where rm: "ch_heap ?ch r = Some rm" "room_ok e K ?ch (live w) ?n r rm"
    using rooms_invD(3) [OF chat_invD(4) [OF server_invD(1) [OF inv]]] by blast
  have new: "?u \<notin> fst ` set (rm_users rm)"
    using no_namesake [OF server_invD(1) [OF inv] h(1) u(1,2) rm(2)] u(3) by auto
  obtain y where y: "y \<in> set (tb_room (ch_db ?ch))" "rr_room_id y = ?n" "rr_user_count y = int (length (rm_users rm))"
    using room_okD(5) [OF rm(2)] by blast
  then have "y \<in> set (filter (\<lambda>z. rr_room_id z = rr_room_id x) (tb_room (ch_db ?ch)))" by simp
  then have "y = x" using room_row_unique(1) [OF chat_invD(1) [OF server_invD(1) [OF inv]] x(1)] by simp
  then have small: "fits_int32 (rr_user_count x + 1)"
    using y(3) room_small [OF e server_invD(1) [OF inv] rm(2)] by (simp add: fits_int32_def INT32_MAX_def INT32_MIN_def)
  obtain c where c: "Respond_C_JOIN_ROOM e i m w =
      Inr (sent e i (join_reply m True ?ids) (sent_all e (refresh_packet ?ids) (Some i) (users_set ?u i (rm_users rm))
        (upd_chat (\<lambda>ch. (joined e K i ?u ?n r rm ch)\<lparr>ch_pool := butlast (ch_pool ch) @ [c]\<rparr>) w)))"
    using join_accepted [OF e server_invD(1,2) [OF inv] h(1) x refl r rm(1) refl new refl f small] by blast
  have us: "snd ` set (users_set ?u i (rm_users rm)) \<subseteq> dom (w_sessions w)"
    using users_set_new(1) [OF new] users_live [OF rm(2) server_invD(2) [OF inv]] h(1) server_invD(2) [OF inv] by auto
  have i: "i \<in> dom (w_sessions w)" using h(1) server_invD(2) [OF inv] by blast
  show ?thesis
  proof (rule event_step [OF inv h(1) joined_inv [OF server_invD(1) [OF inv] h(1) u r rm(1) f(2)]])
    show "\<exists>w' c. Respond_C_JOIN_ROOM e i m w = Inr w' \<and> dom (w_sessions w') = dom (w_sessions w) \<and> w_service w' = w_service w \<and>
        w_next w' = w_next w \<and> w_content w' = (joined e K i ?u ?n r rm ?ch)\<lparr>ch_pool := butlast (ch_pool ?ch) @ [c]\<rparr>"
      using c us i by simp (rule exI, rule refl)
  qed (simp add: joined_def)
qed

lemma chat_event:
  assumes e: "env_ok e K" and inv: "server_inv e K w" and h: "i \<in> live w" "honest_packet e K i (Pkt_C_CHAT_LOG m) w"
  shows "\<exists>w'. Respond_C_CHAT_LOG e i m w = Inr w' \<and> server_inv e K w'"
proof -
  obtain r where r: "cs_room (ch_clients (w_content w) i) = Some r" using h(2) by (auto simp: room_user_def)
  have u: "C_CHAT_LOG_id m = cs_id (ch_clients (w_content w) i)" using h(2) by (simp add: own_def)
  obtain n rm c where n: "ch_rooms (w_content w) n = Some r" "ch_heap (w_content w) r = Some rm"
      "Respond_C_CHAT_LOG e i m w = Inr (sent_all e (chat_packet m) None (rm_users rm)
        (upd_chat (\<lambda>ch. (chatted e n m ch)\<lparr>ch_pool := butlast (ch_pool ch) @ [c]\<rparr>) w))"
    using chat_result [OF e server_invD(1,2) [OF inv] h(1) r u] h(2) by auto
  have "room_ok e K (w_content w) (live w) n r rm"
    using rooms_invD(3) [OF chat_invD(4) [OF server_invD(1) [OF inv]] n(1)] n(2) by auto
  note us = users_live [OF this server_invD(2) [OF inv]]
  show ?thesis
    by (rule event_step [OF inv h(1) chatted_inv [OF server_invD(1) [OF inv] h(1) r u n(1)]])
      (use n(3) us in \<open>auto simp: chatted_def\<close>)
qed

lemma out_event:
  assumes e: "env_ok e K" and inv: "server_inv e K w" and h: "i \<in> live w" "honest_packet e K i (Pkt_C_ROOM_OUT m) w"
  shows "\<exists>w'. Respond_C_ROOM_OUT e i m w = Inr w' \<and> server_inv e K w'"
proof -
  let ?ch = "w_content w" and ?u = "C_ROOM_OUT_id m"
  obtain r where r: "cs_room (ch_clients ?ch i) = Some r" using h(2) by (auto simp: room_user_def)
  have u: "?u = cs_id (ch_clients ?ch i)" using h(2) by (simp add: own_def)
  obtain n rm p where n: "ch_rooms ?ch n = Some r" "ch_heap ?ch r = Some rm" "(?u, i) \<in> set (rm_users rm)" "length p = length (ch_pool ?ch)"
      "Respond_C_ROOM_OUT e i m w = Inr (sent e i room_out_reply
        (sent_all e (refresh_packet (shown_ids e (left_db e K ?u n (ch_db ?ch)) n)) None (users_erase ?u (rm_users rm))
          (upd_chat (\<lambda>ch. (left e K i ?u n r rm ch)\<lparr>ch_pool := p\<rparr>) w)))"
    using out_result [OF e server_invD(1,2) [OF inv] h(1) r u] by blast
  have "room_ok e K ?ch (live w) n r rm"
    using rooms_invD(3) [OF chat_invD(4) [OF server_invD(1) [OF inv]] n(1)] n(2) by auto
  then have us: "snd ` set (users_erase ?u (rm_users rm)) \<subseteq> dom (w_sessions w)"
    using users_live server_invD(2) [OF inv] by (fastforce simp: users_erase_def)
  let ?w = "upd_chat (\<lambda>ch. (left e K i ?u n r rm ch)\<lparr>ch_pool := p\<rparr>) w"
  have "server_inv e K (sent e i room_out_reply
        (sent_all e (refresh_packet (shown_ids e (left_db e K ?u n (ch_db ?ch)) n)) None (users_erase ?u (rm_users rm)) ?w))"
  proof (rule server_step [OF inv h(1) left_inv [OF server_invD(1) [OF inv] _ _ n(1-3)] _ n(4)])
    have "i \<in> dom (w_sessions w)" using h(1) server_invD(2) [OF inv] by blast
    then show "dom (w_sessions (sent e i room_out_reply
        (sent_all e (refresh_packet (shown_ids e (left_db e K ?u n (ch_db ?ch)) n)) None (users_erase ?u (rm_users rm)) ?w))) =
        dom (w_sessions w)"
      using us by simp
  qed (auto simp: left_sel)
  then show ?thesis using n(5) by blast
qed

lemma drop_event:
  assumes e: "env_ok e K" and inv: "server_inv e K w" and i: "i \<in> live w"
  shows "\<exists>w'. ProcessDisconnect (OnDisconnected e) i w = Inr w' \<and> server_inv e K w'"
proof -
  obtain s where s: "w_sessions w i = Some s" using i server_invD(2) [OF inv] by blast
  let ?w1 = "w\<lparr>w_sessions := (w_sessions w)(i \<mapsto> s\<lparr>se_disconnectOwner := False\<rparr>)\<rparr>"
  have dom: "dom (w_sessions ?w1) = dom (w_sessions w)" using s by auto
  have "chat_inv e K (w_content ?w1) (live w)" "live w \<subseteq> dom (w_sessions ?w1)"
    using server_invD(1,2) [OF inv] dom by simp_all
  then obtain w' p where w': "OnDisconnected e i ?w1 = Inr w'" "dom (w_sessions w') = dom (w_sessions w)" "w_service w' = w_service w"
      "w_next w' = w_next w" "length p = length (ch_pool (w_content w))" "w_content w' = (disconnected e K i (w_content w))\<lparr>ch_pool := p\<rparr>"
    using disconnect_result [OF e _ _ i, of ?w1] dom by auto
  let ?w2 = "w'\<lparr>w_service := (w_service w')\<lparr>sv_sessionCount := sv_sessionCount (w_service w') - 1,
       sv_sessions := sv_sessions (w_service w') - {i}\<rparr>\<rparr>"
  have run: "ProcessDisconnect (OnDisconnected e) i w = Inr ?w2"
    using s w'(1,3) i by (simp add: ProcessDisconnect_def on_session_def ReleaseSession_def live_def)
  have live: "live ?w2 = live w - {i}" using w'(3) by (simp add: live_def)
  have "chat_inv e K (w_content ?w2) (live ?w2)"
    using chat_inv_pool [OF disconnected_inv [OF server_invD(1) [OF inv] i], of p] w'(5,6) server_invD(6) [OF inv] live by simp
  moreover have "i < w_next w" using i server_invD(2,3) [OF inv] by blast
  then have "ch_clients (w_content ?w2) j = client_new" if "w_next w \<le> j" for j
    using that server_invD(4) [OF inv, of j] w'(6)
    by (auto simp: disconnected_def Let_def offline_def left_sel split: option.splits)
  ultimately have "server_inv e K ?w2"
    using live server_invD(2,3) [OF inv] w'(2,4) by (auto simp: server_inv_def)
  then show ?thesis using run by blast
qed

lemma make_event:
  assumes inv: "server_inv e K w"
  shows "server_inv e K (snd (CreateSession True w))"
  using server_invD [OF inv] by (auto simp: server_inv_def CreateSession_def Let_def live_def lessThan_Suc)

text \<open>A new client is in no room and not logged in.\<close>

lemma chat_inv_new:
  assumes inv: "chat_inv e K ch L" and i: "ch_clients ch i = client_new"
  shows "chat_inv e K ch (insert i L)"
proof (rule chat_invI)
  show "rooms_inv e K ch (insert i L)"
    unfolding rooms_inv_def
  proof (intro conjI allI impI)
    show "\<exists>rm. ch_heap ch r = Some rm \<and> room_ok e K ch (insert i L) n r rm" if n: "ch_rooms ch n = Some r" for n r
    proof -
      obtain rm where rm: "ch_heap ch r = Some rm" "room_ok e K ch L n r rm"
        using rooms_invD(3) [OF chat_invD(4) [OF inv] n] by blast
      have "room_ok e K ch (insert i L) n r rm"
        by (rule room_ok_cong [OF rm(2)]) (use room_okD(6) [OF rm(2)] in auto)
      then show ?thesis using rm(1) by blast
    qed
  qed (use rooms_invD(1,2) [OF chat_invD(4) [OF inv]] in auto)
  show "clients_inv ch (insert i L)"
    using chat_invD(5) [OF inv] i unfolding clients_inv_def by (simp add: client_new_def)
  show "login_inv e K ch (insert i L)"
    using chat_invD(6) [OF inv] i unfolding login_inv_def logged_def by (simp add: client_new_def)
qed (use chat_invD(1,2) [OF inv] in auto)

lemma accept_event:
  assumes inv: "server_inv e K w" and i: "i \<in> dom (w_sessions w) - live w" "ch_clients (w_content w) i = client_new"
  shows "\<exists>r' w'. ProcessConnect ws OnConnected i r w = Inr (r', w') \<and> server_inv e K w'"
proof -
  obtain s where s: "w_sessions w i = Some s" using i(1) by blast
  obtain r' s' where r': "RegisterRecv ws r (s\<lparr>se_connectOwner := False, se_connected := True\<rparr>) = (r', s')" by force
  let ?w = "(AddSession i w)\<lparr>w_sessions := (w_sessions w)(i \<mapsto> s')\<rparr>"
  have "ProcessConnect ws OnConnected i r w = Inr (r', ?w)"
    using s r' by (simp add: ProcessConnect_def on_session_def OnConnected_def RegisterRecv_world_def AddSession_def)
  moreover have "live ?w = insert i (live w)" by (simp add: live_def AddSession_def)
  then have "server_inv e K ?w"
    using server_invD [OF inv] chat_inv_new [OF server_invD(1) [OF inv] i(2)] i(1)
    by (auto simp: server_inv_def AddSession_def)
  ultimately show ?thesis by blast
qed

lemma sent_event:
  assumes inv: "server_inv e K w" and i: "i \<in> dom (w_sessions w)"
  shows "\<exists>w'. ProcessSend_world ws i n w = Inr w' \<and> server_inv e K w'"
proof -
  obtain s where s: "w_sessions w i = Some s" using i by blast
  let ?w = "w\<lparr>w_sessions := (w_sessions w)(i \<mapsto> ProcessSend ws n s)\<rparr>"
  have "dom (w_sessions ?w) = dom (w_sessions w)" using i by auto
  then have "server_inv e K ?w" using inv by (simp add: server_inv_def live_def)
  then show ?thesis using s by (simp add: ProcessSend_world_def on_session_def)
qed

lemma honest_event:
  assumes e: "env_ok e K" and inv: "server_inv e K w" and h: "honest e K ev w"
  shows "\<exists>w'. run_event e ev w = Inr w' \<and> server_inv e K w'"
proof (cases ev)
  case (EPacket i p)
  then have i: "i \<in> live w" "honest_packet e K i p w" using h by auto
  then show ?thesis
    using EPacket login_event [OF e inv i(1)] register_event [OF e inv i(1)] lobby_event [OF e inv i(1)]
      create_event [OF e inv i(1)] join_event [OF e inv i(1)] chat_event [OF e inv i(1)] out_event [OF e inv i(1)]
    by (cases p) simp_all
next
  case (EAccept i r)
  then show ?thesis using accept_event [OF inv, of i "en_winsock e" r] h by auto
qed (use h make_event [OF inv] sent_event [OF inv] drop_event [OF e inv] in auto)

section \<open>The life of the server\<close>

fun run_events :: "env \<Rightarrow> event list \<Rightarrow> chat_world \<Rightarrow> chat_world res" where
  "run_events e [] w = Inr w"
| "run_events e (ev # evs) w = bindR (run_event e ev w) (run_events e evs)"

fun honest_run :: "env \<Rightarrow> (wstr \<Rightarrow> wstr) \<Rightarrow> event list \<Rightarrow> chat_world \<Rightarrow> bool" where
  "honest_run e K [] w \<longleftrightarrow> True"
| "honest_run e K (ev # evs) w \<longleftrightarrow>
     honest e K ev w \<and> (case run_event e ev w of Inl _ \<Rightarrow> True | Inr w' \<Rightarrow> honest_run e K evs w')"

lemma honest_events:
  assumes e: "env_ok e K"
  shows "server_inv e K w \<Longrightarrow> honest_run e K evs w \<Longrightarrow> \<exists>w'. run_events e evs w = Inr w' \<and> server_inv e K w'"
proof (induction evs arbitrary: w)
  case (Cons ev evs)
  then obtain w1 where "run_event e ev w = Inr w1" "server_inv e K w1"
    using honest_event [OF e] by fastforce
  then show ?case using Cons.IH [of w1] Cons.prems(2) by simp
qed simp

end
