(* ===== verification/Server_Sends.thy ===== *)
theory Server_Sends
  imports Respond
begin

text \<open>
  What the content code of the server does to the sessions: it only sends packets. This holds of
  every response and of the disconnect callback, in every state and for every client, as long as
  they return. So the buffers handed to the network are well-formed packets, and the accounting of
  the service is not disturbed.
\<close>

section \<open>Only sending\<close>

inductive sends :: "env \<Rightarrow> chat_world \<Rightarrow> chat_world \<Rightarrow> bool" for e w where
  start: "sends e w w"
| content: "sends e w v \<Longrightarrow> sends e w (v\<lparr>w_content := c\<rparr>)"
| send: "\<lbrakk>sends e w v; length payload + 4 \<le> 6000;
     on_session i (Session_Send (en_winsock e) (packet_bytes pktId payload)) v = Inr v'\<rbrakk> \<Longrightarrow> sends e w v'"

lemma sends_pool_pop: "pool_pop v = Inr (c, v') \<Longrightarrow> sends e w v \<Longrightarrow> sends e w v'"
  by (auto simp: pool_pop_def intro: sends.content split: prod.splits option.splits)

lemma sends_pool_push: "sends e w v \<Longrightarrow> sends e w (pool_push c v)"
  by (auto simp: pool_push_def intro: sends.content)

lemma sends_db_exec: "db_exec e P C q hs nulls cols b c v = Inr (ok, c', v') \<Longrightarrow> sends e w v \<Longrightarrow> sends e w v'"
  by (auto simp: db_exec_def bindR_Inr_iff intro: sends.content)

lemma sends_db_must: "db_must e P C q hs nulls cols c v = Inr (c', v') \<Longrightarrow> sends e w v \<Longrightarrow> sends e w v'"
  by (auto simp: db_must_def bindR_Inr_iff ASSERT_CRASH_def CRASH_def intro: sends_db_exec split: if_splits)

lemma sends_packet: "send_packet e i p v = Inr v' \<Longrightarrow> sends e w v \<Longrightarrow> sends e w v'"
  by (auto simp: send_packet_def bindR_Inr_iff MakeSendBuffer_packet_def MakePacket_def intro: sends.send split: if_splits)

lemma sends_SetRoom: "sends e w v \<Longrightarrow> sends e w (SetRoom i r v)"
  by (auto simp: SetRoom_def intro: sends.content)

lemma sends_SetId: "sends e w v \<Longrightarrow> sends e w (SetId i u v)"
  by (auto simp: SetId_def intro: sends.content)

lemma sends_on_room: "on_room r f v = Inr v' \<Longrightarrow> sends e w v \<Longrightarrow> sends e w v'"
  by (auto simp: on_room_def intro: sends.content split: option.splits)

lemma sends_Room_new: "Room_new n u i v = (r, v') \<Longrightarrow> sends e w v \<Longrightarrow> sends e w v'"
  by (auto simp: Room_new_def Let_def intro: sends.content)

lemma sends_AddRoom: "AddRoom r v = Inr v' \<Longrightarrow> sends e w v \<Longrightarrow> sends e w v'"
  by (auto simp: AddRoom_def intro: sends.content split: option.splits)

lemma sends_RemoveRoom: "RemoveRoom n v = Inr v' \<Longrightarrow> sends e w v \<Longrightarrow> sends e w v'"
  by (auto simp: RemoveRoom_def ASSERT_CRASH_def CRASH_def intro: sends.content split: if_splits)

lemma sends_AddUser: "AddUser r u i v = Inr (b, v') \<Longrightarrow> sends e w v \<Longrightarrow> sends e w v'"
  by (auto simp: AddUser_def bindR_Inr_iff intro: sends_on_room sends_SetRoom split: option.splits if_splits)

lemma sends_broadcast_users: "broadcast_users e p x us v = Inr v' \<Longrightarrow> sends e w v \<Longrightarrow> sends e w v'"
proof (induction us arbitrary: v)
  case (Cons u us)
  then show ?case by (cases u) (auto simp: bindR_Inr_iff intro: sends_packet split: option.splits if_splits)
qed simp

lemma sends_BroadCast: "BroadCast e r p x v = Inr v' \<Longrightarrow> sends e w v \<Longrightarrow> sends e w v'"
  by (auto simp: BroadCast_def intro: sends_broadcast_users split: option.splits)

lemma sends_reserve: "reserve r v = Inr (b, v') \<Longrightarrow> sends e w v \<Longrightarrow> sends e w v'"
  by (auto simp: reserve_def bindR_Inr_iff intro: sends_on_room split: option.splits if_splits)

lemmas sends_intros = sends_pool_push sends_SetRoom sends_SetId

lemmas sends_elims = sends_pool_pop sends_db_exec sends_db_must sends_packet sends_on_room sends_Room_new sends_AddRoom
  sends_RemoveRoom sends_AddUser sends_BroadCast sends_reserve

lemma case_option_Inr:
  "(case x of None \<Rightarrow> Inl f | Some y \<Rightarrow> g y) = Inr z \<longleftrightarrow> (\<exists>y. x = Some y \<and> g y = Inr z)"
  "(case x of None \<Rightarrow> CRASH | Some y \<Rightarrow> g y) = Inr z \<longleftrightarrow> (\<exists>y. x = Some y \<and> g y = Inr z)"
  by (cases x; auto simp: CRASH_def)+

lemmas res_cases = bindR_Inr_iff ASSERT_CRASH_Inr_iff case_option_Inr CRASH_def Let_def

lemma sends_RemoveUser: "RemoveUser e r u v = Inr v' \<Longrightarrow> sends e w v \<Longrightarrow> sends e w v'"
  unfolding RemoveUser_def RemoveUser_db_def RemoveUser_destroy_def RemoveUser_refresh_def
  by (auto simp: res_cases split: option.splits prod.splits if_splits) (assumption | rule sends_intros | erule sends_elims)+

lemma sends_OnDisconnected: "OnDisconnected e i v = Inr v' \<Longrightarrow> sends e w v \<Longrightarrow> sends e w v'"
  by (auto simp: OnDisconnected_def res_cases split: option.splits prod.splits if_splits) (assumption | rule sends_intros | erule sends_elims sends_RemoveUser)+

lemma sends_login: "Respond_C_LOGIN e i m v = Inr v' \<Longrightarrow> sends e w v \<Longrightarrow> sends e w v'"
  by (auto simp: Respond_C_LOGIN_def res_cases split: option.splits prod.splits if_splits) (assumption | rule sends_intros | erule sends_elims)+

lemma sends_register: "Respond_C_REGISTER e i m v = Inr v' \<Longrightarrow> sends e w v \<Longrightarrow> sends e w v'"
  by (auto simp: Respond_C_REGISTER_def res_cases split: option.splits prod.splits if_splits) (assumption | rule sends_intros | erule sends_elims)+

lemma sends_lobby: "Respond_C_REFRESH_LOBBY e i m v = Inr v' \<Longrightarrow> sends e w v \<Longrightarrow> sends e w v'"
  by (auto simp: Respond_C_REFRESH_LOBBY_def res_cases split: option.splits prod.splits if_splits) (assumption | rule sends_intros | erule sends_elims)+

lemma sends_create_room: "create_room e i u n c v = Inr (c', v') \<Longrightarrow> sends e w v \<Longrightarrow> sends e w v'"
  by (auto simp: create_room_def Room_new_def res_cases split: option.splits)
    (assumption | rule sends_intros sends.content | erule sends_elims)+

lemma sends_create: "Respond_C_CREATE_ROOM e i m v = Inr v' \<Longrightarrow> sends e w v \<Longrightarrow> sends e w v'"
  by (auto simp: Respond_C_CREATE_ROOM_def res_cases split: prod.splits if_splits)
    (assumption | rule sends_intros | erule sends_elims sends_create_room)+

lemma sends_join_room: "join_room e i u n r c v = Inr (ids, c', v') \<Longrightarrow> sends e w v \<Longrightarrow> sends e w v'"
  by (auto simp: join_room_def res_cases split: option.splits prod.splits) (assumption | rule sends_intros | erule sends_elims)+

lemma sends_join: "Respond_C_JOIN_ROOM e i m v = Inr v' \<Longrightarrow> sends e w v \<Longrightarrow> sends e w v'"
  by (auto simp: Respond_C_JOIN_ROOM_def res_cases split: prod.splits if_splits)
    (assumption | rule sends_intros | erule sends_elims sends_join_room)+

lemma sends_chat: "Respond_C_CHAT_LOG e i m v = Inr v' \<Longrightarrow> sends e w v \<Longrightarrow> sends e w v'"
  by (auto simp: Respond_C_CHAT_LOG_def res_cases split: option.splits prod.splits if_splits) (assumption | rule sends_intros | erule sends_elims)+

lemma sends_out: "Respond_C_ROOM_OUT e i m v = Inr v' \<Longrightarrow> sends e w v \<Longrightarrow> sends e w v'"
  by (auto simp: Respond_C_ROOM_OUT_def res_cases) (assumption | rule sends_intros | erule sends_elims sends_RemoveUser)+

lemma sends_respond:
  assumes "respond e (i, p) w = Inr w'"
  shows "sends e w w'"
  using assms by (cases p) (auto intro: sends_login sends_register sends_lobby sends_create sends_join sends_chat sends_out sends.start)

section \<open>Well-formed packets and calm sessions\<close>

text \<open>Every buffer that waits in a session, is being sent or was handed to \<open>WSASend\<close> is one well-formed packet.\<close>

definition packets_only :: "byte list session \<Rightarrow> bool" where
  "packets_only s \<longleftrightarrow> (\<forall>b \<in> set (se_sendQueue s) \<union> set (se_sendBuffers s) \<union> \<Union> (set ` set (se_submitted s)). wf_packet b)"

lemma packets_only_Send:
  assumes "packets_only s" "wf_packet b"
  shows "packets_only (Session_Send ws b s)"
  using assms
  by (auto simp: packets_only_def Session_Send_def Send_push_def RegisterSend_def RegisterSend_submit_def RegisterSend_collect_def
      Let_def split: option.splits)

lemma sends_packets_only:
  assumes "sends e w w'" "\<forall>s \<in> ran (w_sessions w). packets_only s"
  shows "\<forall>s \<in> ran (w_sessions w'). packets_only s"
  using assms
proof (induction rule: sends.induct)
  case (send v payload i pktId v')
  then obtain s where s: "w_sessions v i = Some s" "v' = v\<lparr>w_sessions := (w_sessions v)(i \<mapsto> Session_Send (en_winsock e) (packet_bytes pktId payload) s)\<rparr>"
    by (auto simp: on_session_def split: option.splits)
  have "packets_only (Session_Send (en_winsock e) (packet_bytes pktId payload) s)"
    by (rule packets_only_Send) (use send s(1) wf_packet_bytes [of payload pktId] in \<open>auto simp: ran_def\<close>)
  then show ?case using send s by (auto simp: ran_def)
qed simp_all

lemma sends_calm: "sends e w w' \<Longrightarrow> calm_world w w'"
proof (induction rule: sends.induct)
  case (content v c)
  then show ?case by (simp add: calm_world_def)
next
  case (send v payload i pktId v')
  have "calm_world v v'" by (rule calm_on_session [OF send.hyps(3) calm_Send])
  then show ?case by (rule calm_world_trans [OF send.IH])
qed simp

end
