(* ===== verification/Server_Theorems.thy ===== *)
theory Server_Theorems
  imports Server_Main Server_Sends
begin

text \<open>
  What the chat server promises, over every run of events of well-behaved clients from the state
  that \<open>main\<close> sets up, and what it does for clients that do not behave.
\<close>

section \<open>A run of the server\<close>

text \<open>An environment that keeps all promises, and a run in it, on which the theorems are tried out.\<close>

definition demo_env :: env where
  "demo_env = \<lparr>en_lib = plain_lib, en_ParseFromArray = packet_parse (\<lambda>_. True), en_winsock = quiet_winsock,
     en_odbc = plain_odbc (sql_eval (\<lambda>s. s)), en_MultiByteToWideChar = map ucast, en_WideCharToMultiByte = map ucast,
     en_localtime = (126, 10, 16, 12, 0, 0)\<rparr>"

definition demo_answers :: "(int \<times> int \<times> int) list" where
  "demo_answers = replicate 30 (SQL_SUCCESS, SQL_SUCCESS, SQL_SUCCESS)"

definition demo_world :: chat_world where
  "demo_world = world_new (Service_new ServerType True 100)
     (chat_start \<lparr>tb_account = [], tb_room = [], tb_log = [], tb_room_auto = 1\<rparr> (replicate 30 DBConnection_new))"

lemma demo_env_sel [simp]:
  "en_lib demo_env = plain_lib" "en_winsock demo_env = quiet_winsock" "en_MultiByteToWideChar demo_env = map ucast"
  "en_WideCharToMultiByte demo_env = map ucast" "en_ParseFromArray demo_env = packet_parse (\<lambda>_. True)"
  by (simp_all add: demo_env_def)

lemma demo_env_ok: "env_ok demo_env (\<lambda>s. s)"
  by (simp add: env_ok_def demo_env_def plain_lib_ok plain_odbc_ok)

lemma demo_connect: "\<forall>a \<in> set demo_answers. DBConnection_Connect a" "length demo_answers = 30"
  by (simp_all add: demo_answers_def DBConnection_Connect_def)

lemma demo_main:
  "Server_main demo_env SQL_SUCCESS SQL_SUCCESS demo_answers tables_new = Inr (demo_world, ClientPacketHandler_Init Map.empty)"
proof -
  have new: "dc_cursor DBConnection_new = None" by (simp add: DBConnection_new_def)
  have "connect_all (replicate n (SQL_SUCCESS, SQL_SUCCESS, SQL_SUCCESS)) cs = (True, cs @ replicate n DBConnection_new)" for n cs
    by (induction n arbitrary: cs) (simp_all add: DBConnection_Connect_def)
  then have pool: "DBConnectionPool_Connect SQL_SUCCESS SQL_SUCCESS demo_answers [] = (True, replicate 30 DBConnection_new)"
    by (simp add: DBConnectionPool_Connect_def demo_answers_def)
  have split: "replicate 30 DBConnection_new = replicate 29 DBConnection_new @ [DBConnection_new]"
    by (simp add: replicate_append_same flip: replicate_Suc)
  show ?thesis
    by (simp add: Server_main_def pool split DBConnectionPool_Pop_def main_tables [OF demo_env_ok new] DBConnectionPool_Push_def
        demo_world_def tables_new_def)
qed

definition demo_register :: C_REGISTER where
  "demo_register = C_REGISTER_set_pssd [98] (C_REGISTER_set_id [97] C_REGISTER_new)"

definition demo_login :: C_LOGIN where
  "demo_login = C_LOGIN_set_pssd [98] (C_LOGIN_set_id [97] C_LOGIN_new)"

definition demo_create :: C_CREATE_ROOM where
  "demo_create = C_CREATE_ROOM_set_roomname [114] (C_CREATE_ROOM_set_id [97] C_CREATE_ROOM_new)"

definition demo_chat :: C_CHAT_LOG where
  "demo_chat = C_CHAT_LOG_set_log [104, 105] (C_CHAT_LOG_set_id [97] C_CHAT_LOG_new)"

definition demo_events :: "event list" where
  "demo_events = [EMake, EAccept 0 Session_new_recv, EPacket 0 (Pkt_C_REGISTER demo_register), EPacket 0 (Pkt_C_LOGIN demo_login),
     EPacket 0 (Pkt_C_CREATE_ROOM demo_create)]"

lemma demo_fields [simp]:
  "C_REGISTER_id demo_register = [97]" "C_REGISTER_pssd demo_register = [98]"
  "C_LOGIN_id demo_login = [97]" "C_LOGIN_pssd demo_login = [98]"
  "C_CREATE_ROOM_id demo_create = [97]" "C_CREATE_ROOM_roomname demo_create = [114]"
  "C_CHAT_LOG_id demo_chat = [97]" "C_CHAT_LOG_log demo_chat = [104, 105]"
  by (simp_all add: demo_register_def demo_login_def demo_create_def demo_chat_def C_REGISTER_set_defs C_LOGIN_set_defs
      C_CREATE_ROOM_set_defs C_CHAT_LOG_set_defs)

lemma demo_names [simp]:
  "wname demo_env [97] = [97]" "wname demo_env [98] = [98]" "wname demo_env [114] = [114]" "wname demo_env [104, 105] = [104, 105]"
  "WCHARToUTF8 demo_env [97] = [97]"
  by (simp_all add: Utf8ToWstring_def WCHARToUTF8_def c_str_def)

lemma StringSize_small: "length s < 128 \<Longrightarrow> StringSize s = 1 + length s"
  using WriteSize_small [of "length s"]
  by (simp add: StringSize_def LengthDelimitedSize_def VarintSize32_length [symmetric] VarintSize32_length)

lemma fits_size: "fits demo_env p \<longleftrightarrow> packet_ByteSizeLong plain_lib p \<le> 5996"
  using packet_size_eq [OF plain_lib_ok, of p] by (auto simp: fits_def)

lemma demo_fits [simp]:
  "fits demo_env (register_reply demo_register b)" "fits demo_env (login_reply demo_login b)"
  "fits demo_env (create_reply demo_create b)" "fits demo_env (chat_packet demo_chat)"
  "fits demo_env (refresh_packet [[97]])"
  by (simp_all add: fits_size register_reply_def login_reply_def create_reply_def chat_packet_def refresh_packet_def
      S_REGISTER_ByteSizeLong_def S_LOGIN_ByteSizeLong_def S_CREATE_ROOM_ByteSizeLong_def S_CHAT_LOG_ByteSizeLong_def
      S_REFRESH_ROOM_ByteSizeLong_def S_REGISTER_set_defs S_LOGIN_set_defs S_CREATE_ROOM_set_defs S_CHAT_LOG_set_defs S_REFRESH_ROOM_set_defs
      S_REGISTER_new_def S_LOGIN_new_def S_CREATE_ROOM_new_def S_CHAT_LOG_new_def S_REFRESH_ROOM_new_def Let_def StringSize_small)

text \<open>The tables the demonstration goes through.\<close>

definition demo_account :: "bool \<Rightarrow> int option \<Rightarrow> account" where
  "demo_account online r = \<lparr>ac_id = [97], ac_password = [98], ac_create_date = GetCurrentTimeStamp demo_env,
     ac_is_online = online, ac_current_room_id = r\<rparr>"

definition demo_state :: "account list \<Rightarrow> room_row list \<Rightarrow> int \<Rightarrow> (int \<rightharpoonup> nat) \<Rightarrow> (nat \<rightharpoonup> room) \<Rightarrow> nat \<Rightarrow> client \<Rightarrow> chat_world \<Rightarrow> bool" where
  "demo_state as rs auto rooms heap nxt c w \<longleftrightarrow>
     live w = {0} \<and> 0 \<in> dom (w_sessions w) \<and> 2 \<le> length (ch_pool (w_content w)) \<and>
     ch_db (w_content w) = \<lparr>tb_account = as, tb_room = rs, tb_log = [], tb_room_auto = auto\<rparr> \<and>
     ch_rooms (w_content w) = rooms \<and> ch_heap (w_content w) = heap \<and> ch_next (w_content w) = nxt \<and>
     ch_clients (w_content w) 0 = c"

lemma demo_next:
  assumes st: "demo_state as rs auto rooms heap nxt c w"
    and res: "\<exists>w' k. R = Inr w' \<and> dom (w_sessions w') = dom (w_sessions w) \<and> w_service w' = w_service w \<and> w_next w' = w_next w \<and>
      w_content w' = x\<lparr>ch_pool := butlast (ch_pool (w_content w)) @ [k]\<rparr>"
    and x: "ch_db x = \<lparr>tb_account = as', tb_room = rs', tb_log = [], tb_room_auto = auto'\<rparr>" "ch_rooms x = rooms'" "ch_heap x = heap'"
      "ch_next x = nxt'" "ch_clients x 0 = c'"
  shows "\<exists>w'. R = Inr w' \<and> demo_state as' rs' auto' rooms' heap' nxt' c' w'"
proof -
  obtain w' k where w': "R = Inr w'" "dom (w_sessions w') = dom (w_sessions w)" "w_service w' = w_service w"
    "w_content w' = x\<lparr>ch_pool := butlast (ch_pool (w_content w)) @ [k]\<rparr>" using res by blast
  moreover have "2 \<le> length (ch_pool (w_content w))" using st by (simp add: demo_state_def)
  then have "Suc 0 \<le> length (ch_pool (w_content w)) - Suc 0" by linarith
  ultimately have "demo_state as' rs' auto' rooms' heap' nxt' c' w'" using st x by (simp add: demo_state_def live_def)
  then show ?thesis using w'(1) by blast
qed

lemma demo_stateD:
  assumes "demo_state as rs auto rooms heap nxt c w"
  shows "ch_pool (w_content w) \<noteq> []" "0 \<in> dom (w_sessions w)" "live w = {0}" "ch_clients (w_content w) 0 = c"
    "ch_db (w_content w) = \<lparr>tb_account = as, tb_room = rs, tb_log = [], tb_room_auto = auto\<rparr>"
    "ch_rooms (w_content w) = rooms" "ch_heap (w_content w) = heap" "ch_next (w_content w) = nxt"
  using assms by (cases "ch_pool (w_content w)", simp_all add: demo_state_def)

lemma demo_register_step:
  assumes st: "demo_state [] [] 1 Map.empty Map.empty 0 client_new w"
  shows "\<exists>w'. run_event demo_env (EPacket 0 (Pkt_C_REGISTER demo_register)) w = Inr w' \<and>
    demo_state [demo_account False None] [] 1 Map.empty Map.empty 0 client_new w'"
proof -
  have "can_register demo_env (\<lambda>s. s) demo_register (ch_db (w_content w))"
    by (simp add: demo_stateD [OF st] can_register_def has_account_def chars_def)
  then show ?thesis
    using demo_next [OF st register_result [OF demo_env_ok demo_stateD(1,2) [OF st] demo_fits(1)]]
    by (simp add: registered_def demo_account_def demo_stateD [OF st])
qed

lemma demo_login_step:
  assumes st: "demo_state [demo_account False None] [] 1 Map.empty Map.empty 0 client_new w"
  shows "\<exists>w'. run_event demo_env (EPacket 0 (Pkt_C_LOGIN demo_login)) w = Inr w' \<and>
    demo_state [demo_account True None] [] 1 Map.empty Map.empty 0 \<lparr>cs_room = None, cs_id = [97]\<rparr> w'"
proof -
  have "can_login demo_env (\<lambda>s. s) demo_login (ch_db (w_content w))"
    by (simp add: demo_stateD [OF st] can_login_def key_def demo_account_def)
  then show ?thesis
    using demo_next [OF st login_result [OF demo_env_ok demo_stateD(1,2) [OF st] demo_fits(2)]]
    by (simp add: logged_in_def demo_account_def demo_stateD [OF st] upd_account_def client_new_def)
qed

definition demo_room :: room where
  "demo_room = \<lparr>rm_roomState = 1, rm_users = [([97], 0)], rm_roomId = 1\<rparr>"

lemma demo_create_step:
  assumes st: "demo_state [demo_account True None] [] 1 Map.empty Map.empty 0 \<lparr>cs_room = None, cs_id = [97]\<rparr> w"
  shows "\<exists>w'. run_event demo_env (EPacket 0 (Pkt_C_CREATE_ROOM demo_create)) w = Inr w' \<and>
    demo_state [demo_account True (Some 1)] [\<lparr>rr_room_id = 1, rr_room_name = [114], rr_user_count = 1\<rparr>] 2 [1 \<mapsto> 0] [0 \<mapsto> demo_room] 1
      \<lparr>cs_room = Some 0, cs_id = [97]\<rparr> w'"
proof -
  have "can_create demo_env (\<lambda>s. s) [114] (ch_db (w_content w))"
    by (simp add: demo_stateD [OF st] can_create_def)
  then show ?thesis
    using demo_next [OF st create_result [OF demo_env_ok demo_stateD(1,2) [OF st] demo_fits(3)]]
    by (simp add: created_def created_db_def room_added_def move_account_def demo_account_def demo_room_def
        demo_stateD [OF st] upd_account_def Let_def chars_def)
qed

lemma demo_begin:
  "\<exists>w. run_events demo_env [EMake, EAccept 0 Session_new_recv] demo_world = Inr w \<and>
     demo_state [] [] 1 Map.empty Map.empty 0 client_new w"
  by (simp add: demo_state_def demo_world_def world_new_def Service_new_def chat_start_def CreateSession_def Let_def ProcessConnect_def
      on_session_def AddSession_def OnConnected_def RegisterRecv_world_def live_def split: prod.splits)

lemma demo_honest: "honest_run demo_env (\<lambda>s. s) demo_events demo_world"
proof -
  obtain w0 where w0: "run_event demo_env EMake demo_world = Inr w0" by simp
  obtain w1 where w1: "run_events demo_env [EMake, EAccept 0 Session_new_recv] demo_world = Inr w1"
      "demo_state [] [] 1 Map.empty Map.empty 0 client_new w1" using demo_begin by blast
  obtain w2 where w2: "run_event demo_env (EPacket 0 (Pkt_C_REGISTER demo_register)) w1 = Inr w2"
    "demo_state [demo_account False None] [] 1 Map.empty Map.empty 0 client_new w2" using demo_register_step [OF w1(2)] by blast
  obtain w3 where w3: "run_event demo_env (EPacket 0 (Pkt_C_LOGIN demo_login)) w2 = Inr w3"
    "demo_state [demo_account True None] [] 1 Map.empty Map.empty 0 \<lparr>cs_room = None, cs_id = [97]\<rparr> w3"
    using demo_login_step [OF w2(2)] by blast
  obtain w4 where w4: "run_event demo_env (EPacket 0 (Pkt_C_CREATE_ROOM demo_create)) w3 = Inr w4"
    using demo_create_step [OF w3(2)] by blast
  have "shown_ids demo_env (created_db demo_env (\<lambda>s. s) [97] [114] (ch_db (w_content w3))) 1 = [[97]]"
    by (simp add: demo_stateD [OF w3(2)] shown_ids_def members_def created_db_def move_account_def room_added_def upd_account_def demo_account_def)
  then have "honest_run demo_env (\<lambda>s. s) [EPacket 0 (Pkt_C_REGISTER demo_register), EPacket 0 (Pkt_C_LOGIN demo_login),
      EPacket 0 (Pkt_C_CREATE_ROOM demo_create)] w1"
    using w2(1) w3(1) w4
    by (simp add: demo_stateD [OF w1(2)] demo_stateD [OF w2(2)] demo_stateD [OF w3(2)] client_new_def lobby_user_def own_def key_def
        logged_def chars_def)
  moreover have "honest demo_env (\<lambda>s. s) (EAccept 0 Session_new_recv) w0"
    using w0 by (auto simp: demo_world_def world_new_def Service_new_def chat_start_def CreateSession_def Let_def live_def)
  moreover have "run_event demo_env (EAccept 0 Session_new_recv) w0 = Inr w1" using w1(1) w0 by (simp add: bindR_Inr_iff)
  ultimately show ?thesis using w0 by (simp add: demo_events_def)
qed

lemma demo_end:
  "\<exists>w. run_events demo_env demo_events demo_world = Inr w \<and>
     demo_state [demo_account True (Some 1)] [\<lparr>rr_room_id = 1, rr_room_name = [114], rr_user_count = 1\<rparr>] 2 [1 \<mapsto> 0] [0 \<mapsto> demo_room] 1
      \<lparr>cs_room = Some 0, cs_id = [97]\<rparr> w"
proof -
  obtain w1 where w1: "run_events demo_env [EMake, EAccept 0 Session_new_recv] demo_world = Inr w1"
      "demo_state [] [] 1 Map.empty Map.empty 0 client_new w1" using demo_begin by blast
  obtain w2 where w2: "run_event demo_env (EPacket 0 (Pkt_C_REGISTER demo_register)) w1 = Inr w2"
    "demo_state [demo_account False None] [] 1 Map.empty Map.empty 0 client_new w2" using demo_register_step [OF w1(2)] by blast
  obtain w3 where w3: "run_event demo_env (EPacket 0 (Pkt_C_LOGIN demo_login)) w2 = Inr w3"
    "demo_state [demo_account True None] [] 1 Map.empty Map.empty 0 \<lparr>cs_room = None, cs_id = [97]\<rparr> w3"
    using demo_login_step [OF w2(2)] by blast
  show ?thesis
    using w1(1) w2(1) w3(1) demo_create_step [OF w3(2)] by (auto simp: demo_events_def bindR_Inr_iff)
qed

section \<open>The server never faults\<close>

lemma honest_from_main:
  assumes "env_ok e K" "length answers = 30" "\<forall>a \<in> set answers. DBConnection_Connect a"
    and "Server_main e SQL_SUCCESS SQL_SUCCESS answers d = Inr (w0, handlers)" "honest_run e K evs w0"
  shows "\<exists>w. run_events e evs w0 = Inr w \<and> server_inv e K w"
proof -
  have "server_inv e K w0" using main_inv [OF assms(1) _ assms(3), of d] assms(2,4) by auto
  then show ?thesis using honest_events [OF assms(1)] assms(5) by blast
qed

text \<open>C4: The server starts whenever it gets its database connections, whatever tables it finds, and from
  then on no event of a well-behaved client faults: no assertion fails, no null pointer is
  dereferenced, no database call hangs. The invariant of the server holds after every such run.\<close>

theorem server_never_faults:
  assumes "env_ok e K" "length answers = 30" "\<forall>a \<in> set answers. DBConnection_Connect a"
  shows "\<exists>w0. Server_main e SQL_SUCCESS SQL_SUCCESS answers d = Inr (w0, ClientPacketHandler_Init Map.empty) \<and>
    (\<forall>evs. honest_run e K evs w0 \<longrightarrow> (\<exists>w. run_events e evs w0 = Inr w \<and> server_inv e K w))"
proof -
  obtain w0 where w0: "Server_main e SQL_SUCCESS SQL_SUCCESS answers d = Inr (w0, ClientPacketHandler_Init Map.empty)"
    using main_inv [OF assms(1) _ assms(3), of d] assms(2) by auto
  then show ?thesis using honest_from_main [OF assms w0] by blast
qed

theorem server_never_faults_witness:
  "\<exists>w. run_events demo_env demo_events demo_world = Inr w \<and> server_inv demo_env (\<lambda>s. s) w"
  using server_never_faults [OF demo_env_ok demo_connect(2,1), of tables_new] demo_honest by (auto simp: demo_main)



text \<open>C14: No two live sessions are logged in with the same account, under the collation of the database, and
  the account of a logged-in session is marked online.\<close>

theorem one_login_per_account:
  assumes "env_ok e K" "length answers = 30" "\<forall>a \<in> set answers. DBConnection_Connect a"
    and "Server_main e SQL_SUCCESS SQL_SUCCESS answers d = Inr (w0, handlers)" "honest_run e K evs w0"
    and "run_events e evs w0 = Inr w" "i \<in> live w" "logged (w_content w) i"
  shows "(\<exists>a \<in> set (tb_account (ch_db (w_content w))).
      K (ac_id a) = key e K (cs_id (ch_clients (w_content w) i)) \<and> ac_is_online a) \<and>
    (\<forall>j \<in> live w. logged (w_content w) j \<longrightarrow>
      key e K (cs_id (ch_clients (w_content w) j)) = key e K (cs_id (ch_clients (w_content w) i)) \<longrightarrow> j = i)"
proof -
  have inv: "login_inv e K (w_content w) (live w)"
    using honest_from_main [OF assms(1-5)] assms(6) server_invD(1) chat_invD(6) by fastforce
  show ?thesis using login_invD(2) [OF inv assms(7,8)] login_invD(3) [OF inv] assms(7,8) by blast
qed

theorem one_login_per_account_witness:
  "\<exists>w. run_events demo_env demo_events demo_world = Inr w \<and>
    (\<exists>a \<in> set (tb_account (ch_db (w_content w))). ac_id a = [97] \<and> ac_is_online a) \<and>
    (\<forall>j \<in> live w. logged (w_content w) j \<longrightarrow> cs_id (ch_clients (w_content w) j) = [97] \<longrightarrow> j = 0)"
proof -
  obtain w where w: "run_events demo_env demo_events demo_world = Inr w" "live w = {0}"
      "ch_clients (w_content w) 0 = \<lparr>cs_room = Some 0, cs_id = [97]\<rparr>"
    using demo_end demo_stateD(3,4) by fastforce
  then have "0 \<in> live w" "logged (w_content w) 0" by (simp_all add: logged_def)
  then show ?thesis
    using one_login_per_account [OF demo_env_ok demo_connect(2,1) demo_main demo_honest w(1)] w by (auto simp: key_def)
qed

section \<open>Who receives what\<close>

text \<open>The bytes of a packet as a session gets them.\<close>

definition wire_packet :: "env \<Rightarrow> packet \<Rightarrow> byte list" where
  "wire_packet e p = packet_bytes (packet_id p) (packet_serialize (en_lib e) p)"

lemma sent_all_sessions:
  assumes "distinct (map snd us)"
  shows "w_sessions (sent_all e p None us w) j =
    (if j \<in> snd ` set us then Some (Session_Send (en_winsock e) (wire_packet e p) (the (w_sessions w j))) else w_sessions w j)"
  using assms
proof (induction us arbitrary: w)
  case (Cons u us)
  have "sent_all e p None (u # us) w = sent_all e p None us (sent e (snd u) p w)" by (simp add: sent_all_def)
  then show ?case using Cons by (auto simp: sent_def wire_packet_def)
qed (simp add: sent_all_def)

text \<open>C15: A chat message of a user who is in a room is answered without a fault. It is queued for exactly the live
  sessions that are in that room, the sender included, once each; one row is added to the log, with the sender,
  the room and the text; nothing else in the tables and in the rooms changes.\<close>

theorem chat_reaches_room:
  assumes "env_ok e K" "length answers = 30" "\<forall>a \<in> set answers. DBConnection_Connect a"
    and "Server_main e SQL_SUCCESS SQL_SUCCESS answers d = Inr (w0, handlers)" "honest_run e K evs w0"
    and "run_events e evs w0 = Inr w" "i \<in> live w" "honest_packet e K i (Pkt_C_CHAT_LOG m) w"
  shows "\<exists>r n w'. cs_room (ch_clients (w_content w) i) = Some r \<and> ch_rooms (w_content w) n = Some r \<and>
    respond e (i, Pkt_C_CHAT_LOG m) w = Inr w' \<and>
    (\<forall>j. w_sessions w' j = (if j \<in> live w \<and> cs_room (ch_clients (w_content w) j) = Some r
       then Some (Session_Send (en_winsock e) (wire_packet e (chat_packet m)) (the (w_sessions w j))) else w_sessions w j)) \<and>
    ch_db (w_content w') = (ch_db (w_content w))\<lparr>tb_log := tb_log (ch_db (w_content w)) @
      [\<lparr>lg_account_id = wname e (C_CHAT_LOG_id m), lg_room_id = n, lg_message = wname e (C_CHAT_LOG_log m)\<rparr>]\<rparr> \<and>
    ch_rooms (w_content w') = ch_rooms (w_content w) \<and> ch_heap (w_content w') = ch_heap (w_content w) \<and>
    ch_clients (w_content w') = ch_clients (w_content w)"
proof -
  have inv: "server_inv e K w" using honest_from_main [OF assms(1-5)] assms(6) by auto
  obtain r where r: "cs_room (ch_clients (w_content w) i) = Some r" using assms(8) by (auto simp: room_user_def)
  obtain n rm c where n: "ch_rooms (w_content w) n = Some r" "ch_heap (w_content w) r = Some rm"
      "Respond_C_CHAT_LOG e i m w = Inr (sent_all e (chat_packet m) None (rm_users rm)
        (upd_chat (\<lambda>ch. (chatted e n m ch)\<lparr>ch_pool := butlast (ch_pool ch) @ [c]\<rparr>) w))"
    using chat_result [OF assms(1) server_invD(1,2) [OF inv] assms(7) r, of m] assms(8) by (auto simp: own_def)
  note us = room_sessions [OF server_invD(1) [OF inv] n(1,2)]
  have mem: "j \<in> snd ` set (rm_users rm) \<longleftrightarrow> j \<in> live w \<and> cs_room (ch_clients (w_content w) j) = Some r" for j
    unfolding us(1) [symmetric] by simp
  show ?thesis
    using r n(1,3) by (intro exI [of _ r] exI [of _ n]) (simp add: sent_all_sessions [OF us(3)] mem chatted_def)
qed

theorem chat_reaches_room_witness:
  "\<exists>w w'. run_events demo_env demo_events demo_world = Inr w \<and> respond demo_env (0, Pkt_C_CHAT_LOG demo_chat) w = Inr w' \<and>
    w_sessions w' 0 = Some (Session_Send quiet_winsock (wire_packet demo_env (chat_packet demo_chat)) (the (w_sessions w 0))) \<and>
    tb_log (ch_db (w_content w')) = [\<lparr>lg_account_id = [97], lg_room_id = 1, lg_message = [104, 105]\<rparr>]"
proof -
  obtain w where w: "run_events demo_env demo_events demo_world = Inr w"
    and st: "demo_state [demo_account True (Some 1)] [\<lparr>rr_room_id = 1, rr_room_name = [114], rr_user_count = 1\<rparr>] 2 [1 \<mapsto> 0] [0 \<mapsto> demo_room] 1
      \<lparr>cs_room = Some 0, cs_id = [97]\<rparr> w"
    using demo_end by blast
  have h: "0 \<in> live w" "honest_packet demo_env (\<lambda>s. s) 0 (Pkt_C_CHAT_LOG demo_chat) w"
    by (simp_all add: demo_stateD [OF st] room_user_def own_def utf8_bytes_def)
  show ?thesis
    using chat_reaches_room [OF demo_env_ok demo_connect(2,1) demo_main demo_honest w h] w
    by (auto simp: demo_stateD [OF st] split: if_splits)
qed

text \<open>C20: Whatever a client sends and whatever state the server is in, a response or a disconnect callback that
  returns has only sent packets. It connects no session and disconnects one only when a send failed,
  it leaves the service alone, and every buffer it hands to a session is one well-formed packet, with
  the length that its header says.\<close>

theorem server_only_sends:
  assumes "respond e (i, p) w = Inr w' \<or> OnDisconnected e i w = Inr w'"
  shows "calm_world w w' \<and>
    ((\<forall>s \<in> ran (w_sessions w). packets_only s) \<longrightarrow> (\<forall>s \<in> ran (w_sessions w'). packets_only s))"
proof -
  have "sends e w w'" using assms sends_respond sends_OnDisconnected [OF _ sends.start] by blast
  then show ?thesis using sends_calm sends_packets_only by blast
qed

theorem server_only_sends_witness:
  "\<exists>w w'. run_events demo_env demo_events demo_world = Inr w \<and> respond demo_env (0, Pkt_C_CHAT_LOG demo_chat) w = Inr w' \<and>
    calm_world w w'"
proof -
  obtain w where w: "run_events demo_env demo_events demo_world = Inr w"
    and st: "demo_state [demo_account True (Some 1)] [\<lparr>rr_room_id = 1, rr_room_name = [114], rr_user_count = 1\<rparr>] 2 [1 \<mapsto> 0] [0 \<mapsto> demo_room] 1
      \<lparr>cs_room = Some 0, cs_id = [97]\<rparr> w"
    using demo_end by blast
  have inv: "server_inv demo_env (\<lambda>s. s) w"
    using honest_from_main [OF demo_env_ok demo_connect(2,1) demo_main demo_honest] w by auto
  have h: "0 \<in> live w" "honest_packet demo_env (\<lambda>s. s) 0 (Pkt_C_CHAT_LOG demo_chat) w"
    by (simp_all add: demo_stateD [OF st] room_user_def own_def utf8_bytes_def)
  obtain w' where "respond demo_env (0, Pkt_C_CHAT_LOG demo_chat) w = Inr w'"
    using chat_event [OF demo_env_ok inv h] by auto
  then show ?thesis using server_only_sends [of demo_env 0 "Pkt_C_CHAT_LOG demo_chat" w w'] w by blast
qed

section \<open>Clients that misbehave\<close>

text \<open>C34: A chat message, or a request to leave, under an id whose account is in no room, or that is no account
  at all, brings the server down: the response runs into a failing assertion. This needs neither a
  login nor the account's password.\<close>

theorem outside_room_crashes:
  assumes "env_ok e K" "ch_pool (w_content w) \<noteq> []"
    and "\<forall>a \<in> set (tb_account (ch_db (w_content w))). K (ac_id a) = key e K u \<longrightarrow> ac_current_room_id a = None"
  shows "respond e (i, Pkt_C_CHAT_LOG (C_CHAT_LOG_set_id u m)) w = Inl CrashAssert \<and>
    respond e (i, Pkt_C_ROOM_OUT (C_ROOM_OUT_set_id u m')) w = Inl CrashAssert"
proof -
  let ?t = "ch_db (w_content w)" and ?hit = "filter (\<lambda>a. K (ac_id a) = K (wname e u)) (tb_account (ch_db (w_content w)))"
  have od: "odbc_ok (en_odbc e) (sql_eval K)" using assms(1) by (simp add: env_ok_def)
  have none: "ac_current_room_id a = None" if "a \<in> set ?hit" for a using that assms(3) by (simp add: key_def)
  have "concat (map (\<lambda>a. map (\<lambda>x. [room_value (ac_current_room_id a), SqlStr (rr_room_name x)])
      (filter (\<lambda>x. ac_current_room_id a = Some (rr_room_id x)) (tb_room ?t))) ?hit) = []"
    using none by (simp add: concat_eq_Nil_conv filter_empty_conv)
  then have s1: "sql_eval K SelectUserRoom [SqlStr (wname e u)] ?t = Some (Some [], ?t)" by (simp add: sql_eval_def)
  have s2: "sql_eval K SelectCurrentRoom [SqlStr (wname e u)] ?t = Some (Some (map (\<lambda>a. [SqlNull]) ?hit), ?t)"
    using none by (simp add: sql_eval_def room_value_def)
  have id: "C_CHAT_LOG_id (C_CHAT_LOG_set_id u m) = u" "C_ROOM_OUT_id (C_ROOM_OUT_set_id u m') = u"
    by (simp_all add: C_CHAT_LOG_set_defs C_ROOM_OUT_set_defs)
  have "Respond_C_CHAT_LOG e i (C_CHAT_LOG_set_id u m) w = Inl CrashAssert"
    using assms(2) by (simp add: Respond_C_CHAT_LOG_def pool_pop_ok db_must_eq [OF assms(1)] s1 id Fetch_None [OF od] Let_def CRASH_def)
  moreover have "Respond_C_ROOM_OUT e i (C_ROOM_OUT_set_id u m') w = Inl CrashAssert"
  proof (cases ?hit)
    case Nil
    then show ?thesis
      using assms(2) s2 by (simp add: Respond_C_ROOM_OUT_def pool_pop_ok db_must_eq [OF assms(1)] id Fetch_None [OF od] Let_def CRASH_def)
  next
    case (Cons a as)
    then show ?thesis
      using assms(2) s2
      by (simp add: Respond_C_ROOM_OUT_def pool_pop_ok db_must_eq [OF assms(1)] id Fetch_Some [OF od] column_value_simps [OF od] IsColNull_def Let_def)
  qed
  ultimately show ?thesis by simp
qed

theorem outside_room_crashes_witness:
  "respond demo_env (0, Pkt_C_CHAT_LOG (C_CHAT_LOG_set_id [97] C_CHAT_LOG_new)) demo_world = Inl CrashAssert"
proof -
  have "ch_pool (w_content demo_world) \<noteq> []" "tb_account (ch_db (w_content demo_world)) = []"
    by (simp_all add: demo_world_def world_new_def chat_start_def)
  then show ?thesis using outside_room_crashes [OF demo_env_ok, of demo_world "[97]" 0 C_CHAT_LOG_new] by simp
qed

end
