(* ===== verification/Dispatch.thy ===== *)
theory Dispatch
  imports SendBuffer Protocol
begin

text \<open>
  The contract of a packet table, which the server (\<open>Server/ClientPacketHandler.h\<close>) and the client
  (\<open>Client/ServerPacketHandler.h\<close>) both have: a packet with one of the table's ids is parsed behind its
  header and handled, every other packet is answered by its id alone. What follows for streams of
  serialised packets is proved once, for both.
\<close>

section \<open>Runs of a handler\<close>

fun run_all :: "('p \<Rightarrow> 's \<Rightarrow> 's res) \<Rightarrow> 'p list \<Rightarrow> 's \<Rightarrow> 's res" where
  "run_all h [] s = Inr s"
| "run_all h (p # ps) s = bindR (h p s) (run_all h ps)"

lemma run_all_cong: "list_all2 (\<lambda>p q. h p = k q) ps qs \<Longrightarrow> run_all h ps s = run_all k qs s"
proof (induction arbitrary: s rule: list_all2_induct)
  case (Cons p ps q qs)
  then show ?case by (cases "k q s") simp_all
qed simp

section \<open>Tables filled by assignments\<close>

lemma fold_table:
  "fold (\<lambda>k g. g(unat k \<mapsto> f k)) ks g (unat i) = (if i \<in> set ks then Some (f i) else g (unat i))" for i :: u16
  by (induction ks arbitrary: g) (auto dest: word_unat_eq_iff [THEN iffD2])

lemma fold_same: "fold (\<lambda>i. f) xs s = (if xs = [] then s else f s)" if "\<And>s. f (f s) = f s"
  by (induction xs arbitrary: s) (auto simp: that)

lemma fold_zero: "0 < n \<Longrightarrow> fold (\<lambda>i g. g(0 \<mapsto> v)) [0..<n] g = g(0 \<mapsto> v)" for n :: nat
  using fold_same [of "\<lambda>g. g(0 \<mapsto> v)" "[0..<n]" g] by simp

section \<open>The contract\<close>

lemma bslice_packet_bytes: "bslice 4 (length pl) (packet_bytes k pl) = pl"
  by (simp add: packet_bytes_def bslice_def)

lemma bslice_local: "wf_packet p \<Longrightarrow> bslice 4 (nat (int (length p) - 4)) (p @ q) = bslice 4 (nat (int (length p) - 4)) p"
  using wf_packet_length [of p] by (simp add: bslice_def)

locale packet_table =
  fixes parse :: "u16 \<Rightarrow> byte list \<Rightarrow> packet option"
    and ids :: "u16 list"
    and handle :: "packet \<Rightarrow> 's \<Rightarrow> 's res"
    and other :: "u16 \<Rightarrow> 's \<Rightarrow> 's res"
    and dispatch :: "'s packet_fun"
  assumes dispatch_law: "dispatch buffer len s =
     (let k = ph_id (PacketHeader_at buffer) in
      if k \<notin> set ids then other k s
      else if len < 4 then Inl OutOfBounds
      else case parse k (bslice 4 (nat (len - 4)) buffer) of None \<Rightarrow> Inr s | Some pkt \<Rightarrow> handle pkt s)"

context packet_table
begin

text \<open>The table looks at the packet only.\<close>

lemma dispatch_local: "packet_local dispatch"
  by (auto simp: packet_local_def dispatch_law PacketHeader_at_append wf_packet_length bslice_local Let_def)

lemma dispatch_bytes:
  assumes "k \<in> set ids" "parse k pl = Some q"
  shows "dispatch (packet_bytes k pl) (int (length (packet_bytes k pl))) s = handle q s"
proof -
  have "ph_id (PacketHeader_at (packet_bytes k pl)) = k" by (simp add: packet_bytes_def)
  moreover have "nat (int (length (packet_bytes k pl)) - 4) = length pl" by simp
  ultimately show ?thesis using assms by (simp add: dispatch_law bslice_packet_bytes del: length_packet_bytes) simp
qed

text \<open>Serialised packets are handled in order, each with its fields.\<close>

lemma dispatch_packets:
  assumes lib: "pb_ok lib" "parse = packet_parse valid"
  shows "\<forall>p \<in> set ps. packet_ok valid p \<and> packet_id p \<in> set ids \<Longrightarrow>
    \<exists>qs. list_all2 packet_same ps qs \<and>
      (\<forall>s. handle_all dispatch (map (\<lambda>p. packet_bytes (packet_id p) (packet_serialize lib p)) ps) s = run_all handle qs s)"
proof (induction ps)
  case (Cons p ps)
  then obtain qs where qs: "list_all2 packet_same ps qs"
      "\<And>s. handle_all dispatch (map (\<lambda>p. packet_bytes (packet_id p) (packet_serialize lib p)) ps) s = run_all handle qs s" by auto
  obtain q where q: "parse (packet_id p) (packet_serialize lib p) = Some q" "packet_same p q"
    using packet_roundtrip_ex [OF lib(1), of valid p] Cons.prems lib(2) by auto
  have "dispatch (packet_bytes (packet_id p) (packet_serialize lib p)) (int (length (packet_bytes (packet_id p) (packet_serialize lib p)))) s
      = handle q s" for s
    using dispatch_bytes [OF _ q(1)] Cons.prems by simp
  moreover have "handle_all dispatch (map (\<lambda>p. packet_bytes (packet_id p) (packet_serialize lib p)) ps) = run_all handle qs"
    using qs(2) by blast
  ultimately show ?case using qs(1) q(2) by (intro exI [of _ "q # qs"]) simp
qed simp

end

end
