(* ===== verification/Server_Stream.thy ===== *)
theory Server_Stream
  imports Server_Theorems Dispatch
begin

text \<open>
  From bytes to responses. The packet table answers the seven packets of a client, ignores the id 0 and
  fails on every other id; and however the operating system cuts what a client sends, the server runs
  the responses of the packets the client serialised, in their order. This joins the reassembly of the
  stream, the decoding of the messages, the packet table and the responses.
\<close>

section \<open>The packet table\<close>

definition client_ids :: "u16 list" where
  "client_ids = [PKT_C_LOGIN, PKT_C_REGISTER, PKT_C_REFRESH_LOBBY, PKT_C_CREATE_ROOM, PKT_C_JOIN_ROOM,
     PKT_C_CHAT_LOG, PKT_C_ROOM_OUT]"

lemma Init_entry:
  "ClientPacketHandler_Init Map.empty (unat i) =
     (if i \<in> set client_ids then Some (Handle i) else if i = 0 then Some Handle_INVALD else None)"
proof -
  have "0 < UINT16_MAX" by (simp add: UINT16_MAX_def)
  note zero = fold_zero [OF this]
  have "ClientPacketHandler_Init Map.empty = fold (\<lambda>k g. g(unat k \<mapsto> Handle k)) client_ids [0 \<mapsto> Handle_INVALD]"
    unfolding ClientPacketHandler_Init_def client_ids_def zero fold_simps ..
  then show ?thesis by (simp add: fold_table unat_eq_zero)
qed

lemma dispatch_table:
  "ClientPacketHandler_HandlePacket e (ClientPacketHandler_Init Map.empty) i buffer len w =
     (let pktId = ph_id (PacketHeader_at buffer) in
      if pktId \<in> set client_ids then HandlePacket_as e pktId i buffer len w
      else if pktId = 0 then Inr (False, w)
      else if pktId = 65535 then Inl OutOfBounds
      else Inl BadCall)"
proof -
  let ?id = "ph_id (PacketHeader_at buffer)"
  have "unat ?id < 65536" using unsigned_less [of ?id] by simp
  then have "UINT16_MAX \<le> unat ?id \<longleftrightarrow> ?id = 65535" by (auto simp: UINT16_MAX_def word_unat_eq_iff)
  moreover have "?id \<in> set client_ids \<Longrightarrow> ?id \<noteq> 65535" by (auto simp: client_ids_def PKT_defs)
  ultimately show ?thesis unfolding ClientPacketHandler_HandlePacket_def Let_def Init_entry by auto
qed

text \<open>C38: What the packet table does with a packet, for every id a header can hold. The seven ids of client packets
  go to their parser and response; the id 0 is refused; the largest id reads behind the table; every
  other id, the ids of server packets among them, calls an empty function.\<close>

theorem dispatch_ids:
  "ClientPacketHandler_HandlePacket e (ClientPacketHandler_Init Map.empty) i buffer len w =
     (let pktId = ph_id (PacketHeader_at buffer) in
      if pktId \<in> set client_ids then HandlePacket_as e pktId i buffer len w
      else if pktId = 0 then Inr (False, w)
      else if pktId = 65535 then Inl OutOfBounds
      else Inl BadCall)"
  by (rule dispatch_table)

section \<open>The handler of a client session\<close>

definition server_handler :: "env \<Rightarrow> sid \<Rightarrow> chat_world packet_fun" where
  "server_handler e = OnRecvPacket e (ClientPacketHandler_Init Map.empty)"

text \<open>The table of the server keeps the contract; an id that is not in it is refused, or is a fault.\<close>

definition unknown_id :: "u16 \<Rightarrow> chat_world \<Rightarrow> chat_world res" where
  "unknown_id k w = (if k = 0 then Inr w else if k = 65535 then Inl OutOfBounds else Inl BadCall)"

interpretation server: packet_table "en_ParseFromArray e" client_ids "\<lambda>p. respond e (i, p)" unknown_id "server_handler e i" for e i
proof
  fix buffer len w
  have "bindR (bindR r (\<lambda>w'. Inr (True, w'))) (\<lambda>(_, w'). Inr w') = r" for r :: "chat_world res"
    by (cases r) simp_all
  then show "server_handler e i buffer len w =
     (let k = ph_id (PacketHeader_at buffer) in
      if k \<notin> set client_ids then unknown_id k w
      else if len < 4 then Inl OutOfBounds
      else case en_ParseFromArray e k (bslice 4 (nat (len - 4)) buffer) of None \<Rightarrow> Inr w | Some pkt \<Rightarrow> respond e (i, pkt) w)"
    unfolding server_handler_def OnRecvPacket_def dispatch_table Let_def unknown_id_def HandlePacket_as_def
    by (simp split: option.split)
qed

definition send_ok :: "'p winsock \<Rightarrow> bool" where
  "send_ok ws \<longleftrightarrow> (\<forall>s. overlapped_error (WSASend ws s) = None)"

lemma Send_connected:
  assumes "send_ok ws" "se_connected s"
  shows "se_connected (Session_Send ws b s)"
  using assms
  by (simp add: Session_Send_def Send_push_def RegisterSend_def RegisterSend_collect_def RegisterSend_submit_def
      send_ok_def count_call_def Let_def split: prod.split)

lemma sends_connected: "sends e w w' \<Longrightarrow> send_ok (en_winsock e) \<Longrightarrow> Service.connected i w \<Longrightarrow> Service.connected i w'"
proof (induction rule: sends.induct)
  case (send v payload j pktId v')
  then show ?case by (auto simp: on_session_def Service.connected_def Send_connected split: option.splits)
qed (simp_all add: Service.connected_def)

lemma server_handler_ok:
  assumes "send_ok (en_winsock e)"
  shows "handler_ok (server_handler e) i"
proof -
  have "Service.connected i w'" if c: "Service.connected i w" "server_handler e i p n w = Inr w'" for p n w w'
  proof -
    obtain ok where "ClientPacketHandler_HandlePacket e (ClientPacketHandler_Init Map.empty) i p n w = Inr (ok, w')"
      using c(2) by (auto simp: server_handler_def OnRecvPacket_def bindR_Inr_iff)
    then have "w' = w \<or> (\<exists>pkt. respond e (i, pkt) w = Inr w')"
      by (auto simp: ClientPacketHandler_HandlePacket_def HandlePacket_as_def bindR_Inr_iff Let_def
          split: if_splits option.splits packet_handler.splits)
    then show ?thesis using sends_connected [OF sends_respond assms c(1)] c(1) by blast
  qed
  then show ?thesis using server.dispatch_local by (auto simp: handler_ok_def)
qed

section \<open>Serialised packets\<close>

fun respond_all :: "env \<Rightarrow> sid \<Rightarrow> packet list \<Rightarrow> chat_world \<Rightarrow> chat_world res" where
  "respond_all e i [] w = Inr w"
| "respond_all e i (p # ps) w = bindR (respond e (i, p) w) (respond_all e i ps)"

lemma respond_all_eq: "respond_all e i ps w = run_all (\<lambda>p. respond e (i, p)) ps w"
proof (induction ps arbitrary: w)
  case (Cons p ps)
  then show ?case by (cases "respond e (i, p) w") simp_all
qed simp

lemma wire_packet_fun: "wire_packet e = (\<lambda>p. packet_bytes (packet_id p) (packet_serialize (en_lib e) p))"
  by (rule ext) (simp add: wire_packet_def)

lemma handle_wire_packets:
  assumes "pb_ok (en_lib e)" "en_ParseFromArray e = packet_parse valid"
    and "\<forall>p \<in> set ps. packet_ok valid p \<and> packet_id p \<in> set client_ids"
  shows "\<exists>qs. list_all2 packet_same ps qs \<and> (\<forall>w. handle_all (server_handler e i) (map (wire_packet e) ps) w = respond_all e i qs w)"
  using server.dispatch_packets [OF assms] by (simp add: respond_all_eq wire_packet_fun)

text \<open>C5: From a client's messages to the server's responses. A client serialises messages into packets; the
  operating system delivers their bytes in any pieces. Then the server runs exactly the responses of
  these messages, in their order, each on a message with the same fields, and keeps the bytes of a
  packet that has not arrived completely. A fault can only come from a response.\<close>

theorem stream_answered:
  assumes lib: "pb_ok (en_lib e)" "en_ParseFromArray e = packet_parse valid"
    and os: "send_ok (en_winsock e)" "recv_ok (en_winsock e)"
    and ps: "\<forall>p \<in> set ps. packet_ok valid p \<and> packet_id p \<in> set client_ids \<and> fits e p"
    and cs: "concat cs = concat (map (wire_packet e) ps) @ rest" "incomplete rest" "\<forall>c \<in> set cs. c \<noteq> [] \<and> length c \<le> 65536"
    and con: "Service.connected i w"
  shows "\<exists>qs. list_all2 packet_same ps qs \<and>
    (case respond_all e i qs w of
       Inl f \<Rightarrow> receive_all (en_winsock e) (server_handler e) i cs Session_new_recv w = Some (Inl f)
     | Inr w' \<Rightarrow> \<exists>r'. rb_data (rh_buffer r') = rest \<and>
         receive_all (en_winsock e) (server_handler e) i cs Session_new_recv w = Some (Inr (r', w')))"
proof -
  obtain qs where qs: "list_all2 packet_same ps qs"
      "\<forall>w. handle_all (server_handler e i) (map (wire_packet e) ps) w = respond_all e i qs w"
    using handle_wire_packets [OF lib] ps by blast
  have wf: "\<forall>b \<in> set (map (wire_packet e) ps). wf_packet b"
    using ps by (auto simp: wire_packet_def fits_def intro!: wf_packet_bytes)
  note h = server_handler_ok [OF os(1), of i]
  have "deliverable (en_winsock e) (server_handler e) i cs Session_new_recv w"
    by (rule deliverable_small [OF h os(2) cs(2) recv_new(1,3) cs(3) _ wf con]) (simp add: recv_new(2) cs(1))
  from receive_all_packets [OF h os(2) cs(2) recv_new(1,3) this _ wf con] cs(1)
  show ?thesis
    using qs by (intro exI [of _ qs]) (auto simp: recv_new(2) incomplete_def split: sum.splits)
qed

definition demo_session :: "byte list session" where
  "demo_session = Session_new\<lparr>se_connected := True\<rparr>"

lemma demo_register_ok:
  "packet_ok (\<lambda>_. True) (Pkt_C_REGISTER demo_register)" "fits demo_env (Pkt_C_REGISTER demo_register)"
proof -
  show "packet_ok (\<lambda>_. True) (Pkt_C_REGISTER demo_register)"
    by (simp add: demo_register_def C_REGISTER_wf_ops) (simp add: C_REGISTER_set_defs C_REGISTER_new_def)
  show "fits demo_env (Pkt_C_REGISTER demo_register)"
    by (simp add: demo_register_def fits_size C_REGISTER_ByteSizeLong_def C_REGISTER_set_defs C_REGISTER_new_def
        Let_def StringSize_small)
qed

theorem stream_answered_witness:
  "\<exists>q. packet_same (Pkt_C_REGISTER demo_register) q \<and>
    (case respond demo_env (0, q) (demo_world\<lparr>w_sessions := [0 \<mapsto> demo_session]\<rparr>) of
       Inl f \<Rightarrow> receive_all quiet_winsock (server_handler demo_env) 0
         [take 3 (wire_packet demo_env (Pkt_C_REGISTER demo_register)), drop 3 (wire_packet demo_env (Pkt_C_REGISTER demo_register)) @ [7]]
         Session_new_recv (demo_world\<lparr>w_sessions := [0 \<mapsto> demo_session]\<rparr>) = Some (Inl f)
     | Inr w' \<Rightarrow> \<exists>r'. rb_data (rh_buffer r') = [7] \<and> receive_all quiet_winsock (server_handler demo_env) 0
         [take 3 (wire_packet demo_env (Pkt_C_REGISTER demo_register)), drop 3 (wire_packet demo_env (Pkt_C_REGISTER demo_register)) @ [7]]
         Session_new_recv (demo_world\<lparr>w_sessions := [0 \<mapsto> demo_session]\<rparr>) = Some (Inr (r', w')))"
proof -
  let ?p = "Pkt_C_REGISTER demo_register" and ?b = "wire_packet demo_env (Pkt_C_REGISTER demo_register)"
  have len: "4 \<le> length ?b" "length ?b \<le> 6000" using demo_register_ok(2) by (simp_all add: wire_packet_def fits_def)
  have 1: "pb_ok (en_lib demo_env)" "en_ParseFromArray demo_env = packet_parse (\<lambda>_. True)"
    "send_ok (en_winsock demo_env)" "recv_ok (en_winsock demo_env)"
    using demo_env_ok by (simp_all add: env_ok_def send_ok_def recv_ok_def quiet_winsock_def)
  have 2: "\<forall>p \<in> set [?p]. packet_ok (\<lambda>_. True) p \<and> packet_id p \<in> set client_ids \<and> fits demo_env p"
    using demo_register_ok by (simp add: client_ids_def)
  have 3: "concat [take 3 ?b, drop 3 ?b @ [7]] = concat (map (wire_packet demo_env) [?p]) @ [7]" "incomplete [7]"
    "\<forall>c \<in> set [take 3 ?b, drop 3 ?b @ [7]]. c \<noteq> [] \<and> length c \<le> 65536"
    using len by (auto simp: incomplete_def)
  have 4: "Service.connected 0 (demo_world\<lparr>w_sessions := [0 \<mapsto> demo_session]\<rparr>)"
    by (simp add: Service.connected_def demo_session_def)
  have [simp]: "bindR r (respond_all e i []) = r" for r e i by (cases r) simp_all
  obtain qs where qs: "list_all2 packet_same [?p] qs"
    and run: "case respond_all demo_env 0 qs (demo_world\<lparr>w_sessions := [0 \<mapsto> demo_session]\<rparr>) of
       Inl f \<Rightarrow> receive_all (en_winsock demo_env) (server_handler demo_env) 0 [take 3 ?b, drop 3 ?b @ [7]] Session_new_recv
         (demo_world\<lparr>w_sessions := [0 \<mapsto> demo_session]\<rparr>) = Some (Inl f)
     | Inr w' \<Rightarrow> \<exists>r'. rb_data (rh_buffer r') = [7] \<and> receive_all (en_winsock demo_env) (server_handler demo_env) 0
         [take 3 ?b, drop 3 ?b @ [7]] Session_new_recv (demo_world\<lparr>w_sessions := [0 \<mapsto> demo_session]\<rparr>) = Some (Inr (r', w'))"
    using stream_answered [OF 1 2 3 4] by blast
  obtain q where q: "qs = [q]" "packet_same ?p q" using qs unfolding list_all2_Cons1 list_all2_Nil by blast
  have one: "respond_all demo_env 0 [q] w = respond demo_env (0, q) w" for w by simp
  have ws: "en_winsock demo_env = quiet_winsock" by simp
  show ?thesis using q(2) run unfolding q(1) one ws by blast
qed

end
