(* ===== verification/Chat_System.thy ===== *)
theory Chat_System
  imports Client_Theorems Server_Stream Threads
begin

text \<open>
  What the client promises, alone and together with the server: once connected it never crashes on what a
  user and a server can do; the packets in a chunk of bytes from the server reach their handlers in order; the chat
  lines appear in the order in which the server sent them. It also shows how the client starts, what happens when
  the user is faster than the connection, and when a login is asked for while the answer to a registration is on
  its way.
\<close>

section \<open>The client does not crash\<close>

text \<open>An environment that keeps all promises.\<close>

definition demo_client :: client_env where
  "demo_client = \<lparr>ce_lib = plain_lib, ce_ParseFromArray = packet_parse (\<lambda>_. True), ce_winsock = quiet_winsock,
     ce_MultiByteToWideChar = map ucast, ce_WideCharToMultiByte = map ucast\<rparr>"

lemma demo_client_sel [simp]:
  "ce_lib demo_client = plain_lib" "ce_winsock demo_client = quiet_winsock" "ce_MultiByteToWideChar demo_client = map ucast"
  "ce_WideCharToMultiByte demo_client = map ucast" "ce_ParseFromArray demo_client = packet_parse (\<lambda>_. True)"
  by (simp_all add: demo_client_def)

lemma sendable_size: "sendable demo_client p \<longleftrightarrow> packet_ByteSizeLong plain_lib p + 4 \<le> 6000"
  by (simp add: sendable_def packet_size_eq [OF plain_lib_ok])

lemma demo_sendable:
  "length i < 128 \<Longrightarrow> length p < 128 \<Longrightarrow> sendable demo_client (Pkt_C_LOGIN (C_LOGIN_set_pssd p (C_LOGIN_set_id i C_LOGIN_new)))"
  "length i < 128 \<Longrightarrow> length p < 128 \<Longrightarrow> sendable demo_client (Pkt_C_REGISTER (C_REGISTER_set_pssd p (C_REGISTER_set_id i C_REGISTER_new)))"
  by (simp_all add: sendable_size C_LOGIN_ByteSizeLong_def C_LOGIN_set_defs C_LOGIN_new_def
      C_REGISTER_ByteSizeLong_def C_REGISTER_set_defs C_REGISTER_new_def Let_def StringSize_small)

text \<open>C8: Once it is connected, whatever the user types and presses on the pages that are shown, whatever the server
  answers and whenever, and however these interleave with the messages the dialog takes, no assertion
  of the client fails and it reads nothing that is not there. The texts must fit into a packet; a message
  box counts as closed before the next message is taken.\<close>

theorem client_never_crashes:
  assumes "pb_ok (ce_lib e)" "possible_run e evs (client_ready s)"
  shows "\<exists>c. client_runs e evs (client_ready s) = Inr c"
  using client_runs_inv [OF assms(1) client_ready_inv assms(2)] by blast

definition demo_clicks :: "client_event list" where
  "demo_clicks = [Type_Login [97] [98], Press_Login, Message, Packet (Pkt_S_LOGIN (S_LOGIN_set_issuccess True S_LOGIN_new)), Message, Message]"

lemma demo_clicks_possible: "possible_run demo_client demo_clicks (client_ready demo_session)"
  using demo_sendable(1) [of "[97]" "[98]"]
  by (simp add: demo_clicks_def client_ready_def Mapping_def ServerSession_OnConnected_def client_start_def client_ops
      OnBnClickedLogin_def login_button_def CPageLogin_UpdateData_def Let_def PostMessageW_def OnUIEvent_def event_map_def
      Login_OnClickedLogin_def request_ok CT2A_def c_str_def Handle_S_LOGIN_def Execute_auth_def run_callback_def
      Login_OnLoginCompleted_def LockQueue_Front_def LockQueue_PopOut_def LockQueue_Push_def LockQueue_new_def S_LOGIN_set_defs S_LOGIN_new_def
      split: sum.split)

theorem client_never_crashes_witness:
  "\<exists>c. client_runs demo_client demo_clicks (client_ready demo_session) = Inr c"
  using client_never_crashes [OF _ demo_clicks_possible] plain_lib_ok by simp

section \<open>Packets from the server\<close>

definition server_ids :: "u16 list" where
  "server_ids = [PKT_S_LOGIN, PKT_S_REGISTER, PKT_S_REFRESH_LOBBY, PKT_S_CREATE_ROOM, PKT_S_JOIN_ROOM, PKT_S_REFRESH_ROOM,
     PKT_S_CHAT_LOG, PKT_S_ROOM_OUT]"

definition client_handler :: "client_env \<Rightarrow> client_app packet_fun" where
  "client_handler e = ServerSession_OnRecvPacket e (ServerPacketHandler_Init Map.empty)"

lemma client_Init_entry:
  "ServerPacketHandler_Init Map.empty (unat i) =
     (if i \<in> set server_ids then Some (Client_Handle i) else if i = 0 then Some Client_INVALD else None)"
proof -
  have "(0::nat) < 65535" by simp
  note zero = fold_zero [OF this]
  have "ServerPacketHandler_Init Map.empty = fold (\<lambda>k g. g(unat k \<mapsto> Client_Handle k)) server_ids [0 \<mapsto> Client_INVALD]"
    unfolding ServerPacketHandler_Init_def server_ids_def zero fold_simps ..
  then show ?thesis by (simp add: fold_table unat_eq_zero)
qed

lemma client_handle_same: "packet_same p q \<Longrightarrow> client_handle e p = client_handle e q"
  by (cases p; cases q)
    (auto simp: Handle_S_LOGIN_def Handle_S_REGISTER_def Handle_S_CREATE_ROOM_def Handle_S_JOIN_ROOM_def Handle_S_REFRESH_ROOM_def
      Handle_S_CHAT_LOG_def Handle_S_ROOM_OUT_def Handle_S_REFRESH_LOBBY_def fun_eq_iff)

definition client_unknown_id :: "u16 \<Rightarrow> client_app \<Rightarrow> client_app res" where
  "client_unknown_id k c = (if k = 0 then Inr c else if k = 65535 then Inl OutOfBounds else Inl BadCall)"

interpretation cl: packet_table "ce_ParseFromArray e" server_ids "client_handle e" client_unknown_id "client_handler e" for e
proof
  fix buffer len c
  let ?k = "ph_id (PacketHeader_at buffer)"
  have "unat ?k < 65536" using unsigned_less [of ?k] by simp
  then have top: "65535 \<le> unat ?k \<longleftrightarrow> ?k = 65535" by (auto simp: word_unat_eq_iff)
  have known: "?k \<in> set server_ids \<Longrightarrow> ?k \<noteq> 65535" by (auto simp: server_ids_def PKT_defs)
  have "bindR (bindR r (\<lambda>w'. Inr (True, w'))) (\<lambda>(_, w'). Inr w') = r" for r :: "client_app res"
    by (cases r) simp_all
  then show "client_handler e buffer len c =
     (let k = ?k in
      if k \<notin> set server_ids then client_unknown_id k c
      else if len < 4 then Inl OutOfBounds
      else case ce_ParseFromArray e k (bslice 4 (nat (len - 4)) buffer) of None \<Rightarrow> Inr c | Some pkt \<Rightarrow> client_handle e pkt c)"
    unfolding client_handler_def ServerSession_OnRecvPacket_def ServerPacketHandler_HandlePacket_def Let_def client_unknown_id_def
      client_Init_entry top client_HandlePacket_as_def
    using known by (auto split: option.split)
qed

lemma client_handler_wires:
  assumes "pb_ok (en_lib s)" "ce_ParseFromArray e = packet_parse valid"
    and "\<forall>p \<in> set ps. packet_ok valid p \<and> packet_id p \<in> set server_ids"
  shows "handle_all (client_handler e) (map (wire_packet s) ps) c = run_all (client_handle e) ps c"
proof -
  obtain qs where qs: "list_all2 packet_same ps qs" "handle_all (client_handler e) (map (wire_packet s) ps) c = run_all (client_handle e) qs c"
    using cl.dispatch_packets [OF assms] by (auto simp: wire_packet_fun)
  have "list_all2 (\<lambda>p q. client_handle e p = client_handle e q) ps qs"
    using qs(1) by (rule list_all2_mono) (rule client_handle_same)
  then show ?thesis using qs(2) run_all_cong by metis
qed

text \<open>C9: What the server sends is what the client handles. When a chunk of received bytes holds packets
  that the server serialised and perhaps the beginning of another one, the client runs the handlers of exactly these
  packets, in order and on their original contents, and reports their bytes as consumed.\<close>

theorem client_reads_server:
  assumes "pb_ok (en_lib s)" "ce_ParseFromArray e = packet_parse valid"
    and "\<forall>p \<in> set ps. packet_ok valid p \<and> packet_id p \<in> set server_ids \<and> fits s p"
    and "incomplete rest"
  shows "PacketSession_OnRecv (client_handler e) (concat (map (wire_packet s) ps) @ rest @ junk)
      (int (length (concat (map (wire_packet s) ps) @ rest))) c
    = Some (bindR (run_all (client_handle e) ps c) (\<lambda>c'. Inr (int (length (concat (map (wire_packet s) ps))), c')))"
proof -
  have "\<forall>b \<in> set (map (wire_packet s) ps). wf_packet b"
    using assms(3) by (auto simp: wire_packet_def fits_def intro!: wf_packet_bytes)
  from OnRecv_loop_packets [OF cl.dispatch_local assms(4) this, of e "[]" junk c]
  show ?thesis using client_handler_wires [OF assms(1,2)] assms(3) by (simp add: PacketSession_OnRecv_def)
qed

definition demo_said :: S_CHAT_LOG where
  "demo_said = S_CHAT_LOG_set_log [72, 105] (S_CHAT_LOG_set_id [97] S_CHAT_LOG_new)"

lemma demo_said_ok: "packet_ok (\<lambda>_. True) (Pkt_S_CHAT_LOG demo_said)" "fits demo_env (Pkt_S_CHAT_LOG demo_said)"
proof -
  show "packet_ok (\<lambda>_. True) (Pkt_S_CHAT_LOG demo_said)"
    by (simp add: demo_said_def S_CHAT_LOG_wf_ops) (simp add: S_CHAT_LOG_set_defs S_CHAT_LOG_new_def)
  show "fits demo_env (Pkt_S_CHAT_LOG demo_said)"
    by (simp add: demo_said_def fits_size S_CHAT_LOG_ByteSizeLong_def S_CHAT_LOG_set_defs S_CHAT_LOG_new_def Let_def StringSize_small)
qed

theorem client_reads_server_witness:
  "PacketSession_OnRecv (client_handler demo_client) (wire_packet demo_env (Pkt_S_CHAT_LOG demo_said) @ [9] @ [])
      (int (length (wire_packet demo_env (Pkt_S_CHAT_LOG demo_said) @ [9]))) (client_ready demo_session)
    = Some (Inr (int (length (wire_packet demo_env (Pkt_S_CHAT_LOG demo_said))),
        Execute_chat \<lparr>cl_id = [97], cl_log = [72, 105]\<rparr> (client_ready demo_session)))"
proof -
  have "pb_ok (en_lib demo_env)" "incomplete [9]" by (simp_all add: plain_lib_ok incomplete_def)
  moreover have "\<forall>p \<in> set [Pkt_S_CHAT_LOG demo_said]. packet_ok (\<lambda>_. True) p \<and> packet_id p \<in> set server_ids \<and> fits demo_env p"
    using demo_said_ok by (simp add: server_ids_def)
  moreover have "run_all (client_handle demo_client) [Pkt_S_CHAT_LOG demo_said] c = Inr (Execute_chat \<lparr>cl_id = [97], cl_log = [72, 105]\<rparr> c)" for c
    by (simp add: demo_said_def Handle_S_CHAT_LOG_def CA2W_def c_str_def S_CHAT_LOG_set_defs S_CHAT_LOG_new_def)
  ultimately show ?thesis
    using client_reads_server [of demo_env demo_client "\<lambda>_. True" "[Pkt_S_CHAT_LOG demo_said]" "[9]" "[]" "client_ready demo_session"]
    by (simp del: run_all.simps)
qed

section \<open>Chat lines\<close>

fun chat_traffic :: "client_event \<Rightarrow> bool" where
  "chat_traffic (Packet (Pkt_S_CHAT_LOG m)) \<longleftrightarrow> True"
| "chat_traffic Message \<longleftrightarrow> True"
| "chat_traffic _ \<longleftrightarrow> False"

fun said_lines :: "client_env \<Rightarrow> client_event list \<Rightarrow> wstr list" where
  "said_lines e [] = []"
| "said_lines e (Packet (Pkt_S_CHAT_LOG m) # evs) = (CA2W e (S_CHAT_LOG_id m) @ [32, 58, 32] @ CA2W e (S_CHAT_LOG_log m)) # said_lines e evs"
| "said_lines e (_ # evs) = said_lines e evs"

definition chat_waits :: "client_app \<Rightarrow> bool" where
  "chat_waits c \<longleftrightarrow> cb_chat c = Some SendChatCompleted_Room \<and>
     ca_posted c = replicate (length (lq_items (ca_chat c))) SendChatCompleted_Room"

lemma chat_packet:
  assumes "chat_waits c"
  obtains c' where "client_run e (Packet (Pkt_S_CHAT_LOG m)) c = Inr c'" "chat_waits c'" "ca_roomPg c' = ca_roomPg c"
    "lq_items (ca_chat c') = lq_items (ca_chat c) @ [\<lparr>cl_id = CA2W e (S_CHAT_LOG_id m), cl_log = CA2W e (S_CHAT_LOG_log m)\<rparr>]"
  using assms by (auto simp: Handle_S_CHAT_LOG_def Execute_chat_def run_callback_def PostMessageW_def chat_waits_def LockQueue_Push_def
      replicate_append_same)

lemma chat_message:
  assumes "chat_waits c"
  obtains c' where "client_run e Message c = Inr c'" "chat_waits c'"
    "pr_chatLog (ca_roomPg c') @ map chat_line (lq_items (ca_chat c')) = pr_chatLog (ca_roomPg c) @ map chat_line (lq_items (ca_chat c))"
  using assms
  by (cases "lq_items (ca_chat c)")
    (auto simp: chat_waits_def OnUIEvent_def event_map_def Room_OnSendChatCompleted_def LockQueue_PopOut_def upd_roomPg_def
      CPageRoom_AddCharLine_def)

lemma chat_run:
  assumes "chat_waits c" "list_all chat_traffic evs"
  shows "\<exists>c'. client_runs e evs c = Inr c' \<and> chat_waits c' \<and>
    pr_chatLog (ca_roomPg c') @ map chat_line (lq_items (ca_chat c')) =
      pr_chatLog (ca_roomPg c) @ map chat_line (lq_items (ca_chat c)) @ said_lines e evs"
  using assms
proof (induction evs arbitrary: c)
  case (Cons ev evs)
  from Cons.prems(2) consider m where "ev = Packet (Pkt_S_CHAT_LOG m)" | "ev = Message" by (cases ev rule: chat_traffic.cases) simp_all
  then show ?case
  proof cases
    case (1 m)
    obtain c1 where "client_run e ev c = Inr c1" "chat_waits c1" "ca_roomPg c1 = ca_roomPg c"
      "lq_items (ca_chat c1) = lq_items (ca_chat c) @ [\<lparr>cl_id = CA2W e (S_CHAT_LOG_id m), cl_log = CA2W e (S_CHAT_LOG_log m)\<rparr>]"
      using chat_packet [OF Cons.prems(1)] 1 by metis
    then show ?thesis using Cons.IH [of c1] Cons.prems(2) 1 by (auto simp: chat_line_def)
  next
    case 2
    obtain c1 where "client_run e ev c = Inr c1" "chat_waits c1"
      "pr_chatLog (ca_roomPg c1) @ map chat_line (lq_items (ca_chat c1)) = pr_chatLog (ca_roomPg c) @ map chat_line (lq_items (ca_chat c))"
      using chat_message [OF Cons.prems(1)] 2 by metis
    then show ?thesis using Cons.IH [of c1] Cons.prems(2) 2 by (auto simp flip: append_assoc)
  qed
qed simp

text \<open>C16: While chat packets arrive and the dialog takes messages, in any interleaving, the room page shows the lines
  in the order of arrival: the lines on the page, followed by those still waiting, are the old lines
  followed by the lines received. A message is posted for every waiting line, so that none is forgotten, and taking them never fails.\<close>

theorem chat_in_order:
  assumes "cb_chat c = Some SendChatCompleted_Room" "ca_posted c = []" "lq_items (ca_chat c) = []"
    and "list_all chat_traffic evs"
  shows "\<exists>c'. client_runs e evs c = Inr c' \<and>
    pr_chatLog (ca_roomPg c') @ map chat_line (lq_items (ca_chat c')) = pr_chatLog (ca_roomPg c) @ said_lines e evs \<and>
    ca_posted c' = replicate (length (lq_items (ca_chat c'))) SendChatCompleted_Room"
  using chat_run [of c evs e] assms by (auto simp: chat_waits_def)

theorem chat_in_order_witness:
  "\<exists>c'. client_runs demo_client [Packet (Pkt_S_CHAT_LOG demo_said), Message] (client_ready demo_session) = Inr c' \<and>
    pr_chatLog (ca_roomPg c') @ map chat_line (lq_items (ca_chat c')) = [[97, 32, 58, 32, 72, 105]] \<and>
    ca_posted c' = replicate (length (lq_items (ca_chat c'))) SendChatCompleted_Room"
proof -
  let ?c = "client_ready demo_session"
  have "cb_chat ?c = Some SendChatCompleted_Room" "ca_posted ?c = []" "lq_items (ca_chat ?c) = []" and log: "pr_chatLog (ca_roomPg ?c) = []"
    by (simp_all add: client_ready_def Mapping_def ServerSession_OnConnected_def client_start_def client_ops LockQueue_new_def)
  note order = chat_in_order [OF this(1-3), of "[Packet (Pkt_S_CHAT_LOG demo_said), Message]" demo_client]
  have "said_lines demo_client [Packet (Pkt_S_CHAT_LOG demo_said), Message] = [[97, 32, 58, 32, 72, 105]]"
    by (simp add: demo_said_def CA2W_def c_str_def S_CHAT_LOG_set_defs S_CHAT_LOG_new_def)
  then show ?thesis using order by (simp del: client_runs.simps said_lines.simps add: log)
qed

section \<open>Two questions, one callback\<close>

text \<open>C36: Login and registration share one callback and one queue of answers. When the user presses Register and then Login
  before the registration is answered, a successful answer to the registration is taken for one to the login: the login page
  disappears and the lobby is shown, under the registered name, though no login has been answered.\<close>

theorem register_taken_for_login:
  assumes "pb_ok (ce_lib e)" "pl_visible (ca_login c)" "ca_posted c = []" "lq_items (ca_auth c) = []" "ca_session c = Some s"
    and "pl_editId (ca_login c) = i" "pl_editPw (ca_login c) = p" "i \<noteq> []" "p \<noteq> []"
    and "sendable e (Pkt_C_REGISTER (C_REGISTER_set_pssd (CT2A e p) (C_REGISTER_set_id (CT2A e i) C_REGISTER_new)))"
    and "sendable e (Pkt_C_LOGIN (C_LOGIN_set_pssd (CT2A e p) (C_LOGIN_set_id (CT2A e i) C_LOGIN_new)))"
    and "S_REGISTER_issuccess m"
  shows "\<exists>c'. client_runs e [Press_Register, Message, Press_Login, Message, Packet (Pkt_S_REGISTER m), Message, Message] c = Inr c' \<and>
    \<not> pl_visible (ca_login c') \<and> pb_visible (ca_lobbyPg c') \<and> pb_me (ca_lobbyPg c') = CA2W e (S_REGISTER_id m)"
  using assms refresh_sendable [OF assms(1)]
  by (simp add: OnBnClickedLogin_def OnBnClickedLegister_def login_button_def CPageLogin_UpdateData_def Let_def PostMessageW_def
      OnUIEvent_def event_map_def Login_OnClickedLogin_def Login_OnClickedRegister_def request_ok Handle_S_REGISTER_def Execute_auth_def run_callback_def
      Login_OnLoginCompleted_def LockQueue_Front_def LockQueue_PopOut_def LockQueue_Push_def ShowLogin_def
      Lobby_OnLoginCompleted_def refresh_request_def client_ops)

theorem register_taken_for_login_witness:
  "\<exists>c'. client_runs demo_client [Press_Register, Message, Press_Login, Message,
        Packet (Pkt_S_REGISTER (S_REGISTER_set_issuccess True S_REGISTER_new)), Message, Message]
      ((client_ready demo_session)\<lparr>ca_login := \<lparr>pl_visible = True, pl_editId = [97], pl_editPw = [98], pl_id = [], pl_pw = []\<rparr>\<rparr>) = Inr c' \<and>
    \<not> pl_visible (ca_login c') \<and> pb_visible (ca_lobbyPg c') \<and> pb_me (ca_lobbyPg c') = []"
proof -
  let ?c = "(client_ready demo_session)\<lparr>ca_login := \<lparr>pl_visible = True, pl_editId = [97], pl_editPw = [98], pl_id = [], pl_pw = []\<rparr>\<rparr>"
  let ?m = "S_REGISTER_set_issuccess True S_REGISTER_new"
  have "pl_visible (ca_login ?c)" "ca_posted ?c = []" "lq_items (ca_auth ?c) = []" "ca_session ?c = Some demo_session"
    "pl_editId (ca_login ?c) = [97]" "pl_editPw (ca_login ?c) = [98]"
    by (simp_all add: client_ready_def Mapping_def ServerSession_OnConnected_def client_start_def client_ops LockQueue_new_def)
  note run = register_taken_for_login [OF _ this]
  have "CT2A demo_client [97] = [97]" "CT2A demo_client [98] = [98]" "S_REGISTER_issuccess ?m" "CA2W demo_client (S_REGISTER_id ?m) = []"
    by (simp_all add: CT2A_def CA2W_def c_str_def S_REGISTER_set_defs S_REGISTER_new_def)
  then show ?thesis using run [of demo_client ?m] demo_sendable [of "[97]" "[98]"] plain_lib_ok
    by (simp del: client_runs.simps)
qed

section \<open>Starting the client\<close>

text \<open>
  \<open>CClientApp::InitInstance\<close> up to the user interface: \<open>iocpHandle\<close> is the completion port the operating system answers
  with, \<open>calls\<close> the calls made so far. The service has one session.
\<close>

definition CClientApp_InitInstance ::
  "winsock_api \<Rightarrow> byte list winsock \<Rightarrow> u64 \<Rightarrow> os_call list \<Rightarrow>
     (core_global \<times> (nat \<rightharpoonup> client_packet_handler) \<times> (byte list, client_app) net) res" where
  "CClientApp_InitInstance api ws iocpHandle calls =
     bindR (CoreGlobal_new api calls) (\<lambda>g.
     let handlers = ServerPacketHandler_Init Map.empty in
     bindR (IocpCore_new iocpHandle) (\<lambda>_.
     bindR (ClientService_Start api ws ((net_new (world_new (ClientService_new True 1) client_start))\<lparr>nt_calls := cg_calls g\<rparr>)) (\<lambda>(started, n).
     ASSERT_CRASH started
       (Inr (g\<lparr>cg_GThreadManager := launch_workers 2 (cg_GThreadManager g), cg_calls := nt_calls n\<rparr>, handlers, n)))))"

lemma make_session_new:
  assumes "make_session api n = (Some i, n')"
  shows "i = w_next (nt_world n)" "w_sessions (nt_world n') = (w_sessions (nt_world n))(i \<mapsto> Session_new)"
    "w_service (nt_world n') = w_service (nt_world n)" "w_content (nt_world n') = w_content (nt_world n)"
  using assms by (auto simp: make_session_def CreateSession_def Let_def split: prod.splits if_splits)

lemma Session_Connect_new:
  assumes "Session_Connect api ws i n = Inr (True, n')" "w_sessions (nt_world n) i = Some s"
  shows "\<exists>s'. w_sessions (nt_world n') = (w_sessions (nt_world n))(i \<mapsto> s') \<and> se_connected s' = se_connected s \<and> se_connectOwner s'"
    "w_content (nt_world n') = w_content (nt_world n)" "w_service (nt_world n') = w_service (nt_world n)"
  using assms
  by (auto simp: Session_Connect_def RegisterConnect_def count_call_def Let_def split: prod.splits if_splits option.splits)

lemma client_start_session:
  assumes "ClientService_Start api ws n = Inr (True, n')" "w_service (nt_world n) = ClientService_new True 1"
    and "w_sessions (nt_world n) = Map.empty" "w_next (nt_world n) = 0"
  shows "w_content (nt_world n') = w_content (nt_world n)" "\<exists>s. w_sessions (nt_world n') = [0 \<mapsto> s] \<and> \<not> se_connected s \<and> se_connectOwner s"
proof -
  have "connect_loop api ws (Suc 0) n = Inr (True, n')"
    using assms(1,2) by (simp add: ClientService_Start_def ClientService_new_def Service_new_def CanStart_def)
  then obtain i n1 where n1: "make_session api n = (Some i, n1)" and con: "Session_Connect api ws i n1 = Inr (True, n')"
    by (auto simp: bindR_Inr_iff split: prod.splits option.splits if_splits)
  note m = make_session_new [OF n1]
  have "w_sessions (nt_world n1) i = Some Session_new" using m(2) by simp
  from Session_Connect_new [OF con this] m assms(3,4)
  show "w_content (nt_world n') = w_content (nt_world n)" "\<exists>s. w_sessions (nt_world n') = [0 \<mapsto> s] \<and> \<not> se_connected s \<and> se_connectOwner s"
    by (auto simp: Session_new_def)
qed

text \<open>C31: When the client has started, it has two worker threads and one session, which waits for its connection; no server
  session is known to the pages yet.\<close>

theorem client_starts_unconnected:
  assumes "CClientApp_InitInstance api ws iocpHandle calls = Inr (g, handlers, n)"
  shows "tm_threads (cg_GThreadManager g) = [Ready, Ready] \<and> ca_session (w_content (nt_world n)) = None \<and>
    (\<exists>s. w_sessions (nt_world n) = [0 \<mapsto> s] \<and> \<not> se_connected s \<and> se_connectOwner s)"
proof -
  let ?n0 = "\<lambda>g0. (net_new (world_new (ClientService_new True 1) client_start))\<lparr>nt_calls := cg_calls g0\<rparr>"
  obtain g0 where g0: "CoreGlobal_new api calls = Inr g0" "ClientService_Start api ws (?n0 g0) = Inr (True, n)"
    and g: "g = g0\<lparr>cg_GThreadManager := launch_workers 2 (cg_GThreadManager g0), cg_calls := nt_calls n\<rparr>"
    using assms by (auto simp: CClientApp_InitInstance_def bindR_Inr_iff ASSERT_CRASH_Inr_iff Let_def)
  have "cg_GThreadManager g0 = ThreadManager_new" using g0(1) by (auto simp: CoreGlobal_new_def bindR_Inr_iff)
  then have "tm_threads (cg_GThreadManager g) = [Ready, Ready]"
    by (simp add: g numeral_2_eq_2 Launch_def ThreadManager_new_def Let_def split: prod.split)
  moreover have "ca_session client_start = None" by (simp add: client_start_def)
  ultimately show ?thesis
    using client_start_session [OF g0(2)] by (simp add: net_new_def world_new_def)
qed

theorem client_starts_unconnected_witness:
  "\<exists>g handlers n. CClientApp_InitInstance calm_api quiet_winsock 1 [] = Inr (g, handlers, n) \<and>
    tm_threads (cg_GThreadManager g) = [Ready, Ready] \<and> ca_session (w_content (nt_world n)) = None"
proof -
  obtain g handlers n where run: "CClientApp_InitInstance calm_api quiet_winsock 1 [] = Inr (g, handlers, n)"
    by (simp add: CClientApp_InitInstance_def CoreGlobal_new_def SocketUtils_Init_def os_try_def calm_api_def CreateSocket_def
        BindWindowsFunction_def SocketUtils_Close_def IocpCore_new_def INVALID_HANDLE_VALUE_def ClientService_Start_def
        ClientService_new_def Service_new_def CanStart_def net_new_def world_new_def make_session_def IocpCore_Register_def
        CreateSession_def Session_Connect_def SetReuseAddress_def SetSockOpt_def BindAnyAddress_def RegisterConnect_def Session_new_def
        count_call_def quiet_winsock_def Let_def One_nat_def)
  from client_starts_unconnected [OF run] run show ?thesis by blast
qed

text \<open>C37: Until the connection is made, and forever when there is no server, the client has no session to send on: pressing
  Login or Register with a filled form dereferences a null pointer.\<close>

theorem unconnected_login_crashes:
  assumes "i \<noteq> []" "p \<noteq> []"
    and "sendable e (Pkt_C_LOGIN (C_LOGIN_set_pssd (CT2A e p) (C_LOGIN_set_id (CT2A e i) C_LOGIN_new)))"
    and "sendable e (Pkt_C_REGISTER (C_REGISTER_set_pssd (CT2A e p) (C_REGISTER_set_id (CT2A e i) C_REGISTER_new)))"
  shows "client_runs e [Type_Login i p, Press_Login, Message] (Mapping client_start) = Inl NullDeref \<and>
    client_runs e [Type_Login i p, Press_Register, Message] (Mapping client_start) = Inl NullDeref"
  using assms
  by (simp add: Mapping_def client_start_def client_ops OnBnClickedLogin_def OnBnClickedLegister_def login_button_def CPageLogin_UpdateData_def
      Let_def PostMessageW_def OnUIEvent_def event_map_def Login_OnClickedLogin_def Login_OnClickedRegister_def request_def MakePacket_def
      sendable_def)

theorem unconnected_login_crashes_witness:
  "client_runs demo_client [Type_Login [97] [98], Press_Login, Message] (Mapping client_start) = Inl NullDeref \<and>
   client_runs demo_client [Type_Login [97] [98], Press_Register, Message] (Mapping client_start) = Inl NullDeref"
proof -
  have "CT2A demo_client [97] = [97]" "CT2A demo_client [98] = [98]" by (simp_all add: CT2A_def c_str_def)
  then show ?thesis
    using unconnected_login_crashes [of "[97]" "[98]" demo_client] demo_sendable [of "[97]" "[98]"] by (simp del: client_runs.simps)
qed

end
