(* ===== verification/Spec2Isabelle.thy ===== *)
theory Spec2Isabelle
  imports RWLock DBModel Threads Session_Manager Room_Race Generator Chat_System
begin

text \<open>
  \<^bold>\<open>ChattingProgram: the networking core, the chat server and the chat client.\<close>

  The program is a chat service for Windows in three parts. \<open>ServerCore\<close> is a networking library over I/O
  completion ports: sessions with receive and send buffers, a listener, a service that owns the sessions, job queues,
  a reader-writer lock, a thread manager and a database layer over ODBC. \<open>Server\<close> is the chat server: it decodes
  the packets of its clients, runs a response for each on the tables \<open>account\<close>, \<open>room\<close> and \<open>log\<close>, and keeps the
  rooms in memory. \<open>Client\<close> is a dialog application with a login, a lobby and a room page. The messages are
  protocol buffers, each in a packet with a four-byte header.

  \<^bold>\<open>Conventions.\<close> An operation is a function on explicit state. What the code does not survive is a value
  of the type \<open>fault\<close> of \<open>Prelude\<close>: a failed \<open>ASSERT_CRASH\<close> or \<open>CRASH\<close>, a null pointer, an empty \<open>std::function\<close>, an
  access outside an array, an overlapping \<open>memcpy\<close>, a function that ends without \<open>return\<close>, a loop that never
  ends. Loops without a bound of their own are \<open>partial_function (option)\<close>, where \<open>None\<close> is a run that does not
  return: the packet loop, fetching rows, \<open>HandleError\<close>, \<open>RegisterAccept\<close> and the job loops. No definition uses fuel: where a loop returns,
  this is proved. Fixed-width integers are words where they may wrap (header fields, presence bits, field values, sizes on the wire) and
  integers elsewhere.
  Code outside the repository is a parameter with stated laws: the protobuf library (\<open>pb_lib\<close>, laws \<open>pb_ok\<close>), Winsock
  (\<open>winsock\<close>, \<open>winsock_api\<close>), ODBC with the database behind it (\<open>odbc\<close>, laws \<open>odbc_ok\<close>), character conversion and
  the clock. \<open>demo_env\<close>, \<open>demo_client\<close> and \<open>plain_lib\<close> are concrete instances, on which the theorems are tried out.

  \<^bold>\<open>Foundations.\<close>
  \<^item> \<open>Prelude\<close>: integers, results, slices and overwrites of byte arrays, the 16-bit encoding.
  \<^item> \<open>Interfaces\<close>: the contracts between components as locales, interpreted by their providers: the receive buffer
    as a byte stream, the locked queue as a first-in first-out queue.
  \<^item> \<open>Dispatch\<close>: the contract of a packet table, interpreted for the server and for the client.

  \<^bold>\<open>Networking core\<close> (\<open>src/ServerCore\<close>).
  \<^item> \<open>RecvBuffer\<close> (\<open>RecvBuffer.cpp\<close>): the positions stay in the array; it implements a byte queue; \<open>Clean\<close> never copies
    overlapping ranges.
  \<^item> \<open>Framing\<close> (\<open>PacketSession::OnRecv\<close>): which packets are delivered, and exactly when the loop returns.
  \<^item> \<open>SendBuffer\<close> (\<open>SendBuffer.cpp\<close>, \<open>MakeSendBuffer\<close>): chunks of 6000 bytes, the pool and the references; a buffer
    keeps the bytes of its packet as long as it lives.
  \<^item> \<open>Session\<close> (\<open>Session.cpp\<close>): sending, as steps of several threads: buffers leave in the order in which they were queued, and
    none is stranded.
  \<^item> \<open>Service\<close> (\<open>Service.cpp\<close>, the completion handlers): reassembly of the byte stream, and the session count.
  \<^item> \<open>Sockets\<close>, \<open>Listener\<close>, \<open>Threads\<close> (\<open>SocketUtils.cpp\<close>, \<open>NetAddress.cpp\<close>, \<open>Listener.cpp\<close>, \<open>IocpCore.cpp\<close>,
    \<open>ThreadManager.cpp\<close>, \<open>CoreGlobal.cpp\<close>): starting, accepting, the worker loop, thread numbers, shutting down.
  \<^item> \<open>RWLock\<close> (\<open>Lock.cpp\<close>): one step per atomic access; guards exclude each other.
  \<^item> \<open>LockQueue\<close>, \<open>JobQueue\<close> (\<open>LockQueue.h\<close>, \<open>Job.h\<close>, \<open>JobQueue.cpp\<close>): a response runs exactly once; under interleaving one
    thread executes a queue and the jobs run in order.
  \<^item> \<open>Database\<close>, \<open>DBModel\<close> (\<open>DBConnection.cpp\<close>, \<open>DBBind.h\<close>, \<open>DBConnectionPool.cpp\<close>, \<open>DBModel.cpp\<close>): bindings, fetching, the
    pool, the texts of schema descriptions.

  \<^bold>\<open>Messages\<close> (\<open>src/Server/Protocol.pb.cc\<close>, which the client shares, and the inline functions of
  \<open>src/Include/google/protobuf\<close>). \<open>Wire\<close> has the writers, sizes and a reference decoder; \<open>Messages_C\<close> and \<open>Messages_S\<close> the
  fifteen messages; \<open>Protocol\<close> their packet ids, the round trip and the size theorem for all of them. \<open>Generator\<close>
  (\<open>src/Tools/PacketGenerator/ProtoParser.py\<close>) is the program that numbers the messages: the headers of server and client agree.

  \<^bold>\<open>Server\<close> (\<open>src/Server\<close>).
  \<^item> \<open>Schema\<close>: the tables and the statements, with their texts as in the source and their meaning.
  \<^item> \<open>Rooms\<close>, \<open>Respond\<close>: the state, rooms and registry, the callbacks of a session, the seven responses, the packet table.
  \<^item> \<open>Server_Inv\<close>, \<open>Server_Rooms\<close>, \<open>Server_Leave\<close>, \<open>Server_Main\<close>, \<open>Server_Sends\<close>: the invariant between memory and tables, what each
    operation does to it, the start of \<open>main\<close>, what is sent.
  \<^item> \<open>Server_Theorems\<close>: for well-behaved clients the server never faults, rooms and tables agree, an account is logged in once, a chat message
    reaches exactly its room; and a packet that crashes it.
  \<^item> \<open>Server_Stream\<close>: from arbitrary fragments of bytes to responses.
  \<^item> \<open>Session_Manager\<close>: the locked set of sessions (\<open>ClientSessionManager.cpp\<close>).
  \<^item> \<open>Room_Race\<close>: joining and leaving a room interleaved.

  \<^bold>\<open>Client\<close> (\<open>src/Client\<close>).
  \<^item> \<open>Client_State\<close>: the response queues, the callbacks (a callback is the event it posts), the pages and their buttons.
  \<^item> \<open>Client_Handlers\<close>: the handlers of events and of server packets, the event table and the packet table.
  \<^item> \<open>Client_Theorems\<close>, \<open>Chat_System\<close>: the invariant of the client under every interleaving of user, network and messages; once
    connected it does not crash; it reads what the server writes; chat lines appear in order; how it starts, what happens before
    it is connected, and a registration taken for a login.

  \<^bold>\<open>Bounds.\<close> A packet has at most 6000 bytes, the size of a send-buffer chunk; larger ones fail the assertion of
  \<open>SendBufferManager::Open\<close>, which is why the theorems about server and client ask that packets fit. A receive delivers
  at most 65536 bytes into a buffer of ten times that size. Strings of messages are shorter than 4 GiB, as the wire format needs.
  Counters that the code holds in \<open>int32_t\<close> or \<open>atomic<int>\<close> and that count sessions, users, threads or jobs are integers:
  they would have to pass 2147483647 to wrap.

  \<^bold>\<open>Not modelled.\<close>
  \<^item> The library part of protobuf and Abseil (\<open>src/Include\<close>, apart from the inline writers and sizes): its source is not in the
    repository beyond headers. Descriptors, reflection, arenas and the fast-path tables of the generated parser; the
    reference decoder of \<open>Wire\<close> stands for \<open>ParseFromArray\<close>.
  \<^item> MFC: the application object beyond the start of the networking (\<open>Client.cpp\<close>), window placement, list columns, the destructor of the main dialog. A message box
    counts as closed before the dialog takes its next message; the nested message loop is not modelled.
  \<^item> \<open>DBSynchronizer\<close> (commented out as a whole), \<open>AuthModel.h\<close> and \<open>AuthService.h\<close> of the client (unused), the rendering of the packet template by jinja2, the branches for
    \<open>MULTIPLE_CONNECT_TEST_MODE\<close>, the debug build of the lock, console output.
  \<^item> Responses are atomic with respect to each other in the theorems about the server, except in \<open>Room_Race\<close>; the
    interleaving inside sessions, job queues and the lock is modelled in their theories.
\<close>

end
